(* ===== verification/Prelude.thy ===== *)
theory Prelude imports Main "HOL-Library.Word" begin

text \<open>
  Shared material of the development: the C integer types as machine words, the
  byte-order macros of the XLink protocol sources (\<^verbatim>\<open>UTIL_INT32_SET\<close>,
  \<^verbatim>\<open>UTIL_INT32_GET_BIT3\<close> and their companions), the memory primitives the C code calls
  (\<^verbatim>\<open>memcpy\<close> and \<^verbatim>\<open>memset\<close> on a byte array), the error type for the ways in which
  C code can leave its defined behaviour, and the generic list and word lemmas the
  component theories rely on.
\<close>

unbundle bit_operations_syntax

named_theorems frame_simps "fields an operation leaves alone"
named_theorems byte_order "byte order macros in arithmetic form"

section \<open>Types\<close>

type_synonym byte = "8 word"
type_synonym u16 = "16 word"
type_synonym u32 = "32 word"
type_synonym u64 = "64 word"
type_synonym bytes = "byte list"

text \<open>
  Undefined behaviour the C code can reach, and the abort of a failed \<^verbatim>\<open>assert\<close>. An operation
  that can reach one returns a sum: \<open>Inl\<close> the fault, \<open>Inr\<close> the result.
\<close>

datatype c_fault =
  Null_Deref | Out_Of_Bounds | Use_After_Free | Assertion_Failed | Bad_Format

type_synonym 'a c_result = "c_fault + 'a"

definition c_bind :: "'a c_result \<Rightarrow> ('a \<Rightarrow> 'b c_result) \<Rightarrow> 'b c_result" where
  "c_bind m f = (case m of Inl e \<Rightarrow> Inl e | Inr x \<Rightarrow> f x)"

lemma c_bind_simps [simp]:
  "c_bind (Inl e) f = Inl e"
  "c_bind (Inr x) f = f x"
  by (simp_all add: c_bind_def)

lemma c_bind_eq_Inr [simp]:
  "c_bind m f = Inr y \<longleftrightarrow> (\<exists>x. m = Inr x \<and> f x = Inr y)"
  by (cases m) auto

lemma c_bind_cong [fundef_cong]:
  "m = m' \<Longrightarrow> (\<And>x. m' = Inr x \<Longrightarrow> f x = f' x) \<Longrightarrow> c_bind m f = c_bind m' f'"
  by (cases m') auto

text \<open>Reading and writing one element of an array.\<close>

definition c_get :: "'a list \<Rightarrow> nat \<Rightarrow> 'a c_result" where
  "c_get buf i = (if i < length buf then Inr (buf ! i) else Inl Out_Of_Bounds)"

definition c_put :: "nat \<Rightarrow> 'a \<Rightarrow> 'a list \<Rightarrow> 'a list c_result" where
  "c_put i x buf = (if i < length buf then Inr (buf[i := x]) else Inl Out_Of_Bounds)"

lemma c_get_simps [simp]:
  "i < length buf \<Longrightarrow> c_get buf i = Inr (buf ! i)"
  "\<not> i < length buf \<Longrightarrow> c_get buf i = Inl Out_Of_Bounds"
  by (simp_all add: c_get_def)

lemma c_put_simps [simp]:
  "i < length buf \<Longrightarrow> c_put i x buf = Inr (buf[i := x])"
  "\<not> i < length buf \<Longrightarrow> c_put i x buf = Inl Out_Of_Bounds"
  by (simp_all add: c_put_def)

text \<open>Repeating an operation that can fail.\<close>

primrec c_iter :: "nat \<Rightarrow> ('a \<Rightarrow> 'a c_result) \<Rightarrow> 'a \<Rightarrow> 'a c_result" where
  "c_iter 0 f x = Inr x"
| "c_iter (Suc n) f x = c_bind (f x) (c_iter n f)"

lemma unat_of_nat_u32: "n < 2 ^ 32 \<Longrightarrow> unat (of_nat n :: u32) = n"
  by (simp add: unat_of_nat)

section \<open>Byte order\<close>

definition UTIL_INT32_GET_BIT3 :: "u32 \<Rightarrow> byte" where
  "UTIL_INT32_GET_BIT3 x = ucast (drop_bit 24 (x AND 0xFF000000))"

definition UTIL_INT32_GET_BIT2 :: "u32 \<Rightarrow> byte" where
  "UTIL_INT32_GET_BIT2 x = ucast (drop_bit 16 (x AND 0x00FF0000))"

definition UTIL_INT32_GET_BIT1 :: "u32 \<Rightarrow> byte" where
  "UTIL_INT32_GET_BIT1 x = ucast (drop_bit 8 (x AND 0x0000FF00))"

definition UTIL_INT32_GET_BIT0 :: "u32 \<Rightarrow> byte" where
  "UTIL_INT32_GET_BIT0 x = ucast (x AND 0x000000FF)"

definition UTIL_INT16_GET_BITH :: "u32 \<Rightarrow> byte" where
  "UTIL_INT16_GET_BITH x = ucast (drop_bit 8 (x AND 0xFF00))"

definition UTIL_INT16_GET_BITL :: "u32 \<Rightarrow> byte" where
  "UTIL_INT16_GET_BITL x = ucast (x AND 0x00FF)"

definition UTIL_INT32_SET :: "byte \<Rightarrow> byte \<Rightarrow> byte \<Rightarrow> byte \<Rightarrow> u32" where
  "UTIL_INT32_SET h n k l =
     push_bit 24 (ucast h AND 0xFF) + push_bit 16 (ucast n AND 0xFF)
     + push_bit 8 (ucast k AND 0xFF) + (ucast l AND 0xFF)"

definition UTIL_INT16_SET :: "byte \<Rightarrow> byte \<Rightarrow> u16" where
  "UTIL_INT16_SET h l = push_bit 8 (ucast h) + ucast l"

lemma unat_byte_less [simp]: "unat (b :: byte) < 256"
  using unsigned_less [of b, where ?'a = nat] by simp

lemma unat_byte_le [simp]: "unat (b :: byte) \<le> 255"
  using unat_byte_less [of b] by linarith

lemma and_0xFF_32: "(w :: u32) AND 0xFF = take_bit 8 w"
  by (simp add: take_bit_eq_mask mask_eq_exp_minus_1)

lemma and_0xFF000000_32: "(w :: u32) AND 0xFF000000 = push_bit 24 (drop_bit 24 w)"
proof -
  have eq: "(0xFF000000 :: u32) = push_bit 24 (mask 8)"
    by (simp add: mask_eq_exp_minus_1 push_bit_eq_mult)
  show ?thesis
    by (subst eq) (auto intro!: bit_word_eqI simp: bit_simps)
qed

lemma and_0x00FF0000_32: "(w :: u32) AND 0x00FF0000 = push_bit 16 (take_bit 8 (drop_bit 16 w))"
proof -
  have eq: "(0x00FF0000 :: u32) = push_bit 16 (mask 8)"
    by (simp add: mask_eq_exp_minus_1 push_bit_eq_mult)
  show ?thesis
    by (subst eq) (auto intro!: bit_word_eqI simp: bit_simps)
qed

lemma and_0x0000FF00_32: "(w :: u32) AND 0x0000FF00 = push_bit 8 (take_bit 8 (drop_bit 8 w))"
proof -
  have eq: "(0x0000FF00 :: u32) = push_bit 8 (mask 8)"
    by (simp add: mask_eq_exp_minus_1 push_bit_eq_mult)
  show ?thesis
    by (subst eq) (auto intro!: bit_word_eqI simp: bit_simps)
qed

lemma ucast_byte_and_0xFF [simp]: "(ucast (b :: byte) :: u32) AND 0xFF = ucast b"
proof (rule bit_word_eqI)
  fix m assume "m < LENGTH(32)"
  show "bit ((ucast b :: u32) AND 0xFF) m = bit (ucast b :: u32) m"
    using bit_imp_le_length [of b m] by (auto simp: and_0xFF_32 bit_simps)
qed

lemma UTIL_INT32_GET_alt:
  "UTIL_INT32_GET_BIT3 x = ucast (drop_bit 24 x)"
  "UTIL_INT32_GET_BIT2 x = ucast (drop_bit 16 x)"
  "UTIL_INT32_GET_BIT1 x = ucast (drop_bit 8 x)"
  "UTIL_INT32_GET_BIT0 x = ucast x"
  "UTIL_INT16_GET_BITH x = ucast (drop_bit 8 x)"
  "UTIL_INT16_GET_BITL x = ucast x"
  by (auto intro!: bit_word_eqI simp: UTIL_INT32_GET_BIT3_def UTIL_INT32_GET_BIT2_def
      UTIL_INT32_GET_BIT1_def UTIL_INT32_GET_BIT0_def UTIL_INT16_GET_BITH_def
      UTIL_INT16_GET_BITL_def and_0xFF000000_32 and_0x00FF0000_32 and_0x0000FF00_32
      and_0xFF_32 bit_simps)

lemma unat_drop_bit_div: "unat (drop_bit n (x :: 'a::len word)) = unat x div 2 ^ n"
  by (rule trans [OF unat_drop_bit_eq drop_bit_eq_div])

lemma unat_ucast_byte: "unat (ucast (x :: 'a::len word) :: byte) = unat x mod 256"
  by (simp add: unsigned_ucast_eq take_bit_eq_mod)

lemma unat_UTIL_INT32_GET [byte_order]:
  "unat (UTIL_INT32_GET_BIT3 x) = unat x div 256 div 256 div 256 mod 256"
  "unat (UTIL_INT32_GET_BIT2 x) = unat x div 256 div 256 mod 256"
  "unat (UTIL_INT32_GET_BIT1 x) = unat x div 256 mod 256"
  "unat (UTIL_INT32_GET_BIT0 x) = unat x mod 256"
  "unat (UTIL_INT16_GET_BITH x) = unat x div 256 mod 256"
  "unat (UTIL_INT16_GET_BITL x) = unat x mod 256"
  by (simp_all only: UTIL_INT32_GET_alt unat_ucast_byte unat_drop_bit_div)
    (simp_all flip: div_mult2_eq)

lemma unat_UTIL_INT32_SET [byte_order]:
  "unat (UTIL_INT32_SET h n k l) = ((unat h * 256 + unat n) * 256 + unat k) * 256 + unat l"
proof -
  have "unat h < 256" "unat n < 256" "unat k < 256" "unat l < 256"
    by simp_all
  then show ?thesis
    by (simp add: UTIL_INT32_SET_def unat_word_ariths push_bit_eq_mult unsigned_ucast_eq
        take_bit_eq_mod del: unat_byte_less unat_byte_le)
qed

lemma unat_UTIL_INT16_SET [byte_order]:
  "unat (UTIL_INT16_SET h l) = unat h * 256 + unat l"
proof -
  have "unat h < 256" "unat l < 256"
    by simp_all
  then show ?thesis
    by (simp add: UTIL_INT16_SET_def unat_word_ariths push_bit_eq_mult unsigned_ucast_eq
        take_bit_eq_mod del: unat_byte_less unat_byte_le)
qed

lemma base256_digit: "d < 256 \<Longrightarrow> (q * 256 + d) div 256 = q \<and> (q * 256 + d) mod 256 = (d :: nat)"
  by simp

text \<open>Writing a word byte by byte and reading it back is the identity, both ways round.\<close>

lemma UTIL_INT32_SET_GET [simp]:
  "UTIL_INT32_SET (UTIL_INT32_GET_BIT3 x) (UTIL_INT32_GET_BIT2 x)
     (UTIL_INT32_GET_BIT1 x) (UTIL_INT32_GET_BIT0 x) = x"
proof -
  have "unat x < 256 * (256 * (256 * 256))"
    using unsigned_less [of x, where ?'a = nat] by simp
  then have "unat x div 256 div 256 div 256 < 256"
    by (simp add: less_mult_imp_div_less mult.commute flip: div_mult2_eq)
  then have "((unat x div 256 div 256 div 256 mod 256 * 256 + unat x div 256 div 256 mod 256) * 256
      + unat x div 256 mod 256) * 256 + unat x mod 256 = unat x"
    by simp
  then show ?thesis
    by (simp only: word_unat_eq_iff byte_order)
qed

lemma UTIL_INT32_GET_SET [simp]:
  "UTIL_INT32_GET_BIT3 (UTIL_INT32_SET h n k l) = h"
  "UTIL_INT32_GET_BIT2 (UTIL_INT32_SET h n k l) = n"
  "UTIL_INT32_GET_BIT1 (UTIL_INT32_SET h n k l) = k"
  "UTIL_INT32_GET_BIT0 (UTIL_INT32_SET h n k l) = l"
  by (simp_all only: word_unat_eq_iff byte_order base256_digit unat_byte_less mod_less)

lemma UTIL_INT16_SET_GET [simp]:
  "UTIL_INT16_SET (UTIL_INT16_GET_BITH (ucast (m :: u16))) (UTIL_INT16_GET_BITL (ucast m)) = m"
proof -
  have u: "unat (ucast m :: u32) = unat m" "unat m < 256 * 256"
    using unsigned_less [of m, where ?'a = nat] by (simp_all add: unsigned_ucast_eq take_bit_eq_mod)
  then have "unat m div 256 mod 256 * 256 + unat m mod 256 = unat m"
    by (simp add: less_mult_imp_div_less)
  then show ?thesis
    by (simp only: word_unat_eq_iff byte_order u)
qed

section \<open>Memory primitives\<close>

text \<open>
  \<^verbatim>\<open>memcpy(buf + off, src, n)\<close> on an array \<open>buf\<close>, with \<open>src\<close> the \<open>n\<close> bytes copied. The value
  is the array after the copy when the copy stays inside it; \<open>memcpy_chk\<close> is the same copy
  with the bound made explicit.
\<close>

definition memcpy_at :: "nat \<Rightarrow> 'a list \<Rightarrow> 'a list \<Rightarrow> 'a list" where
  "memcpy_at off src buf = take off buf @ src @ drop (off + length src) buf"

definition memcpy_chk :: "nat \<Rightarrow> 'a list \<Rightarrow> 'a list \<Rightarrow> 'a list c_result" where
  "memcpy_chk off src buf =
     (if off + length src \<le> length buf then Inr (memcpy_at off src buf) else Inl Out_Of_Bounds)"

lemma length_memcpy_at [simp]:
  "off + length src \<le> length buf \<Longrightarrow> length (memcpy_at off src buf) = length buf"
  by (simp add: memcpy_at_def)

lemma memcpy_at_Nil [simp]: "memcpy_at off [] buf = buf"
  by (simp add: memcpy_at_def)

lemma nth_memcpy_at:
  assumes "off + length src \<le> length buf"
  shows "memcpy_at off src buf ! i =
    (if off \<le> i \<and> i < off + length src then src ! (i - off) else buf ! i)"
  using assms by (auto simp: memcpy_at_def nth_append)

lemma memcpy_chk_Inr [simp]:
  "memcpy_chk off src buf = Inr b \<longleftrightarrow>
     off + length src \<le> length buf \<and> b = memcpy_at off src buf"
  by (auto simp: memcpy_chk_def)

lemma take_memcpy_at_0 [simp]: "take (length src) (memcpy_at 0 src buf) = src"
  by (simp add: memcpy_at_def)

lemma memcpy_at_Cons:
  "j < length buf \<Longrightarrow> memcpy_at (Suc j) xs (buf[j := x]) = memcpy_at j (x # xs) buf"
  by (simp add: memcpy_at_def take_Suc_conv_app_nth)

lemma memcpy_at_append:
  "j + length xs \<le> length buf \<Longrightarrow>
     memcpy_at (j + length xs) ys (memcpy_at j xs buf) = memcpy_at j (xs @ ys) buf"
  by (simp add: memcpy_at_def ac_simps)

text \<open>The C string at the start of an array, and the network byte order of the target.\<close>

definition c_string :: "bytes \<Rightarrow> bytes" where
  "c_string = takeWhile (\<lambda>b. b \<noteq> 0)"

definition strlen :: "bytes \<Rightarrow> nat" where
  "strlen s = length (c_string s)"

definition htons :: "u16 \<Rightarrow> u16" where
  "htons x = push_bit 8 x OR drop_bit 8 x"

lemma length_c_string [simp]: "length (c_string s) = strlen s"
  by (simp add: strlen_def)

section \<open>Lists\<close>

lemma map_upt_nth_take: "n \<le> length xs \<Longrightarrow> map (\<lambda>i. xs ! i) [0..<n] = take n xs"
  by (rule nth_equalityI) auto

lemma list_update_id_iff: "i < length xs \<Longrightarrow> xs[i := x] = xs \<longleftrightarrow> xs ! i = x"
  by (metis list_update_id nth_list_update_eq)

lemma list_all_update: "list_all P xs \<Longrightarrow> P x \<Longrightarrow> list_all P (xs[i := x])"
  using set_update_subset_insert [of xs i x] by (auto simp: list_all_iff)

end
