(* ===== verification/XGByteQueue.thy ===== *)
theory XGByteQueue imports Prelude begin

text \<open>
  The receive ring buffer of a connection: \<^verbatim>\<open>src/XGByteQueue.c\<close> and \<^verbatim>\<open>src/XGByteQueue.h\<close> of the
  xlinkgateway. Indices are the C \<^verbatim>\<open>int\<close>s kept as 32-bit words: they grow without bound and
  are reduced by the mask \<^verbatim>\<open>BQ_BUFFER_SIZE - 1\<close> only when the buffer is addressed, so their
  wrap-around is part of the model. The queue pointer and the data pointer are never NULL here.
  The theory ends with the contract a client of the queue relies on, the locale
  \<open>byte_fifo\<close>, and its interpretation on these operations.
\<close>

section \<open>State and operations\<close>

abbreviation BQ_BUFFER_SIZE :: nat where
  "BQ_BUFFER_SIZE \<equiv> 2048"

record ByteQueue =
  Buffer :: bytes
  StartIndex :: u32
  EndIndex :: u32
  bq_lock :: byte

definition bq_min :: "u32 \<Rightarrow> u32 \<Rightarrow> u32" where
  "bq_min m n = (if m < n then m else n)"

definition XGByteQueueTryLock :: "ByteQueue \<Rightarrow> int \<times> ByteQueue" where
  "XGByteQueueTryLock q = (if bq_lock q \<noteq> 0 then (0, q) else (1, q\<lparr>bq_lock := 1\<rparr>))"

text \<open>The spin of the blocking lock does not end unless another thread releases it: \<open>None\<close>.\<close>

definition XGByteQueueLock :: "ByteQueue \<Rightarrow> ByteQueue option" where
  "XGByteQueueLock q = (if bq_lock q \<noteq> 0 then None else Some (q\<lparr>bq_lock := 1\<rparr>))"

definition XGByteQueueUnLock :: "ByteQueue \<Rightarrow> ByteQueue" where
  "XGByteQueueUnLock q = q\<lparr>bq_lock := 0\<rparr>"

definition XGByteQueueInit :: "ByteQueue \<Rightarrow> ByteQueue" where
  "XGByteQueueInit q =
     q\<lparr>Buffer := replicate BQ_BUFFER_SIZE 0, EndIndex := 0, StartIndex := 0, bq_lock := 0\<rparr>"

definition XGByteQueueReSet :: "ByteQueue \<Rightarrow> ByteQueue" where
  "XGByteQueueReSet q = q\<lparr>StartIndex := 0, EndIndex := 0\<rparr>"

text \<open>\<open>data\<close> holds at least \<open>len\<close> bytes, as the C caller promises.\<close>

definition XGByteQueuePush :: "ByteQueue \<Rightarrow> bytes \<Rightarrow> u32 \<Rightarrow> u32 \<times> ByteQueue" where
  "XGByteQueuePush q data len =
     (if len = 0 then (0, q)
      else
        let len = bq_min len (2048 - EndIndex q + StartIndex q);
            temp = bq_min len (2048 - (EndIndex q AND 2047));
            b1 = memcpy_at (unat (EndIndex q AND 2047)) (take (unat temp) data) (Buffer q);
            b2 = memcpy_at 0 (take (unat (len - temp)) (drop (unat temp) data)) b1
        in (len, q\<lparr>Buffer := b2, EndIndex := EndIndex q + len\<rparr>))"

text \<open>The bytes copied to the caller's buffer, and their number.\<close>

definition XGByteQueuePeer :: "ByteQueue \<Rightarrow> u32 \<Rightarrow> u32 \<times> bytes" where
  "XGByteQueuePeer q n =
     (let n = bq_min n (EndIndex q - StartIndex q);
          len = bq_min n (2048 - (StartIndex q AND 2047))
      in (n, take (unat len) (drop (unat (StartIndex q AND 2047)) (Buffer q))
             @ take (unat (n - len)) (Buffer q)))"

definition XGByteQueuePop :: "ByteQueue \<Rightarrow> u32 \<Rightarrow> ByteQueue" where
  "XGByteQueuePop q n =
     (let n = bq_min n (EndIndex q - StartIndex q);
          q = q\<lparr>StartIndex := StartIndex q + n\<rparr>
      in if EndIndex q = StartIndex q then XGByteQueueReSet q else q)"

definition XGByteQueueSize :: "ByteQueue \<Rightarrow> u32" where
  "XGByteQueueSize q = EndIndex q - StartIndex q"

section \<open>What the queue holds\<close>

definition bq_used :: "ByteQueue \<Rightarrow> nat" where
  "bq_used q = unat (EndIndex q - StartIndex q)"

definition ring_read :: "'a list \<Rightarrow> nat \<Rightarrow> nat \<Rightarrow> 'a list" where
  "ring_read buf s n = map (\<lambda>i. buf ! ((s + i) mod length buf)) [0..<n]"

definition bq_contents :: "ByteQueue \<Rightarrow> bytes" where
  "bq_contents q = ring_read (Buffer q) (unat (StartIndex q)) (bq_used q)"

definition bq_inv :: "ByteQueue \<Rightarrow> bool" where
  "bq_inv q \<longleftrightarrow> length (Buffer q) = BQ_BUFFER_SIZE \<and> bq_used q \<le> BQ_BUFFER_SIZE"

lemma length_ring_read [simp]: "length (ring_read buf s n) = n"
  by (simp add: ring_read_def)

lemma length_bq_contents [simp]: "length (bq_contents q) = bq_used q"
  by (simp add: bq_contents_def)

lemma ring_read_mod: "ring_read buf (s mod length buf) n = ring_read buf s n"
  by (simp add: ring_read_def mod_simps)

lemma drop_ring_read: "m \<le> n \<Longrightarrow> drop m (ring_read buf s n) = ring_read buf (s + m) (n - m)"
  by (rule nth_equalityI) (auto simp: ring_read_def add.assoc nth_upt)

lemma take_ring_read: "m \<le> n \<Longrightarrow> take m (ring_read buf s n) = ring_read buf s m"
  by (rule nth_equalityI) (simp_all add: ring_read_def)

text \<open>The two \<^verbatim>\<open>memcpy\<close> calls of the peek read the ring; those of the push write it.\<close>

lemma ring_read_split:
  assumes "s < length buf" "n \<le> length buf"
  shows "ring_read buf s n =
    take (min n (length buf - s)) (drop s buf) @ take (n - min n (length buf - s)) buf"
proof (rule nth_equalityI)
  show "length (ring_read buf s n) =
    length (take (min n (length buf - s)) (drop s buf) @ take (n - min n (length buf - s)) buf)"
    using assms by auto
  fix i assume "i < length (ring_read buf s n)"
  then have i: "i < n" by simp
  show "ring_read buf s n ! i =
    (take (min n (length buf - s)) (drop s buf) @ take (n - min n (length buf - s)) buf) ! i"
  proof (cases "s + i < length buf")
    case True
    then show ?thesis using i assms by (auto simp: ring_read_def nth_append)
  next
    case False
    then have "(s + i) mod length buf = s + i - length buf"
      using i assms by (simp add: mod_if)
    then show ?thesis using False i assms
      by (auto simp: ring_read_def nth_append min_def add.commute)
  qed
qed

definition ring_write :: "'a list \<Rightarrow> nat \<Rightarrow> 'a list \<Rightarrow> 'a list" where
  "ring_write buf e xs =
     (let t = min (length xs) (length buf - e)
      in memcpy_at 0 (drop t xs) (memcpy_at e (take t xs) buf))"

lemma length_ring_write [simp]:
  "e < length buf \<Longrightarrow> length xs \<le> length buf \<Longrightarrow> length (ring_write buf e xs) = length buf"
  by (auto simp: ring_write_def Let_def min_def)

lemma nth_ring_write:
  assumes "e < length buf" "length xs \<le> length buf" "k < length buf"
  shows "ring_write buf e xs ! k =
    (let j = (if e \<le> k then k - e else length buf - e + k)
     in if j < length xs then xs ! j else buf ! k)"
  using assms by (auto simp: ring_write_def Let_def nth_memcpy_at min_def)

lemma ring_read_write:
  assumes "s < length buf" "n + length xs \<le> length buf"
  shows "ring_read (ring_write buf ((s + n) mod length buf) xs) s (n + length xs) =
    ring_read buf s n @ xs"
proof (rule nth_equalityI)
  let ?N = "length buf" and ?e = "(s + n) mod length buf"
  have "0 < ?N" using assms by linarith
  then have e: "?e < ?N" "length xs \<le> ?N" using assms by simp_all
  then have len: "length (ring_write buf ?e xs) = ?N" by simp
  show "length (ring_read (ring_write buf ?e xs) s (n + length xs)) =
      length (ring_read buf s n @ xs)"
    by simp
  fix i assume "i < length (ring_read (ring_write buf ?e xs) s (n + length xs))"
  then have i: "i < n + length xs" by simp
  let ?k = "(s + i) mod ?N"
  have k: "?k < ?N" using \<open>0 < ?N\<close> by simp
  have ee: "?e = (if s + n < ?N then s + n else s + n - ?N)"
    using assms by (simp add: mod_if)
  have kk: "?k = (if s + i < ?N then s + i else s + i - ?N)"
    using assms i by (simp add: mod_if)
  have j: "(if ?e \<le> ?k then ?k - ?e else ?N - ?e + ?k) = (if i < n then ?N - n + i else i - n)"
    unfolding ee kk using assms i by (auto split: if_splits)
  have "ring_write buf ?e xs ! ?k = (if i < n then buf ! ?k else xs ! (i - n))"
    using nth_ring_write [OF e k] assms i unfolding j by (auto simp: Let_def)
  then show "ring_read (ring_write buf ?e xs) s (n + length xs) ! i = (ring_read buf s n @ xs) ! i"
    using i by (simp add: ring_read_def len nth_append)
qed

section \<open>Index arithmetic\<close>

lemma unat_and_2047: "unat ((x :: u32) AND 2047) = unat x mod 2048"
proof -
  have "x AND 2047 = take_bit 11 x"
    by (simp add: take_bit_eq_mask mask_eq_exp_minus_1)
  moreover have "unat (take_bit 11 x) = take_bit 11 (unat x)"
    by (rule unsigned_take_bit_eq)
  ultimately show ?thesis
    by (simp only: take_bit_eq_mod) simp
qed

lemma unat_bq_min [simp]: "unat (bq_min a b) = min (unat a) (unat b)"
  by (simp add: bq_min_def min_def word_less_nat_alt)

lemma unat_bq_free:
  assumes "bq_used q \<le> BQ_BUFFER_SIZE"
  shows "unat (2048 - EndIndex q + StartIndex q) = BQ_BUFFER_SIZE - bq_used q"
proof -
  have "2048 - EndIndex q + StartIndex q = 2048 - (EndIndex q - StartIndex q)"
    by simp
  moreover have "EndIndex q - StartIndex q \<le> 2048"
    using assms by (simp add: bq_used_def word_le_nat_alt)
  ultimately show ?thesis
    by (simp only: unat_sub bq_used_def) simp
qed

lemma unat_sub_2047: "unat (2048 - ((x :: u32) AND 2047)) = 2048 - unat x mod 2048"
proof -
  have "x AND 2047 \<le> 2048"
    using mod_less_divisor [of 2048 "unat x"] by (simp add: word_le_nat_alt unat_and_2047)
  then show ?thesis
    by (simp add: unat_sub unat_and_2047)
qed

lemma unat_bq_min_diff: "unat (n - bq_min n m) = unat n - min (unat n) (unat m)"
proof -
  have "bq_min n m \<le> n"
    by (simp add: word_le_nat_alt)
  then show ?thesis
    by (simp add: unat_sub)
qed

lemma index_mod_2048:
  assumes "bq_used q \<le> BQ_BUFFER_SIZE"
  shows "unat (EndIndex q) mod 2048 = (unat (StartIndex q) mod 2048 + bq_used q) mod 2048"
proof -
  have "EndIndex q = StartIndex q + (EndIndex q - StartIndex q)"
    by simp
  then have "unat (EndIndex q) = (unat (StartIndex q) + bq_used q) mod 2 ^ 32"
    using unat_word_ariths(1) [of "StartIndex q" "EndIndex q - StartIndex q"]
    by (simp add: bq_used_def)
  moreover have "(2048 :: nat) dvd 2 ^ 32"
    by simp
  ultimately show ?thesis
    by (simp add: mod_mod_cancel mod_simps)
qed

lemma bq_used_le_imp_unat_add:
  assumes "bq_used q + unat n \<le> BQ_BUFFER_SIZE"
  shows "unat (EndIndex q + n - StartIndex q) = bq_used q + unat n"
proof -
  have "EndIndex q + n - StartIndex q = (EndIndex q - StartIndex q) + n"
    by simp
  then have "unat (EndIndex q + n - StartIndex q) = (bq_used q + unat n) mod 2 ^ 32"
    by (simp only: bq_used_def unat_word_ariths) simp
  then show ?thesis
    using assms by simp
qed

section \<open>Functional behaviour of the operations\<close>

lemma XGByteQueueSize_used [simp]: "unat (XGByteQueueSize q) = bq_used q"
  by (simp add: XGByteQueueSize_def bq_used_def)

lemma bq_inv_init [simp]: "bq_inv (XGByteQueueInit q)"
  by (simp add: bq_inv_def XGByteQueueInit_def bq_used_def)

lemma bq_contents_init [simp]: "bq_contents (XGByteQueueInit q) = []"
  by (simp add: bq_contents_def XGByteQueueInit_def bq_used_def ring_read_def)

lemma bq_peer_spec:
  assumes "bq_inv q"
  shows "XGByteQueuePeer q n = (bq_min n (XGByteQueueSize q), take (unat n) (bq_contents q))"
proof -
  let ?m = "min (unat n) (bq_used q)" and ?s = "unat (StartIndex q) mod 2048"
  have len: "length (Buffer q) = 2048" and u: "bq_used q \<le> 2048"
    using assms by (simp_all add: bq_inv_def)
  have "ring_read (Buffer q) ?s ?m =
      take (min ?m (2048 - ?s)) (drop ?s (Buffer q)) @ take (?m - min ?m (2048 - ?s)) (Buffer q)"
    using ring_read_split [of ?s "Buffer q" ?m] len u by simp
  moreover have "ring_read (Buffer q) ?s ?m = take (unat n) (bq_contents q)"
  proof -
    have "ring_read (Buffer q) ?s ?m = ring_read (Buffer q) (unat (StartIndex q)) ?m"
      using ring_read_mod [of "Buffer q" "unat (StartIndex q)" ?m] len by simp
    also have "\<dots> = take ?m (bq_contents q)"
      by (simp add: bq_contents_def take_ring_read)
    also have "\<dots> = take (unat n) (bq_contents q)"
      using take_take [of "unat n" "bq_used q" "bq_contents q"] by (simp add: min.commute)
    finally show ?thesis .
  qed
  ultimately show ?thesis
    by (simp add: XGByteQueuePeer_def Let_def unat_bq_min_diff unat_and_2047 unat_sub_2047
        XGByteQueueSize_def bq_used_def)
qed

lemma bq_pop_spec:
  assumes "bq_inv q"
  shows "bq_inv (XGByteQueuePop q n)"
    and "bq_contents (XGByteQueuePop q n) = drop (unat n) (bq_contents q)"
proof -
  let ?n = "bq_min n (EndIndex q - StartIndex q)"
  let ?q = "q\<lparr>StartIndex := StartIndex q + ?n\<rparr>"
  have le: "?n \<le> EndIndex q - StartIndex q"
    by (simp add: word_le_nat_alt)
  have "EndIndex q - (StartIndex q + ?n) = EndIndex q - StartIndex q - ?n"
    by simp
  then have used: "bq_used ?q = bq_used q - unat ?n"
    using unat_sub [OF le] by (simp add: bq_used_def diff_diff_eq del: unat_bq_min)
  have un: "unat ?n = min (unat n) (bq_used q)"
    by (simp add: bq_used_def)
  have len: "length (Buffer q) = 2048" and u: "bq_used q \<le> 2048"
    using assms by (simp_all add: bq_inv_def)
  have st: "unat (StartIndex q + ?n) mod 2048 = (unat (StartIndex q) + unat ?n) mod 2048"
    by (simp add: unat_word_ariths mod_mod_cancel)
  have cont: "bq_contents ?q = drop (unat n) (bq_contents q)"
  proof -
    have "bq_contents ?q = ring_read (Buffer q) (unat (StartIndex q) + unat ?n) (bq_used ?q)"
      using ring_read_mod [of "Buffer q" "unat (StartIndex q + ?n)" "bq_used ?q"]
        ring_read_mod [of "Buffer q" "unat (StartIndex q) + unat ?n" "bq_used ?q"] len
      by (simp add: bq_contents_def st)
    also have "\<dots> = drop (unat ?n) (bq_contents q)"
      using un by (simp add: bq_contents_def drop_ring_read used)
    also have "\<dots> = drop (unat n) (bq_contents q)"
      unfolding un by (simp add: min_def)
    finally show ?thesis .
  qed
  show "bq_inv (XGByteQueuePop q n)"
    using len u used
    by (auto simp: XGByteQueuePop_def Let_def bq_inv_def XGByteQueueReSet_def bq_used_def)
  show "bq_contents (XGByteQueuePop q n) = drop (unat n) (bq_contents q)"
  proof (cases "EndIndex q = StartIndex q + ?n")
    case True
    then have "bq_used ?q = 0" by (simp add: bq_used_def)
    then have "drop (unat n) (bq_contents q) = []"
      using cont length_bq_contents [of ?q] by auto
    then show ?thesis
      using True by (simp add: XGByteQueuePop_def Let_def XGByteQueueReSet_def bq_contents_def
          bq_used_def ring_read_def)
  next
    case False
    then show ?thesis
      using cont by (simp add: XGByteQueuePop_def Let_def)
  qed
qed

text \<open>
  A push is the two \<^verbatim>\<open>memcpy\<close> calls of \<open>ring_write\<close>: it appends what fits and drops the rest.
\<close>

lemma bq_push_eq:
  assumes "bq_inv q" "unat n \<le> length data"
  defines "L \<equiv> min (unat n) (BQ_BUFFER_SIZE - bq_used q)"
  shows "\<exists>w. XGByteQueuePush q data n =
      (w, q\<lparr>Buffer := ring_write (Buffer q) (unat (EndIndex q) mod 2048) (take L data),
            EndIndex := EndIndex q + w\<rparr>) \<and> unat w = L"
proof (cases "n = 0")
  case True
  moreover have "ring_write (Buffer q) (unat (EndIndex q) mod 2048) [] = Buffer q"
    by (simp add: ring_write_def)
  ultimately show ?thesis
    by (simp add: XGByteQueuePush_def L_def)
next
  case False
  let ?w = "bq_min n (2048 - EndIndex q + StartIndex q)"
  let ?e = "unat (EndIndex q) mod 2048"
  let ?t = "min L (2048 - ?e)"
  have u: "bq_used q \<le> BQ_BUFFER_SIZE" and len: "length (Buffer q) = BQ_BUFFER_SIZE"
    using assms by (simp_all add: bq_inv_def)
  have w: "unat ?w = L"
    using unat_bq_free [OF u] by (simp add: L_def)
  have lt: "length (take L data) = L"
    using assms by (simp add: L_def)
  have "ring_write (Buffer q) ?e (take L data) =
      memcpy_at 0 (drop ?t (take L data)) (memcpy_at ?e (take ?t (take L data)) (Buffer q))"
    by (simp only: ring_write_def Let_def lt len)
  moreover have "take ?t (take L data) = take ?t data"
    by (simp add: min_def)
  moreover have "drop ?t (take L data) = take (L - ?t) (drop ?t data)"
    by (simp add: drop_take)
  moreover have "unat (?w - bq_min ?w (2048 - (EndIndex q AND 2047))) = L - ?t"
    by (simp add: unat_bq_min_diff w unat_sub_2047 del: unat_bq_min)
  moreover have "unat (bq_min ?w (2048 - (EndIndex q AND 2047))) = ?t"
    using w unat_bq_min [of ?w "2048 - (EndIndex q AND 2047)"] by (simp only: unat_sub_2047)
  ultimately have "XGByteQueuePush q data n =
      (?w, q\<lparr>Buffer := ring_write (Buffer q) ?e (take L data), EndIndex := EndIndex q + ?w\<rparr>)"
    using False by (simp add: XGByteQueuePush_def Let_def unat_and_2047)
  with w show ?thesis by blast
qed

lemma bq_push_spec:
  assumes inv: "bq_inv q" and n: "unat n \<le> length data"
  defines "L \<equiv> min (unat n) (BQ_BUFFER_SIZE - bq_used q)"
  shows "unat (fst (XGByteQueuePush q data n)) = L"
    and "bq_inv (snd (XGByteQueuePush q data n))"
    and "bq_contents (snd (XGByteQueuePush q data n)) = bq_contents q @ take L data"
proof -
  let ?e = "unat (EndIndex q) mod 2048" and ?s = "unat (StartIndex q) mod 2048"
  obtain w where w: "XGByteQueuePush q data n =
      (w, q\<lparr>Buffer := ring_write (Buffer q) ?e (take L data), EndIndex := EndIndex q + w\<rparr>)"
    and wL: "unat w = L"
    using bq_push_eq [OF inv n] unfolding L_def by blast
  let ?q = "snd (XGByteQueuePush q data n)"
  have u: "bq_used q \<le> BQ_BUFFER_SIZE" and len: "length (Buffer q) = BQ_BUFFER_SIZE"
    using inv by (simp_all add: bq_inv_def)
  have lt: "length (take L data) = L"
    using n by (simp add: L_def)
  have uL: "bq_used q + L \<le> BQ_BUFFER_SIZE"
    using u by (simp add: L_def)
  have used: "bq_used ?q = bq_used q + L"
    using bq_used_le_imp_unat_add [of q w] uL wL by (simp add: w bq_used_def)
  have e: "?e = (?s + bq_used q) mod 2048"
    by (rule index_mod_2048 [OF u])
  have lw: "length (ring_write (Buffer q) ?e (take L data)) = 2048"
    using length_ring_write [of ?e "Buffer q" "take L data"] len lt uL by simp
  show "unat (fst (XGByteQueuePush q data n)) = L"
    by (simp add: w wL)
  show "bq_inv ?q"
    using used uL lw by (simp add: bq_inv_def w)
  have "bq_contents ?q = ring_read (ring_write (Buffer q) ?e (take L data)) ?s (bq_used q + L)"
    using ring_read_mod [of "ring_write (Buffer q) ?e (take L data)" "unat (StartIndex q)"] lw used
    by (simp add: bq_contents_def w)
  also have "\<dots> = ring_read (Buffer q) ?s (bq_used q) @ take L data"
    using ring_read_write [of ?s "Buffer q" "bq_used q" "take L data"] len lt uL e by simp
  also have "ring_read (Buffer q) ?s (bq_used q) = bq_contents q"
    using ring_read_mod [of "Buffer q" "unat (StartIndex q)" "bq_used q"] len
    by (simp add: bq_contents_def)
  finally show "bq_contents ?q = bq_contents q @ take L data" .
qed

section \<open>The contract of the queue\<close>

text \<open>
  What a reader of a connection relies on: the queue is a bounded list of bytes. A push appends
  as much as fits, a peek reads a prefix and changes nothing, a pop removes a prefix.
\<close>

locale byte_fifo =
  fixes invar :: "'q \<Rightarrow> bool"
    and contents :: "'q \<Rightarrow> bytes"
    and cap :: nat
    and size_of :: "'q \<Rightarrow> u32"
    and push :: "'q \<Rightarrow> bytes \<Rightarrow> u32 \<Rightarrow> u32 \<times> 'q"
    and peek :: "'q \<Rightarrow> u32 \<Rightarrow> u32 \<times> bytes"
    and pop :: "'q \<Rightarrow> u32 \<Rightarrow> 'q"
  assumes cap_word: "cap < 2 ^ 31"
    and bounded: "invar q \<Longrightarrow> length (contents q) \<le> cap"
    and size_contents: "invar q \<Longrightarrow> unat (size_of q) = length (contents q)"
    and push_len: "invar q \<Longrightarrow> unat n \<le> length data \<Longrightarrow>
      unat (fst (push q data n)) = min (unat n) (cap - length (contents q))"
    and push_contents: "invar q \<Longrightarrow> unat n \<le> length data \<Longrightarrow>
      contents (snd (push q data n)) =
      contents q @ take (min (unat n) (cap - length (contents q))) data"
    and push_invar: "invar q \<Longrightarrow> unat n \<le> length data \<Longrightarrow> invar (snd (push q data n))"
    and peek_contents: "invar q \<Longrightarrow> snd (peek q n) = take (unat n) (contents q)"
    and pop_contents: "invar q \<Longrightarrow> contents (pop q n) = drop (unat n) (contents q)"
    and pop_invar: "invar q \<Longrightarrow> invar (pop q n)"
begin

lemma push_fits:
  assumes "invar q" "length (contents q) + length data \<le> cap"
  shows "contents (snd (push q data (of_nat (length data)))) = contents q @ data"
    and "invar (snd (push q data (of_nat (length data))))"
proof -
  have "unat (of_nat (length data) :: u32) = length data"
    using assms(2) cap_word by (intro unat_of_nat_u32) simp
  then show "contents (snd (push q data (of_nat (length data)))) = contents q @ data"
    and "invar (snd (push q data (of_nat (length data))))"
    using assms push_contents [OF assms(1), of "of_nat (length data)" data]
      push_invar [OF assms(1), of "of_nat (length data)" data] by simp_all
qed

lemma push_all:
  assumes "invar q" "length (contents q) + length (concat xss) \<le> cap"
  shows "contents (fold (\<lambda>xs q. snd (push q xs (of_nat (length xs)))) xss q) =
      contents q @ concat xss \<and>
    invar (fold (\<lambda>xs q. snd (push q xs (of_nat (length xs)))) xss q)"
  using assms
proof (induction xss arbitrary: q)
  case Nil
  then show ?case by simp
next
  case (Cons xs xss)
  have "length (contents q) + length xs \<le> cap"
    using Cons.prems by simp
  note p = push_fits [OF Cons.prems(1) this]
  show ?case
    using Cons.IH [OF p(2)] Cons.prems(2) p(1) by simp
qed

lemma peek_prefix:
  "invar q \<Longrightarrow> contents q = xs @ ys \<Longrightarrow> length xs = unat n \<Longrightarrow> snd (peek q n) = xs"
  using peek_contents [of q n] by simp

lemma pop_prefix:
  "invar q \<Longrightarrow> contents q = xs @ ys \<Longrightarrow> length xs = unat n \<Longrightarrow> contents (pop q n) = ys"
  using pop_contents [of q n] by simp

lemma size_le_cap: "invar q \<Longrightarrow> unat (size_of q) \<le> cap"
  using bounded size_contents by simp

end

interpretation bq: byte_fifo bq_inv bq_contents BQ_BUFFER_SIZE XGByteQueueSize
  XGByteQueuePush XGByteQueuePeer XGByteQueuePop
  by unfold_locales
    (auto simp: bq_push_spec bq_pop_spec bq_peer_spec, simp_all add: bq_inv_def)

section \<open>Properties\<close>

text \<open>
  A push copies the bytes into the ring with two block copies; what the queue holds
  afterwards is what it held before followed by the first bytes of the data, as many as there
  was room for. The number returned is that count, the other end of the queue does not move and
  the ring stays well formed, whatever the positions of the two wrapping indices.
\<close>

theorem XGByteQueuePush_appends:
  assumes "bq_inv q" and "unat n \<le> length data"
  shows "bq_contents (snd (XGByteQueuePush q data n)) =
      bq_contents q @ take (min (unat n) (2048 - length (bq_contents q))) data
    \<and> unat (fst (XGByteQueuePush q data n)) = min (unat n) (2048 - length (bq_contents q))
    \<and> StartIndex (snd (XGByteQueuePush q data n)) = StartIndex q
    \<and> bq_inv (snd (XGByteQueuePush q data n))"
  using bq.push_contents [OF assms] bq.push_len [OF assms] bq.push_invar [OF assms]
    bq_push_eq [OF assms] by auto

text \<open>
  C31. The queue is a stream: however the bytes were cut into pushes, as long as they fit, a peek
  of n bytes followed by a pop of n bytes reads the first n bytes of what was queued before
  followed by the concatenation of the pieces, and leaves the rest.
\<close>

theorem XGByteQueue_stream:
  assumes "bq_inv q" and "length (bq_contents q) + length (concat xss) \<le> 2048"
  shows "let q' = fold (\<lambda>xs q. snd (XGByteQueuePush q xs (of_nat (length xs)))) xss q in
    snd (XGByteQueuePeer q' n) = take (unat n) (bq_contents q @ concat xss)
    \<and> bq_contents (XGByteQueuePop q' n) = drop (unat n) (bq_contents q @ concat xss)
    \<and> bq_inv (XGByteQueuePop q' n)"
  using bq.push_all [OF assms] bq.peek_contents bq.pop_contents bq.pop_invar by (simp add: Let_def)

end
