(* ===== verification/XGTypes.thy ===== *)
theory XGTypes imports XGByteQueue begin

text \<open>
  The data of the gateway core: \<^verbatim>\<open>src/ConnectList.h\<close> (connections and their two ends),
  \<^verbatim>\<open>src/DataQueue.h\<close> (queue items), \<^verbatim>\<open>src/ConnectTask.h\<close>, \<^verbatim>\<open>src/XGCore.h\<close> (the core context),
  \<^verbatim>\<open>src/XGageway.h\<close> (the callbacks), \<^verbatim>\<open>src/XGMem.c\<close> (the counting allocator) and the header
  byte of \<^verbatim>\<open>src/XGProtocol.h\<close>.

  Linked lists are Isabelle lists: the embedded list head of a queue has no payload and is left
  out, except for the head of the connection list, a full \<^verbatim>\<open>struct Connect\<close> that two functions
  of the core visit as if it were a connection. A pointer to a connection is its position in the
  list. What the code does to the outside (socket calls, callbacks) is appended to the log
  \<open>xlog\<close> of the core; what it learns from the outside is the environment \<open>xg_env\<close>.
\<close>

section \<open>Enumerations and records\<close>

datatype e_server_status_t =
    E_SER_WAIT_CLIENT_LOGIN
  | E_SER_WAIT_CONECT
  | E_SER_CONNECTING
  | E_SER_WAIT_LOGIN_RESULT
  | E_SER_LOGINED

datatype e_connect_type_t = UNKNOWN | CONNECT_DEVICE | CONNECT_APP

datatype e_client_status_t = E_CLI_WAIT_LOGIN | E_CLI_LOGINED

datatype DisconnectReason =
    E_DIS_CLIENT_CLOSE
  | E_DIS_CONNECT_REQUEST_ERROR
  | E_DIS_CLIENT_LOGIN_TIMEOUT
  | E_DIS_CLIENT_PING_TIMEOUT

record sockaddr_in =
  sin_family :: u16
  sin_port :: u16
  sin_addr :: u32

record XGQueue =
  q_deviceid :: u32
  q_dataSize :: u32
  q_data :: bytes

record Client =
  cl_SocketHandle :: int
  cl_recvBuffer :: ByteQueue
  cl_islogined :: bool
  cl_sendQueue :: "XGQueue list"
  cl_Addr :: sockaddr_in
  cl_status :: e_client_status_t
  cl_time :: u64

record Server =
  sv_SocketHandle :: int
  sv_recvBuffer :: ByteQueue
  sv_islogined :: bool
  sv_sendQueue :: "XGQueue list"
  sv_status :: e_server_status_t
  sv_time :: u64

record Connect =
  client :: Client
  server :: Server
  device_id :: u32
  connect_type :: e_connect_type_t
  isActive :: bool
  disconnectReason :: DisconnectReason
  loginData :: bytes
  loginDatalength :: u32

record ConnectTask =
  task_device_id :: u32
  task_fd :: int

text \<open>
  The callbacks the user registers. The void ones matter to the model only by whether they are
  set; the others also by what they return.
\<close>

record XGConfig =
  OnDeviceLogin :: "(u32 \<Rightarrow> int \<Rightarrow> sockaddr_in \<Rightarrow> u32) option"
  has_OnLoginout :: bool
  has_OnRecvDataFormDevice :: bool
  has_OnRecvDataFormCloud :: bool
  OnDiscoverDevice :: "(bytes \<Rightarrow> bytes \<Rightarrow> u32 \<Rightarrow> u32 \<Rightarrow> sockaddr_in \<Rightarrow> int) option"
  OnDeviceRestartNotify :: "(bytes \<Rightarrow> bytes \<Rightarrow> bytes \<Rightarrow> u32 \<Rightarrow> u32 \<Rightarrow> sockaddr_in \<Rightarrow> int) option"

datatype xg_event =
    Ev_DeviceLogin u32 sockaddr_in
  | Ev_Loginout u32 DisconnectReason
  | Ev_RecvDataFormDevice u32 u32 u16 bytes u32
  | Ev_RecvDataFormCloud u32 u32 u16 bytes u32
  | Ev_Send int bytes
  | Ev_SendTo int bytes sockaddr_in
  | Ev_Shutdown int
  | Ev_Close int
  | Ev_Connect int sockaddr_in
  | Ev_DiscoverDevice bytes bytes u32 u32 sockaddr_in
  | Ev_DeviceRestartNotify bytes bytes bytes u32 u32 sockaddr_in

datatype XGErrorCode =
    EC_NO_ERROR | EC_ALREADY_INIT | EC_CREATE_TCP_SERVER_FAILED | EC_CREATE_UDP_SERVER_FAILED

record XGCore =
  isInited :: bool
  isQuit :: bool
  isRuning :: bool
  ServerTcpSocketHandle :: int
  ServerUdpSocketHandle :: int
  LocalTcpServerPort :: int
  LocalUdpServerPort :: int
  core_ErrorCode :: XGErrorCode
  Host :: bytes
  corp :: bytes
  token :: bytes
  productid :: bytes
  ServerPort :: int
  ConnectsHead :: Connect
  Connects :: "Connect list"
  ConnectTasks :: "ConnectTask list"
  ConnectTasksResult :: "ConnectTask list"
  ClientSendQueue :: "XGQueue list"
  CloudSendQueue :: "XGQueue list"
  config :: "XGConfig option"
  memcount :: u32
  xlog :: "xg_event list"

text \<open>
  The environment of one operation: the clock, read once per operation; whether an allocation
  of a given size succeeds; what \<^verbatim>\<open>send\<close> returns for a socket.
\<close>

record xg_env =
  env_now :: u64
  env_malloc :: "int \<Rightarrow> bool"
  env_send :: "int \<Rightarrow> int"
  env_trylock :: bool

section \<open>Zeroed memory\<close>

text \<open>The allocator clears what it returns, so new structures are all zero.\<close>

definition zero_sockaddr :: sockaddr_in where
  "zero_sockaddr = \<lparr>sin_family = 0, sin_port = 0, sin_addr = 0\<rparr>"

definition zero_ByteQueue :: ByteQueue where
  "zero_ByteQueue =
     \<lparr>Buffer = replicate BQ_BUFFER_SIZE 0, StartIndex = 0, EndIndex = 0, bq_lock = 0\<rparr>"

definition zero_Connect :: Connect where
  "zero_Connect =
     \<lparr>client = \<lparr>cl_SocketHandle = 0, cl_recvBuffer = zero_ByteQueue, cl_islogined = False,
                cl_sendQueue = [], cl_Addr = zero_sockaddr, cl_status = E_CLI_WAIT_LOGIN,
                cl_time = 0\<rparr>,
      server = \<lparr>sv_SocketHandle = 0, sv_recvBuffer = zero_ByteQueue, sv_islogined = False,
                sv_sendQueue = [], sv_status = E_SER_WAIT_CLIENT_LOGIN, sv_time = 0\<rparr>,
      device_id = 0, connect_type = UNKNOWN, isActive = False,
      disconnectReason = E_DIS_CLIENT_CLOSE, loginData = replicate 64 0, loginDatalength = 0\<rparr>"

lemma zero_ByteQueue_simps [simp]:
  "bq_inv zero_ByteQueue" "bq_contents zero_ByteQueue = []" "bq_used zero_ByteQueue = 0"
  by (simp_all add: zero_ByteQueue_def bq_inv_def bq_contents_def bq_used_def ring_read_def)

theorem XGByteQueue_stream_witness:
  "snd (XGByteQueuePeer (fold (\<lambda>xs q. snd (XGByteQueuePush q xs (of_nat (length xs)))) [[1, 2], [3]] zero_ByteQueue) 2) = [1, 2]"
  using XGByteQueue_stream [of zero_ByteQueue "[[1, 2], [3]]" 2] by (simp add: Let_def)

section \<open>Allocation and queue items\<close>

definition XGMemalloc :: "xg_env \<Rightarrow> int \<Rightarrow> XGCore \<Rightarrow> bool \<times> XGCore" where
  "XGMemalloc env sz core =
     (if env_malloc env sz then (True, core\<lparr>memcount := memcount core + 1\<rparr>) else (False, core))"

definition XGFree :: "XGCore \<Rightarrow> XGCore" where
  "XGFree core = core\<lparr>memcount := memcount core - 1\<rparr>"

text \<open>\<^verbatim>\<open>sizeof(struct XGQueue)\<close>: a pointer and two unsigned ints, on a 32-bit MIPS.\<close>

abbreviation sizeof_XGQueue :: int where
  "sizeof_XGQueue \<equiv> 12"

text \<open>
  The header of an item is written unconditionally after the allocation, so a negative
  \<open>datasize\<close> that still allocates makes that write leave the block.
\<close>

definition XGDataQueueFactory ::
  "xg_env \<Rightarrow> int \<Rightarrow> XGCore \<Rightarrow> (XGQueue option \<times> XGCore) c_result" where
  "XGDataQueueFactory env datasize core =
     (case XGMemalloc env (sizeof_XGQueue + datasize) core of
        (False, core) \<Rightarrow> Inr (None, core)
      | (True, core) \<Rightarrow>
          if datasize < 0 then Inl Out_Of_Bounds
          else Inr (Some \<lparr>q_deviceid = 0, q_dataSize = 0, q_data = replicate (nat datasize) 0\<rparr>,
                    core))"

definition XGDataQueueRelease :: "XGQueue \<Rightarrow> XGCore \<Rightarrow> XGCore" where
  "XGDataQueueRelease item core = XGFree core"

text \<open>\<^verbatim>\<open>XGConnectRelease\<close> frees the items of both send queues, then the connection.\<close>

definition XGConnectRelease :: "Connect \<Rightarrow> XGCore \<Rightarrow> XGCore" where
  "XGConnectRelease conn core =
     XGFree (fold XGDataQueueRelease (sv_sendQueue (server conn))
              (fold XGDataQueueRelease (cl_sendQueue (client conn)) core))"

lemma fold_XGDataQueueRelease [simp]:
  "fold XGDataQueueRelease q core = core\<lparr>memcount := memcount core - of_nat (length q)\<rparr>"
  by (induction q arbitrary: core) (simp_all add: XGDataQueueRelease_def XGFree_def algebra_simps)

lemma XGConnectRelease_eq:
  "XGConnectRelease conn core = core\<lparr>memcount := memcount core
     - of_nat (length (cl_sendQueue (client conn)))
     - of_nat (length (sv_sendQueue (server conn))) - 1\<rparr>"
  by (simp add: XGConnectRelease_def XGFree_def)

section \<open>The fixed header\<close>

text \<open>
  The first byte of every TCP message: on the little-endian target the bit fields are laid out
  from the low end, version (3 bits), response flag (1 bit), type (4 bits).
\<close>

definition msg_version :: "byte \<Rightarrow> byte" where
  "msg_version b = take_bit 3 b"

definition msg_resp :: "byte \<Rightarrow> byte" where
  "msg_resp b = of_bool (bit b 3)"

definition msg_type :: "byte \<Rightarrow> byte" where
  "msg_type b = take_bit 4 (drop_bit 4 b)"

definition XGMessage_byte :: "byte \<Rightarrow> byte \<Rightarrow> byte \<Rightarrow> byte" where
  "XGMessage_byte version resp type =
     take_bit 3 version OR push_bit 3 (of_bool (bit resp 0)) OR push_bit 4 (take_bit 4 type)"

abbreviation TCP_TYPE_ACTIVATE :: byte where "TCP_TYPE_ACTIVATE \<equiv> 0"
abbreviation TCP_TYPE_LOGIN :: byte where "TCP_TYPE_LOGIN \<equiv> 1"
abbreviation TCP_TYPE_CONNECT :: byte where "TCP_TYPE_CONNECT \<equiv> 2"
abbreviation TCP_TYPE_PIPE :: byte where "TCP_TYPE_PIPE \<equiv> 7"
abbreviation TCP_TYPE_PIPE_2 :: byte where "TCP_TYPE_PIPE_2 \<equiv> 8"
abbreviation TCP_TYPE_PING :: byte where "TCP_TYPE_PING \<equiv> 13"

datatype Relay = E_CONTINUE_RELAY | E_STOP_RELAY

section \<open>Access to a connection by position\<close>

definition upd_conn :: "nat \<Rightarrow> (Connect \<Rightarrow> Connect) \<Rightarrow> XGCore \<Rightarrow> XGCore" where
  "upd_conn i f core = core\<lparr>Connects := (Connects core)[i := f (Connects core ! i)]\<rparr>"

definition upd_client :: "nat \<Rightarrow> (Client \<Rightarrow> Client) \<Rightarrow> XGCore \<Rightarrow> XGCore" where
  "upd_client i f = upd_conn i (\<lambda>c. c\<lparr>client := f (client c)\<rparr>)"

definition upd_server :: "nat \<Rightarrow> (Server \<Rightarrow> Server) \<Rightarrow> XGCore \<Rightarrow> XGCore" where
  "upd_server i f = upd_conn i (\<lambda>c. c\<lparr>server := f (server c)\<rparr>)"

definition log_event :: "xg_event \<Rightarrow> XGCore \<Rightarrow> XGCore" where
  "log_event e core = core\<lparr>xlog := xlog core @ [e]\<rparr>"

text \<open>Appending at the tail of a send queue, which the code finds by walking the list.\<close>

definition queue_client :: "nat \<Rightarrow> XGQueue \<Rightarrow> XGCore \<Rightarrow> XGCore" where
  "queue_client i item = upd_client i (\<lambda>c. c\<lparr>cl_sendQueue := cl_sendQueue c @ [item]\<rparr>)"

definition queue_server :: "nat \<Rightarrow> XGQueue \<Rightarrow> XGCore \<Rightarrow> XGCore" where
  "queue_server i item = upd_server i (\<lambda>s. s\<lparr>sv_sendQueue := sv_sendQueue s @ [item]\<rparr>)"

lemmas upd_defs = upd_client_def upd_server_def upd_conn_def queue_client_def queue_server_def

lemma length_Connects_upd [simp]:
  "length (Connects (upd_conn i f core)) = length (Connects core)"
  "length (Connects (upd_client i g core)) = length (Connects core)"
  "length (Connects (upd_server i h core)) = length (Connects core)"
  by (simp_all add: upd_defs)

lemma bits_of_XGMessage:
  "msg_version (XGMessage_byte v r t) = take_bit 3 v"
  "msg_resp (XGMessage_byte v r t) = of_bool (bit r 0)"
  "msg_type (XGMessage_byte v r t) = take_bit 4 t"
  by (auto intro!: bit_word_eqI simp: msg_version_def msg_resp_def msg_type_def
      XGMessage_byte_def bit_simps)

end
