(* ===== verification/XGProtocol.thy ===== *)
theory XGProtocol imports XGTypes begin

text \<open>
  The TCP protocol of the gateway, \<^verbatim>\<open>src/XGProtocol.c\<close>: \<open>XGProtocolClient\<close> takes one message of a
  child device out of its receive buffer, answers or reports it, and relays what the gateway
  does not handle itself to the cloud; \<open>XGProtocolServer\<close> does the same in the other direction.
  Each handler works on the connection at a position of the core's list and returns the new
  core, or the fault it runs into.

  Lengths are the C \<^verbatim>\<open>int\<close>s: the body length of the header is read as a signed 32-bit value.
\<close>

section \<open>Operations\<close>

definition XGRemoveConnectByDeviceID :: "u32 \<Rightarrow> XGCore \<Rightarrow> XGCore" where
  "XGRemoveConnectByDeviceID deviceid core =
     core\<lparr>Connects := map (\<lambda>conn. if device_id conn = deviceid
        then conn\<lparr>isActive := False, client := (client conn)\<lparr>cl_islogined := False\<rparr>\<rparr>
        else conn) (Connects core)\<rparr>"

definition XGProDeviceConnectRequest :: "nat \<Rightarrow> XGQueue \<Rightarrow> XGCore \<Rightarrow> Relay \<times> XGCore" where
  "XGProDeviceConnectRequest i item core =
     (if q_dataSize item < 10
      then (E_STOP_RELAY, upd_conn i (\<lambda>c. c\<lparr>isActive := False,
              disconnectReason := E_DIS_CONNECT_REQUEST_ERROR\<rparr>) core)
      else
        let deviceid = UTIL_INT32_SET (q_data item ! 6) (q_data item ! 7)
                         (q_data item ! 8) (q_data item ! 9)
        in if deviceid \<noteq> 0
           then (E_CONTINUE_RELAY, upd_conn i (\<lambda>c. c\<lparr>device_id := deviceid\<rparr>)
                   (XGRemoveConnectByDeviceID deviceid core))
           else (E_STOP_RELAY, core))"

definition pipe_payload :: "XGQueue \<Rightarrow> bytes" where
  "pipe_payload item = drop 12 (take (unat (q_dataSize item)) (q_data item))"

definition pipe_peer :: "XGQueue \<Rightarrow> u32" where
  "pipe_peer item = UTIL_INT32_SET (q_data item ! 5) (q_data item ! 6)
                      (q_data item ! 7) (q_data item ! 8)"

definition pipe_msgid :: "XGQueue \<Rightarrow> u16" where
  "pipe_msgid item = UTIL_INT16_SET (q_data item ! 9) (q_data item ! 10)"

definition XGProDevicePipeSyncRequest :: "nat \<Rightarrow> XGQueue \<Rightarrow> XGCore \<Rightarrow> XGCore" where
  "XGProDevicePipeSyncRequest i item core =
     (if q_dataSize item < 12 then core
      else case config core of
          None \<Rightarrow> core
        | Some cfg \<Rightarrow>
            if has_OnRecvDataFormDevice cfg
            then log_event (Ev_RecvDataFormDevice (device_id (Connects core ! i)) 0
                   (pipe_msgid item) (pipe_payload item) (ucast (q_data item ! 11))) core
            else core)"

definition XGProDevicePipeRequest :: "nat \<Rightarrow> XGQueue \<Rightarrow> XGCore \<Rightarrow> XGCore" where
  "XGProDevicePipeRequest i item core =
     (if q_dataSize item < 12 then core
      else case config core of
          None \<Rightarrow> core
        | Some cfg \<Rightarrow>
            if has_OnRecvDataFormDevice cfg
            then log_event (Ev_RecvDataFormDevice (device_id (Connects core ! i)) (pipe_peer item)
                   (pipe_msgid item) (pipe_payload item) (ucast (q_data item ! 11))) core
            else core)"

text \<open>Writing an answer into a freshly allocated item.\<close>

definition fill_item :: "bytes \<Rightarrow> u32 \<Rightarrow> XGQueue \<Rightarrow> XGQueue" where
  "fill_item bs dev item =
     item\<lparr>q_dataSize := of_nat (length bs), q_deviceid := dev,
          q_data := memcpy_at 0 bs (q_data item)\<rparr>"

text \<open>The CONNECT branch: remember the login packet, check it, ask the user, answer.\<close>

definition XGProtocolClient_notify :: "xg_env \<Rightarrow> nat \<Rightarrow> XGConfig \<Rightarrow> XGCore \<Rightarrow> u32 \<times> XGCore" where
  "XGProtocolClient_notify env i cfg core =
     (let conn = Connects core ! i;
          (ret, core) = (case OnDeviceLogin cfg of
              None \<Rightarrow> (0, core)
            | Some login_cb \<Rightarrow> (login_cb (device_id conn) 0 (cl_Addr (client conn)),
                log_event (Ev_DeviceLogin (device_id conn) (cl_Addr (client conn))) core))
      in (ret, if ret = 0
           then upd_server i (\<lambda>s. s\<lparr>sv_status := E_SER_WAIT_CONECT\<rparr>)
                  (upd_client i (\<lambda>c. c\<lparr>cl_islogined := True,
                     cl_status := E_CLI_LOGINED, cl_time := env_now env\<rparr>) core)
           else core))"

definition XGProtocolClient_answer ::
  "xg_env \<Rightarrow> nat \<Rightarrow> byte \<Rightarrow> u32 \<Rightarrow> XGQueue \<Rightarrow> XGCore \<Rightarrow> XGCore c_result" where
  "XGProtocolClient_answer env i msg ret que core =
     c_bind (XGDataQueueFactory env 12 core) (\<lambda>(respitem, core).
       case respitem of
         None \<Rightarrow> Inr (XGDataQueueRelease que (upd_conn i (\<lambda>c. c\<lparr>isActive := False\<rparr>) core))
       | Some item \<Rightarrow> Inr (XGDataQueueRelease que
           (queue_client i (fill_item
              [XGMessage_byte (msg_version msg) 1 TCP_TYPE_CONNECT, 0, 0, 0, 2, ucast ret, 0]
              (device_id (Connects core ! i)) item) core)))"

definition XGProtocolClient_connect ::
  "xg_env \<Rightarrow> nat \<Rightarrow> byte \<Rightarrow> XGQueue \<Rightarrow> XGCore \<Rightarrow> XGCore c_result" where
  "XGProtocolClient_connect env i msg que core =
     c_bind (memcpy_chk 0 (take (unat (q_dataSize que)) (q_data que))
               (loginData (Connects core ! i))) (\<lambda>login.
       let core = upd_conn i (\<lambda>c. c\<lparr>loginData := login, loginDatalength := q_dataSize que\<rparr>) core;
           (relay, core) = XGProDeviceConnectRequest i que core
       in if relay = E_STOP_RELAY then Inr (XGDataQueueRelease que core)
          else case config core of
              None \<Rightarrow> Inl Null_Deref
            | Some cfg \<Rightarrow>
                (let (ret, core) = XGProtocolClient_notify env i cfg core
                 in XGProtocolClient_answer env i msg ret que core))"

text \<open>The PING branch: answer the device, and still pass the ping on to the cloud.\<close>

definition XGProtocolClient_ping ::
  "xg_env \<Rightarrow> nat \<Rightarrow> byte \<Rightarrow> XGQueue \<Rightarrow> XGCore \<Rightarrow> XGCore c_result" where
  "XGProtocolClient_ping env i msg que core =
     c_bind (XGDataQueueFactory env 9
               (upd_client i (\<lambda>c. c\<lparr>cl_time := env_now env\<rparr>) core)) (\<lambda>(respitem, core).
       case respitem of
         None \<Rightarrow> Inr (XGDataQueueRelease que core)
       | Some item \<Rightarrow> Inr (queue_server i que
           (queue_client i (fill_item
              [XGMessage_byte (msg_version msg) 1 TCP_TYPE_PING, 0, 0, 0, 0]
              (device_id (Connects core ! i)) item) core)))"

definition XGProtocolClient_handle ::
  "xg_env \<Rightarrow> nat \<Rightarrow> byte \<Rightarrow> XGQueue \<Rightarrow> XGCore \<Rightarrow> XGCore c_result" where
  "XGProtocolClient_handle env i msg que core =
     (if msg_type msg = TCP_TYPE_CONNECT then XGProtocolClient_connect env i msg que core
      else if msg_type msg = TCP_TYPE_PIPE \<and> msg_resp msg = 0
      then Inr (XGDataQueueRelease que (XGProDevicePipeRequest i que
                  (upd_client i (\<lambda>c. c\<lparr>cl_time := env_now env\<rparr>) core)))
      else if msg_type msg = TCP_TYPE_PIPE_2 \<and> msg_resp msg = 0
      then Inr (XGDataQueueRelease que (XGProDevicePipeSyncRequest i que
                  (upd_client i (\<lambda>c. c\<lparr>cl_time := env_now env\<rparr>) core)))
      else if msg_type msg = TCP_TYPE_PING then XGProtocolClient_ping env i msg que core
      else Inr (queue_server i que core))"

definition set_client_type :: "byte \<Rightarrow> Connect \<Rightarrow> Connect" where
  "set_client_type msg conn =
     (if msg_type msg = TCP_TYPE_ACTIVATE \<or> msg_type msg = TCP_TYPE_CONNECT
      then conn\<lparr>connect_type := CONNECT_DEVICE\<rparr>
      else if msg_type msg = TCP_TYPE_LOGIN then conn\<lparr>connect_type := CONNECT_APP\<rparr>
      else conn)"

text \<open>The item of a message of \<open>n\<close> bytes, copied out of the receive buffer.\<close>

definition taken_item :: "ByteQueue \<Rightarrow> u32 \<Rightarrow> XGQueue \<Rightarrow> XGQueue" where
  "taken_item q n que =
     que\<lparr>q_dataSize := n, q_data := memcpy_at 0 (snd (XGByteQueuePeer q n)) (q_data que)\<rparr>"

definition XGProtocolClient :: "xg_env \<Rightarrow> nat \<Rightarrow> XGCore \<Rightarrow> XGCore c_result" where
  "XGProtocolClient env i core =
     (let q = cl_recvBuffer (client (Connects core ! i));
          used = sint (XGByteQueueSize q)
      in if used < 5 then Inr core
         else
           let header = snd (XGByteQueuePeer q 5);
               total = UTIL_INT32_SET (header ! 1) (header ! 2) (header ! 3) (header ! 4) + 5
           in if sint total > used then Inr core
              else c_bind (XGDataQueueFactory env (sint total)
                             (upd_conn i (set_client_type (header ! 0)) core)) (\<lambda>(que, core).
                case que of
                  None \<Rightarrow> Inr core
                | Some que \<Rightarrow> XGProtocolClient_handle env i (header ! 0) (taken_item q total que)
                    (upd_client i (\<lambda>c. c\<lparr>cl_recvBuffer := XGByteQueuePop q total\<rparr>) core)))"

definition XGProServerDeviceConnectResponse :: "nat \<Rightarrow> XGCore \<Rightarrow> Relay \<times> XGCore" where
  "XGProServerDeviceConnectResponse i core =
     (E_CONTINUE_RELAY, upd_server i (\<lambda>s. s\<lparr>sv_status := E_SER_LOGINED, sv_islogined := True\<rparr>) core)"

definition XGProServerPipeRequest :: "nat \<Rightarrow> XGQueue \<Rightarrow> XGCore \<Rightarrow> Relay \<times> XGCore" where
  "XGProServerPipeRequest i item core =
     (if q_dataSize item < 12 then (E_STOP_RELAY, core)
      else case config core of
          None \<Rightarrow> (E_STOP_RELAY, core)
        | Some cfg \<Rightarrow>
            if has_OnRecvDataFormCloud cfg
            then (E_STOP_RELAY, log_event (Ev_RecvDataFormCloud (device_id (Connects core ! i))
                   (pipe_peer item) (pipe_msgid item) (pipe_payload item)
                   (ucast (q_data item ! 11))) core)
            else (E_CONTINUE_RELAY, core))"

definition set_server_type :: "byte \<Rightarrow> Connect \<Rightarrow> Connect" where
  "set_server_type msg conn =
     (if msg_type msg = TCP_TYPE_CONNECT then conn\<lparr>connect_type := CONNECT_DEVICE\<rparr>
      else if msg_type msg = TCP_TYPE_LOGIN then conn\<lparr>connect_type := CONNECT_APP\<rparr>
      else conn)"

definition XGProtocolServer_handle :: "nat \<Rightarrow> byte \<Rightarrow> XGQueue \<Rightarrow> XGCore \<Rightarrow> XGCore" where
  "XGProtocolServer_handle i msg que core =
     (let (relay, core) =
            (if msg_type msg = TCP_TYPE_CONNECT then XGProServerDeviceConnectResponse i core
             else if msg_type msg = TCP_TYPE_PIPE \<and> msg_resp msg = 0
             then XGProServerPipeRequest i que core
             else (E_CONTINUE_RELAY, core))
      in if relay = E_CONTINUE_RELAY then queue_client i que core else XGDataQueueRelease que core)"

definition XGProtocolServer :: "xg_env \<Rightarrow> nat \<Rightarrow> XGCore \<Rightarrow> XGCore c_result" where
  "XGProtocolServer env i core =
     (let q = sv_recvBuffer (server (Connects core ! i));
          used = sint (XGByteQueueSize q)
      in if used < 5 then Inr core
         else
           let header = snd (XGByteQueuePeer q 5);
               total = UTIL_INT32_SET (header ! 1) (header ! 2) (header ! 3) (header ! 4) + 5
           in if sint total > used then Inr core
              else c_bind (XGDataQueueFactory env (sint total)
                             (upd_conn i (set_server_type (header ! 0)) core)) (\<lambda>(que, core).
                case que of
                  None \<Rightarrow> Inr core
                | Some que \<Rightarrow> Inr (XGProtocolServer_handle i (header ! 0) (taken_item q total que)
                    (upd_server i (\<lambda>s. s\<lparr>sv_recvBuffer := XGByteQueuePop q total\<rparr>) core))))"

text \<open>One round for a connection: the counter runs on from the client's bytes to the server's.\<close>

definition XGProtocol :: "xg_env \<Rightarrow> nat \<Rightarrow> XGCore \<Rightarrow> XGCore c_result" where
  "XGProtocol env i core =
     (let n = sint (XGByteQueueSize (cl_recvBuffer (client (Connects core ! i)))) in
      c_bind (if n > 4 then XGProtocolClient env i core else Inr core) (\<lambda>core.
        let n = n + sint (XGByteQueueSize (sv_recvBuffer (server (Connects core ! i))))
        in if n > 4 then XGProtocolServer env i core else Inr core))"

section \<open>Frames\<close>

text \<open>
  A complete TCP message: a header byte, the length of the body in four bytes, the body. It is at
  most as long as the receive buffer.
\<close>

definition is_frame :: "bytes \<Rightarrow> bool" where
  "is_frame f \<longleftrightarrow> 5 \<le> length f \<and> length f \<le> BQ_BUFFER_SIZE \<and>
     unat (UTIL_INT32_SET (f ! 1) (f ! 2) (f ! 3) (f ! 4)) + 5 = length f"

definition frame_item :: "bytes \<Rightarrow> XGQueue" where
  "frame_item f = \<lparr>q_deviceid = 0, q_dataSize = of_nat (length f), q_data = f\<rparr>"

lemma frame_item_simps [simp]:
  "q_deviceid (frame_item f) = 0" "q_dataSize (frame_item f) = of_nat (length f)"
  "q_data (frame_item f) = f"
  by (simp_all add: frame_item_def)

lemma sint_u32_small:
  assumes "unat (w :: u32) < 2 ^ 31"
  shows "sint w = int (unat w)"
proof -
  have "int (unat w) < int (2 ^ 31)"
    using assms by (simp only: of_nat_less_iff)
  moreover have "- (2 ^ 31) \<le> int (unat w)"
    by (rule order_trans [of _ 0]) (simp_all only: of_nat_0_le_iff, simp)
  ultimately have "signed_take_bit 31 (int (unat w)) = int (unat w)"
    by (intro signed_take_bit_int_eq_self) simp_all
  then show ?thesis
    by (simp add: sint_uint)
qed

lemma is_frame_length:
  assumes "is_frame f"
  shows "UTIL_INT32_SET (f ! 1) (f ! 2) (f ! 3) (f ! 4) + 5 = of_nat (length f)"
    and "unat (of_nat (length f) :: u32) = length f"
    and "sint (of_nat (length f) :: u32) = int (length f)"
proof -
  have u: "unat (of_nat (length f) :: u32) = length f"
    using assms by (simp add: is_frame_def unat_of_nat)
  then show "unat (of_nat (length f) :: u32) = length f" .
  show "sint (of_nat (length f) :: u32) = int (length f)"
    using assms u by (subst sint_u32_small) (simp_all add: is_frame_def)
  have "of_nat (unat (UTIL_INT32_SET (f ! 1) (f ! 2) (f ! 3) (f ! 4)) + 5) = (of_nat (length f) :: u32)"
    using assms by (simp only: is_frame_def)
  then show "UTIL_INT32_SET (f ! 1) (f ! 2) (f ! 3) (f ! 4) + 5 = of_nat (length f)"
    by simp
qed

lemma sint_XGByteQueueSize: "bq_inv q \<Longrightarrow> sint (XGByteQueueSize q) = int (length (bq_contents q))"
  by (subst sint_u32_small) (auto simp: bq_inv_def)


text \<open>
  Taking a complete message out of the receive buffer: whatever is behind it stays, and the item
  handed to the handler is exactly the message.
\<close>

definition take_client_frame :: "nat \<Rightarrow> bytes \<Rightarrow> XGCore \<Rightarrow> XGCore" where
  "take_client_frame i f core =
     upd_client i (\<lambda>c. c\<lparr>cl_recvBuffer := XGByteQueuePop (cl_recvBuffer c) (of_nat (length f))\<rparr>)
       (upd_conn i (set_client_type (f ! 0)) (core\<lparr>memcount := memcount core + 1\<rparr>))"

definition take_server_frame :: "nat \<Rightarrow> bytes \<Rightarrow> XGCore \<Rightarrow> XGCore" where
  "take_server_frame i f core =
     upd_server i (\<lambda>s. s\<lparr>sv_recvBuffer := XGByteQueuePop (sv_recvBuffer s) (of_nat (length f))\<rparr>)
       (upd_conn i (set_server_type (f ! 0)) (core\<lparr>memcount := memcount core + 1\<rparr>))"

lemma set_type_keeps [simp]:
  "client (set_client_type m c) = client c" "server (set_client_type m c) = server c"
  "client (set_server_type m c) = client c" "server (set_server_type m c) = server c"
  "device_id (set_client_type m c) = device_id c" "device_id (set_server_type m c) = device_id c"
  "isActive (set_client_type m c) = isActive c" "isActive (set_server_type m c) = isActive c"
  "loginData (set_client_type m c) = loginData c" "loginData (set_server_type m c) = loginData c"
  by (simp_all add: set_client_type_def set_server_type_def)

lemma peek_frame:
  assumes "bq_inv q" "bq_contents q = f @ rest" "is_frame f"
  shows "snd (XGByteQueuePeer q 5) ! 0 = f ! 0"
    and "UTIL_INT32_SET (snd (XGByteQueuePeer q 5) ! 1) (snd (XGByteQueuePeer q 5) ! 2)
           (snd (XGByteQueuePeer q 5) ! 3) (snd (XGByteQueuePeer q 5) ! 4) + 5 = of_nat (length f)"
    and "snd (XGByteQueuePeer q (of_nat (length f))) = f"
    and "sint (XGByteQueueSize q) = int (length f + length rest)"
proof -
  have 5: "5 \<le> length f"
    using assms(3) by (simp add: is_frame_def)
  have n: "snd (XGByteQueuePeer q 5) ! k = f ! k" if "k < 5" for k
    using bq.peek_contents [OF assms(1), of 5] that 5 by (simp add: assms(2) nth_append)
  show "snd (XGByteQueuePeer q 5) ! 0 = f ! 0"
    by (simp add: n)
  show "UTIL_INT32_SET (snd (XGByteQueuePeer q 5) ! 1) (snd (XGByteQueuePeer q 5) ! 2)
           (snd (XGByteQueuePeer q 5) ! 3) (snd (XGByteQueuePeer q 5) ! 4) + 5 = of_nat (length f)"
    by (simp add: n is_frame_length(1) [OF assms(3)] del: One_nat_def)
  show "snd (XGByteQueuePeer q (of_nat (length f))) = f"
    using bq.peek_prefix [OF assms(1,2)] is_frame_length(2) [OF assms(3)] by simp
  show "sint (XGByteQueueSize q) = int (length f + length rest)"
    by (simp add: sint_XGByteQueueSize [OF assms(1)] assms(2) del: length_bq_contents)
qed

lemma client_take_frame:
  assumes "i < length (Connects core)"
    and "bq_inv (cl_recvBuffer (client (Connects core ! i)))"
    and "bq_contents (cl_recvBuffer (client (Connects core ! i))) = f @ rest"
    and "is_frame f" and "env_malloc env (12 + int (length f))"
  shows "XGProtocolClient env i core =
    XGProtocolClient_handle env i (f ! 0) (frame_item f) (take_client_frame i f core)"
proof -
  note p = peek_frame [OF assms(2,3,4)]
  have 5: "5 \<le> length f"
    using assms(4) by (simp add: is_frame_def)
  show ?thesis
    using assms(1,5) 5
    by (simp add: XGProtocolClient_def Let_def p is_frame_length [OF assms(4)]
        XGDataQueueFactory_def XGMemalloc_def take_client_frame_def frame_item_def upd_defs
        taken_item_def         memcpy_at_def del: One_nat_def)
qed

lemma server_take_frame:
  assumes "i < length (Connects core)"
    and "bq_inv (sv_recvBuffer (server (Connects core ! i)))"
    and "bq_contents (sv_recvBuffer (server (Connects core ! i))) = f @ rest"
    and "is_frame f" and "env_malloc env (12 + int (length f))"
  shows "XGProtocolServer env i core =
    Inr (XGProtocolServer_handle i (f ! 0) (frame_item f) (take_server_frame i f core))"
proof -
  note p = peek_frame [OF assms(2,3,4)]
  have 5: "5 \<le> length f"
    using assms(4) by (simp add: is_frame_def)
  show ?thesis
    using assms(1,5) 5
    by (simp add: XGProtocolServer_def Let_def p is_frame_length [OF assms(4)]
        XGDataQueueFactory_def XGMemalloc_def take_server_frame_def frame_item_def upd_defs
        taken_item_def         memcpy_at_def del: One_nat_def)
qed


section \<open>The handlers on a complete message\<close>

text \<open>Messages of a device that the gateway passes on without acting on them.\<close>

definition relayed_up :: "bytes \<Rightarrow> bool" where
  "relayed_up f \<longleftrightarrow> msg_type (f ! 0) \<noteq> TCP_TYPE_CONNECT \<and> msg_type (f ! 0) \<noteq> TCP_TYPE_PING \<and>
     \<not> (msg_type (f ! 0) \<in> {TCP_TYPE_PIPE, TCP_TYPE_PIPE_2} \<and> msg_resp (f ! 0) = 0)"

lemma handle_relayed:
  "relayed_up f \<Longrightarrow> XGProtocolClient_handle env i (f ! 0) que core = Inr (queue_server i que core)"
  by (auto simp: XGProtocolClient_handle_def relayed_up_def)

text \<open>What is in a receive buffer, and how it and the queues change when a message is relayed.\<close>

abbreviation client_in :: "XGCore \<Rightarrow> nat \<Rightarrow> bytes" where
  "client_in core i \<equiv> bq_contents (cl_recvBuffer (client (Connects core ! i)))"

abbreviation server_in :: "XGCore \<Rightarrow> nat \<Rightarrow> bytes" where
  "server_in core i \<equiv> bq_contents (sv_recvBuffer (server (Connects core ! i)))"

definition recv_ok :: "XGCore \<Rightarrow> nat \<Rightarrow> bool" where
  "recv_ok core i \<longleftrightarrow> i < length (Connects core)
     \<and> bq_inv (cl_recvBuffer (client (Connects core ! i)))
     \<and> bq_inv (sv_recvBuffer (server (Connects core ! i)))"

lemma take_client_frame_facts:
  assumes "recv_ok core i" "client_in core i = f @ rest" "is_frame f"
  shows "client_in (take_client_frame i f core) i = rest"
    and "recv_ok (take_client_frame i f core) i"
    and "server_in (take_client_frame i f core) i = server_in core i"
    and "sv_sendQueue (server (Connects (take_client_frame i f core) ! i)) =
         sv_sendQueue (server (Connects core ! i))"
    and "cl_sendQueue (client (Connects (take_client_frame i f core) ! i)) =
         cl_sendQueue (client (Connects core ! i))"
  using assms bq.pop_prefix [of "cl_recvBuffer (client (Connects core ! i))" f rest "of_nat (length f)"]
    bq.pop_invar [of "cl_recvBuffer (client (Connects core ! i))"] is_frame_length(2) [OF assms(3)]
  by (auto simp: take_client_frame_def recv_ok_def upd_defs)

lemma queue_server_facts [simp]:
  assumes "i < length (Connects core)"
  shows "cl_recvBuffer (client (Connects (queue_server i que core) ! i)) =
         cl_recvBuffer (client (Connects core ! i))"
    and "sv_recvBuffer (server (Connects (queue_server i que core) ! i)) =
         sv_recvBuffer (server (Connects core ! i))"
    and "cl_sendQueue (client (Connects (queue_server i que core) ! i)) =
         cl_sendQueue (client (Connects core ! i))"
    and "sv_sendQueue (server (Connects (queue_server i que core) ! i)) =
         sv_sendQueue (server (Connects core ! i)) @ [que]"
  using assms by (simp_all add: upd_defs)

lemma recv_ok_queue_server [simp]: "recv_ok (queue_server i que core) i \<longleftrightarrow> recv_ok core i"
  by (auto simp: recv_ok_def upd_defs)

text \<open>The rounds of the core loop in which a connection only has messages to relay.\<close>

lemma client_relay_stream:
  assumes "recv_ok core i" and "client_in core i = concat fs @ rest"
    and "list_all (\<lambda>f. is_frame f \<and> relayed_up f) fs" and "\<And>n. env_malloc env n"
  shows "\<exists>core'. c_iter (length fs) (XGProtocolClient env i) core = Inr core' \<and> recv_ok core' i
    \<and> client_in core' i = rest
    \<and> sv_sendQueue (server (Connects core' ! i)) =
        sv_sendQueue (server (Connects core ! i)) @ map frame_item fs
    \<and> cl_sendQueue (client (Connects core' ! i)) = cl_sendQueue (client (Connects core ! i))
    \<and> xlog core' = xlog core \<and> memcount core' = memcount core + of_nat (length fs)"
  using assms(1-3)
proof (induction fs arbitrary: core)
  case Nil
  then show ?case by simp
next
  case (Cons f fs)
  let ?core = "queue_server i (frame_item f) (take_client_frame i f core)"
  have f: "is_frame f" "relayed_up f" and fs: "list_all (\<lambda>f. is_frame f \<and> relayed_up f) fs"
    and c: "client_in core i = f @ (concat fs @ rest)"
    using Cons.prems by simp_all
  note t = take_client_frame_facts [OF Cons.prems(1) c f(1)]
  have i: "i < length (Connects (take_client_frame i f core))"
    using t(2) by (simp add: recv_ok_def)
  have step: "XGProtocolClient env i core = Inr ?core"
    using Cons.prems(1) c f assms(4)
    by (simp add: recv_ok_def handle_relayed client_take_frame [OF _ _ c f(1)])
  have ok: "recv_ok ?core i" and rest: "client_in ?core i = concat fs @ rest"
    using t i by simp_all
  have m: "memcount ?core = memcount core + 1" "xlog ?core = xlog core"
    by (simp_all add: take_client_frame_def upd_defs)
  show ?case
    using Cons.IH [OF ok rest fs] i t m by (auto simp: step ac_simps)
qed


lemma take_client_frame_other:
  assumes "msg_type (f ! 0) \<notin> {TCP_TYPE_ACTIVATE, TCP_TYPE_CONNECT, TCP_TYPE_LOGIN}"
    and "i < length (Connects core)"
  shows "take_client_frame i f core =
    upd_client i (\<lambda>c. c\<lparr>cl_recvBuffer := XGByteQueuePop (cl_recvBuffer c) (of_nat (length f))\<rparr>)
      (core\<lparr>memcount := memcount core + 1\<rparr>)"
  using assms by (simp add: take_client_frame_def set_client_type_def upd_defs)

text \<open>The bytes of a pass-through message of protocol version 3.\<close>

definition pipe_frame :: "byte \<Rightarrow> u32 \<Rightarrow> u16 \<Rightarrow> byte \<Rightarrow> bytes \<Rightarrow> bytes" where
  "pipe_frame hdr peer msgid flag data =
     hdr # (let n = of_nat (length data + 7) in
       [UTIL_INT32_GET_BIT3 n, UTIL_INT32_GET_BIT2 n, UTIL_INT32_GET_BIT1 n, UTIL_INT32_GET_BIT0 n])
     @ [UTIL_INT32_GET_BIT3 peer, UTIL_INT32_GET_BIT2 peer, UTIL_INT32_GET_BIT1 peer,
        UTIL_INT32_GET_BIT0 peer,
        UTIL_INT16_GET_BITH (ucast msgid), UTIL_INT16_GET_BITL (ucast msgid), flag] @ data"

lemma length_pipe_frame [simp]: "length (pipe_frame hdr peer msgid flag data) = length data + 12"
  by (simp add: pipe_frame_def Let_def)

lemma nth_pipe_frame [simp]:
  "pipe_frame hdr peer msgid flag data ! 0 = hdr"
  "pipe_frame hdr peer msgid flag data ! 5 = UTIL_INT32_GET_BIT3 peer"
  "pipe_frame hdr peer msgid flag data ! 6 = UTIL_INT32_GET_BIT2 peer"
  "pipe_frame hdr peer msgid flag data ! 7 = UTIL_INT32_GET_BIT1 peer"
  "pipe_frame hdr peer msgid flag data ! 8 = UTIL_INT32_GET_BIT0 peer"
  "pipe_frame hdr peer msgid flag data ! 9 = UTIL_INT16_GET_BITH (ucast msgid)"
  "pipe_frame hdr peer msgid flag data ! 10 = UTIL_INT16_GET_BITL (ucast msgid)"
  "pipe_frame hdr peer msgid flag data ! 11 = flag"
  "drop 12 (pipe_frame hdr peer msgid flag data) = data"
  by (simp_all add: pipe_frame_def Let_def eval_nat_numeral)

lemma is_frame_pipe:
  assumes "length data \<le> 2036"
  shows "is_frame (pipe_frame hdr peer msgid flag data)"
proof -
  have "unat (of_nat (length data + 7) :: u32) = length data + 7"
    using assms by (intro unat_of_nat_u32) simp
  moreover have "UTIL_INT32_SET (pipe_frame hdr peer msgid flag data ! 1)
      (pipe_frame hdr peer msgid flag data ! 2) (pipe_frame hdr peer msgid flag data ! 3)
      (pipe_frame hdr peer msgid flag data ! 4) = of_nat (length data + 7)"
    by (simp add: pipe_frame_def Let_def eval_nat_numeral)
  ultimately show ?thesis
    using assms by (simp add: is_frame_def del: of_nat_add)
qed

lemma pipe_item_fields:
  assumes "length data \<le> 2036"
  shows "pipe_payload (frame_item (pipe_frame hdr peer msgid flag data)) = data"
    and "pipe_peer (frame_item (pipe_frame hdr peer msgid flag data)) = peer"
    and "pipe_msgid (frame_item (pipe_frame hdr peer msgid flag data)) = msgid"
    and "\<not> q_dataSize (frame_item (pipe_frame hdr peer msgid flag data)) < 12"
proof -
  have u: "unat (of_nat (length data + 12) :: u32) = length data + 12"
    using assms by (intro unat_of_nat_u32) simp
  then show "\<not> q_dataSize (frame_item (pipe_frame hdr peer msgid flag data)) < 12"
    by (simp add: word_less_nat_alt del: of_nat_add)
  show "pipe_payload (frame_item (pipe_frame hdr peer msgid flag data)) = data"
    using u by (simp add: pipe_payload_def del: of_nat_add)
  show "pipe_peer (frame_item (pipe_frame hdr peer msgid flag data)) = peer"
    "pipe_msgid (frame_item (pipe_frame hdr peer msgid flag data)) = msgid"
    by (simp_all add: pipe_peer_def pipe_msgid_def)
qed

lemma client_pipe_up:
  assumes "recv_ok core i" and "client_in core i = pipe_frame hdr peer msgid flag data @ rest"
    and "length data \<le> 2036" and "msg_type hdr = TCP_TYPE_PIPE" and "msg_resp hdr = 0"
    and "config core = Some cfg" and "has_OnRecvDataFormDevice cfg"
    and "\<And>n. env_malloc env n"
  shows "XGProtocolClient env i core =
    Inr (log_event (Ev_RecvDataFormDevice (device_id (Connects core ! i)) peer msgid data (ucast flag))
      (upd_client i (\<lambda>c. c\<lparr>cl_recvBuffer := XGByteQueuePop (cl_recvBuffer c) (of_nat (length data + 12)),
                          cl_time := env_now env\<rparr>) core))"
proof -
  let ?f = "pipe_frame hdr peer msgid flag data"
  have i: "i < length (Connects core)"
    using assms(1) by (simp add: recv_ok_def)
  have t: "msg_type (?f ! 0) \<notin> {TCP_TYPE_ACTIVATE, TCP_TYPE_CONNECT, TCP_TYPE_LOGIN}"
    using assms(4) by simp
  have step: "XGProtocolClient env i core =
      XGProtocolClient_handle env i (?f ! 0) (frame_item ?f) (take_client_frame i ?f core)"
    using assms(1,2,8) by (intro client_take_frame is_frame_pipe assms(3)) (auto simp: recv_ok_def)
  show ?thesis
    unfolding step take_client_frame_other [OF t i]
    using i assms(4-7)
    by (simp add: XGProtocolClient_handle_def XGProDevicePipeRequest_def upd_defs log_event_def
        XGDataQueueRelease_def XGFree_def pipe_item_fields [OF assms(3)] del: frame_item_simps)
       (simp add: frame_item_def)
qed


text \<open>What goes out on the wire when an item is sent.\<close>

definition item_bytes :: "XGQueue \<Rightarrow> bytes" where
  "item_bytes it = take (unat (q_dataSize it)) (q_data it)"

lemma item_bytes_fill [simp]:
  "length bs < 2 ^ 32 \<Longrightarrow> item_bytes (fill_item bs dev it) = bs"
  by (simp add: item_bytes_def fill_item_def unat_of_nat)

lemma item_bytes_frame [simp]: "is_frame f \<Longrightarrow> item_bytes (frame_item f) = f"
  by (simp add: item_bytes_def is_frame_length(2))

definition connect_id :: "bytes \<Rightarrow> u32" where
  "connect_id f = UTIL_INT32_SET (f ! 6) (f ! 7) (f ! 8) (f ! 9)"

definition login_result :: "XGConfig \<Rightarrow> u32 \<Rightarrow> sockaddr_in \<Rightarrow> u32" where
  "login_result cfg dev addr = (case OnDeviceLogin cfg of None \<Rightarrow> 0 | Some cb \<Rightarrow> cb dev 0 addr)"

lemma nth_remove_connect [simp]:
  "j < length (Connects core) \<Longrightarrow> Connects (XGRemoveConnectByDeviceID d core) ! j =
     (if device_id (Connects core ! j) = d
      then (Connects core ! j)\<lparr>isActive := False,
             client := (client (Connects core ! j))\<lparr>cl_islogined := False\<rparr>\<rparr>
      else Connects core ! j)"
  by (simp add: XGRemoveConnectByDeviceID_def)

lemma remove_connect_simps [simp]:
  "length (Connects (XGRemoveConnectByDeviceID d core)) = length (Connects core)"
  "config (XGRemoveConnectByDeviceID d core) = config core"
  "xlog (XGRemoveConnectByDeviceID d core) = xlog core"
  "memcount (XGRemoveConnectByDeviceID d core) = memcount core"
  "ConnectTasks (XGRemoveConnectByDeviceID d core) = ConnectTasks core"
  "ConnectTasksResult (XGRemoveConnectByDeviceID d core) = ConnectTasksResult core"
  "ClientSendQueue (XGRemoveConnectByDeviceID d core) = ClientSendQueue core"
  "CloudSendQueue (XGRemoveConnectByDeviceID d core) = CloudSendQueue core"
  by (simp_all add: XGRemoveConnectByDeviceID_def)

text \<open>The CONNECT handler on a login packet that fits the cache, once the user's answer is known.\<close>

definition connect_answer :: "byte \<Rightarrow> u32 \<Rightarrow> bytes" where
  "connect_answer msg ret =
     [XGMessage_byte (msg_version msg) 1 TCP_TYPE_CONNECT, 0, 0, 0, 2, ucast ret, 0]"

lemma handle_connect:
  assumes "i < length (Connects core)" "10 \<le> length f" "length f \<le> 64"
    and "length (loginData (Connects core ! i)) = 64"
    and "connect_id f \<noteq> 0" "config core = Some cfg" "env_malloc env 24"
  defines "ret \<equiv> login_result cfg (connect_id f) (cl_Addr (client (Connects core ! i)))"
  shows "\<exists>core'. XGProtocolClient_connect env i msg (frame_item f) core = Inr core'
    \<and> length (Connects core') = length (Connects core)
    \<and> (\<forall>j < length (Connects core). j \<noteq> i \<longrightarrow> Connects core' ! j =
          (if device_id (Connects core ! j) = connect_id f
           then (Connects core ! j)\<lparr>isActive := False,
                  client := (client (Connects core ! j))\<lparr>cl_islogined := False\<rparr>\<rparr>
           else Connects core ! j))
    \<and> (let c = Connects core ! i; c' = Connects core' ! i in
         device_id c' = connect_id f \<and> connect_type c' = connect_type c
         \<and> isActive c' = (isActive c \<and> device_id c \<noteq> connect_id f)
         \<and> take (length f) (loginData c') = f \<and> loginDatalength c' = of_nat (length f)
         \<and> (if ret = 0
             then cl_islogined (client c') \<and> cl_status (client c') = E_CLI_LOGINED
                \<and> cl_time (client c') = env_now env \<and> sv_status (server c') = E_SER_WAIT_CONECT
             else cl_status (client c') = cl_status (client c) \<and> server c' = server c)
         \<and> map item_bytes (cl_sendQueue (client c')) =
             map item_bytes (cl_sendQueue (client c)) @ [connect_answer msg ret]
         \<and> sv_sendQueue (server c') = sv_sendQueue (server c)
         \<and> cl_recvBuffer (client c') = cl_recvBuffer (client c))
    \<and> xlog core' = xlog core @ (if OnDeviceLogin cfg = None then []
         else [Ev_DeviceLogin (connect_id f) (cl_Addr (client (Connects core ! i)))])
    \<and> memcount core' = memcount core"
proof -
  have u: "unat (of_nat (length f) :: u32) = length f"
    using assms(3) by (intro unat_of_nat_u32) simp
  have n10: "\<not> (of_nat (length f) :: u32) < 10"
    using assms(2) u by (simp add: word_less_nat_alt)
  show ?thesis
    using assms(1-7) u
    by (cases "OnDeviceLogin cfg")
      (auto simp: XGProtocolClient_connect_def XGProtocolClient_notify_def XGProtocolClient_answer_def
        Let_def memcpy_chk_def n10 frame_item_def
        XGProDeviceConnectRequest_def upd_defs connect_id_def ret_def login_result_def
        XGDataQueueFactory_def XGMemalloc_def XGDataQueueRelease_def XGFree_def log_event_def
        connect_answer_def nth_list_update split: if_splits)
qed


section \<open>The invariant of the connection list\<close>

definition item_ok :: "XGQueue \<Rightarrow> bool" where
  "item_ok it \<longleftrightarrow> unat (q_dataSize it) \<le> length (q_data it)"

definition conn_ok :: "Connect \<Rightarrow> bool" where
  "conn_ok c \<longleftrightarrow> bq_inv (cl_recvBuffer (client c)) \<and> bq_inv (sv_recvBuffer (server c))
     \<and> length (loginData c) = 64 \<and> unat (loginDatalength c) \<le> 64
     \<and> list_all item_ok (cl_sendQueue (client c)) \<and> list_all item_ok (sv_sendQueue (server c))"

text \<open>At most one live connection speaks for a device.\<close>

definition unique_ids :: "Connect list \<Rightarrow> bool" where
  "unique_ids cs \<longleftrightarrow> (\<forall>j < length cs. \<forall>k < length cs. j \<noteq> k \<longrightarrow> isActive (cs ! j) \<longrightarrow>
     isActive (cs ! k) \<longrightarrow> device_id (cs ! j) = device_id (cs ! k) \<longrightarrow> device_id (cs ! j) = 0)"

definition core_inv :: "XGCore \<Rightarrow> bool" where
  "core_inv core \<longleftrightarrow> list_all conn_ok (Connects core) \<and> unique_ids (Connects core)"

text \<open>
  The allocator's counter less the objects that are still reachable: it stays the same as long as
  nothing leaks and nothing is freed twice.
\<close>

definition conn_items :: "Connect \<Rightarrow> nat" where
  "conn_items c = length (cl_sendQueue (client c)) + length (sv_sendQueue (server c))"

definition live_objects :: "XGCore \<Rightarrow> nat" where
  "live_objects core = length (Connects core) + sum_list (map conn_items (Connects core))
     + length (ConnectTasks core) + length (ConnectTasksResult core)
     + length (ClientSendQueue core) + length (CloudSendQueue core)"

definition mem_balance :: "XGCore \<Rightarrow> u32" where
  "mem_balance core = memcount core - of_nat (live_objects core)"

lemma conn_ok_nth: "core_inv core \<Longrightarrow> i < length (Connects core) \<Longrightarrow> conn_ok (Connects core ! i)"
  by (simp add: core_inv_def list_all_length)

lemma unique_ids_list_update:
  assumes "unique_ids cs" and "device_id c = device_id (cs ! i)" and "isActive c \<longrightarrow> isActive (cs ! i)"
  shows "unique_ids (cs[i := c])"
proof -
  have "device_id (cs[i := c] ! j) = device_id (cs ! j) \<and> (isActive (cs[i := c] ! j) \<longrightarrow> isActive (cs ! j))"
    if "j < length cs" for j
    using that assms(2,3) by (cases "i = j") simp_all
  then show ?thesis
    using assms(1) unfolding unique_ids_def by (metis length_list_update)
qed

lemma core_inv_upd_conn:
  assumes "core_inv core" and "i < length (Connects core)"
    and "conn_ok (Connects core ! i) \<Longrightarrow> conn_ok (f (Connects core ! i))"
    and "device_id (f (Connects core ! i)) = device_id (Connects core ! i)"
    and "isActive (f (Connects core ! i)) \<longrightarrow> isActive (Connects core ! i)"
  shows "core_inv (upd_conn i f core)"
  using assms unfolding core_inv_def upd_conn_def
  by (auto simp: list_all_length nth_list_update intro!: unique_ids_list_update list_all_update)

lemma mem_balance_upd_conn:
  assumes "i < length (Connects core)"
  shows "mem_balance (upd_conn i f core) =
    mem_balance core + of_nat (conn_items (Connects core ! i)) - of_nat (conn_items (f (Connects core ! i)))"
proof -
  have le: "conn_items (Connects core ! i) \<le> sum_list (map conn_items (Connects core))"
    using assms by (intro elem_le_sum_list [of i "map conn_items (Connects core)", simplified])
  have "live_objects (upd_conn i f core) + conn_items (Connects core ! i) =
      live_objects core + conn_items (f (Connects core ! i))"
    using assms le by (simp add: live_objects_def upd_conn_def map_update sum_list_update)
  then have "(of_nat (live_objects (upd_conn i f core)) + of_nat (conn_items (Connects core ! i)) :: u32) =
      of_nat (live_objects core) + of_nat (conn_items (f (Connects core ! i)))"
    by (metis of_nat_add)
  then show ?thesis
    by (simp add: mem_balance_def upd_conn_def algebra_simps)
qed

lemma mem_balance_simps [simp]:
  "mem_balance (core\<lparr>memcount := n\<rparr>) = mem_balance core - memcount core + n"
  "mem_balance (log_event e core) = mem_balance core"
  by (simp_all add: mem_balance_def live_objects_def log_event_def)

lemma core_inv_simps [simp]:
  "core_inv (core\<lparr>memcount := n\<rparr>) = core_inv core" "core_inv (log_event e core) = core_inv core"
  by (simp_all add: core_inv_def log_event_def)

lemma core_inv_remove:
  assumes "core_inv core"
  shows "core_inv (XGRemoveConnectByDeviceID d core)"
    and "j < length (Connects core) \<Longrightarrow> device_id (Connects (XGRemoveConnectByDeviceID d core) ! j) = d
      \<Longrightarrow> \<not> isActive (Connects (XGRemoveConnectByDeviceID d core) ! j)"
proof -
  show "core_inv (XGRemoveConnectByDeviceID d core)"
    using assms by (simp add: core_inv_def list_all_length conn_ok_def unique_ids_def)
  show "j < length (Connects core) \<Longrightarrow> device_id (Connects (XGRemoveConnectByDeviceID d core) ! j) = d
      \<Longrightarrow> \<not> isActive (Connects (XGRemoveConnectByDeviceID d core) ! j)"
    by (simp split: if_splits)
qed

lemma mem_balance_remove [simp]: "mem_balance (XGRemoveConnectByDeviceID d core) = mem_balance core"
proof -
  have "map conn_items (Connects (XGRemoveConnectByDeviceID d core)) = map conn_items (Connects core)"
    by (simp add: XGRemoveConnectByDeviceID_def conn_items_def)
  then show "mem_balance (XGRemoveConnectByDeviceID d core) = mem_balance core"
    unfolding mem_balance_def live_objects_def by (simp only: remove_connect_simps)
qed


text \<open>What every step of the handlers keeps: the invariant, the list's length, the configuration.\<close>

definition keeps :: "XGCore \<Rightarrow> XGCore \<Rightarrow> bool" where
  "keeps core core' \<longleftrightarrow> (core_inv core \<longrightarrow> core_inv core')
     \<and> length (Connects core') = length (Connects core) \<and> config core' = config core"

lemma keeps_refl [simp]: "keeps core core"
  by (simp add: keeps_def)

lemma keeps_trans [trans]: "keeps a b \<Longrightarrow> keeps b c \<Longrightarrow> keeps a c"
  by (auto simp: keeps_def)

lemma config_upd [simp]: "config (upd_conn i f core) = config core"
  by (simp add: upd_conn_def)

lemma keeps_upd_conn:
  assumes "i < length (Connects core)"
    and "conn_ok (Connects core ! i) \<Longrightarrow> conn_ok (f (Connects core ! i))"
    and "device_id (f (Connects core ! i)) = device_id (Connects core ! i)"
    and "isActive (f (Connects core ! i)) \<longrightarrow> isActive (Connects core ! i)"
  shows "keeps core (upd_conn i f core)"
  using assms core_inv_upd_conn [of core i f] by (simp add: keeps_def)

lemma keeps_log_event [simp]: "keeps core (log_event e core)"
  by (simp add: keeps_def log_event_def core_inv_def)

lemma keeps_memcount [simp]: "keeps core (core\<lparr>memcount := n\<rparr>)"
  by (simp add: keeps_def)

lemma keeps_release [simp]: "keeps core (XGDataQueueRelease que core)"
  by (simp add: XGDataQueueRelease_def XGFree_def)

lemma mem_balance_release [simp]: "mem_balance (XGDataQueueRelease que core) = mem_balance core - 1"
  by (simp add: XGDataQueueRelease_def XGFree_def)

lemma conn_ok_simps [simp]:
  "conn_ok (c\<lparr>isActive := a\<rparr>) = conn_ok c" "conn_ok (c\<lparr>disconnectReason := r\<rparr>) = conn_ok c"
  "conn_ok (c\<lparr>device_id := d\<rparr>) = conn_ok c" "conn_ok (set_client_type m c) = conn_ok c"
  "conn_ok (set_server_type m c) = conn_ok c"
  by (simp_all add: conn_ok_def set_client_type_def set_server_type_def)

lemma conn_items_simps [simp]:
  "conn_items (c\<lparr>isActive := a\<rparr>) = conn_items c"
  "conn_items (c\<lparr>disconnectReason := r\<rparr>) = conn_items c"
  "conn_items (c\<lparr>device_id := d\<rparr>) = conn_items c"
  "conn_items (set_client_type m c) = conn_items c"
  "conn_items (set_server_type m c) = conn_items c"
  by (simp_all add: conn_items_def)

lemma queue_client_keeps:
  assumes "i < length (Connects core)" "item_ok it"
  shows "keeps core (queue_client i it core)"
    and "mem_balance (queue_client i it core) = mem_balance core - 1"
  using assms unfolding queue_client_def upd_client_def
  by (auto intro!: keeps_upd_conn simp: conn_ok_def mem_balance_upd_conn conn_items_def)

lemma queue_server_keeps:
  assumes "i < length (Connects core)" "item_ok it"
  shows "keeps core (queue_server i it core)"
    and "mem_balance (queue_server i it core) = mem_balance core - 1"
  using assms unfolding queue_server_def upd_server_def
  by (auto intro!: keeps_upd_conn simp: conn_ok_def mem_balance_upd_conn conn_items_def)

lemma upd_client_keeps:
  assumes "i < length (Connects core)"
    and "bq_inv (cl_recvBuffer (client (Connects core ! i))) \<Longrightarrow>
      bq_inv (cl_recvBuffer (f (client (Connects core ! i))))"
    and "cl_sendQueue (f (client (Connects core ! i))) = cl_sendQueue (client (Connects core ! i))"
  shows "keeps core (upd_client i f core)"
    and "mem_balance (upd_client i f core) = mem_balance core"
  using assms unfolding upd_client_def
  by (auto intro!: keeps_upd_conn simp: conn_ok_def mem_balance_upd_conn conn_items_def)

lemma upd_server_keeps:
  assumes "i < length (Connects core)"
    and "bq_inv (sv_recvBuffer (server (Connects core ! i))) \<Longrightarrow>
      bq_inv (sv_recvBuffer (f (server (Connects core ! i))))"
    and "sv_sendQueue (f (server (Connects core ! i))) = sv_sendQueue (server (Connects core ! i))"
  shows "keeps core (upd_server i f core)"
    and "mem_balance (upd_server i f core) = mem_balance core"
  using assms unfolding upd_server_def
  by (auto intro!: keeps_upd_conn simp: conn_ok_def mem_balance_upd_conn conn_items_def)

lemma factory_cases:
  assumes "XGDataQueueFactory env n core = Inr (r, core')" "0 \<le> n"
  shows "keeps core core' \<and> Connects core' = Connects core \<and> (case r of
      None \<Rightarrow> core' = core
    | Some it \<Rightarrow> mem_balance core' = mem_balance core + 1 \<and> length (q_data it) = nat n)"
  using assms by (auto simp: XGDataQueueFactory_def XGMemalloc_def split: prod.splits if_splits)

lemma factory_total: "0 \<le> n \<Longrightarrow> \<exists>r core'. XGDataQueueFactory env n core = Inr (r, core')"
  by (auto simp: XGDataQueueFactory_def XGMemalloc_def)

lemma item_ok_fill: "length bs \<le> length (q_data it) \<Longrightarrow> length bs < 100 \<Longrightarrow> item_ok (fill_item bs d it)"
  by (simp add: item_ok_def fill_item_def unat_of_nat)

lemma connect_request_keeps:
  assumes "i < length (Connects core)" "XGProDeviceConnectRequest i it core = (r, core')"
  shows "keeps core core' \<and> mem_balance core' = mem_balance core"
proof (cases "q_dataSize it < 10")
  case True
  then show ?thesis
    using assms by (auto simp: XGProDeviceConnectRequest_def mem_balance_upd_conn intro!: keeps_upd_conn)
next
  case False
  let ?d = "UTIL_INT32_SET (q_data it ! 6) (q_data it ! 7) (q_data it ! 8) (q_data it ! 9)"
  let ?core = "XGRemoveConnectByDeviceID ?d core"
  have "keeps core (upd_conn i (\<lambda>c. c\<lparr>device_id := ?d\<rparr>) ?core)"
  proof -
    have "core_inv (upd_conn i (\<lambda>c. c\<lparr>device_id := ?d\<rparr>) ?core)" if inv: "core_inv core"
    proof -
      note r = core_inv_remove [OF inv, where d = ?d]
      have "unique_ids ((Connects ?core)[i := (Connects ?core ! i)\<lparr>device_id := ?d\<rparr>])"
        using r(1) r(2) assms(1) unfolding core_inv_def unique_ids_def
        by (simp add: nth_list_update)
      then show ?thesis
        using r(1) conn_ok_nth [OF r(1), of i] assms(1)
        by (simp add: core_inv_def upd_conn_def list_all_update del: nth_remove_connect)
    qed
    then show ?thesis
      by (simp add: keeps_def)
  qed
  then show ?thesis
    using assms False
    by (auto simp: XGProDeviceConnectRequest_def Let_def mem_balance_upd_conn split: if_splits)
qed


lemma pipe_requests_keep:
  "keeps core (XGProDevicePipeRequest i it core)"
  "keeps core (XGProDevicePipeSyncRequest i it core)"
  "mem_balance (XGProDevicePipeRequest i it core) = mem_balance core"
  "mem_balance (XGProDevicePipeSyncRequest i it core) = mem_balance core"
  by (simp_all add: XGProDevicePipeRequest_def XGProDevicePipeSyncRequest_def split: option.splits)

lemma keeps_length: "keeps core core' \<Longrightarrow> length (Connects core') = length (Connects core)"
  by (simp add: keeps_def)

lemma keeps_config: "keeps core core' \<Longrightarrow> config core' = config core"
  by (simp add: keeps_def)

lemma ping_safe:
  assumes "i < length (Connects core)" "item_ok que"
  shows "\<exists>core'. XGProtocolClient_ping env i msg que core = Inr core' \<and> keeps core core'
    \<and> mem_balance core' = mem_balance core - 1"
proof -
  let ?core = "upd_client i (\<lambda>c. c\<lparr>cl_time := env_now env\<rparr>) core"
  have k: "keeps core ?core" "mem_balance ?core = mem_balance core"
    using assms(1) by (simp_all add: upd_client_keeps)
  obtain r c1 where f: "XGDataQueueFactory env 9 ?core = Inr (r, c1)"
    using factory_total [of 9 env ?core] by auto
  note fc = factory_cases [OF f]
  show ?thesis
  proof (cases r)
    case None
    then show ?thesis
      using f fc k by (auto simp: XGProtocolClient_ping_def intro: keeps_trans)
  next
    case (Some it)
    let ?a = "fill_item [XGMessage_byte (msg_version msg) 1 TCP_TYPE_PING, 0, 0, 0, 0]
                (device_id (Connects c1 ! i)) it"
    have c1: "keeps ?core c1" "i < length (Connects c1)" "mem_balance c1 = mem_balance ?core + 1"
      "item_ok ?a"
      using fc Some assms(1) by (auto intro!: item_ok_fill)
    note a = queue_client_keeps [OF c1(2) c1(4)]
    have i2: "i < length (Connects (queue_client i ?a c1))"
      using c1(2) keeps_length [OF a(1)] by simp
    note b = queue_server_keeps [OF i2 assms(2)]
    have "keeps core (queue_server i que (queue_client i ?a c1))"
      by (rule keeps_trans [OF keeps_trans [OF k(1) c1(1)] keeps_trans [OF a(1) b(1)]])
    then show ?thesis
      using f Some a(2) b(2) c1(3) k(2) by (simp add: XGProtocolClient_ping_def)
  qed
qed

lemma notify_keeps:
  assumes "i < length (Connects core)" "XGProtocolClient_notify env i cfg core = (ret, core')"
  shows "keeps core core' \<and> mem_balance core' = mem_balance core"
proof -
  obtain c1 where c1: "core' = (if ret = 0
           then upd_server i (\<lambda>s. s\<lparr>sv_status := E_SER_WAIT_CONECT\<rparr>)
                  (upd_client i (\<lambda>c. c\<lparr>cl_islogined := True,
                     cl_status := E_CLI_LOGINED, cl_time := env_now env\<rparr>) c1)
           else c1)" "keeps core c1" "mem_balance c1 = mem_balance core"
    using assms(2) by (cases "OnDeviceLogin cfg") (auto simp: XGProtocolClient_notify_def Let_def)
  have i1: "i < length (Connects c1)"
    using assms(1) keeps_length [OF c1(2)] by simp
  then show ?thesis
    using c1 by (auto simp: upd_server_keeps upd_client_keeps
        intro!: keeps_trans [OF c1(2) keeps_trans [OF upd_client_keeps(1) upd_server_keeps(1)]])
qed

lemma answer_safe:
  assumes "i < length (Connects core)"
  shows "\<exists>core'. XGProtocolClient_answer env i msg ret que core = Inr core' \<and> keeps core core'
    \<and> mem_balance core' = mem_balance core - 1"
proof -
  obtain r c1 where f: "XGDataQueueFactory env 12 core = Inr (r, c1)"
    using factory_total [of 12 env core] by auto
  note fc = factory_cases [OF f]
  show ?thesis
  proof (cases r)
    case None
    have "keeps core (upd_conn i (\<lambda>c. c\<lparr>isActive := False\<rparr>) core)"
      using assms by (intro keeps_upd_conn) simp_all
    then show ?thesis
      using None fc f assms keeps_trans [OF _ keeps_release]
      by (auto simp: XGProtocolClient_answer_def mem_balance_upd_conn)
  next
    case (Some it)
    let ?a = "fill_item [XGMessage_byte (msg_version msg) 1 TCP_TYPE_CONNECT, 0, 0, 0, 2, ucast ret, 0]
        (device_id (Connects c1 ! i)) it"
    have c1: "i < length (Connects c1)" "item_ok ?a" "keeps core c1"
      using Some fc assms by (auto intro!: item_ok_fill)
    note a = queue_client_keeps [OF c1(1,2)]
    have "keeps core (XGDataQueueRelease que (queue_client i ?a c1))"
      by (rule keeps_trans [OF c1(3) keeps_trans [OF a(1) keeps_release]])
    then show ?thesis
      using Some a fc f by (simp add: XGProtocolClient_answer_def)
  qed
qed

text \<open>
  The handlers own the item they are given: each either releases it or queues it, so it is off the
  balance afterwards. A fault is only possible where the guard of the second part fails.
\<close>

definition consumes :: "XGCore \<Rightarrow> XGCore c_result \<Rightarrow> bool" where
  "consumes core res \<longleftrightarrow>
     (\<forall>core'. res = Inr core' \<longrightarrow> keeps core core' \<and> mem_balance core' = mem_balance core - 1)"

lemma connect_safe:
  assumes i: "i < length (Connects core)" and que: "item_ok que" and inv: "core_inv core"
  shows "consumes core (XGProtocolClient_connect env i msg que core)"
    and "unat (q_dataSize que) \<le> 64 \<Longrightarrow> config core \<noteq> None \<Longrightarrow>
      \<exists>core'. XGProtocolClient_connect env i msg que core = Inr core'"
proof -
  let ?bs = "take (unat (q_dataSize que)) (q_data que)"
  have 64: "length (loginData (Connects core ! i)) = 64"
    using conn_ok_nth [OF inv i] by (simp add: conn_ok_def)
  have "consumes core (XGProtocolClient_connect env i msg que core) \<and>
      (config core \<noteq> None \<longrightarrow> (\<exists>core'. XGProtocolClient_connect env i msg que core = Inr core'))"
    if sz: "unat (q_dataSize que) \<le> 64"
  proof -
    obtain login where login: "memcpy_chk 0 ?bs (loginData (Connects core ! i)) = Inr login"
        "length login = 64"
      using que sz 64 by (auto simp: item_ok_def memcpy_chk_def)
    define c1 where "c1 = upd_conn i (\<lambda>c. c\<lparr>loginData := login, loginDatalength := q_dataSize que\<rparr>) core"
    have k1: "keeps core c1" "mem_balance c1 = mem_balance core" "i < length (Connects c1)"
      using i sz login(2) by (auto simp: c1_def conn_ok_def mem_balance_upd_conn conn_items_def
          intro!: keeps_upd_conn)
    obtain relay c2 where r: "XGProDeviceConnectRequest i que c1 = (relay, c2)"
      by fastforce
    have k2: "keeps core c2" "mem_balance c2 = mem_balance core" "i < length (Connects c2)"
      using k1 connect_request_keeps [OF k1(3) r] keeps_trans [of core c1 c2] keeps_length [of c1 c2]
      by auto
    have eq: "XGProtocolClient_connect env i msg que core = (if relay = E_STOP_RELAY
        then Inr (XGDataQueueRelease que c2) else case config c2 of None \<Rightarrow> Inl Null_Deref
        | Some cf \<Rightarrow> (let (ret, c3) = XGProtocolClient_notify env i cf c2
                      in XGProtocolClient_answer env i msg ret que c3))"
      unfolding XGProtocolClient_connect_def login(1) c_bind_simps Let_def c1_def [symmetric]
      by (simp add: r)
    have "\<exists>core'. (let (ret, c3) = XGProtocolClient_notify env i cf c2
            in XGProtocolClient_answer env i msg ret que c3) = Inr core'
        \<and> keeps core core' \<and> mem_balance core' = mem_balance core - 1" for cf
    proof -
      obtain ret c3 where n: "XGProtocolClient_notify env i cf c2 = (ret, c3)"
        by fastforce
      have k3: "keeps core c3" "mem_balance c3 = mem_balance core" "i < length (Connects c3)"
        using k2 notify_keeps [OF k2(3) n] keeps_trans [of core c2 c3] keeps_length [of c2 c3] by auto
      then show ?thesis
        using answer_safe [OF k3(3), of env msg ret que] n by (auto intro: keeps_trans)
    qed
    then show ?thesis
      using k2 keeps_trans [OF k2(1) keeps_release] keeps_config [OF k2(1)]
      unfolding eq consumes_def by (auto split: option.split) (metis Inr_inject)+
  qed
  moreover have "consumes core (XGProtocolClient_connect env i msg que core)"
    if "\<not> unat (q_dataSize que) \<le> 64"
    using that que 64 by (simp add: XGProtocolClient_connect_def item_ok_def memcpy_chk_def consumes_def)
  ultimately show "consumes core (XGProtocolClient_connect env i msg que core)"
    and "unat (q_dataSize que) \<le> 64 \<Longrightarrow> config core \<noteq> None \<Longrightarrow>
      \<exists>core'. XGProtocolClient_connect env i msg que core = Inr core'"
    by blast+
qed

lemma handle_safe:
  assumes "i < length (Connects core)" "item_ok que" "core_inv core"
  shows "consumes core (XGProtocolClient_handle env i msg que core)"
    and "config core \<noteq> None \<and> unat (q_dataSize que) \<le> 64 \<or> msg_type msg \<noteq> TCP_TYPE_CONNECT \<Longrightarrow>
      \<exists>core'. XGProtocolClient_handle env i msg que core = Inr core'"
proof -
  let ?core = "upd_client i (\<lambda>c. c\<lparr>cl_time := env_now env\<rparr>) core"
  have k: "keeps core ?core" "mem_balance ?core = mem_balance core"
    using assms(1) by (simp_all add: upd_client_keeps)
  have "keeps core (XGDataQueueRelease que (XGProDevicePipeRequest i que ?core))"
    "keeps core (XGDataQueueRelease que (XGProDevicePipeSyncRequest i que ?core))"
    by (rule keeps_trans [OF keeps_trans [OF k(1) pipe_requests_keep(1)] keeps_release]
        keeps_trans [OF keeps_trans [OF k(1) pipe_requests_keep(2)] keeps_release])+
  moreover have "consumes core (XGProtocolClient_ping env i msg que core)"
    "\<exists>core'. XGProtocolClient_ping env i msg que core = Inr core'"
    using ping_safe [OF assms(1,2), of env msg] by (auto simp: consumes_def)
  moreover note connect_safe [OF assms, of env msg]
  ultimately show "consumes core (XGProtocolClient_handle env i msg que core)"
    and "config core \<noteq> None \<and> unat (q_dataSize que) \<le> 64 \<or> msg_type msg \<noteq> TCP_TYPE_CONNECT \<Longrightarrow>
      \<exists>core'. XGProtocolClient_handle env i msg que core = Inr core'"
    using assms
    by (auto simp: XGProtocolClient_handle_def queue_server_keeps pipe_requests_keep k consumes_def)
qed

text \<open>
  The length the header of the next message announces, as the code computes it; and the two
  conditions under which the code can take the message: the announced length does not come out
  negative, and a login packet fits its 64-byte cache.
\<close>

definition msg_total :: "bytes \<Rightarrow> u32" where
  "msg_total inp = UTIL_INT32_SET (inp ! 1) (inp ! 2) (inp ! 3) (inp ! 4) + 5"

definition announced :: "bytes \<Rightarrow> int" where
  "announced inp = sint (msg_total inp)"

definition client_msg_ok :: "bytes \<Rightarrow> bool" where
  "client_msg_ok inp \<longleftrightarrow> (5 \<le> length inp \<longrightarrow> 0 \<le> announced inp \<and>
     (msg_type (inp ! 0) = TCP_TYPE_CONNECT \<longrightarrow> announced inp \<le> 64))"

definition server_msg_ok :: "bytes \<Rightarrow> bool" where
  "server_msg_ok inp \<longleftrightarrow> (5 \<le> length inp \<longrightarrow> 0 \<le> announced inp)"

lemma peek_announced:
  assumes "bq_inv q" "5 \<le> bq_used q"
  shows "UTIL_INT32_SET (snd (XGByteQueuePeer q 5) ! 1) (snd (XGByteQueuePeer q 5) ! 2)
           (snd (XGByteQueuePeer q 5) ! 3) (snd (XGByteQueuePeer q 5) ! 4) =
         UTIL_INT32_SET (bq_contents q ! 1) (bq_contents q ! 2) (bq_contents q ! 3) (bq_contents q ! 4)"
    and "snd (XGByteQueuePeer q 5) ! 0 = bq_contents q ! 0"
  using bq.peek_contents [OF assms(1), of 5] assms(2) by simp_all

lemma sint_nonneg_unat: "0 \<le> sint (w :: u32) \<Longrightarrow> unat w = nat (sint w)"
proof -
  assume w: "0 \<le> sint w"
  then have "take_bit 32 (sint w) = sint w"
    using sint_less [of w] by (intro take_bit_int_eq_self) simp_all
  then have "uint w = sint w"
    by (simp add: uint_sint)
  then show ?thesis
    by (metis nat_uint_eq)
qed

text \<open>Taking out a message of any content: the item is well formed and the queue stays so.\<close>

lemma taken_item_ok:
  assumes "bq_inv q" "0 \<le> sint n" "length (q_data que) = nat (sint n)"
  shows "item_ok (taken_item q n que)" "unat (q_dataSize (taken_item q n que)) = nat (sint n)"
  using assms bq.peek_contents [OF assms(1), of n] sint_nonneg_unat [OF assms(2)]
  by (auto simp: item_ok_def taken_item_def)

text \<open>The two receive functions over what the buffer holds.\<close>

lemma client_eq:
  assumes "bq_inv (cl_recvBuffer (client (Connects core ! i)))"
  shows "XGProtocolClient env i core =
    (let inp = client_in core i; q = cl_recvBuffer (client (Connects core ! i)) in
     if length inp < 5 \<or> int (length inp) < announced inp then Inr core
     else c_bind (XGDataQueueFactory env (announced inp) (upd_conn i (set_client_type (inp ! 0)) core))
       (\<lambda>(que, core). case que of None \<Rightarrow> Inr core
        | Some que \<Rightarrow> XGProtocolClient_handle env i (inp ! 0) (taken_item q (msg_total inp) que)
            (upd_client i (\<lambda>c. c\<lparr>cl_recvBuffer := XGByteQueuePop q (msg_total inp)\<rparr>) core)))"
proof (cases "bq_used (cl_recvBuffer (client (Connects core ! i))) < 5")
  case True
  then show ?thesis
    by (simp add: XGProtocolClient_def Let_def sint_XGByteQueueSize [OF assms])
next
  case False
  then show ?thesis
    by (simp add: XGProtocolClient_def Let_def sint_XGByteQueueSize [OF assms] announced_def
        msg_total_def peek_announced [OF assms] cong: option.case_cong del: One_nat_def)
qed

lemma server_eq:
  assumes "bq_inv (sv_recvBuffer (server (Connects core ! i)))"
  shows "XGProtocolServer env i core =
    (let inp = server_in core i; q = sv_recvBuffer (server (Connects core ! i)) in
     if length inp < 5 \<or> int (length inp) < announced inp then Inr core
     else c_bind (XGDataQueueFactory env (announced inp) (upd_conn i (set_server_type (inp ! 0)) core))
       (\<lambda>(que, core). case que of None \<Rightarrow> Inr core
        | Some que \<Rightarrow> Inr (XGProtocolServer_handle i (inp ! 0) (taken_item q (msg_total inp) que)
            (upd_server i (\<lambda>s. s\<lparr>sv_recvBuffer := XGByteQueuePop q (msg_total inp)\<rparr>) core))))"
proof (cases "bq_used (sv_recvBuffer (server (Connects core ! i))) < 5")
  case True
  then show ?thesis
    by (simp add: XGProtocolServer_def Let_def sint_XGByteQueueSize [OF assms])
next
  case False
  then show ?thesis
    by (simp add: XGProtocolServer_def Let_def sint_XGByteQueueSize [OF assms] announced_def
        msg_total_def peek_announced [OF assms] cong: option.case_cong del: One_nat_def)
qed

lemma set_type_upd_keeps:
  assumes "i < length (Connects core)"
  shows "keeps core (upd_conn i (set_client_type m) core)"
    and "keeps core (upd_conn i (set_server_type m) core)"
    and "mem_balance (upd_conn i (set_client_type m) core) = mem_balance core"
    and "mem_balance (upd_conn i (set_server_type m) core) = mem_balance core"
  using assms by (auto intro!: keeps_upd_conn simp: mem_balance_upd_conn)

text \<open>Taking a message: the balance is kept, and faults need a bad header or a missing configuration.\<close>

lemma factory_consumes:
  assumes f: "XGDataQueueFactory env n c0 = Inr (r, c1)" "0 \<le> n" and k0: "keeps core c0"
    "mem_balance c0 = mem_balance core"
  shows "case r of None \<Rightarrow> keeps core c1 \<and> mem_balance c1 = mem_balance core
    | Some que \<Rightarrow> keeps core c1 \<and> mem_balance c1 = mem_balance core + 1 \<and> length (q_data que) = nat n"
  using factory_cases [OF f] k0 keeps_trans [OF k0(1)] by (auto split: option.split)

lemma factory_negative:
  "n < 0 \<Longrightarrow> XGDataQueueFactory env n core =
     (if env_malloc env (12 + n) then Inl Out_Of_Bounds else Inr (None, core))"
  by (simp add: XGDataQueueFactory_def XGMemalloc_def)

lemma client_taken:
  fixes n :: u32
  assumes "keeps core c1" "mem_balance c1 = mem_balance core + 1" "i < length (Connects c1)"
    and "core_inv core" "bq_inv q" "item_ok que"
  defines "c2 \<equiv> upd_client i (\<lambda>c. c\<lparr>cl_recvBuffer := XGByteQueuePop q n\<rparr>) c1"
  shows "\<forall>core'. XGProtocolClient_handle env i msg que c2 = Inr core' \<longrightarrow>
      keeps core core' \<and> mem_balance core' = mem_balance core"
    and "config core \<noteq> None \<and> unat (q_dataSize que) \<le> 64 \<or> msg_type msg \<noteq> TCP_TYPE_CONNECT \<Longrightarrow>
      \<exists>core'. XGProtocolClient_handle env i msg que c2 = Inr core'"
proof -
  have k2: "keeps core c2" "mem_balance c2 = mem_balance core + 1"
    using assms(1-3) bq.pop_invar [OF assms(5)] keeps_trans [OF assms(1) upd_client_keeps(1) [of i c1]]
    unfolding c2_def by (auto simp: upd_client_keeps)
  have pre: "i < length (Connects c2)" "core_inv c2" "config c2 = config core"
    using k2(1) assms by (auto simp: keeps_def c2_def)
  note h = handle_safe [OF pre(1) assms(6) pre(2), where env = env and msg = msg]
  show "\<forall>core'. XGProtocolClient_handle env i msg que c2 = Inr core' \<longrightarrow>
      keeps core core' \<and> mem_balance core' = mem_balance core"
    using h(1) k2 keeps_trans [OF k2(1)] by (simp add: consumes_def)
  show "config core \<noteq> None \<and> unat (q_dataSize que) \<le> 64 \<or> msg_type msg \<noteq> TCP_TYPE_CONNECT \<Longrightarrow>
      \<exists>core'. XGProtocolClient_handle env i msg que c2 = Inr core'"
    using h(2) pre(3) by simp
qed

lemma client_take_safe:
  assumes "core_inv core" "i < length (Connects core)"
  shows "\<forall>core'. XGProtocolClient env i core = Inr core' \<longrightarrow>
      keeps core core' \<and> mem_balance core' = mem_balance core"
    and "config core \<noteq> None \<Longrightarrow> client_msg_ok (client_in core i) \<Longrightarrow>
      \<exists>core'. XGProtocolClient env i core = Inr core'"
proof -
  define q where "q = cl_recvBuffer (client (Connects core ! i))"
  define inp where "inp = bq_contents q"
  define c0 where "c0 = upd_conn i (set_client_type (inp ! 0)) core"
  have q: "bq_inv q"
    using conn_ok_nth [OF assms] by (simp add: conn_ok_def q_def)
  have eq: "XGProtocolClient env i core = (if length inp < 5 \<or> int (length inp) < announced inp
    then Inr core else c_bind (XGDataQueueFactory env (announced inp) c0) (\<lambda>(que, core).
       case que of None \<Rightarrow> Inr core
        | Some que \<Rightarrow> XGProtocolClient_handle env i (inp ! 0) (taken_item q (msg_total inp) que)
            (upd_client i (\<lambda>c. c\<lparr>cl_recvBuffer := XGByteQueuePop q (msg_total inp)\<rparr>) core)))"
    unfolding c0_def inp_def q_def using client_eq [OF q [unfolded q_def], of env]
    by (simp only: Let_def)
  have k0: "keeps core c0" "mem_balance c0 = mem_balance core"
    using set_type_upd_keeps [OF assms(2)] by (simp_all add: c0_def)
  let ?hd = "\<lambda>que c1. XGProtocolClient_handle env i (inp ! 0) (taken_item q (msg_total inp) que)
      (upd_client i (\<lambda>c. c\<lparr>cl_recvBuffer := XGByteQueuePop q (msg_total inp)\<rparr>) c1)"
  have some: "(\<forall>core'. ?hd que c1 = Inr core' \<longrightarrow> keeps core core' \<and> mem_balance core' = mem_balance core)
      \<and> (config core \<noteq> None \<and> announced inp \<le> 64 \<or> msg_type (inp ! 0) \<noteq> TCP_TYPE_CONNECT \<longrightarrow>
         (\<exists>core'. ?hd que c1 = Inr core'))"
    if n: "0 \<le> announced inp" and f: "XGDataQueueFactory env (announced inp) c0 = Inr (Some que, c1)"
    for que c1
  proof -
    have c1: "keeps core c1" "mem_balance c1 = mem_balance core + 1" "i < length (Connects c1)"
      "length (q_data que) = nat (announced inp)"
      using factory_consumes [OF f n k0] keeps_length [of core c1] assms(2) by auto
    note it = taken_item_ok [OF q n [unfolded announced_def] c1(4) [unfolded announced_def]]
    show ?thesis
      using client_taken [OF c1(1-3) assms(1) q it(1), where env = env and msg = "inp ! 0"
          and n = "msg_total inp"] it(2)
      by (auto simp: nat_le_iff announced_def)
  qed
  show "\<forall>core'. XGProtocolClient env i core = Inr core' \<longrightarrow>
      keeps core core' \<and> mem_balance core' = mem_balance core"
  proof (cases "0 \<le> announced inp")
    case True
    then show ?thesis
      using some [OF True]
      by (auto simp: eq split: option.splits dest: factory_consumes [OF _ True k0])
  next
    case False
    then show ?thesis
      using k0 by (auto simp: eq factory_negative split: if_splits)
  qed
  show "\<exists>core'. XGProtocolClient env i core = Inr core'"
    if "config core \<noteq> None" "client_msg_ok (client_in core i)"
  proof (cases "length inp < 5")
    case False
    then have n: "0 \<le> announced inp" "msg_type (inp ! 0) = TCP_TYPE_CONNECT \<longrightarrow> announced inp \<le> 64"
      using that(2) by (auto simp: client_msg_ok_def inp_def q_def)
    obtain r c1 where f: "XGDataQueueFactory env (announced inp) c0 = Inr (r, c1)"
      using factory_total [OF n(1)] by blast
    show ?thesis
      using some [OF n(1)] n(2) that(1) f by (cases r) (auto simp: eq)
  qed (simp add: eq)
qed


lemma server_handle_keeps:
  assumes "i < length (Connects core)" "item_ok que"
  shows "keeps core (XGProtocolServer_handle i msg que core)"
    and "mem_balance (XGProtocolServer_handle i msg que core) = mem_balance core - 1"
proof -
  obtain relay c1 where r: "(if msg_type msg = TCP_TYPE_CONNECT then XGProServerDeviceConnectResponse i core
      else if msg_type msg = TCP_TYPE_PIPE \<and> msg_resp msg = 0 then XGProServerPipeRequest i que core
      else (E_CONTINUE_RELAY, core)) = (relay, c1)"
    by fastforce
  then have k: "keeps core c1" "mem_balance c1 = mem_balance core" "i < length (Connects c1)"
    using assms(1) by (auto simp: XGProServerDeviceConnectResponse_def XGProServerPipeRequest_def
        upd_server_keeps split: if_splits option.splits) (simp_all add: log_event_def)
  have "XGProtocolServer_handle i msg que core =
      (if relay = E_CONTINUE_RELAY then queue_client i que c1 else XGDataQueueRelease que c1)"
    unfolding XGProtocolServer_handle_def r by simp
  then show "keeps core (XGProtocolServer_handle i msg que core)"
    and "mem_balance (XGProtocolServer_handle i msg que core) = mem_balance core - 1"
    using k assms(2) queue_client_keeps [OF k(3) assms(2)] keeps_trans [OF k(1)] by auto
qed

lemma server_take_safe:
  assumes "core_inv core" "i < length (Connects core)"
  shows "\<forall>core'. XGProtocolServer env i core = Inr core' \<longrightarrow>
      keeps core core' \<and> mem_balance core' = mem_balance core"
    and "server_msg_ok (server_in core i) \<Longrightarrow> \<exists>core'. XGProtocolServer env i core = Inr core'"
proof -
  define q where "q = sv_recvBuffer (server (Connects core ! i))"
  define inp where "inp = bq_contents q"
  define c0 where "c0 = upd_conn i (set_server_type (inp ! 0)) core"
  have q: "bq_inv q"
    using conn_ok_nth [OF assms] by (simp add: conn_ok_def q_def)
  let ?hd = "\<lambda>que c1. XGProtocolServer_handle i (inp ! 0) (taken_item q (msg_total inp) que)
      (upd_server i (\<lambda>s. s\<lparr>sv_recvBuffer := XGByteQueuePop q (msg_total inp)\<rparr>) c1)"
  have eq: "XGProtocolServer env i core = (if length inp < 5 \<or> int (length inp) < announced inp
    then Inr core else c_bind (XGDataQueueFactory env (announced inp) c0) (\<lambda>(que, core).
       case que of None \<Rightarrow> Inr core | Some que \<Rightarrow> Inr (?hd que core)))"
    unfolding c0_def inp_def q_def using server_eq [OF q [unfolded q_def], of env]
    by (simp only: Let_def)
  have k0: "keeps core c0" "mem_balance c0 = mem_balance core"
    using set_type_upd_keeps [OF assms(2)] by (simp_all add: c0_def)
  have some: "keeps core (?hd que c1) \<and> mem_balance (?hd que c1) = mem_balance core"
    if n: "0 \<le> announced inp" and f: "XGDataQueueFactory env (announced inp) c0 = Inr (Some que, c1)"
    for que c1
  proof -
    let ?c2 = "upd_server i (\<lambda>s. s\<lparr>sv_recvBuffer := XGByteQueuePop q (msg_total inp)\<rparr>) c1"
    have c1: "keeps core c1" "mem_balance c1 = mem_balance core + 1" "i < length (Connects c1)"
      "length (q_data que) = nat (announced inp)"
      using factory_consumes [OF f n k0] keeps_length [of core c1] assms(2) by auto
    have k2: "keeps core ?c2" "mem_balance ?c2 = mem_balance core + 1" "i < length (Connects ?c2)"
      using c1 bq.pop_invar [OF q] keeps_trans [OF c1(1) upd_server_keeps(1) [of i c1]]
      by (auto simp: upd_server_keeps)
    have "item_ok (taken_item q (msg_total inp) que)"
      using taken_item_ok(1) [OF q] n c1(4) by (simp add: announced_def)
    note h = server_handle_keeps [OF k2(3) this]
    show ?thesis
      using h(2) k2(2) keeps_trans [OF k2(1) h(1)] by simp
  qed
  show "\<forall>core'. XGProtocolServer env i core = Inr core' \<longrightarrow>
      keeps core core' \<and> mem_balance core' = mem_balance core"
  proof (cases "0 \<le> announced inp")
    case True
    then show ?thesis
      using some [OF True]
      by (auto simp: eq split: option.splits dest: factory_consumes [OF _ True k0])
  next
    case False
    then show ?thesis
      using k0 by (auto simp: eq factory_negative split: if_splits)
  qed
  show "\<exists>core'. XGProtocolServer env i core = Inr core'" if "server_msg_ok (server_in core i)"
  proof (cases "length inp < 5")
    case False
    then have "0 \<le> announced inp"
      using that by (simp add: server_msg_ok_def inp_def q_def)
    then obtain r c1 where "XGDataQueueFactory env (announced inp) c0 = Inr (r, c1)"
      using factory_total by blast
    then show ?thesis
      by (cases r) (auto simp: eq)
  qed (simp add: eq)
qed

lemma XGProtocol_keeps:
  assumes "core_inv core" "i < length (Connects core)" "XGProtocol env i core = Inr core'"
  shows "keeps core core' \<and> mem_balance core' = mem_balance core"
proof -
  let ?n = "sint (XGByteQueueSize (cl_recvBuffer (client (Connects core ! i))))"
  obtain c1 where c1: "(if ?n > 4 then XGProtocolClient env i core else Inr core) = Inr c1"
      "(if ?n + sint (XGByteQueueSize (sv_recvBuffer (server (Connects c1 ! i)))) > 4
        then XGProtocolServer env i c1 else Inr c1) = Inr core'"
    using assms(3) by (auto simp: XGProtocol_def Let_def)
  have k1: "keeps core c1" "mem_balance c1 = mem_balance core"
    using client_take_safe(1) [OF assms(1,2)] c1(1) by (auto split: if_splits)
  then have "core_inv c1" "i < length (Connects c1)"
    using assms(1,2) by (simp_all add: keeps_def)
  from server_take_safe(1) [OF this] k1 c1(2) keeps_trans [OF k1(1)] show ?thesis
    by (auto split: if_splits)
qed


section \<open>A sample core\<close>

text \<open>
  A core with one device connected whose two receive buffers hold given bytes, and an environment
  where everything succeeds: the concrete inputs of the examples below.
\<close>

definition filled_queue :: "bytes \<Rightarrow> ByteQueue" where
  "filled_queue bs = snd (XGByteQueuePush zero_ByteQueue bs (of_nat (length bs)))"

definition sample_config :: XGConfig where
  "sample_config = \<lparr>OnDeviceLogin = Some (\<lambda>dev st addr. 0), has_OnLoginout = True,
     has_OnRecvDataFormDevice = True, has_OnRecvDataFormCloud = True,
     OnDiscoverDevice = None, OnDeviceRestartNotify = None\<rparr>"

definition sample_conn :: "bytes \<Rightarrow> bytes \<Rightarrow> Connect" where
  "sample_conn cin sin = zero_Connect\<lparr>isActive := True, device_id := 7,
     client := (client zero_Connect)\<lparr>cl_SocketHandle := 5, cl_recvBuffer := filled_queue cin\<rparr>,
     server := (server zero_Connect)\<lparr>sv_SocketHandle := 6, sv_recvBuffer := filled_queue sin\<rparr>\<rparr>"

definition sample_core :: "bytes \<Rightarrow> bytes \<Rightarrow> XGCore" where
  "sample_core cin sin = \<lparr>isInited = True, isQuit = False, isRuning = True,
     ServerTcpSocketHandle = 3, ServerUdpSocketHandle = 4, LocalTcpServerPort = 23778,
     LocalUdpServerPort = 6000, core_ErrorCode = EC_NO_ERROR, Host = [], corp = [], token = [],
     productid = [], ServerPort = 23778, ConnectsHead = zero_Connect,
     Connects = [sample_conn cin sin], ConnectTasks = [], ConnectTasksResult = [],
     ClientSendQueue = [], CloudSendQueue = [], config = Some sample_config, memcount = 1,
     xlog = []\<rparr>"

definition sample_env :: xg_env where
  "sample_env = \<lparr>env_now = 100, env_malloc = (\<lambda>n. True), env_send = (\<lambda>s. 1), env_trylock = True\<rparr>"

lemma filled_queue:
  assumes "length bs \<le> 2048"
  shows "bq_inv (filled_queue bs)" "bq_contents (filled_queue bs) = bs"
  using bq.push_fits [OF zero_ByteQueue_simps(1), of bs] assms by (simp_all add: filled_queue_def)

lemma bq_used_filled [simp]: "length bs \<le> 2048 \<Longrightarrow> bq_used (filled_queue bs) = length bs"
  using filled_queue(2) [of bs] length_bq_contents [of "filled_queue bs"] by simp

lemma sample_core_simps [simp]:
  "length (Connects (sample_core cin sin)) = 1" "config (sample_core cin sin) = Some sample_config"
  "Connects (sample_core cin sin) ! 0 = sample_conn cin sin" "xlog (sample_core cin sin) = []"
  "Connects (sample_core cin sin) = [sample_conn cin sin]" "memcount (sample_core cin sin) = 1"
  by (simp_all add: sample_core_def)

lemma sample_conn_simps [simp]:
  "isActive (sample_conn cin sin)" "device_id (sample_conn cin sin) = 7"
  "cl_sendQueue (client (sample_conn cin sin)) = []" "sv_sendQueue (server (sample_conn cin sin)) = []"
  "cl_recvBuffer (client (sample_conn cin sin)) = filled_queue cin"
  "sv_recvBuffer (server (sample_conn cin sin)) = filled_queue sin"
  "length (loginData (sample_conn cin sin)) = 64" "loginDatalength (sample_conn cin sin) = 0"
  by (simp_all add: sample_conn_def zero_Connect_def)

lemma sample_ok:
  assumes "length cin \<le> 2048" "length sin \<le> 2048"
  shows "recv_ok (sample_core cin sin) 0" "core_inv (sample_core cin sin)"
  using assms by (simp_all add: recv_ok_def filled_queue core_inv_def conn_ok_def unique_ids_def)

lemma sample_env_simps [simp]: "env_malloc sample_env n" "env_now sample_env = 100"
  by (simp_all add: sample_env_def)

lemma sample_config_simps [simp]:
  "has_OnRecvDataFormDevice sample_config" "has_OnRecvDataFormCloud sample_config"
  "login_result sample_config d a = 0" "OnDeviceLogin sample_config \<noteq> None"
  by (simp_all add: sample_config_def login_result_def)

section \<open>Properties\<close>

text \<open>
  C30. Reassembly and relay. However the messages of a device lie in its receive buffer, taking
  them out one call at a time hands each message over exactly once: messages the gateway does not
  handle itself are appended to the cloud's send queue byte for byte and in order, the bytes
  behind them stay in the buffer, nothing goes to the device, no callback is made and one item is
  allocated per message.
\<close>

theorem XGProtocolClient_relays_stream:
  assumes "recv_ok core i" and "client_in core i = concat fs @ rest"
    and "list_all (\<lambda>f. is_frame f \<and> relayed_up f) fs" and "\<And>n. env_malloc env n"
  shows "\<exists>core'. c_iter (length fs) (XGProtocolClient env i) core = Inr core'
    \<and> client_in core' i = rest
    \<and> map item_bytes (sv_sendQueue (server (Connects core' ! i))) =
        map item_bytes (sv_sendQueue (server (Connects core ! i))) @ fs
    \<and> cl_sendQueue (client (Connects core' ! i)) = cl_sendQueue (client (Connects core ! i))
    \<and> xlog core' = xlog core \<and> memcount core' = memcount core + of_nat (length fs)"
proof -
  have "map (item_bytes \<circ> frame_item) fs = fs"
    using assms(3) by (auto intro!: map_idI simp: list_all_iff)
  then show ?thesis
    using client_relay_stream [OF assms] by auto
qed

theorem XGProtocolClient_relays_stream_witness:
  "\<exists>core'. c_iter 2 (XGProtocolClient sample_env 0)
       (sample_core [0x30, 0, 0, 0, 1, 9, 0x10, 0, 0, 0, 0, 0x30] []) = Inr core'
     \<and> client_in core' 0 = [0x30]
     \<and> map item_bytes (sv_sendQueue (server (Connects core' ! 0))) =
         [[0x30, 0, 0, 0, 1, 9], [0x10, 0, 0, 0, 0]]
     \<and> cl_sendQueue (client (Connects core' ! 0)) = [] \<and> xlog core' = [] \<and> memcount core' = 3"
proof -
  have ok: "list_all (\<lambda>f. is_frame f \<and> relayed_up f) [[0x30, 0, 0, 0, 1, 9], [0x10, 0, 0, 0, 0 :: byte]]"
    by (simp add: is_frame_def relayed_up_def msg_type_def byte_order)
  have "client_in (sample_core [0x30, 0, 0, 0, 1, 9, 0x10, 0, 0, 0, 0, 0x30] []) 0 =
      concat [[0x30, 0, 0, 0, 1, 9], [0x10, 0, 0, 0, 0]] @ [0x30]"
    by (simp add: filled_queue)
  from XGProtocolClient_relays_stream [OF _ this ok sample_env_simps(1)] show ?thesis
    by (simp add: sample_ok numeral_eq_Suc)
qed


text \<open>
  Pass-through. A complete pass-through message of a device is reported to the user exactly
  once, with the sender, the peer, the message number, the flag and the payload that its encoding
  carries; it is removed from the receive buffer, the device's activity time is refreshed, and
  nothing else of the core changes: the message is not relayed and no memory stays allocated.
\<close>

theorem XGProtocolClient_pipe_event:
  assumes "recv_ok core i" and "client_in core i = pipe_frame hdr peer msgid flag data @ rest"
    and "length data \<le> 2036" and "msg_type hdr = TCP_TYPE_PIPE" and "msg_resp hdr = 0"
    and "config core = Some cfg" and "has_OnRecvDataFormDevice cfg" and "\<And>n. env_malloc env n"
  shows "\<exists>q. XGProtocolClient env i core =
      Inr (core\<lparr>Connects := (Connects core)[i := (Connects core ! i)\<lparr>client :=
                 (client (Connects core ! i))\<lparr>cl_recvBuffer := q, cl_time := env_now env\<rparr>\<rparr>],
               xlog := xlog core @ [Ev_RecvDataFormDevice (device_id (Connects core ! i)) peer msgid
                 data (ucast flag)]\<rparr>)
    \<and> bq_inv q \<and> bq_contents q = rest"
proof -
  let ?f = "pipe_frame hdr peer msgid flag data"
  let ?q = "XGByteQueuePop (cl_recvBuffer (client (Connects core ! i))) (of_nat (length ?f))"
  have f: "is_frame ?f"
    using assms(3) by (rule is_frame_pipe)
  have q: "bq_inv (cl_recvBuffer (client (Connects core ! i)))"
    using assms(1) by (simp add: recv_ok_def)
  have "bq_inv ?q" "bq_contents ?q = rest"
    using bq.pop_invar [OF q] bq.pop_prefix [OF q assms(2)] is_frame_length(2) [OF f] by simp_all
  then show ?thesis
    using client_pipe_up [OF assms] by (auto simp: upd_defs log_event_def)
qed

theorem XGProtocolClient_pipe_event_witness:
  "\<exists>q. XGProtocolClient sample_env 0 (sample_core (pipe_frame 0x70 9 258 1 [0xAA, 0xBB] @ [1]) []) =
      Inr ((sample_core (pipe_frame 0x70 9 258 1 [0xAA, 0xBB] @ [1]) [])
        \<lparr>Connects := [(sample_conn (pipe_frame 0x70 9 258 1 [0xAA, 0xBB] @ [1]) [])\<lparr>client :=
            (client (sample_conn (pipe_frame 0x70 9 258 1 [0xAA, 0xBB] @ [1]) []))
              \<lparr>cl_recvBuffer := q, cl_time := 100\<rparr>\<rparr>],
         xlog := [Ev_RecvDataFormDevice 7 9 258 [0xAA, 0xBB] 1]\<rparr>)
    \<and> bq_inv q \<and> bq_contents q = [1]"
proof -
  let ?f = "pipe_frame 0x70 9 258 1 [0xAA, 0xBB]"
  have ok: "recv_ok (sample_core (?f @ [1]) []) 0" "client_in (sample_core (?f @ [1]) []) 0 = ?f @ [1]"
    by (simp_all add: sample_ok filled_queue)
  have t: "msg_type 0x70 = TCP_TYPE_PIPE" "msg_resp 0x70 = 0"
    by (simp_all add: msg_type_def msg_resp_def)
  from XGProtocolClient_pipe_event [OF ok _ t _ _ sample_env_simps(1)]
  show ?thesis by simp
qed

text \<open>
  Login. A device's login packet that fits its cache and names a device other than 0 makes the
  connection speak for that device: the packet is kept for the login to the cloud, the user is
  asked once, and a connection that spoke for the device before is closed while every other one is
  left alone. If the user accepts, the connection is logged in from now on and waits to be
  connected to the cloud; either way the device gets one answer that carries the user's result.
\<close>

theorem XGProtocolClient_login:
  assumes "recv_ok core i" and "client_in core i = f @ rest" and "is_frame f"
    and "msg_type (f ! 0) = TCP_TYPE_CONNECT" and "10 \<le> length f" "length f \<le> 64"
    and "length (loginData (Connects core ! i)) = 64" and "connect_id f \<noteq> 0"
    and "config core = Some cfg" and "OnDeviceLogin cfg \<noteq> None" and "\<And>n. env_malloc env n"
  shows "\<exists>core'. XGProtocolClient env i core = Inr core' \<and> (let c = Connects core ! i; c' = Connects core' ! i;
      ret = login_result cfg (connect_id f) (cl_Addr (client c)) in
    client_in core' i = rest \<and> device_id c' = connect_id f \<and> connect_type c' = CONNECT_DEVICE
    \<and> take (length f) (loginData c') = f \<and> loginDatalength c' = of_nat (length f)
    \<and> (ret = 0 \<longrightarrow> cl_islogined (client c') \<and> cl_status (client c') = E_CLI_LOGINED
         \<and> cl_time (client c') = env_now env \<and> sv_status (server c') = E_SER_WAIT_CONECT)
    \<and> (ret \<noteq> 0 \<longrightarrow> cl_status (client c') = cl_status (client c) \<and> server c' = server c)
    \<and> map item_bytes (cl_sendQueue (client c')) =
        map item_bytes (cl_sendQueue (client c)) @ [connect_answer (f ! 0) ret]
    \<and> sv_sendQueue (server c') = sv_sendQueue (server c)
    \<and> xlog core' = xlog core @ [Ev_DeviceLogin (connect_id f) (cl_Addr (client c))]
    \<and> (\<forall>j < length (Connects core). j \<noteq> i \<longrightarrow>
        (if device_id (Connects core ! j) = connect_id f
         then \<not> isActive (Connects core' ! j) \<and> \<not> cl_islogined (client (Connects core' ! j))
         else Connects core' ! j = Connects core ! j)))"
proof -
  let ?c = "take_client_frame i f core"
  have i: "i < length (Connects core)" and q: "bq_inv (cl_recvBuffer (client (Connects core ! i)))"
    using assms(1) by (simp_all add: recv_ok_def)
  have step: "XGProtocolClient env i core = XGProtocolClient_connect env i (f ! 0) (frame_item f) ?c"
    using client_take_frame [OF i q assms(2,3,11)] assms(4) by (simp add: XGProtocolClient_handle_def)
  note t = take_client_frame_facts [OF assms(1-3)]
  have eqs: "device_id (Connects ?c ! i) = device_id (Connects core ! i)"
    "loginData (Connects ?c ! i) = loginData (Connects core ! i)"
    "cl_Addr (client (Connects ?c ! i)) = cl_Addr (client (Connects core ! i))"
    "cl_status (client (Connects ?c ! i)) = cl_status (client (Connects core ! i))"
    "server (Connects ?c ! i) = server (Connects core ! i)"
    "config ?c = config core" "xlog ?c = xlog core"
    "connect_type (Connects ?c ! i) = CONNECT_DEVICE"
    using i assms(4) by (auto simp: take_client_frame_def upd_defs set_client_type_def)
  have len: "length (Connects ?c) = length (Connects core)"
    by (simp add: take_client_frame_def)
  have pre: "i < length (Connects ?c)" "length (loginData (Connects ?c ! i)) = 64" "config ?c = Some cfg"
    using i assms(7,9) eqs len by simp_all
  have other: "Connects ?c ! j = Connects core ! j" if "j \<noteq> i" for j
    using that by (simp add: take_client_frame_def upd_defs)
  show ?thesis
    using handle_connect [OF pre(1) assms(5,6) pre(2) assms(8) pre(3) assms(11), of "f ! 0"]
    unfolding step Let_def eqs len by (elim exE conjE) (auto simp: other t assms(10))
qed


definition sample_login :: bytes where
  "sample_login = [0x23, 0, 0, 0, 6, 3, 0, 0, 0, 9, 0]"

lemma sample_login_facts:
  "is_frame sample_login" "msg_type (sample_login ! 0) = TCP_TYPE_CONNECT" "length sample_login = 11"
  "connect_id sample_login = 9" "connect_id sample_login \<noteq> 0"
  by (simp_all add: sample_login_def is_frame_def msg_type_def byte_order connect_id_def word_unat_eq_iff)

theorem XGProtocolClient_login_witness:
  "\<exists>core'. XGProtocolClient sample_env 0 (sample_core sample_login []) = Inr core'
     \<and> device_id (Connects core' ! 0) = 9 \<and> cl_islogined (client (Connects core' ! 0))
     \<and> map item_bytes (cl_sendQueue (client (Connects core' ! 0))) = [connect_answer 0x23 0]
     \<and> client_in core' 0 = []"
proof -
  have ok: "recv_ok (sample_core sample_login []) 0"
    "client_in (sample_core sample_login []) 0 = sample_login @ []"
    by (simp_all add: sample_ok filled_queue sample_login_facts(3))
  have n: "10 \<le> length sample_login" "length sample_login \<le> 64" "sample_login ! 0 = 0x23"
    by (simp_all add: sample_login_facts(3)) (simp add: sample_login_def)
  from XGProtocolClient_login [OF ok sample_login_facts(1,2) n(1,2) _ sample_login_facts(5) _ _
      sample_env_simps(1)]
  show ?thesis
    using n(3) by (auto simp: Let_def sample_login_facts(4))
qed





text \<open>
  The login cache overflows. A complete login packet of more than 64 bytes, which the receive
  buffer of 2048 bytes accepts, is copied over the end of the connection's 64-byte cache.
\<close>

theorem XGProtocolClient_login_overflow:
  assumes "recv_ok core i" and "client_in core i = f @ rest" and "is_frame f"
    and "msg_type (f ! 0) = TCP_TYPE_CONNECT" and "64 < length f"
    and "length (loginData (Connects core ! i)) = 64" and "\<And>n. env_malloc env n"
  shows "XGProtocolClient env i core = Inl Out_Of_Bounds"
proof -
  have i: "i < length (Connects core)" and q: "bq_inv (cl_recvBuffer (client (Connects core ! i)))"
    using assms(1) by (simp_all add: recv_ok_def)
  have "loginData (Connects (take_client_frame i f core) ! i) = loginData (Connects core ! i)"
    using i by (simp add: take_client_frame_def upd_defs)
  then show ?thesis
    using client_take_frame [OF i q assms(2,3,7)] assms(4-6) is_frame_length(2) [OF assms(3)]
    by (simp add: XGProtocolClient_handle_def XGProtocolClient_connect_def memcpy_chk_def)
qed

theorem XGProtocolClient_login_overflow_witness:
  "XGProtocolClient sample_env 0 (sample_core (0x23 # [0, 0, 0, 60] @ replicate 60 1) []) = Inl Out_Of_Bounds"
proof -
  let ?f = "0x23 # [0, 0, 0, 60] @ replicate 60 1 :: bytes"
  have ok: "recv_ok (sample_core ?f []) 0" "client_in (sample_core ?f []) 0 = ?f @ []"
    by (simp_all add: sample_ok filled_queue)
  have f: "is_frame ?f" "msg_type (?f ! 0) = TCP_TYPE_CONNECT" "64 < length ?f"
    by (simp_all add: is_frame_def byte_order msg_type_def)
  from XGProtocolClient_login_overflow [OF ok f _ sample_env_simps(1)] show ?thesis by simp
qed

text \<open>
  A negative length is not caught. A header whose length field, read as a signed number, is
  below -5 passes the check that the whole message has arrived; if the allocation of the item (of
  fewer bytes than its own header needs) succeeds, the code writes outside it.
\<close>

theorem XGProtocolClient_negative_length:
  assumes "recv_ok core i" and "5 \<le> length (client_in core i)" and "announced (client_in core i) < 0"
    and "env_malloc env (12 + announced (client_in core i))"
  shows "XGProtocolClient env i core = Inl Out_Of_Bounds"
proof -
  have q: "bq_inv (cl_recvBuffer (client (Connects core ! i)))"
    using assms(1) by (simp add: recv_ok_def)
  show ?thesis
    using client_eq [OF q, of env] assms(2-4) by (simp add: Let_def factory_negative)
qed

theorem XGProtocolClient_negative_length_witness:
  "XGProtocolClient sample_env 0 (sample_core [0x30, 0xFF, 0xFF, 0xFF, 0xFA] []) = Inl Out_Of_Bounds"
proof -
  let ?f = "[0x30, 0xFF, 0xFF, 0xFF, 0xFA] :: bytes"
  have ok: "recv_ok (sample_core ?f []) 0" "client_in (sample_core ?f []) 0 = ?f"
    by (simp_all add: sample_ok filled_queue)
  have "announced ?f = - 1"
    by (simp add: announced_def msg_total_def UTIL_INT32_SET_def push_bit_eq_mult)
  then show ?thesis
    using XGProtocolClient_negative_length [OF ok(1), of sample_env] by (simp add: filled_queue)
qed


text \<open>
  Nothing happens before a message is complete: while the receive buffer holds only a proper
  prefix of a message, from either side, the protocol leaves the whole core as it is.
\<close>

theorem XGProtocol_waits_for_message:
  assumes "recv_ok core i" and "is_frame f" and "is_frame g"
    and "f = client_in core i @ lack" "lack \<noteq> []" and "g = server_in core i @ lack'" "lack' \<noteq> []"
  shows "XGProtocol env i core = Inr core"
proof -
  have q: "bq_inv (cl_recvBuffer (client (Connects core ! i)))"
    "bq_inv (sv_recvBuffer (server (Connects core ! i)))"
    using assms(1) by (simp_all add: recv_ok_def)
  have wait: "length inp < 5 \<or> int (length inp) < announced inp"
    if "is_frame h" "h = inp @ tl" "tl \<noteq> []" for h inp tl :: bytes
  proof (cases "length inp < 5")
    case False
    then have "inp ! 1 = h ! 1" "inp ! 2 = h ! 2" "inp ! 3 = h ! 3" "inp ! 4 = h ! 4"
      using that(2) by (auto simp: nth_append)
    then have "announced inp = int (length h)"
      using is_frame_length [OF that(1)] by (simp add: announced_def msg_total_def)
    then show ?thesis
      using that(2,3) by simp
  qed simp
  have "XGProtocolClient env i core = Inr core" "XGProtocolServer env i core = Inr core"
    using wait [OF assms(2,4,5)] wait [OF assms(3,6,7)]
    by (simp_all add: client_eq [OF q(1)] server_eq [OF q(2)] Let_def)
  then show ?thesis
    by (simp add: XGProtocol_def Let_def)
qed

theorem XGProtocol_waits_for_message_witness:
  "XGProtocol sample_env 0 (sample_core [0x30, 0, 0, 0, 2, 7] [0x20, 0]) =
     Inr (sample_core [0x30, 0, 0, 0, 2, 7] [0x20, 0])"
proof -
  let ?c = "sample_core [0x30, 0, 0, 0, 2, 7] [0x20, 0]"
  have f: "is_frame [0x30, 0, 0, 0, 2, 7, 8]" "is_frame [0x20, 0, 0, 0, 0]"
    by (simp_all add: is_frame_def byte_order)
  have "[0x30, 0, 0, 0, 2, 7, 8] = client_in ?c 0 @ [8]" "[0x20, 0, 0, 0, 0] = server_in ?c 0 @ [0, 0, 0]"
    by (simp_all add: filled_queue)
  from XGProtocol_waits_for_message [OF _ f this(1) _ this(2)] show ?thesis
    by (simp add: sample_ok)
qed

text \<open>
  Reconnection closes the requester. When a device repeats its login on the connection it is
  already logged in on, the search for other connections of the same device also finds that
  connection: it is marked inactive even though the login is accepted and answered with success.
\<close>

theorem XGProtocolClient_relogin_closes_itself:
  assumes "recv_ok core i" and "client_in core i = f @ rest" and "is_frame f"
    and "msg_type (f ! 0) = TCP_TYPE_CONNECT" and "10 \<le> length f" "length f \<le> 64"
    and "length (loginData (Connects core ! i)) = 64" and "connect_id f \<noteq> 0"
    and "config core = Some cfg" and "\<And>n. env_malloc env n"
    and "device_id (Connects core ! i) = connect_id f"
  shows "\<exists>core'. XGProtocolClient env i core = Inr core' \<and> \<not> isActive (Connects core' ! i)"
proof -
  let ?c = "take_client_frame i f core"
  have i: "i < length (Connects core)" and q: "bq_inv (cl_recvBuffer (client (Connects core ! i)))"
    using assms(1) by (simp_all add: recv_ok_def)
  have step: "XGProtocolClient env i core = XGProtocolClient_connect env i (f ! 0) (frame_item f) ?c"
    using client_take_frame [OF i q assms(2,3,10)] assms(4) by (simp add: XGProtocolClient_handle_def)
  have pre: "i < length (Connects ?c)" "length (loginData (Connects ?c ! i)) = 64"
    "config ?c = Some cfg" and dev: "device_id (Connects ?c ! i) = device_id (Connects core ! i)"
    using i assms(7,9) by (simp_all add: take_client_frame_def upd_defs)
  show ?thesis
    using handle_connect [OF pre(1) assms(5,6) pre(2) assms(8) pre(3) assms(10), of "f ! 0"]
    unfolding step Let_def by (elim exE conjE) (auto simp: dev assms(11))
qed

definition sample_relogin :: bytes where
  "sample_relogin = [0x23, 0, 0, 0, 6, 3, 0, 0, 0, 7, 0]"

theorem XGProtocolClient_relogin_closes_itself_witness:
  "\<exists>core'. XGProtocolClient sample_env 0 (sample_core sample_relogin []) = Inr core'
     \<and> \<not> isActive (Connects core' ! 0)"
proof -
  have ok: "recv_ok (sample_core sample_relogin []) 0"
    "client_in (sample_core sample_relogin []) 0 = sample_relogin @ []"
    by (simp_all add: sample_ok filled_queue sample_relogin_def)
  have f: "is_frame sample_relogin" "msg_type (sample_relogin ! 0) = TCP_TYPE_CONNECT"
    "10 \<le> length sample_relogin" "length sample_relogin \<le> 64" "connect_id sample_relogin = 7"
    by (simp_all add: sample_relogin_def is_frame_def msg_type_def byte_order connect_id_def
        word_unat_eq_iff)
  from XGProtocolClient_relogin_closes_itself [OF ok f(1-4) _ _ _ sample_env_simps(1)]
  show ?thesis by (simp add: f(5))
qed

text \<open>
  Pass-through from the cloud. A complete pass-through message of the cloud is reported to the
  user exactly once with the fields its encoding carries and removed from the receive buffer;
  nothing else of the core changes, so the device never sees it.
\<close>

theorem XGProtocolServer_pipe_event:
  assumes "recv_ok core i" and "server_in core i = pipe_frame hdr peer msgid flag data @ rest"
    and "length data \<le> 2036" and "msg_type hdr = TCP_TYPE_PIPE" and "msg_resp hdr = 0"
    and "config core = Some cfg" and "has_OnRecvDataFormCloud cfg" and "\<And>n. env_malloc env n"
  shows "\<exists>q. XGProtocolServer env i core =
      Inr (core\<lparr>Connects := (Connects core)[i := (Connects core ! i)\<lparr>server :=
                 (server (Connects core ! i))\<lparr>sv_recvBuffer := q\<rparr>\<rparr>],
               xlog := xlog core @ [Ev_RecvDataFormCloud (device_id (Connects core ! i)) peer msgid
                 data (ucast flag)]\<rparr>)
    \<and> bq_inv q \<and> bq_contents q = rest"
proof -
  let ?f = "pipe_frame hdr peer msgid flag data"
  let ?q = "XGByteQueuePop (sv_recvBuffer (server (Connects core ! i))) (of_nat (length ?f))"
  have i: "i < length (Connects core)" and q: "bq_inv (sv_recvBuffer (server (Connects core ! i)))"
    using assms(1) by (simp_all add: recv_ok_def)
  have f: "is_frame ?f"
    using assms(3) by (rule is_frame_pipe)
  have pop: "bq_inv ?q" "bq_contents ?q = rest"
    using bq.pop_invar [OF q] bq.pop_prefix [OF q assms(2)] is_frame_length(2) [OF f] by simp_all
  have "XGProtocolServer env i core = Inr (core\<lparr>Connects := (Connects core)[i :=
        (Connects core ! i)\<lparr>server := (server (Connects core ! i))\<lparr>sv_recvBuffer := ?q\<rparr>\<rparr>],
      xlog := xlog core @ [Ev_RecvDataFormCloud (device_id (Connects core ! i)) peer msgid
                 data (ucast flag)]\<rparr>)"
    using assms(4-7) i unfolding server_take_frame [OF i q assms(2) f assms(8)]
    by (simp add: XGProtocolServer_handle_def XGProServerPipeRequest_def pipe_item_fields [OF assms(3)]
        take_server_frame_def upd_defs set_server_type_def log_event_def XGDataQueueRelease_def
        XGFree_def del: frame_item_simps) (simp add: frame_item_def)
  then show ?thesis
    using pop by blast
qed

theorem XGProtocolServer_pipe_event_witness:
  "\<exists>q. XGProtocolServer sample_env 0 (sample_core [] (pipe_frame 0x70 9 258 1 [0xAA])) =
      Inr ((sample_core [] (pipe_frame 0x70 9 258 1 [0xAA]))
        \<lparr>Connects := [(sample_conn [] (pipe_frame 0x70 9 258 1 [0xAA]))\<lparr>server :=
            (server (sample_conn [] (pipe_frame 0x70 9 258 1 [0xAA])))\<lparr>sv_recvBuffer := q\<rparr>\<rparr>],
         xlog := [Ev_RecvDataFormCloud 7 9 258 [0xAA] 1]\<rparr>)
    \<and> bq_inv q \<and> bq_contents q = []"
proof -
  let ?f = "pipe_frame 0x70 9 258 1 [0xAA]"
  have ok: "recv_ok (sample_core [] ?f) 0" "server_in (sample_core [] ?f) 0 = ?f @ []"
    by (simp_all add: sample_ok filled_queue)
  have t: "msg_type 0x70 = TCP_TYPE_PIPE" "msg_resp 0x70 = 0"
    by (simp_all add: msg_type_def msg_resp_def)
  from XGProtocolServer_pipe_event [OF ok _ t _ _ sample_env_simps(1)]
  show ?thesis by simp
qed

text \<open>
  Relay to the device. Every other complete message of the cloud is appended to the device's
  send queue byte for byte, without a callback; a login answer also marks the connection as logged
  in to the cloud, whatever result the answer carries.
\<close>

theorem XGProtocolServer_relays:
  assumes "recv_ok core i" and "server_in core i = f @ rest" and "is_frame f"
    and "\<not> (msg_type (f ! 0) = TCP_TYPE_PIPE \<and> msg_resp (f ! 0) = 0)" and "\<And>n. env_malloc env n"
  shows "\<exists>core'. XGProtocolServer env i core = Inr core' \<and> server_in core' i = rest
    \<and> map item_bytes (cl_sendQueue (client (Connects core' ! i))) =
        map item_bytes (cl_sendQueue (client (Connects core ! i))) @ [f]
    \<and> sv_sendQueue (server (Connects core' ! i)) = sv_sendQueue (server (Connects core ! i))
    \<and> xlog core' = xlog core
    \<and> sv_status (server (Connects core' ! i)) = (if msg_type (f ! 0) = TCP_TYPE_CONNECT
        then E_SER_LOGINED else sv_status (server (Connects core ! i)))"
proof -
  have i: "i < length (Connects core)" and q: "bq_inv (sv_recvBuffer (server (Connects core ! i)))"
    using assms(1) by (simp_all add: recv_ok_def)
  have "bq_contents (XGByteQueuePop (sv_recvBuffer (server (Connects core ! i))) (of_nat (length f))) = rest"
    using bq.pop_prefix [OF q assms(2)] is_frame_length(2) [OF assms(3)] by simp
  then show ?thesis
    using assms(4) i item_bytes_frame [OF assms(3)] unfolding server_take_frame [OF i q assms(2,3,5)]
    by (auto simp: XGProtocolServer_handle_def XGProServerDeviceConnectResponse_def
        take_server_frame_def upd_defs)
qed

theorem XGProtocolServer_relays_witness:
  "\<exists>core'. XGProtocolServer sample_env 0 (sample_core [] [0x28, 0, 0, 0, 1, 9]) = Inr core'
     \<and> sv_status (server (Connects core' ! 0)) = E_SER_LOGINED
     \<and> map item_bytes (cl_sendQueue (client (Connects core' ! 0))) = [[0x28, 0, 0, 0, 1, 9]]"
proof -
  let ?f = "[0x28, 0, 0, 0, 1, 9] :: bytes"
  have ok: "recv_ok (sample_core [] ?f) 0" "server_in (sample_core [] ?f) 0 = ?f @ []"
    by (simp_all add: sample_ok filled_queue)
  have f: "is_frame ?f" "\<not> (msg_type (?f ! 0) = TCP_TYPE_PIPE \<and> msg_resp (?f ! 0) = 0)"
    "msg_type (?f ! 0) = TCP_TYPE_CONNECT"
    by (simp_all add: is_frame_def byte_order msg_type_def)
  from XGProtocolServer_relays [OF ok f(1,2) sample_env_simps(1)] show ?thesis
    using f(3) by auto
qed

end
