(* ===== verification/XGUdp.thy ===== *)
theory XGUdp imports XGProtocol begin

text \<open>
  The UDP side of the gateway, \<^verbatim>\<open>src/XGProtocolUdp.c\<close>: devices on the local network ask to join,
  announce a restart or look for the gateway. A datagram lies at the start of the core thread's
  receive buffer of \<^verbatim>\<open>BQ_BUFFER_SIZE\<close> bytes, which is zeroed before, so the handlers may read
  behind the datagram but stay inside the buffer; \<open>buffer\<close> below is that whole buffer.
  The broadcast address the code prepares and never uses is left out.
\<close>

section \<open>Operations\<close>

definition send_udp :: "bytes \<Rightarrow> sockaddr_in \<Rightarrow> XGCore \<Rightarrow> XGCore" where
  "send_udp bs addr core = log_event (Ev_SendTo (ServerUdpSocketHandle core) bs addr) core"

text \<open>
  The accepting answer: header, length, message number, result, product id, corporation and token,
  each of the two strings behind its length. The length field counts the bytes after itself.
\<close>

definition udp_response :: "byte \<Rightarrow> bytes \<Rightarrow> XGCore \<Rightarrow> bytes" where
  "udp_response cmd buffer core =
     (let c = c_string (corp core); t = c_string (token core);
          n = of_nat (39 + 1 + length c + 1 + length t - 4)
      in [0x18, cmd, UTIL_INT16_GET_BITH n, UTIL_INT16_GET_BITL n, buffer ! 4, buffer ! 5, 0]
         @ take 32 (productid core) @ of_nat (length c) # c @ of_nat (length t) # t)"

definition udp_accept ::
  "xg_env \<Rightarrow> byte \<Rightarrow> bytes \<Rightarrow> sockaddr_in \<Rightarrow> XGCore \<Rightarrow> XGCore c_result" where
  "udp_accept env cmd buffer addr core =
     (case XGMemalloc env (int (4 + 32 + 2 + strlen (corp core) + strlen (token core) + 16)) core of
        (False, core) \<Rightarrow> Inr core
      | (True, core) \<Rightarrow>
          if length (productid core) < 32 then Inl Out_Of_Bounds
          else let bs = udp_response cmd buffer core
               in Inr (XGFree (send_udp bs addr (send_udp bs addr core))))"

definition udp_refuse :: "byte \<Rightarrow> bytes \<Rightarrow> sockaddr_in \<Rightarrow> XGCore \<Rightarrow> XGCore" where
  "udp_refuse cmd buffer addr core =
     (let bs = [0x18, cmd, 0, 3, buffer ! 4, buffer ! 5, 1]
      in send_udp bs addr (send_udp bs addr core))"

definition XGUdpDevcieRequestJoin ::
  "xg_env \<Rightarrow> bytes \<Rightarrow> u32 \<Rightarrow> sockaddr_in \<Rightarrow> XGCore \<Rightarrow> XGCore c_result" where
  "XGUdpDevcieRequestJoin env buffer bufferlength addr core =
     (let product = take 32 (drop 6 buffer) @ [0];
          maclen = unat (buffer ! 38)
      in if maclen > 32 then Inr core
         else
           let macstring = memcpy_at 0 (take maclen (drop 39 buffer)) (replicate 33 0);
               index = 39 + maclen
           in if index + 4 > unat bufferlength then Inr core
              else
                let deviceid = UTIL_INT32_SET (buffer ! index) (buffer ! (index + 1))
                                 (buffer ! (index + 2)) (buffer ! (index + 3))
                in case config core of
                     None \<Rightarrow> Inr core
                   | Some cfg \<Rightarrow> (case OnDiscoverDevice cfg of
                       None \<Rightarrow> Inr core
                     | Some cb \<Rightarrow>
                         let core = log_event (Ev_DiscoverDevice product macstring (of_nat maclen)
                                      deviceid addr) core
                         in if cb product macstring (of_nat maclen) deviceid addr = 0
                            then udp_accept env 0x22 buffer addr core
                            else Inr (udp_refuse 0x22 buffer addr core)))"

definition XGDeviceRestartNotify ::
  "xg_env \<Rightarrow> bytes \<Rightarrow> u32 \<Rightarrow> sockaddr_in \<Rightarrow> XGCore \<Rightarrow> XGCore c_result" where
  "XGDeviceRestartNotify env buffer bufferlength addr core =
     (let product = take 32 (drop 6 buffer) @ [0];
          deviceid = UTIL_INT32_SET (buffer ! 38) (buffer ! 39) (buffer ! 40) (buffer ! 41);
          maclen = unat (buffer ! 42)
      in if maclen > 32 then Inr core
         else
           let macstring = memcpy_at 0 (take maclen (drop 43 buffer)) (replicate 33 0);
               index = 43 + maclen;
               tokenlen = unat (buffer ! index);
               index = index + 1
           in if index + tokenlen > unat bufferlength then Inr core
              else c_bind (memcpy_chk 0 (take tokenlen (drop index buffer)) (replicate 64 0))
                (\<lambda>tokenstring.
                   case config core of
                     None \<Rightarrow> Inr core
                   | Some cfg \<Rightarrow> (case OnDeviceRestartNotify cfg of
                       None \<Rightarrow> Inr core
                     | Some cb \<Rightarrow>
                         let core = log_event (Ev_DeviceRestartNotify tokenstring product macstring
                                      (of_nat maclen) deviceid addr) core;
                             ret = cb tokenstring product macstring (of_nat maclen) deviceid addr
                         in if ret = 0 then udp_accept env 0x24 buffer addr core
                            else if ret = 1 then Inr (udp_refuse 0x24 buffer addr core)
                            else Inr core)))"

definition XGDevcieDiscoverGateway ::
  "xg_env \<Rightarrow> bytes \<Rightarrow> u32 \<Rightarrow> sockaddr_in \<Rightarrow> XGCore \<Rightarrow> XGCore c_result" where
  "XGDevcieDiscoverGateway env buffer bufferlength addr core =
     Inr (send_udp [0x18, 0x26, 0, 0] addr core)"

type_synonym udp_handler = "xg_env \<Rightarrow> bytes \<Rightarrow> u32 \<Rightarrow> sockaddr_in \<Rightarrow> XGCore \<Rightarrow> XGCore c_result"

definition XGProtocoUdpFuns :: "(byte \<times> u16 \<times> udp_handler) list" where
  "XGProtocoUdpFuns =
     [(0x12, 44, XGUdpDevcieRequestJoin),
      (0x14, 46, XGDeviceRestartNotify),
      (0x16, 0, XGDevcieDiscoverGateway)]"

text \<open>The loop over the table goes on after a match.\<close>

primrec udp_dispatch ::
  "(byte \<times> u16 \<times> udp_handler) list \<Rightarrow> xg_env \<Rightarrow> bytes \<Rightarrow> u32 \<Rightarrow> sockaddr_in \<Rightarrow> XGCore \<Rightarrow>
   XGCore c_result" where
  "udp_dispatch [] env buffer bufferlength addr core = Inr core"
| "udp_dispatch (f # fs) env buffer bufferlength addr core =
     (case f of (cmd, minLength, process) \<Rightarrow>
        if bufferlength < ucast minLength then udp_dispatch fs env buffer bufferlength addr core
        else if cmd = buffer ! 1
        then c_bind (process env buffer bufferlength addr core)
               (udp_dispatch fs env buffer bufferlength addr)
        else udp_dispatch fs env buffer bufferlength addr core)"

definition XGStartProtocolUdp ::
  "xg_env \<Rightarrow> bytes \<Rightarrow> u32 \<Rightarrow> sockaddr_in \<Rightarrow> XGCore \<Rightarrow> XGCore c_result" where
  "XGStartProtocolUdp = udp_dispatch XGProtocoUdpFuns"

section \<open>What the handlers keep\<close>

text \<open>A datagram in the receive buffer, which is zero behind it.\<close>

definition udp_buffer :: "bytes \<Rightarrow> bytes" where
  "udp_buffer d = memcpy_at 0 d (replicate BQ_BUFFER_SIZE 0)"

text \<open>The UDP side only answers: everything of the core but the log stays.\<close>

definition only_logs :: "XGCore \<Rightarrow> XGCore \<Rightarrow> bool" where
  "only_logs core core' \<longleftrightarrow> (\<exists>evs. core' = core\<lparr>xlog := xlog core @ evs\<rparr>)"

lemma only_logs_refl [simp]: "only_logs core core"
  unfolding only_logs_def by (rule exI [of _ "[]"]) simp

lemma only_logs_trans: "only_logs a b \<Longrightarrow> only_logs b c \<Longrightarrow> only_logs a c"
  by (auto simp: only_logs_def)

lemma only_logs_event [simp]: "only_logs a b \<Longrightarrow> only_logs a (log_event e b)"
  by (auto simp: only_logs_def log_event_def)

lemma only_logs_udp [simp]:
  "only_logs a b \<Longrightarrow> only_logs a (send_udp bs addr b)"
  "only_logs a b \<Longrightarrow> only_logs a (udp_refuse cmd buffer addr b)"
  by (simp_all add: send_udp_def udp_refuse_def Let_def)

lemma udp_accept_eq:
  "udp_accept env cmd buffer addr core =
     (if \<not> env_malloc env (54 + int (strlen (corp core) + strlen (token core))) then Inr core
      else if length (productid core) < 32 then Inl Out_Of_Bounds
      else Inr (send_udp (udp_response cmd buffer core) addr
                 (send_udp (udp_response cmd buffer core) addr core)))"
  by (simp add: udp_accept_def XGMemalloc_def XGFree_def send_udp_def log_event_def Let_def
      udp_response_def add.assoc)

lemma udp_accept_only_logs:
  "udp_accept env cmd buffer addr core = Inr core' \<Longrightarrow> only_logs core core'"
  by (auto simp: udp_accept_eq split: if_splits)

lemma udp_accept_total:
  "32 \<le> length (productid core) \<Longrightarrow> \<exists>core'. udp_accept env cmd buffer addr core = Inr core'"
  by (simp add: udp_accept_eq)

lemma udp_handlers_only_log:
  "XGUdpDevcieRequestJoin env buffer n addr core = Inr core' \<Longrightarrow> only_logs core core'"
  "XGDeviceRestartNotify env buffer n addr core = Inr core' \<Longrightarrow> only_logs core core'"
  "XGDevcieDiscoverGateway env buffer n addr core = Inr core' \<Longrightarrow> only_logs core core'"
  by (auto simp: XGUdpDevcieRequestJoin_def XGDeviceRestartNotify_def XGDevcieDiscoverGateway_def
      Let_def split: if_splits option.splits
      intro: only_logs_trans [OF only_logs_event [OF only_logs_refl]] dest!: udp_accept_only_logs)

lemma XGStartProtocolUdp_only_logs:
  "XGStartProtocolUdp env buffer n addr core = Inr core' \<Longrightarrow> only_logs core core'"
  by (auto simp: XGStartProtocolUdp_def XGProtocoUdpFuns_def split: if_splits
      intro: udp_handlers_only_log only_logs_trans)

section \<open>Datagrams and answers\<close>

lemma length_udp_buffer [simp]: "length d \<le> 2048 \<Longrightarrow> length (udp_buffer d) = 2048"
  by (simp add: udp_buffer_def)

lemma nth_udp_buffer: "i < length d \<Longrightarrow> length d \<le> 2048 \<Longrightarrow> udp_buffer d ! i = d ! i"
  by (simp add: udp_buffer_def nth_memcpy_at)

lemma slice_udp_buffer:
  "i + n \<le> length d \<Longrightarrow> take n (drop i (udp_buffer d)) = take n (drop i d)"
  by (simp add: udp_buffer_def memcpy_at_def)

text \<open>A join request, and what a device reads out of an accepting answer.\<close>

definition join_datagram :: "byte \<Rightarrow> bytes \<Rightarrow> bytes \<Rightarrow> bytes \<Rightarrow> bytes \<Rightarrow> u32 \<Rightarrow> bytes" where
  "join_datagram hdr len msgid product mac dev =
     hdr # 0x12 # len @ msgid @ product @ of_nat (length mac) # mac
     @ [UTIL_INT32_GET_BIT3 dev, UTIL_INT32_GET_BIT2 dev, UTIL_INT32_GET_BIT1 dev, UTIL_INT32_GET_BIT0 dev]"

definition answer_product :: "bytes \<Rightarrow> bytes" where
  "answer_product r = take 32 (drop 7 r)"

definition answer_corp :: "bytes \<Rightarrow> bytes" where
  "answer_corp r = take (unat (r ! 39)) (drop 40 r)"

definition answer_token :: "bytes \<Rightarrow> bytes" where
  "answer_token r = (let k = 40 + unat (r ! 39) in take (unat (r ! k)) (drop (k + 1) r))"

definition answers ::
  "bytes \<Rightarrow> byte \<Rightarrow> bytes \<Rightarrow> bytes \<Rightarrow> bytes \<Rightarrow> bytes \<Rightarrow> bool" where
  "answers r cmd msgid product crp tok \<longleftrightarrow>
     r ! 1 = cmd \<and> unat (r ! 2) * 256 + unat (r ! 3) + 4 = length r
     \<and> take 2 (drop 4 r) = msgid \<and> r ! 6 = 0
     \<and> answer_product r = product \<and> answer_corp r = crp \<and> answer_token r = tok"

lemma length_udp_response:
  assumes "32 \<le> length (productid core)"
  shows "length (udp_response cmd buffer core) = 41 + strlen (corp core) + strlen (token core)"
  using assms by (simp add: udp_response_def Let_def)

lemma udp_response_answers:
  assumes "32 \<le> length (productid core)" "strlen (corp core) < 256" "strlen (token core) < 256"
  shows "answers (udp_response cmd buffer core) cmd [buffer ! 4, buffer ! 5]
    (take 32 (productid core)) (c_string (corp core)) (c_string (token core))"
proof -
  let ?r = "udp_response cmd buffer core"
  let ?c = "c_string (corp core)" and ?t = "c_string (token core)"
  let ?n = "of_nat (39 + 1 + length ?c + 1 + length ?t - 4) :: u32"
  have r: "?r = [0x18, cmd, UTIL_INT16_GET_BITH ?n, UTIL_INT16_GET_BITL ?n, buffer ! 4, buffer ! 5, 0]
      @ take 32 (productid core) @ of_nat (length ?c) # ?c @ of_nat (length ?t) # ?t"
    by (simp add: udp_response_def Let_def)
  have n: "unat ?n = 37 + strlen (corp core) + strlen (token core)"
    using assms(2,3) by (subst unat_of_nat_u32) simp_all
  have len: "length ?r = 41 + strlen (corp core) + strlen (token core)"
    using assms(1) by (rule length_udp_response)
  have c: "?r ! 39 = of_nat (strlen (corp core))" "unat (?r ! 39) = strlen (corp core)"
    using assms by (simp_all add: r nth_append unat_of_nat)
  have t: "?r ! (40 + strlen (corp core)) = of_nat (strlen (token core))"
    using assms by (simp add: r nth_append)
  have "unat (?r ! 2) * 256 + unat (?r ! 3) + 4 = length ?r"
    using n assms by (simp add: r byte_order len)
  moreover have "drop (41 + strlen (corp core)) ?r = ?t"
  proof -
    define pre where "pre = [0x18, cmd, UTIL_INT16_GET_BITH ?n, UTIL_INT16_GET_BITL ?n, buffer ! 4,
      buffer ! 5, 0] @ take 32 (productid core) @ of_nat (length ?c) # ?c @ [of_nat (length ?t)]"
    have "?r = pre @ ?t" "length pre = 41 + strlen (corp core)"
      using assms(1) by (simp_all add: r pre_def)
    then show ?thesis by simp
  qed
  moreover from this have "answer_corp ?r = ?c" "answer_token ?r = ?t" "answer_product ?r = take 32 (productid core)"
    using assms c t
    by (simp_all add: answer_corp_def answer_token_def answer_product_def Let_def unat_of_nat)
      (simp_all add: r)
  ultimately show ?thesis
    by (simp add: answers_def) (simp add: r)
qed

section \<open>Properties\<close>

lemma udp_dispatch_cases:
  assumes "length d \<le> 2048" "2 \<le> length d"
  shows "XGStartProtocolUdp env (udp_buffer d) (of_nat (length d)) addr core =
    (if d ! 1 = 0x12 \<and> 44 \<le> length d
     then XGUdpDevcieRequestJoin env (udp_buffer d) (of_nat (length d)) addr core
     else if d ! 1 = 0x14 \<and> 46 \<le> length d
     then XGDeviceRestartNotify env (udp_buffer d) (of_nat (length d)) addr core
     else if d ! 1 = 0x16 then XGDevcieDiscoverGateway env (udp_buffer d) (of_nat (length d)) addr core
     else Inr core)"
proof -
  have "\<not> (of_nat (length d) :: u32) < 44 \<longleftrightarrow> 44 \<le> length d"
    "\<not> (of_nat (length d) :: u32) < 46 \<longleftrightarrow> 46 \<le> length d"
    using assms(1) by (simp_all add: word_less_nat_alt unat_of_nat_u32 not_less)
  moreover have "udp_buffer d ! Suc 0 = d ! Suc 0"
    using assms by (simp add: nth_udp_buffer)
  moreover have bind: "c_bind m Inr = m" for m :: "XGCore c_result"
    by (cases m) simp_all
  ultimately show ?thesis
    by (auto simp: XGStartProtocolUdp_def XGProtocoUdpFuns_def c_bind_def split: sum.split)
qed

lemma length_join [simp]:
  "length (join_datagram hdr len msgid product mac dev) =
     7 + length len + length msgid + length product + length mac"
  by (simp add: join_datagram_def)

lemma join_handler:
  fixes hdr :: byte and dev :: u32
  assumes "length product = 32" "1 \<le> length mac" "length mac \<le> 32" "length len = 2"
    and "msgid = [m1, m2]" "config core = Some cfg" "OnDiscoverDevice cfg = Some cb"
  defines "d \<equiv> join_datagram hdr len msgid product mac dev"
    and "macstring \<equiv> mac @ replicate (33 - length mac) 0"
  shows "XGUdpDevcieRequestJoin env (udp_buffer d) (of_nat (length d)) addr core =
    (let core = log_event (Ev_DiscoverDevice (product @ [0]) macstring (of_nat (length mac)) dev addr) core
     in if cb (product @ [0]) macstring (of_nat (length mac)) dev addr = 0
        then udp_accept env 0x22 (udp_buffer d) addr core
        else Inr (udp_refuse 0x22 (udp_buffer d) addr core))"
    and "udp_buffer d ! 4 = m1" "udp_buffer d ! 5 = m2"
proof -
  obtain l1 l2 where l: "len = [l1, l2]"
    using assms(4) by (auto simp: numeral_2_eq_2 length_Suc_conv)
  define tl where "tl = [UTIL_INT32_GET_BIT3 dev, UTIL_INT32_GET_BIT2 dev, UTIL_INT32_GET_BIT1 dev,
      UTIL_INT32_GET_BIT0 dev]"
  have d: "d = ([hdr, 0x12, l1, l2, m1, m2] @ product) @ [of_nat (length mac)] @ mac @ tl"
    by (simp add: d_def join_datagram_def l assms(5) tl_def)
  have len: "length d = 43 + length mac"
    using assms by (simp add: d_def)
  have b: "udp_buffer d ! k = d ! k" if "k < 43 + length mac" for k
    using that assms(3) len by (simp add: nth_udp_buffer)
  have n38: "d ! 38 = of_nat (length mac)"
    using assms(1) by (simp add: d nth_append)
  have pr: "take 32 (drop 6 (udp_buffer d)) = product"
    using assms(1) len by (simp add: slice_udp_buffer) (simp add: d)
  have mc: "take (length mac) (drop 39 (udp_buffer d)) = mac"
    using assms(1) len by (simp add: slice_udp_buffer) (simp add: d)
  have dv: "d ! (39 + length mac + k) = tl ! k" if "k < 4" for k
    using assms(1) that by (simp add: d nth_append)
  have "UTIL_INT32_SET (udp_buffer d ! (39 + length mac)) (udp_buffer d ! (39 + length mac + 1))
      (udp_buffer d ! (39 + length mac + 2)) (udp_buffer d ! (39 + length mac + 3)) = dev"
    using dv [of 0] dv [of 1] dv [of 2] dv [of 3] by (simp only: b) (simp add: b tl_def)
  moreover have "unat (of_nat (length mac) :: byte) = length mac"
    using assms(3) by (simp add: unat_of_nat)
  moreover have "unat (of_nat (length d) :: u32) = 43 + length mac"
    using assms(3) len by (subst unat_of_nat_u32) simp_all
  ultimately show "XGUdpDevcieRequestJoin env (udp_buffer d) (of_nat (length d)) addr core =
    (let core = log_event (Ev_DiscoverDevice (product @ [0]) macstring (of_nat (length mac)) dev addr) core
     in if cb (product @ [0]) macstring (of_nat (length mac)) dev addr = 0
        then udp_accept env 0x22 (udp_buffer d) addr core
        else Inr (udp_refuse 0x22 (udp_buffer d) addr core))"
    using assms(3) by (simp add: XGUdpDevcieRequestJoin_def Let_def b n38 pr mc assms(6,7)
        memcpy_at_def macstring_def)
  show "udp_buffer d ! 4 = m1" "udp_buffer d ! 5 = m2"
    by (simp_all add: b) (simp_all add: d)
qed

text \<open>
  Joining over UDP. A join request laid out as the protocol has it is decoded field by field
  for the user's decision; if the user accepts, the device is sent twice an answer from which it
  reads back its own message number and the gateway's product id, corporation and token, with a
  length field that matches the datagram; nothing else of the core changes.
\<close>

theorem XGUdp_join_accepted:
  assumes "length product = 32" "1 \<le> length mac" "length mac \<le> 32" "length len = 2" "msgid = [m1, m2]"
    and "config core = Some cfg" "OnDiscoverDevice cfg = Some cb"
    and "cb (product @ [0]) (mac @ replicate (33 - length mac) 0) (of_nat (length mac)) dev addr = 0"
    and "32 \<le> length (productid core)" "strlen (corp core) < 256" "strlen (token core) < 256"
    and "\<And>n. env_malloc env n"
  shows "\<exists>r. XGStartProtocolUdp env (udp_buffer (join_datagram hdr len msgid product mac dev))
        (of_nat (length (join_datagram hdr len msgid product mac dev))) addr core =
      Inr (core\<lparr>xlog := xlog core @
        [Ev_DiscoverDevice (product @ [0]) (mac @ replicate (33 - length mac) 0)
           (of_nat (length mac)) dev addr,
         Ev_SendTo (ServerUdpSocketHandle core) r addr, Ev_SendTo (ServerUdpSocketHandle core) r addr]\<rparr>)
    \<and> answers r 0x22 msgid (take 32 (productid core)) (c_string (corp core)) (c_string (token core))"
proof -
  let ?d = "join_datagram hdr len msgid product mac dev"
  have len: "length ?d = 43 + length mac" "?d ! 1 = 0x12"
    using assms(1,4,5) by (simp, simp add: join_datagram_def)
  note h = join_handler(1) [OF assms(1-7), where env = env and hdr = hdr and dev = dev and addr = addr]
    join_handler(2,3) [OF assms(1-7), where hdr = hdr and dev = dev]
  have "udp_response 0x22 (udp_buffer ?d) (log_event e core) = udp_response 0x22 (udp_buffer ?d) core" for e
    by (simp add: udp_response_def log_event_def)
  then have "XGStartProtocolUdp env (udp_buffer ?d) (of_nat (length ?d)) addr core =
      Inr (core\<lparr>xlog := xlog core @
        [Ev_DiscoverDevice (product @ [0]) (mac @ replicate (33 - length mac) 0)
           (of_nat (length mac)) dev addr,
         Ev_SendTo (ServerUdpSocketHandle core) (udp_response 0x22 (udp_buffer ?d) core) addr,
         Ev_SendTo (ServerUdpSocketHandle core) (udp_response 0x22 (udp_buffer ?d) core) addr]\<rparr>)"
    using udp_dispatch_cases [of ?d env addr core] h len assms(2,3,8,9,12)
    by (simp add: udp_accept_eq) (simp add: log_event_def send_udp_def)
  moreover have "answers (udp_response 0x22 (udp_buffer ?d) core) 0x22 msgid (take 32 (productid core))
      (c_string (corp core)) (c_string (token core))"
    using udp_response_answers [OF assms(9-11), of "0x22" "udp_buffer ?d"] h(2,3) assms(5) by simp
  ultimately show ?thesis
    by blast
qed

text \<open>The core of the examples: the sample core with a join policy and its credentials.\<close>

definition sample_udp_core :: XGCore where
  "sample_udp_core = (sample_core [] [])\<lparr>productid := replicate 32 1, corp := [65, 66, 0, 9],
     token := [67, 0], config := Some (sample_config\<lparr>OnDiscoverDevice := Some (\<lambda>p m l d a. 0),
     OnDeviceRestartNotify := Some (\<lambda>t p m l d a. 2)\<rparr>)\<rparr>"

lemma sample_udp_core_simps [simp]:
  "productid sample_udp_core = replicate 32 1" "c_string (corp sample_udp_core) = [65, 66]"
  "c_string (token sample_udp_core) = [67]" "strlen (corp sample_udp_core) = 2"
  "strlen (token sample_udp_core) = 1" "xlog sample_udp_core = []"
  "config sample_udp_core = Some (sample_config\<lparr>OnDiscoverDevice := Some (\<lambda>p m l d a. 0),
     OnDeviceRestartNotify := Some (\<lambda>t p m l d a. 2)\<rparr>)"
  "ServerUdpSocketHandle sample_udp_core = 4"
  by (simp_all add: sample_udp_core_def c_string_def strlen_def) (simp_all add: sample_core_def)

theorem XGUdp_join_accepted_witness:
  "\<exists>r. XGStartProtocolUdp sample_env
        (udp_buffer (join_datagram 0x18 [0, 40] [7, 8] (replicate 32 2) [0xA, 0xB] 5))
        (of_nat (length (join_datagram 0x18 [0, 40] [7, 8] (replicate 32 2) [0xA, 0xB] 5)))
        zero_sockaddr sample_udp_core =
      Inr (sample_udp_core\<lparr>xlog :=
        [Ev_DiscoverDevice (replicate 32 2 @ [0]) ([0xA, 0xB] @ replicate 31 0) 2 5 zero_sockaddr,
         Ev_SendTo 4 r zero_sockaddr, Ev_SendTo 4 r zero_sockaddr]\<rparr>)
    \<and> answers r 0x22 [7, 8] (replicate 32 1) [65, 66] [67]"
proof -
  have a: "length (replicate 32 2 :: bytes) = 32" "1 \<le> length [0xA, 0xB :: byte]"
    "length [0xA, 0xB :: byte] \<le> 32" "length [0, 40 :: byte] = 2" "[7, 8] = [7, 8 :: byte]"
    by simp_all
  from XGUdp_join_accepted [OF a _ _ _ _ _ _ sample_env_simps(1), where core = sample_udp_core
      and cb = "\<lambda>p m l d a. 0" and dev = "5" and addr = zero_sockaddr and hdr = "0x18"]
  show ?thesis
    by simp
qed

definition restart_token_length :: "bytes \<Rightarrow> nat" where
  "restart_token_length buffer = unat (buffer ! (43 + unat (buffer ! 42)))"

lemma restart_handler_total:
  assumes "unat (buffer ! 42) \<le> 32 \<longrightarrow> restart_token_length buffer \<le> 64"
    and "32 \<le> length (productid core)"
  shows "\<exists>core'. XGDeviceRestartNotify env buffer n addr core = Inr core'"
proof -
  have acc: "\<exists>core'. udp_accept env cmd buffer addr (log_event e core) = Inr core'" for cmd e
    using assms(2) by (intro udp_accept_total) (simp add: log_event_def)
  show ?thesis
    using assms(1) acc
    by (auto simp: XGDeviceRestartNotify_def Let_def memcpy_chk_def restart_token_length_def
        split: option.splits)
qed

lemma join_handler_total:
  assumes "32 \<le> length (productid core)"
  shows "\<exists>core'. XGUdpDevcieRequestJoin env buffer n addr core = Inr core'"
proof -
  have acc: "\<exists>core'. udp_accept env cmd buffer addr (log_event e core) = Inr core'" for cmd e
    using assms by (intro udp_accept_total) (simp add: log_event_def)
  show ?thesis
    using acc by (auto simp: XGUdpDevcieRequestJoin_def Let_def split: option.splits)
qed

text \<open>
  Datagrams cannot disturb the core. Whatever a datagram of at most 2048 bytes holds, except
  a restart notice whose token is longer than 64 bytes, handling it returns and changes nothing of
  the core but its log of calls and answers: no connection, queue or buffer, and no memory stays
  allocated.
\<close>

theorem XGStartProtocolUdp_harmless:
  assumes "2 \<le> length d" and "length d \<le> 2048" and "32 \<le> length (productid core)"
    and "d ! 1 = 0x14 \<longrightarrow> unat (udp_buffer d ! 42) \<le> 32 \<longrightarrow> restart_token_length (udp_buffer d) \<le> 64"
  shows "\<exists>evs. XGStartProtocolUdp env (udp_buffer d) (of_nat (length d)) addr core =
    Inr (core\<lparr>xlog := xlog core @ evs\<rparr>)"
proof -
  have "\<exists>core'. XGStartProtocolUdp env (udp_buffer d) (of_nat (length d)) addr core = Inr core'"
    using udp_dispatch_cases [OF assms(2,1), of env addr core] assms(3,4)
      restart_handler_total [of "udp_buffer d" core env "of_nat (length d)" addr]
      join_handler_total [of core env "udp_buffer d" "of_nat (length d)" addr]
    by (auto simp: XGDevcieDiscoverGateway_def)
  then show ?thesis
    using XGStartProtocolUdp_only_logs by (fastforce simp: only_logs_def)
qed

theorem XGStartProtocolUdp_harmless_witness:
  "\<exists>evs. XGStartProtocolUdp sample_env (udp_buffer [0x18, 0x16, 0, 0]) (of_nat (length [0x18, 0x16, 0, 0 :: byte]))
     zero_sockaddr sample_udp_core = Inr (sample_udp_core\<lparr>xlog := [] @ evs\<rparr>)"
  using XGStartProtocolUdp_harmless [of "[0x18, 0x16, 0, 0]" sample_udp_core sample_env zero_sockaddr]
  by simp

text \<open>
  The restart notice overflows the stack. The token length of a restart notice is a byte of
  the datagram, checked only against the datagram's end: a notice with a token of more than 64
  bytes is copied over the end of the 64-byte token buffer.
\<close>

theorem XGDeviceRestartNotify_overflow:
  assumes "length d \<le> 2048" and "d ! 1 = 0x14" and "unat (udp_buffer d ! 42) \<le> 32"
    and "64 < restart_token_length (udp_buffer d)"
    and "44 + unat (udp_buffer d ! 42) + restart_token_length (udp_buffer d) \<le> length d"
  shows "XGStartProtocolUdp env (udp_buffer d) (of_nat (length d)) addr core = Inl Out_Of_Bounds"
proof -
  have "unat (of_nat (length d) :: u32) = length d"
    using assms(1) by (simp add: unat_of_nat_u32)
  moreover have "46 \<le> length d"
    using assms(4,5) by linarith
  ultimately show ?thesis
    using udp_dispatch_cases [of d env addr core] assms
    by (auto simp: XGDeviceRestartNotify_def Let_def memcpy_chk_def restart_token_length_def)
qed

theorem XGDeviceRestartNotify_overflow_witness:
  "XGStartProtocolUdp sample_env (udp_buffer (0x18 # 0x14 # replicate 41 0 @ 65 # replicate 65 1))
     (of_nat (length (0x18 # 0x14 # replicate 41 0 @ 65 # replicate 65 1 :: bytes)))
     zero_sockaddr sample_udp_core = Inl Out_Of_Bounds"
proof -
  let ?d = "0x18 # 0x14 # replicate 41 0 @ 65 # replicate 65 1 :: bytes"
  have n: "?d ! 42 = 0" "?d ! 43 = 65" "length ?d = 109"
    by (simp_all add: nth_append)
  then have b: "udp_buffer ?d ! 42 = 0" "restart_token_length (udp_buffer ?d) = 65"
    by (simp_all add: nth_udp_buffer restart_token_length_def)
  show ?thesis
    using XGDeviceRestartNotify_overflow [of ?d sample_env zero_sockaddr sample_udp_core] b n(3) by simp
qed

end
