(* ===== verification/XGCore.thy ===== *)
theory XGCore imports XGUdp begin

text \<open>
  The core of the gateway, \<^verbatim>\<open>src/XGCore.c\<close> (with \<^verbatim>\<open>src/ConnectTask.c\<close> and \<^verbatim>\<open>src/ConnectList.c\<close>):
  the select loop that owns the connections, the thread that connects to the cloud, and the entry
  points other threads call. A step of a thread is a function of the core and of what the outside
  answers during it; the lines 536 to 705, switched off by \<^verbatim>\<open>#if 0\<close>, are not part of the program.

  \<^verbatim>\<open>XGGetLocalTime\<close> is read once per step. The mutexes guard single list operations; a failed
  \<^verbatim>\<open>trylock\<close> is the flag \<open>env_trylock\<close>.
\<close>

section \<open>Addresses and connecting\<close>

text \<open>
  The arithmetic of \<^verbatim>\<open>section\<close> is a 32-bit signed one; \<^verbatim>\<open>last\<close> starts as -1, here \<open>None\<close>.
\<close>

definition section_ok :: "u32 \<Rightarrow> bool" where
  "section_ok sec \<longleftrightarrow> 0 \<le> sint sec \<and> sint sec \<le> 255"

fun is_valid_ip_loop :: "u32 \<Rightarrow> nat \<Rightarrow> byte option \<Rightarrow> bytes \<Rightarrow> bool" where
  "is_valid_ip_loop sec dot prev [] = (section_ok sec \<and> dot = 3)"
| "is_valid_ip_loop sec dot prev (c # cs) =
     (if c = 0 then section_ok sec \<and> dot = 3
      else if c = 0x2E
      then (if 3 < dot + 1 then False
            else if section_ok sec then is_valid_ip_loop 0 (dot + 1) (Some c) cs
            else False)
      else if 0x30 \<le> c \<and> c \<le> 0x39
      then (if prev = Some 0x30 then False
            else is_valid_ip_loop (sec * 10 + ucast c - 0x30) dot (Some c) cs)
      else False)"

definition is_valid_ip :: "bytes \<Rightarrow> bool" where
  "is_valid_ip ip = is_valid_ip_loop 0 0 None ip"

text \<open>What the resolver and the socket calls of one connection attempt answer.\<close>

record xg_net =
  net_inet_addr :: "bytes \<Rightarrow> u32"
  net_inet_ntoa :: "u32 \<Rightarrow> bytes"
  net_gethostbyname :: "bytes \<Rightarrow> u32 option"
  net_socket :: int
  net_connect :: int
  net_einprogress :: bool
  net_select :: int
  net_so_error :: int

definition XGGetIpaddr :: "xg_net \<Rightarrow> XGCore \<Rightarrow> u32" where
  "XGGetIpaddr net core =
     (if is_valid_ip (Host core) then net_inet_addr net (Host core)
      else case net_gethostbyname net (Host core) of
          Some h_addr \<Rightarrow> net_inet_addr net (net_inet_ntoa net h_addr)
        | None \<Rightarrow> 0)"

definition drop_socket :: "int \<Rightarrow> XGCore \<Rightarrow> XGCore" where
  "drop_socket fd core = log_event (Ev_Close fd) (log_event (Ev_Shutdown fd) core)"

definition XGConnectServer ::
  "xg_net \<Rightarrow> ConnectTask \<Rightarrow> XGCore \<Rightarrow> int \<times> ConnectTask \<times> XGCore" where
  "XGConnectServer net task core =
     (let ip = XGGetIpaddr net core in
      if ip = 0 then (-1, task, core)
      else
        let sockfd = net_socket net in
        if sockfd \<le> 0 then (-1, task, core)
        else
          let core = log_event (Ev_Connect sockfd
                \<lparr>sin_family = 2, sin_port = htons (of_int (ServerPort core)), sin_addr = ip\<rparr>) core
          in if net_connect net = -1 \<and> \<not> net_einprogress net
             then (-1, task, drop_socket sockfd core)
             else if net_connect net = -1 \<and> \<not> net_select net > 0
             then (-1, task, drop_socket sockfd core)
             else if net_connect net = -1 \<and> net_so_error net \<noteq> 0
             then (-1, task, drop_socket sockfd core)
             else (0, task\<lparr>task_fd := sockfd\<rparr>, core))"

section \<open>Connections\<close>

text \<open>\<^verbatim>\<open>sizeof(struct Connect)\<close> and \<^verbatim>\<open>sizeof(struct ConnectTask)\<close> are arguments of the allocator only.\<close>

definition new_connect :: "u64 \<Rightarrow> int \<Rightarrow> sockaddr_in \<Rightarrow> Connect" where
  "new_connect now sock addr = zero_Connect
     \<lparr>isActive := True,
      client := (client zero_Connect)\<lparr>cl_SocketHandle := sock, cl_Addr := addr,
                  cl_status := E_CLI_WAIT_LOGIN, cl_time := now\<rparr>,
      server := (server zero_Connect)\<lparr>sv_status := E_SER_WAIT_CLIENT_LOGIN\<rparr>\<rparr>"

definition XGAcceptConnect ::
  "xg_env \<Rightarrow> int \<Rightarrow> int \<Rightarrow> sockaddr_in \<Rightarrow> XGCore \<Rightarrow> XGCore" where
  "XGAcceptConnect env sizeof_Connect sock addr core =
     (if sock \<le> 0 then core
      else case XGMemalloc env sizeof_Connect core of
          (False, core) \<Rightarrow> log_event (Ev_Close sock) core
        | (True, core) \<Rightarrow>
            core\<lparr>Connects := new_connect (env_now env) sock addr # Connects core\<rparr>)"

text \<open>\<open>received\<close> is what \<^verbatim>\<open>recvfrom\<close> returned, the datagram and its sender.\<close>

definition XGRecvUdpData ::
  "xg_env \<Rightarrow> int \<times> bytes \<times> sockaddr_in \<Rightarrow> XGCore \<Rightarrow> XGCore c_result" where
  "XGRecvUdpData env received core =
     (case received of (n, d, addr) \<Rightarrow>
        if n > 0 then XGStartProtocolUdp env (udp_buffer (take (nat n) d)) (of_int n) addr core
        else Inr core)"

text \<open>\<open>rcv sock room\<close> is what \<^verbatim>\<open>recv\<close> returns, and the bytes it stored.\<close>

definition XGRecvConnectClient ::
  "(int \<Rightarrow> int \<Rightarrow> int \<times> bytes) \<Rightarrow> nat \<Rightarrow> XGCore \<Rightarrow> XGCore" where
  "XGRecvConnectClient rcv i core =
     (let conn = Connects core ! i; sock = cl_SocketHandle (client conn);
          used = sint (XGByteQueueSize (cl_recvBuffer (client conn)));
          (n, buf) = rcv sock (2048 - used)
      in if n = 0
         then upd_client i (\<lambda>c. c\<lparr>cl_SocketHandle := 0\<rparr>)
                (drop_socket sock
                  (upd_conn i (\<lambda>c. c\<lparr>disconnectReason := E_DIS_CLIENT_CLOSE, isActive := False\<rparr>) core))
         else if n < 0 then core
         else upd_client i (\<lambda>c. c\<lparr>cl_recvBuffer :=
                snd (XGByteQueuePush (cl_recvBuffer c) buf (of_int n))\<rparr>) core)"

definition XGRecvConnectServer ::
  "xg_env \<Rightarrow> (int \<Rightarrow> int \<Rightarrow> int \<times> bytes) \<Rightarrow> nat \<Rightarrow> XGCore \<Rightarrow> XGCore" where
  "XGRecvConnectServer env rcv i core =
     (let conn = Connects core ! i; sock = sv_SocketHandle (server conn);
          used = sint (XGByteQueueSize (sv_recvBuffer (server conn)));
          (n, buf) = rcv sock (2048 - used)
      in if n = 0
         then upd_server i (\<lambda>s. s\<lparr>sv_SocketHandle := 0\<rparr>)
                (drop_socket sock
                  (upd_server i (\<lambda>s. s\<lparr>sv_status := E_SER_WAIT_CONECT, sv_time := env_now env\<rparr>) core))
         else if n < 0 then core
         else upd_server i (\<lambda>s. s\<lparr>sv_recvBuffer :=
                snd (XGByteQueuePush (sv_recvBuffer s) buf (of_int n))\<rparr>) core)"

text \<open>The first item of the queue is sent and released; what \<^verbatim>\<open>send\<close> returns is only printed.\<close>

definition XGConnectSend :: "bool \<Rightarrow> nat \<Rightarrow> XGCore \<Rightarrow> XGCore c_result" where
  "XGConnectSend to_server i core =
     (let conn = Connects core ! i;
          queue = (if to_server then sv_sendQueue (server conn) else cl_sendQueue (client conn));
          sock = (if to_server then sv_SocketHandle (server conn) else cl_SocketHandle (client conn))
      in case queue of
           [] \<Rightarrow> Inl Null_Deref
         | data # rest \<Rightarrow>
             Inr (XGDataQueueRelease data (log_event (Ev_Send sock (item_bytes data))
               (if to_server then upd_server i (\<lambda>s. s\<lparr>sv_sendQueue := rest\<rparr>) core
                else upd_client i (\<lambda>c. c\<lparr>cl_sendQueue := rest\<rparr>) core))))"

definition close_connect :: "Connect \<Rightarrow> XGCore \<Rightarrow> XGCore" where
  "close_connect conn core =
     (let cs = cl_SocketHandle (client conn); ss = sv_SocketHandle (server conn);
          core = log_event (Ev_Close ss) (log_event (Ev_Close cs)
                   (log_event (Ev_Shutdown ss) (log_event (Ev_Shutdown cs) core)));
          core = (case config core of
              None \<Rightarrow> core
            | Some cfg \<Rightarrow>
                if device_id conn > 0 \<and> cl_islogined (client conn) \<and> has_OnLoginout cfg
                then log_event (Ev_Loginout (device_id conn) (disconnectReason conn)) core
                else core)
      in XGConnectRelease conn core)"

primrec remove_loop :: "Connect list \<Rightarrow> XGCore \<Rightarrow> Connect list \<times> XGCore" where
  "remove_loop [] core = ([], core)"
| "remove_loop (conn # conns) core =
     (if \<not> isActive conn then remove_loop conns (close_connect conn core)
      else let (rest, core) = remove_loop conns core in (conn # rest, core))"

definition XGRemoveNotActive :: "XGCore \<Rightarrow> XGCore" where
  "XGRemoveNotActive core =
     (let (conns, core) = remove_loop (Connects core) core in core\<lparr>Connects := conns\<rparr>)"

text \<open>One protocol round over all connections; the protocol does not change their number.\<close>

primrec protocol_loop :: "xg_env \<Rightarrow> nat list \<Rightarrow> XGCore \<Rightarrow> XGCore c_result" where
  "protocol_loop env [] core = Inr core"
| "protocol_loop env (i # js) core =
     c_bind (let conn = Connects core ! i;
                 n = sint (XGByteQueueSize (cl_recvBuffer (client conn)))
                     + sint (XGByteQueueSize (sv_recvBuffer (server conn)))
             in if n > 0 then XGProtocol env i core else Inr core)
       (protocol_loop env js)"

definition XGProtocolStart :: "xg_env \<Rightarrow> XGCore \<Rightarrow> XGCore c_result" where
  "XGProtocolStart env core = protocol_loop env [0..<length (Connects core)] core"

section \<open>Send queues of the user\<close>

text \<open>The first connection of the list that speaks for a device.\<close>

primrec find_conn :: "u32 \<Rightarrow> Connect list \<Rightarrow> nat option" where
  "find_conn d [] = None"
| "find_conn d (c # cs) = (if device_id c = d then Some 0 else map_option Suc (find_conn d cs))"

definition XGSendQueueClient :: "XGQueue \<Rightarrow> XGCore \<Rightarrow> int \<times> XGCore" where
  "XGSendQueueClient item core =
     (case find_conn (q_deviceid item) (Connects core) of
        None \<Rightarrow> (-1, core)
      | Some i \<Rightarrow>
          if cl_status (client (Connects core ! i)) \<noteq> E_CLI_LOGINED then (-1, core)
          else (0, queue_client i item core))"

definition XGSendQueueCloud :: "XGQueue \<Rightarrow> XGCore \<Rightarrow> int \<times> XGCore" where
  "XGSendQueueCloud item core =
     (case find_conn (q_deviceid item) (Connects core) of
        None \<Rightarrow> (-1, core)
      | Some i \<Rightarrow>
          if sv_status (server (Connects core ! i)) \<noteq> E_SER_LOGINED then (-1, core)
          else (0, queue_server i item core))"

primrec send_loop :: "(XGQueue \<Rightarrow> XGCore \<Rightarrow> int \<times> XGCore) \<Rightarrow> XGQueue list \<Rightarrow> XGCore \<Rightarrow> XGCore" where
  "send_loop put [] core = core"
| "send_loop put (item # items) core =
     (let (ret, core) = put item core
      in send_loop put items (if ret \<noteq> 0 then XGDataQueueRelease item core else core))"

definition XGPSendQueeu :: "xg_env \<Rightarrow> XGCore \<Rightarrow> XGCore" where
  "XGPSendQueeu env core =
     (if ClientSendQueue core = [] \<and> CloudSendQueue core = [] then core
      else if \<not> env_trylock env then core
      else
        let core = send_loop XGSendQueueClient (ClientSendQueue core) (core\<lparr>ClientSendQueue := []\<rparr>)
        in send_loop XGSendQueueCloud (CloudSendQueue core) (core\<lparr>CloudSendQueue := []\<rparr>))"

text \<open>Each item is unlinked and then \<^emph>\<open>handled as a queue of its own\<close>, which is empty: nothing is freed.\<close>

fun XGReleaseDataQueue :: "XGQueue list \<Rightarrow> XGCore \<Rightarrow> XGQueue list \<times> XGCore" where
  "XGReleaseDataQueue [] core = ([], core)"
| "XGReleaseDataQueue (item # items) core =
     (let (_, core) = XGReleaseDataQueue [] core in XGReleaseDataQueue items core)"

section \<open>Connecting to the cloud\<close>

definition wants_cloud :: "xg_env \<Rightarrow> Connect \<Rightarrow> bool" where
  "wants_cloud env conn \<longleftrightarrow> sv_status (server conn) = E_SER_WAIT_CONECT \<and> isActive conn
     \<and> env_now env - sv_time (server conn) > 3000"

primrec connect_task_loop ::
  "xg_env \<Rightarrow> int \<Rightarrow> nat list \<Rightarrow> ConnectTask list \<Rightarrow> XGCore \<Rightarrow> ConnectTask list \<times> XGCore" where
  "connect_task_loop env sizeof_task [] tasks core = (tasks, core)"
| "connect_task_loop env sizeof_task (i # js) tasks core =
     (if wants_cloud env (Connects core ! i)
      then
        let (queue, core) = XGReleaseDataQueue (sv_sendQueue (server (Connects core ! i))) core;
            core = upd_server i (\<lambda>s. s\<lparr>sv_sendQueue := queue\<rparr>) core
        in case XGMemalloc env sizeof_task core of
             (False, core) \<Rightarrow> connect_task_loop env sizeof_task js tasks core
           | (True, core) \<Rightarrow> connect_task_loop env sizeof_task js
               (tasks @ [\<lparr>task_device_id = device_id (Connects core ! i), task_fd = 0\<rparr>])
               (upd_server i (\<lambda>s. s\<lparr>sv_status := E_SER_CONNECTING\<rparr>) core)
      else connect_task_loop env sizeof_task js tasks core)"

definition XGConnectTask :: "xg_env \<Rightarrow> int \<Rightarrow> XGCore \<Rightarrow> XGCore" where
  "XGConnectTask env sizeof_task core =
     (let (tasks, core) = connect_task_loop env sizeof_task [0..<length (Connects core)] [] core
      in if tasks = [] then core else core\<lparr>ConnectTasks := ConnectTasks core @ tasks\<rparr>)"

text \<open>The search starts at the list head, whose device number is 0.\<close>

datatype conn_ref = Head | At nat

definition XGGetConnectByDeviceid :: "u32 \<Rightarrow> XGCore \<Rightarrow> conn_ref option" where
  "XGGetConnectByDeviceid d core =
     (if device_id (ConnectsHead core) = d then Some Head
      else map_option At (find_conn d (Connects core)))"

definition get_ref :: "conn_ref \<Rightarrow> XGCore \<Rightarrow> Connect" where
  "get_ref r core = (case r of Head \<Rightarrow> ConnectsHead core | At i \<Rightarrow> Connects core ! i)"

definition upd_ref :: "conn_ref \<Rightarrow> (Connect \<Rightarrow> Connect) \<Rightarrow> XGCore \<Rightarrow> XGCore" where
  "upd_ref r f core = (case r of
     Head \<Rightarrow> core\<lparr>ConnectsHead := f (ConnectsHead core)\<rparr> | At i \<Rightarrow> upd_conn i f core)"

definition upd_ref_server :: "conn_ref \<Rightarrow> (Server \<Rightarrow> Server) \<Rightarrow> XGCore \<Rightarrow> XGCore" where
  "upd_ref_server r f = upd_ref r (\<lambda>c. c\<lparr>server := f (server c)\<rparr>)"

definition login_packet :: "Connect \<Rightarrow> bytes" where
  "login_packet conn = take (unat (loginDatalength conn)) (loginData conn)"

definition task_result :: "xg_env \<Rightarrow> ConnectTask \<Rightarrow> XGCore \<Rightarrow> XGCore" where
  "task_result env task core =
     (case XGGetConnectByDeviceid (task_device_id task) core of
        Some r \<Rightarrow>
          let core = upd_ref_server r (\<lambda>s. s\<lparr>sv_status := E_SER_WAIT_CONECT, sv_time := env_now env\<rparr>) core
          in if task_fd task > 0
             then
               let core = log_event (Ev_Send (task_fd task) (login_packet (get_ref r core))) core
               in if env_send env (task_fd task) > 0
                  then upd_ref_server r (\<lambda>s. s\<lparr>sv_SocketHandle := task_fd task,
                         sv_status := E_SER_WAIT_LOGIN_RESULT, sv_time := env_now env\<rparr>) core
                  else drop_socket (task_fd task) core
             else core
      | None \<Rightarrow> if task_fd task > 0 then drop_socket (task_fd task) core else core)"

definition XGConnectTaskResult :: "xg_env \<Rightarrow> XGCore \<Rightarrow> XGCore" where
  "XGConnectTaskResult env core =
     (if ConnectTasksResult core = [] then core
      else if \<not> env_trylock env then core
      else fold (\<lambda>task core. XGFree (task_result env task core)) (ConnectTasksResult core)
             (core\<lparr>ConnectTasksResult := []\<rparr>))"

text \<open>Time-outs of one connection: login to the cloud 15 s, of the device 20 s, heartbeat 180 s.\<close>

definition timeout_server :: "u64 \<Rightarrow> Server \<Rightarrow> Server \<times> xg_event list" where
  "timeout_server now s =
     (let s = (if now < sv_time s then s\<lparr>sv_time := now\<rparr> else s)
      in if sv_status s = E_SER_WAIT_LOGIN_RESULT \<and> now - sv_time s > 15000 \<and> sv_SocketHandle s > 0
         then (s\<lparr>sv_SocketHandle := 0, sv_status := E_SER_WAIT_CONECT, sv_time := now\<rparr>,
               [Ev_Shutdown (sv_SocketHandle s), Ev_Close (sv_SocketHandle s)])
         else (s, []))"

definition timeout_conn :: "u64 \<Rightarrow> Connect \<Rightarrow> Connect \<times> xg_event list" where
  "timeout_conn now conn =
     (let (s, evs) = timeout_server now (server conn);
          c = client conn;
          c = (if cl_time c > now then c\<lparr>cl_time := now\<rparr> else c);
          conn = conn\<lparr>client := c, server := s\<rparr>
      in (case cl_status c of
            E_CLI_WAIT_LOGIN \<Rightarrow>
              if now - cl_time c > 20000
              then conn\<lparr>disconnectReason := E_DIS_CLIENT_LOGIN_TIMEOUT, isActive := False\<rparr> else conn
          | E_CLI_LOGINED \<Rightarrow>
              if now - cl_time c > 180000
              then conn\<lparr>disconnectReason := E_DIS_CLIENT_PING_TIMEOUT, isActive := False\<rparr> else conn,
          evs))"

definition XGTimeout :: "xg_env \<Rightarrow> XGCore \<Rightarrow> XGCore" where
  "XGTimeout env core =
     (let now = env_now env; (head, evs) = timeout_conn now (ConnectsHead core);
          res = map (timeout_conn now) (Connects core)
      in core\<lparr>ConnectsHead := head, Connects := map fst res,
              xlog := xlog core @ evs @ concat (map snd res)\<rparr>)"

text \<open>One turn of the connecting thread that finds a task; its result goes to the core thread.\<close>

definition XGCoreConnectServerThread :: "xg_env \<Rightarrow> xg_net \<Rightarrow> XGCore \<Rightarrow> XGCore" where
  "XGCoreConnectServerThread env net core =
     (case ConnectTasks core of
        [] \<Rightarrow> core
      | task # tasks \<Rightarrow>
          if \<not> env_trylock env then core
          else
            let (ret, task, core) = XGConnectServer net (task\<lparr>task_fd := 0\<rparr>) (core\<lparr>ConnectTasks := tasks\<rparr>)
            in core\<lparr>ConnectTasksResult := ConnectTasksResult core @ [task]\<rparr>)"

section \<open>The select loop\<close>

text \<open>
  \<^verbatim>\<open>FD_SET\<close> writes a bit array of \<^verbatim>\<open>FD_SETSIZE\<close> = 1024 bits without a check. The second component
  of the result are the descriptors watched for reading, the third those for writing.
\<close>

definition fd_ok :: "int \<Rightarrow> bool" where
  "fd_ok fd \<longleftrightarrow> 0 \<le> fd \<and> fd < 1024"

definition watch_conn :: "Connect \<Rightarrow> Connect \<times> int list \<times> int list" where
  "watch_conn conn =
     (let cs = cl_SocketHandle (client conn); ss = sv_SocketHandle (server conn);
          (conn, r1, w1) = (if cs > 0 \<and> isActive conn
            then (conn, [cs], if cl_sendQueue (client conn) \<noteq> [] then [cs] else [])
            else (conn\<lparr>isActive := False\<rparr>, [], []));
          (r2, w2) = (if ss > 0 \<and> isActive conn
            then ([ss], if sv_sendQueue (server conn) \<noteq> [] then [ss] else [])
            else ([], []))
      in (conn, r1 @ r2, w1 @ w2))"

record xg_round =
  rd_env :: xg_env
  rd_sizeof_Connect :: int
  rd_sizeof_task :: int
  rd_select :: int
  rd_readable :: "int \<Rightarrow> bool"
  rd_writable :: "int \<Rightarrow> bool"
  rd_accept :: "int \<times> sockaddr_in"
  rd_udp :: "int \<times> bytes \<times> sockaddr_in"
  rd_recv :: "int \<Rightarrow> int \<Rightarrow> int \<times> bytes"

text \<open>The first half of a turn: housekeeping, protocol, queues, time-outs, what to wait for.\<close>

definition XGCoreThread_prepare :: "xg_round \<Rightarrow> XGCore \<Rightarrow> (XGCore \<times> int list \<times> int list) c_result" where
  "XGCoreThread_prepare rd core =
     (if \<not> fd_ok (ServerTcpSocketHandle core) \<or> \<not> fd_ok (ServerUdpSocketHandle core)
      then Inl Out_Of_Bounds
      else c_bind (XGProtocolStart (rd_env rd) (XGRemoveNotActive core)) (\<lambda>core.
        let core = XGPSendQueeu (rd_env rd) core;
            core = XGConnectTask (rd_env rd) (rd_sizeof_task rd) core;
            core = XGConnectTaskResult (rd_env rd) core;
            core = XGTimeout (rd_env rd) core;
            res = map watch_conn (Connects core);
            rds = concat (map (fst \<circ> snd) res);
            wrs = concat (map (snd \<circ> snd) res)
        in if list_all fd_ok rds
           then Inr (core\<lparr>Connects := map fst res\<rparr>,
                     ServerTcpSocketHandle core # ServerUdpSocketHandle core # rds, wrs)
           else Inl Out_Of_Bounds))"

primrec write_loop :: "(int \<Rightarrow> bool) \<Rightarrow> nat list \<Rightarrow> XGCore \<Rightarrow> XGCore c_result" where
  "write_loop ready [] core = Inr core"
| "write_loop ready (i # js) core =
     c_bind (if ready (cl_SocketHandle (client (Connects core ! i))) then XGConnectSend False i core
             else Inr core) (\<lambda>core.
       c_bind (if ready (sv_SocketHandle (server (Connects core ! i))) then XGConnectSend True i core
               else Inr core)
         (write_loop ready js))"

primrec read_loop ::
  "xg_env \<Rightarrow> (int \<Rightarrow> int \<Rightarrow> int \<times> bytes) \<Rightarrow> (int \<Rightarrow> bool) \<Rightarrow> nat list \<Rightarrow> XGCore \<Rightarrow> XGCore" where
  "read_loop env rcv ready [] core = core"
| "read_loop env rcv ready (i # js) core =
     (let core = (if ready (cl_SocketHandle (client (Connects core ! i)))
                  then XGRecvConnectClient rcv i core else core);
          core = (if ready (sv_SocketHandle (server (Connects core ! i)))
                  then XGRecvConnectServer env rcv i core else core)
      in read_loop env rcv ready js core)"

text \<open>The second half: what \<^verbatim>\<open>select\<close> reported ready. The write set is only asked for if not empty.\<close>

definition XGCoreThread_dispatch ::
  "xg_round \<Rightarrow> int list \<Rightarrow> int list \<Rightarrow> XGCore \<Rightarrow> XGCore c_result" where
  "XGCoreThread_dispatch rd rds wrs core =
     (let readable = (\<lambda>fd. fd \<in> set rds \<and> rd_readable rd fd);
          writable = (\<lambda>fd. fd \<in> set wrs \<and> rd_writable rd fd);
          core = (if readable (ServerTcpSocketHandle core)
            then XGAcceptConnect (rd_env rd) (rd_sizeof_Connect rd) (fst (rd_accept rd)) (snd (rd_accept rd)) core
            else core)
      in c_bind (if readable (ServerUdpSocketHandle core)
                 then XGRecvUdpData (rd_env rd) (rd_udp rd) core else Inr core) (\<lambda>core.
         c_bind (if wrs \<noteq> [] then write_loop writable [0..<length (Connects core)] core
                 else Inr core) (\<lambda>core.
         Inr (read_loop (rd_env rd) (rd_recv rd) readable [0..<length (Connects core)] core))))"

definition XGCoreThread_turn :: "xg_round \<Rightarrow> XGCore \<Rightarrow> XGCore c_result" where
  "XGCoreThread_turn rd core =
     c_bind (XGCoreThread_prepare rd core) (\<lambda>(core, rds, wrs).
       if rd_select rd \<le> 0 then Inr core else XGCoreThread_dispatch rd rds wrs core)"

definition XGCoreThread_start :: "XGCore \<Rightarrow> XGCore" where
  "XGCoreThread_start core = core\<lparr>isInited := True, isRuning := True\<rparr>"

text \<open>
  The end of the thread: \<^verbatim>\<open>conn\<close> has been run to the end of the list (or was never set), so
  the close of its client socket reads through a NULL pointer.
\<close>

definition XGCoreThread_exit :: "Connect option \<Rightarrow> XGCore \<Rightarrow> XGCore c_result" where
  "XGCoreThread_exit conn core =
     (let core = log_event (Ev_Shutdown (ServerUdpSocketHandle core))
            (log_event (Ev_Shutdown (ServerTcpSocketHandle core)) (core\<lparr>isRuning := False\<rparr>))
      in case conn of
           None \<Rightarrow> Inl Null_Deref
         | Some conn \<Rightarrow> Inr (log_event (Ev_Close (ServerUdpSocketHandle core))
             (log_event (Ev_Close (cl_SocketHandle (client conn))) core)))"

text \<open>The thread: turns as long as the outside provides them and nobody asks it to quit.\<close>

primrec XGCoreThread :: "xg_round list \<Rightarrow> XGCore \<Rightarrow> XGCore c_result" where
  "XGCoreThread [] core = Inr core"
| "XGCoreThread (rd # rds) core =
     (if isQuit core then XGCoreThread_exit None core
      else c_bind (XGCoreThread_turn rd core) (XGCoreThread rds))"

section \<open>Start, stop and the user's queue\<close>

record xg_listen =
  li_socket :: int
  li_bind :: int
  li_listen :: int

definition XGCreateTcpServer :: "xg_listen \<Rightarrow> int" where
  "XGCreateTcpServer li =
     (if li_socket li = -1 then -1 else if li_bind li = -1 then -1
      else if li_listen li = -1 then -1 else li_socket li)"

definition XGCreatUdpServer :: "xg_listen \<Rightarrow> int" where
  "XGCreatUdpServer li =
     (if li_socket li < 0 then -1 else if li_bind li < 0 then -1 else li_socket li)"

definition XGStartCore :: "xg_listen \<Rightarrow> xg_listen \<Rightarrow> XGCore \<Rightarrow> int \<times> XGCore" where
  "XGStartCore tcp udp core =
     (if isInited core then (-1, core\<lparr>core_ErrorCode := EC_ALREADY_INIT\<rparr>)
      else
        let core = core\<lparr>core_ErrorCode := EC_NO_ERROR, isQuit := False\<rparr>;
            sock = XGCreateTcpServer tcp
        in if sock \<le> 0 then (2, core\<lparr>core_ErrorCode := EC_CREATE_TCP_SERVER_FAILED\<rparr>)
           else (0, core\<lparr>ServerTcpSocketHandle := sock,
                         ServerUdpSocketHandle := XGCreatUdpServer udp\<rparr>))"

text \<open>
  Stopping waits for the core thread (\<open>None\<close> while it runs), then releases every connection and
  reads its successor out of the memory just released.
\<close>

definition XGStopCore :: "XGCore \<Rightarrow> XGCore c_result option" where
  "XGStopCore core =
     (if isRuning core then None
      else Some (case Connects core of
          [] \<Rightarrow> Inr (core\<lparr>isQuit := True\<rparr>)
        | conn # conns \<Rightarrow> Inl Use_After_Free))"

definition XGCoreSendData :: "XGQueue \<Rightarrow> nat \<Rightarrow> XGCore \<Rightarrow> int \<times> XGCore" where
  "XGCoreSendData item dest core =
     (if dest = 0 then (0, core\<lparr>ClientSendQueue := ClientSendQueue core @ [item]\<rparr>)
      else if dest = 1 then (0, core\<lparr>CloudSendQueue := CloudSendQueue core @ [item]\<rparr>)
      else (-1, core))"

section \<open>The invariant across the operations\<close>

lemma unique_ids_Cons:
  "unique_ids (c # cs) \<longleftrightarrow> unique_ids cs \<and> (isActive c \<longrightarrow> device_id c \<noteq> 0 \<longrightarrow>
     (\<forall>c' \<in> set cs. isActive c' \<longrightarrow> device_id c' \<noteq> device_id c))"
  unfolding unique_ids_def by (simp add: All_less_Suc2 all_set_conv_all_nth) (auto; metis)

lemma unique_ids_distinct:
  "unique_ids cs \<longleftrightarrow> distinct (map device_id (filter (\<lambda>c. isActive c \<and> device_id c \<noteq> 0) cs))"
proof (induction cs)
  case Nil
  then show ?case by (simp add: unique_ids_def)
next
  case (Cons c cs)
  then show ?case by (auto simp: unique_ids_Cons image_iff)
qed

lemma unique_ids_filter: "unique_ids cs \<Longrightarrow> unique_ids (filter isActive cs)"
  by (simp add: unique_ids_distinct conj_commute cong: conj_cong)

lemma unique_ids_map:
  assumes "unique_ids cs" "\<And>c. device_id (f c) = device_id c" "\<And>c. isActive (f c) \<Longrightarrow> isActive c"
  shows "unique_ids (map f cs)"
  using assms unfolding unique_ids_def by (simp add: assms(2))

lemma core_inv_map:
  assumes "core_inv core" "\<And>c. device_id (f c) = device_id c" "\<And>c. isActive (f c) \<Longrightarrow> isActive c"
    and "\<And>c. conn_ok c \<Longrightarrow> conn_ok (f c)"
  shows "core_inv (core\<lparr>Connects := map f (Connects core)\<rparr>)"
  using assms by (auto simp: core_inv_def list_all_iff intro!: unique_ids_map)

lemma core_inv_fields [simp]:
  "core_inv (core\<lparr>xlog := l\<rparr>) = core_inv core" "core_inv (core\<lparr>ConnectsHead := h\<rparr>) = core_inv core"
  "core_inv (core\<lparr>ConnectTasks := t\<rparr>) = core_inv core"
  "core_inv (core\<lparr>ConnectTasksResult := t\<rparr>) = core_inv core"
  "core_inv (core\<lparr>ClientSendQueue := q\<rparr>) = core_inv core"
  "core_inv (core\<lparr>CloudSendQueue := q\<rparr>) = core_inv core"
  "core_inv (drop_socket fd core) = core_inv core"
  by (simp_all add: core_inv_def drop_socket_def log_event_def)

subsection \<open>Removing closed connections\<close>

definition close_events :: "XGConfig option \<Rightarrow> Connect \<Rightarrow> xg_event list" where
  "close_events cfg conn =
     [Ev_Shutdown (cl_SocketHandle (client conn)), Ev_Shutdown (sv_SocketHandle (server conn)),
      Ev_Close (cl_SocketHandle (client conn)), Ev_Close (sv_SocketHandle (server conn))]
     @ (if cfg \<noteq> None \<and> device_id conn \<noteq> 0 \<and> cl_islogined (client conn) \<and> has_OnLoginout (the cfg)
        then [Ev_Loginout (device_id conn) (disconnectReason conn)] else [])"

lemma close_connect_eq:
  "close_connect conn core = core\<lparr>xlog := xlog core @ close_events (config core) conn,
     memcount := memcount core - of_nat (conn_items conn + 1)\<rparr>"
  by (simp add: close_connect_def close_events_def XGConnectRelease_eq log_event_def Let_def
      conn_items_def word_gt_0 diff_diff_eq split: option.splits)

lemma remove_loop_eq:
  "remove_loop conns core = (filter isActive conns,
     core\<lparr>xlog := xlog core @ concat (map (close_events (config core)) (filter (\<lambda>c. \<not> isActive c) conns)),
       memcount := memcount core
         - of_nat (sum_list (map (\<lambda>c. conn_items c + 1) (filter (\<lambda>c. \<not> isActive c) conns)))\<rparr>)"
  by (induction conns arbitrary: core) (simp_all add: close_connect_eq diff_diff_eq ac_simps)

lemma XGRemoveNotActive_eq:
  "XGRemoveNotActive core = core\<lparr>Connects := filter isActive (Connects core),
     xlog := xlog core @ concat (map (close_events (config core)) (filter (\<lambda>c. \<not> isActive c) (Connects core))),
     memcount := memcount core
       - of_nat (sum_list (map (\<lambda>c. conn_items c + 1) (filter (\<lambda>c. \<not> isActive c) (Connects core))))\<rparr>"
  by (simp add: XGRemoveNotActive_def remove_loop_eq)

lemma sum_filter_split:
  "sum_list (map f (filter P xs)) + sum_list (map f (filter (\<lambda>x. \<not> P x) xs)) = (sum_list (map f xs) :: nat)"
  by (induction xs) simp_all

lemma live_objects_alt:
  "live_objects core = sum_list (map (\<lambda>c. conn_items c + 1) (Connects core)) + length (ConnectTasks core)
     + length (ConnectTasksResult core) + length (ClientSendQueue core) + length (CloudSendQueue core)"
proof -
  have "length cs + sum_list (map conn_items cs) = sum_list (map (\<lambda>c. conn_items c + 1) cs)" for cs
    by (induction cs) simp_all
  then show ?thesis
    by (simp add: live_objects_def)
qed

lemma mem_balance_remove_inactive: "mem_balance (XGRemoveNotActive core) = mem_balance core"
proof -
  let ?g = "\<lambda>c. conn_items c + 1" and ?cs = "Connects core"
  have "live_objects (XGRemoveNotActive core) + sum_list (map ?g (filter (\<lambda>c. \<not> isActive c) ?cs)) =
      live_objects core"
    using sum_filter_split [of ?g isActive ?cs] by (simp add: live_objects_alt XGRemoveNotActive_eq)
  then have "of_nat (live_objects core) = (of_nat (live_objects (XGRemoveNotActive core))
      + of_nat (sum_list (map ?g (filter (\<lambda>c. \<not> isActive c) ?cs))) :: u32)"
    by (metis of_nat_add)
  then show ?thesis
    unfolding mem_balance_def by (simp add: XGRemoveNotActive_eq)
qed

lemma core_inv_remove_inactive: "core_inv core \<Longrightarrow> core_inv (XGRemoveNotActive core)"
  by (auto simp: core_inv_def XGRemoveNotActive_eq unique_ids_filter list_all_iff)

subsection \<open>Receiving, accepting, sending\<close>

text \<open>What \<^verbatim>\<open>recv\<close> promises: no more than the room offered, and as many bytes as it says.\<close>

definition recv_contract :: "(int \<Rightarrow> int \<Rightarrow> int \<times> bytes) \<Rightarrow> bool" where
  "recv_contract rcv \<longleftrightarrow> (\<forall>sock room. fst (rcv sock room) \<le> max 0 room
     \<and> (0 < fst (rcv sock room) \<longrightarrow> length (snd (rcv sock room)) = nat (fst (rcv sock room))))"

lemma keeps_steps:
  "keeps a b \<Longrightarrow> keeps a (drop_socket fd b)" "keeps a b \<Longrightarrow> keeps a (log_event e b)"
  "keeps a b \<Longrightarrow> keeps a (XGDataQueueRelease it b)"
  by (auto intro: keeps_trans simp: drop_socket_def keeps_trans [OF _ keeps_log_event])

lemma mem_balance_drop_socket [simp]: "mem_balance (drop_socket fd core) = mem_balance core"
  by (simp add: drop_socket_def)

lemma Connects_drop_socket [simp]: "Connects (drop_socket fd core) = Connects core"
  by (simp add: drop_socket_def log_event_def)

lemma recv_pushes:
  assumes "recv_contract rcv" "bq_inv q" "0 < fst (rcv sock (2048 - sint (XGByteQueueSize q)))"
  defines "n \<equiv> fst (rcv sock (2048 - sint (XGByteQueueSize q)))"
    and "buf \<equiv> snd (rcv sock (2048 - sint (XGByteQueueSize q)))"
  shows "bq_contents (snd (XGByteQueuePush q buf (of_int n))) = bq_contents q @ buf"
    and "bq_inv (snd (XGByteQueuePush q buf (of_int n)))"
proof -
  have room: "2048 - sint (XGByteQueueSize q) = int (2048 - length (bq_contents q))"
    using assms(2) by (simp add: sint_XGByteQueueSize bq_inv_def of_nat_diff)
  have n: "n \<le> int (2048 - length (bq_contents q))" "length buf = nat n"
    using assms(1,3) room unfolding recv_contract_def n_def buf_def by (metis max_0L of_nat_0_le_iff max_absorb2)+
  have "0 < n"
    using assms(3) by (simp add: n_def)
  then have i: "of_int n = (of_nat (length buf) :: u32)"
    using n(2) by simp
  have "length (bq_contents q) + length buf \<le> 2048"
    using n \<open>0 < n\<close> assms(2) by (auto simp: bq_inv_def)
  then show "bq_contents (snd (XGByteQueuePush q buf (of_int n))) = bq_contents q @ buf"
    and "bq_inv (snd (XGByteQueuePush q buf (of_int n)))"
    unfolding i using bq.push_fits [OF assms(2)] by simp_all
qed

lemma XGRecvConnectClient_keeps:
  assumes "recv_contract rcv" "core_inv core" "i < length (Connects core)"
  shows "keeps core (XGRecvConnectClient rcv i core) \<and>
    mem_balance (XGRecvConnectClient rcv i core) = mem_balance core"
proof -
  let ?c = "Connects core ! i"
  let ?q = "cl_recvBuffer (client ?c)" and ?sock = "cl_SocketHandle (client ?c)"
  obtain n buf where r: "rcv ?sock (2048 - sint (XGByteQueueSize ?q)) = (n, buf)"
    by fastforce
  have q: "bq_inv ?q"
    using conn_ok_nth [OF assms(2,3)] by (simp add: conn_ok_def)
  let ?c1 = "upd_conn i (\<lambda>c. c\<lparr>disconnectReason := E_DIS_CLIENT_CLOSE, isActive := False\<rparr>) core"
  have k1: "keeps core ?c1" "mem_balance ?c1 = mem_balance core"
    using assms(3) by (auto intro!: keeps_upd_conn simp: mem_balance_upd_conn)
  have "keeps core (upd_client i (\<lambda>c. c\<lparr>cl_SocketHandle := 0\<rparr>) (drop_socket ?sock ?c1))"
    using assms(3) by (intro keeps_trans [OF keeps_steps(1) [OF k1(1), of ?sock]] upd_client_keeps(1)) simp_all
  moreover have "mem_balance (upd_client i (\<lambda>c. c\<lparr>cl_SocketHandle := 0\<rparr>) (drop_socket ?sock ?c1)) = mem_balance core"
    using assms(3) k1(2) by (subst upd_client_keeps(2)) simp_all
  moreover have "bq_inv (snd (XGByteQueuePush ?q buf (of_int n)))" if "0 < n"
    using recv_pushes(2) [OF assms(1) q, of ?sock] r that by simp
  ultimately show ?thesis
    using assms(3) by (auto simp: XGRecvConnectClient_def Let_def r upd_client_keeps)
qed

lemma XGRecvConnectServer_keeps:
  assumes "recv_contract rcv" "core_inv core" "i < length (Connects core)"
  shows "keeps core (XGRecvConnectServer env rcv i core) \<and>
    mem_balance (XGRecvConnectServer env rcv i core) = mem_balance core"
proof -
  let ?c = "Connects core ! i"
  let ?q = "sv_recvBuffer (server ?c)" and ?sock = "sv_SocketHandle (server ?c)"
  obtain n buf where r: "rcv ?sock (2048 - sint (XGByteQueueSize ?q)) = (n, buf)"
    by fastforce
  have q: "bq_inv ?q"
    using conn_ok_nth [OF assms(2,3)] by (simp add: conn_ok_def)
  let ?c1 = "upd_server i (\<lambda>s. s\<lparr>sv_status := E_SER_WAIT_CONECT, sv_time := env_now env\<rparr>) core"
  have k1: "keeps core ?c1" "mem_balance ?c1 = mem_balance core"
    using assms(3) by (simp_all add: upd_server_keeps)
  have "keeps core (upd_server i (\<lambda>s. s\<lparr>sv_SocketHandle := 0\<rparr>) (drop_socket ?sock ?c1))"
    using assms(3) by (intro keeps_trans [OF keeps_steps(1) [OF k1(1), of ?sock]] upd_server_keeps(1)) simp_all
  moreover have "mem_balance (upd_server i (\<lambda>s. s\<lparr>sv_SocketHandle := 0\<rparr>) (drop_socket ?sock ?c1)) = mem_balance core"
    using assms(3) k1(2) by (subst upd_server_keeps(2)) simp_all
  moreover have "bq_inv (snd (XGByteQueuePush ?q buf (of_int n)))" if "0 < n"
    using recv_pushes(2) [OF assms(1) q, of ?sock] r that by simp
  ultimately show ?thesis
    using assms(3) by (auto simp: XGRecvConnectServer_def Let_def r upd_server_keeps)
qed

lemma XGConnectSend_keeps:
  assumes "i < length (Connects core)" "XGConnectSend to_server i core = Inr core'"
  shows "keeps core core' \<and> mem_balance core' = mem_balance core"
proof (cases to_server)
  case True
  obtain d rest where q: "sv_sendQueue (server (Connects core ! i)) = d # rest"
    using assms(2) True by (auto simp: XGConnectSend_def Let_def split: list.splits)
  let ?f = "\<lambda>c. c\<lparr>server := (server c)\<lparr>sv_sendQueue := rest\<rparr>\<rparr>"
  have "keeps core (upd_conn i ?f core)"
    using assms(1) q by (intro keeps_upd_conn) (simp_all add: conn_ok_def)
  moreover have "mem_balance (upd_conn i ?f core) = mem_balance core + 1"
    using assms(1) q by (simp add: mem_balance_upd_conn conn_items_def)
  ultimately show ?thesis
    using assms(2) True q by (auto simp: XGConnectSend_def Let_def upd_server_def
        intro: keeps_steps)
next
  case False
  obtain d rest where q: "cl_sendQueue (client (Connects core ! i)) = d # rest"
    using assms(2) False by (auto simp: XGConnectSend_def Let_def split: list.splits)
  let ?f = "\<lambda>c. c\<lparr>client := (client c)\<lparr>cl_sendQueue := rest\<rparr>\<rparr>"
  have "keeps core (upd_conn i ?f core)"
    using assms(1) q by (intro keeps_upd_conn) (simp_all add: conn_ok_def)
  moreover have "mem_balance (upd_conn i ?f core) = mem_balance core + 1"
    using assms(1) q by (simp add: mem_balance_upd_conn conn_items_def)
  ultimately show ?thesis
    using assms(2) False q by (auto simp: XGConnectSend_def Let_def upd_client_def
        intro: keeps_steps)
qed

lemma XGAcceptConnect_keeps:
  shows "core_inv core \<Longrightarrow> core_inv (XGAcceptConnect env sz sock addr core)"
    and "mem_balance (XGAcceptConnect env sz sock addr core) = mem_balance core"
proof -
  have n: "conn_ok (new_connect t sock addr)" "device_id (new_connect t sock addr) = 0"
    "conn_items (new_connect t sock addr) = 0" for t
    by (simp_all add: new_connect_def zero_Connect_def conn_ok_def conn_items_def)
  show "core_inv core \<Longrightarrow> core_inv (XGAcceptConnect env sz sock addr core)"
    using n by (auto simp: XGAcceptConnect_def XGMemalloc_def core_inv_def unique_ids_Cons log_event_def)
  show "mem_balance (XGAcceptConnect env sz sock addr core) = mem_balance core"
    using n by (simp add: XGAcceptConnect_def XGMemalloc_def) (simp add: mem_balance_def live_objects_def)
qed

section \<open>The user's queues: a contract for both directions\<close>

text \<open>
  A sink takes an item for the connection that speaks for the item's device, if that connection is
  ready (\<open>target\<close>), and refuses it otherwise. What the loop over a user queue needs of a sink is
  stated once, and both directions are instances.
\<close>

locale item_sink =
  fixes put :: "XGQueue \<Rightarrow> XGCore \<Rightarrow> int \<times> XGCore"
    and target :: "XGCore \<Rightarrow> u32 \<Rightarrow> nat option"
    and queue_of :: "Connect \<Rightarrow> XGQueue list"
  assumes target_bound: "target core d = Some i \<Longrightarrow> i < length (Connects core)"
    and put_refused: "target core (q_deviceid it) = None \<Longrightarrow> put it core = (-1, core)"
    and put_taken: "target core (q_deviceid it) = Some i \<Longrightarrow> fst (put it core) = 0
      \<and> (\<forall>j. queue_of (Connects (snd (put it core)) ! j) =
             queue_of (Connects core ! j) @ (if j = i then [it] else []))
      \<and> (\<forall>d. target (snd (put it core)) d = target core d)
      \<and> mem_balance (snd (put it core)) = mem_balance core - 1
      \<and> (item_ok it \<longrightarrow> keeps core (snd (put it core)))"
    and release_neutral: "target (XGDataQueueRelease it core) d = target core d"
begin

lemma send_loop_delivers:
  "queue_of (Connects (send_loop put items core) ! i) =
     queue_of (Connects core ! i) @ filter (\<lambda>it. target core (q_deviceid it) = Some i) items"
proof (induction items arbitrary: core)
  case Nil
  then show ?case by simp
next
  case (Cons it items)
  show ?case
  proof (cases "target core (q_deviceid it)")
    case None
    then show ?thesis
      by (simp add: put_refused Cons release_neutral) (simp add: XGDataQueueRelease_def XGFree_def)
  next
    case (Some k)
    note t = put_taken [OF Some]
    have "send_loop put (it # items) core = send_loop put items (snd (put it core))"
      using t by (simp add: split_beta)
    then show ?thesis
      using t by (simp add: Cons Some)
  qed
qed

lemma send_loop_balance:
  "mem_balance (send_loop put items core) = mem_balance core - of_nat (length items)"
proof (induction items arbitrary: core)
  case Nil
  then show ?case by simp
next
  case (Cons it items)
  then show ?case
    using put_taken [of core it] put_refused [of core it]
    by (cases "target core (q_deviceid it)") (simp_all add: split_beta diff_diff_eq ac_simps)
qed

lemma send_loop_keeps:
  "list_all item_ok items \<Longrightarrow> keeps core (send_loop put items core)"
proof (induction items arbitrary: core)
  case Nil
  then show ?case by simp
next
  case (Cons it items)
  have "keeps core (if fst (put it core) \<noteq> 0 then XGDataQueueRelease it (snd (put it core))
      else snd (put it core))"
    using put_taken [of core it] put_refused [of core it] Cons.prems
    by (cases "target core (q_deviceid it)") simp_all
  then show ?case
    using Cons keeps_trans by (simp add: split_beta)
qed

end

definition client_target :: "XGCore \<Rightarrow> u32 \<Rightarrow> nat option" where
  "client_target core d = (case find_conn d (Connects core) of
     None \<Rightarrow> None | Some i \<Rightarrow> if cl_status (client (Connects core ! i)) = E_CLI_LOGINED then Some i else None)"

definition cloud_target :: "XGCore \<Rightarrow> u32 \<Rightarrow> nat option" where
  "cloud_target core d = (case find_conn d (Connects core) of
     None \<Rightarrow> None | Some i \<Rightarrow> if sv_status (server (Connects core ! i)) = E_SER_LOGINED then Some i else None)"

lemma find_conn_Some:
  "find_conn d cs = Some i \<Longrightarrow> i < length cs \<and> device_id (cs ! i) = d \<and>
     (\<forall>j < i. device_id (cs ! j) \<noteq> d)"
proof (induction cs arbitrary: i)
  case (Cons c cs)
  then show ?case by (auto simp: nth_Cons split: if_splits nat.split)
qed simp

lemma find_conn_update:
  "device_id c = device_id (cs ! i) \<Longrightarrow> find_conn d (cs[i := c]) = find_conn d cs"
proof (induction cs arbitrary: i)
  case (Cons a cs)
  then show ?case by (cases i) simp_all
qed simp

lemma XGDataQueueRelease_Connects [simp]: "Connects (XGDataQueueRelease it core) = Connects core"
  by (simp add: XGDataQueueRelease_def XGFree_def)

lemma queue_client_nth:
  "i < length (Connects core) \<Longrightarrow> Connects (queue_client i it core) ! j =
     (if j = i then (Connects core ! i)\<lparr>client := (client (Connects core ! i))
        \<lparr>cl_sendQueue := cl_sendQueue (client (Connects core ! i)) @ [it]\<rparr>\<rparr> else Connects core ! j)"
  by (simp add: upd_defs)

lemma queue_server_nth:
  "i < length (Connects core) \<Longrightarrow> Connects (queue_server i it core) ! j =
     (if j = i then (Connects core ! i)\<lparr>server := (server (Connects core ! i))
        \<lparr>sv_sendQueue := sv_sendQueue (server (Connects core ! i)) @ [it]\<rparr>\<rparr> else Connects core ! j)"
  by (simp add: upd_defs)

lemma find_conn_queue [simp]:
  "find_conn d (Connects (queue_client i it core)) = find_conn d (Connects core)"
  "find_conn d (Connects (queue_server i it core)) = find_conn d (Connects core)"
  by (simp_all add: upd_defs find_conn_update)

lemma queue_client_balance:
  "i < length (Connects core) \<Longrightarrow> mem_balance (queue_client i it core) = mem_balance core - 1"
  unfolding queue_client_def upd_client_def by (simp add: mem_balance_upd_conn conn_items_def)

lemma queue_server_balance:
  "i < length (Connects core) \<Longrightarrow> mem_balance (queue_server i it core) = mem_balance core - 1"
  unfolding queue_server_def upd_server_def by (simp add: mem_balance_upd_conn conn_items_def)

interpretation to_device: item_sink XGSendQueueClient client_target "\<lambda>c. cl_sendQueue (client c)"
proof
  fix core :: XGCore and it :: XGQueue and i
  assume t: "client_target core (q_deviceid it) = Some i"
  then have i: "i < length (Connects core)" "XGSendQueueClient it core = (0, queue_client i it core)"
    using find_conn_Some [of "q_deviceid it" "Connects core"]
    by (auto simp: client_target_def XGSendQueueClient_def split: option.splits if_splits)
  have "client_target (queue_client i it core) d = client_target core d" for d
    using i(1) by (simp add: client_target_def queue_client_nth split: option.splits)
  then show "fst (XGSendQueueClient it core) = 0
      \<and> (\<forall>j. cl_sendQueue (client (Connects (snd (XGSendQueueClient it core)) ! j)) =
             cl_sendQueue (client (Connects core ! j)) @ (if j = i then [it] else []))
      \<and> (\<forall>d. client_target (snd (XGSendQueueClient it core)) d = client_target core d)
      \<and> mem_balance (snd (XGSendQueueClient it core)) = mem_balance core - 1
      \<and> (item_ok it \<longrightarrow> keeps core (snd (XGSendQueueClient it core)))"
    using i queue_client_keeps(1) [OF i(1)]
    by (simp add: queue_client_nth queue_client_balance)
qed (auto simp: client_target_def XGSendQueueClient_def find_conn_Some split: option.splits if_splits)

interpretation to_cloud: item_sink XGSendQueueCloud cloud_target "\<lambda>c. sv_sendQueue (server c)"
proof
  fix core :: XGCore and it :: XGQueue and i
  assume t: "cloud_target core (q_deviceid it) = Some i"
  then have i: "i < length (Connects core)" "XGSendQueueCloud it core = (0, queue_server i it core)"
    using find_conn_Some [of "q_deviceid it" "Connects core"]
    by (auto simp: cloud_target_def XGSendQueueCloud_def split: option.splits if_splits)
  have "cloud_target (queue_server i it core) d = cloud_target core d" for d
    using i(1) by (simp add: cloud_target_def queue_server_nth split: option.splits)
  then show "fst (XGSendQueueCloud it core) = 0
      \<and> (\<forall>j. sv_sendQueue (server (Connects (snd (XGSendQueueCloud it core)) ! j)) =
             sv_sendQueue (server (Connects core ! j)) @ (if j = i then [it] else []))
      \<and> (\<forall>d. cloud_target (snd (XGSendQueueCloud it core)) d = cloud_target core d)
      \<and> mem_balance (snd (XGSendQueueCloud it core)) = mem_balance core - 1
      \<and> (item_ok it \<longrightarrow> keeps core (snd (XGSendQueueCloud it core)))"
    using i queue_server_keeps(1) [OF i(1)]
    by (simp add: queue_server_nth queue_server_balance)
qed (auto simp: cloud_target_def XGSendQueueCloud_def find_conn_Some split: option.splits if_splits)

section \<open>The invariant of the gateway\<close>

definition gw_inv :: "XGCore \<Rightarrow> bool" where
  "gw_inv core \<longleftrightarrow> core_inv core \<and> list_all item_ok (ClientSendQueue core)
     \<and> list_all item_ok (CloudSendQueue core)"

lemma gw_invI:
  "gw_inv core \<Longrightarrow> core_inv core' \<Longrightarrow> ClientSendQueue core' = ClientSendQueue core \<Longrightarrow>
     CloudSendQueue core' = CloudSendQueue core \<Longrightarrow> gw_inv core'"
  by (simp add: gw_inv_def)

text \<open>Operations that touch connections and the log only.\<close>

named_theorems user_queues "operations that leave the user's queues alone"

lemma user_queues_basic [user_queues]:
  "ClientSendQueue (log_event e core) = ClientSendQueue core"
  "CloudSendQueue (log_event e core) = CloudSendQueue core"
  "ClientSendQueue (upd_conn i f core) = ClientSendQueue core"
  "CloudSendQueue (upd_conn i f core) = CloudSendQueue core"
  "ClientSendQueue (upd_client i g core) = ClientSendQueue core"
  "CloudSendQueue (upd_client i g core) = CloudSendQueue core"
  "ClientSendQueue (upd_server i h core) = ClientSendQueue core"
  "CloudSendQueue (upd_server i h core) = CloudSendQueue core"
  "ClientSendQueue (queue_client i it core) = ClientSendQueue core"
  "CloudSendQueue (queue_client i it core) = CloudSendQueue core"
  "ClientSendQueue (queue_server i it core) = ClientSendQueue core"
  "CloudSendQueue (queue_server i it core) = CloudSendQueue core"
  "ClientSendQueue (XGDataQueueRelease it core) = ClientSendQueue core"
  "CloudSendQueue (XGDataQueueRelease it core) = CloudSendQueue core"
  "ClientSendQueue (drop_socket fd core) = ClientSendQueue core"
  "CloudSendQueue (drop_socket fd core) = CloudSendQueue core"
  "ClientSendQueue (XGFree core) = ClientSendQueue core"
  "CloudSendQueue (XGFree core) = CloudSendQueue core"
  "ClientSendQueue (XGRemoveConnectByDeviceID d core) = ClientSendQueue core"
  "CloudSendQueue (XGRemoveConnectByDeviceID d core) = CloudSendQueue core"
  "ClientSendQueue (upd_ref_server r h core) = ClientSendQueue core"
  "CloudSendQueue (upd_ref_server r h core) = CloudSendQueue core"
  by (simp_all add: upd_defs log_event_def XGDataQueueRelease_def XGFree_def drop_socket_def
      XGRemoveConnectByDeviceID_def upd_ref_server_def upd_ref_def split: conn_ref.split)

definition same_queues :: "XGCore \<Rightarrow> XGCore \<Rightarrow> bool" where
  "same_queues a b \<longleftrightarrow> ClientSendQueue b = ClientSendQueue a \<and> CloudSendQueue b = CloudSendQueue a"

lemma same_queues_refl [simp]: "same_queues a a"
  by (simp add: same_queues_def)

lemma same_queues_trans: "same_queues a b \<Longrightarrow> same_queues b c \<Longrightarrow> same_queues a c"
  by (simp add: same_queues_def)

lemma factory_same_queues:
  "XGDataQueueFactory env n core = Inr (r, core') \<Longrightarrow> same_queues core core'"
  by (auto simp: XGDataQueueFactory_def XGMemalloc_def same_queues_def split: if_splits)

lemma factory_queue_simps:
  "XGDataQueueFactory env n core = Inr (r, core') \<Longrightarrow>
     ClientSendQueue core' = ClientSendQueue core \<and> CloudSendQueue core' = CloudSendQueue core"
  using factory_same_queues by (simp add: same_queues_def)

lemma connect_same_queues:
  assumes "XGProtocolClient_connect env i msg que core = Inr core'"
  shows "same_queues core core'"
  using assms unfolding XGProtocolClient_connect_def XGProtocolClient_notify_def
    XGProtocolClient_answer_def XGProDeviceConnectRequest_def
  by (auto simp: Let_def same_queues_def user_queues split: if_splits option.splits
      dest!: factory_queue_simps)

lemma handle_same_queues:
  assumes "XGProtocolClient_handle env i msg que core = Inr core'"
  shows "same_queues core core'"
  using assms connect_same_queues [of env i msg que core core'] unfolding XGProtocolClient_handle_def
  by (auto simp: XGProtocolClient_ping_def XGProDevicePipeRequest_def XGProDevicePipeSyncRequest_def
      same_queues_def user_queues split: if_splits option.splits dest!: factory_queue_simps)

lemma client_same_queues:
  assumes "XGProtocolClient env i core = Inr core'"
  shows "same_queues core core'"
  using assms unfolding XGProtocolClient_def Let_def
  by (auto simp: same_queues_def user_queues split: if_splits option.splits
      dest!: factory_queue_simps handle_same_queues)

lemma server_handle_queues [user_queues]:
  "ClientSendQueue (XGProtocolServer_handle i msg que core) = ClientSendQueue core"
  "CloudSendQueue (XGProtocolServer_handle i msg que core) = CloudSendQueue core"
  by (simp_all add: XGProtocolServer_handle_def XGProServerDeviceConnectResponse_def
      XGProServerPipeRequest_def user_queues split: option.split)

lemma server_same_queues:
  assumes "XGProtocolServer env i core = Inr core'"
  shows "same_queues core core'"
  using assms unfolding XGProtocolServer_def Let_def
  by (auto simp: same_queues_def user_queues split: if_splits option.splits dest!: factory_queue_simps)

lemma protocol_same_queues:
  assumes "XGProtocol env i core = Inr core'"
  shows "same_queues core core'"
  using assms unfolding XGProtocol_def Let_def
  by (auto split: if_splits intro: same_queues_trans client_same_queues server_same_queues)

lemma protocol_loop_keeps:
  assumes "core_inv core" "\<forall>i \<in> set js. i < length (Connects core)" "protocol_loop env js core = Inr core'"
  shows "keeps core core' \<and> mem_balance core' = mem_balance core \<and> same_queues core core'"
  using assms
proof (induction js arbitrary: core)
  case Nil
  then show ?case by simp
next
  case (Cons i js)
  obtain c1 where c1: "protocol_loop env js c1 = Inr core'" "XGProtocol env i core = Inr c1 \<or> c1 = core"
    using Cons.prems(3) by (auto simp: Let_def split: if_splits)
  then have k: "keeps core c1 \<and> mem_balance c1 = mem_balance core \<and> same_queues core c1"
    using XGProtocol_keeps [of core i env c1] protocol_same_queues [of env i core c1] Cons.prems by auto
  then have "core_inv c1" "\<forall>i \<in> set js. i < length (Connects c1)"
    using Cons.prems by (auto simp: keeps_def)
  from Cons.IH [OF this c1(1)] k show ?case
    using keeps_trans same_queues_trans by metis
qed

subsection \<open>Queues, tasks and time-outs\<close>

lemma keeps_core_inv: "keeps a b \<Longrightarrow> core_inv a \<Longrightarrow> core_inv b"
  by (simp add: keeps_def)

lemma send_loop_queues:
  "ClientSendQueue (send_loop XGSendQueueClient its core) = ClientSendQueue core"
  "CloudSendQueue (send_loop XGSendQueueClient its core) = CloudSendQueue core"
  "ClientSendQueue (send_loop XGSendQueueCloud its core) = ClientSendQueue core"
  "CloudSendQueue (send_loop XGSendQueueCloud its core) = CloudSendQueue core"
  by (induction its arbitrary: core)
    (simp_all add: XGSendQueueClient_def XGSendQueueCloud_def user_queues split: option.split)

lemma mem_balance_queues:
  "mem_balance (core\<lparr>ClientSendQueue := []\<rparr>) = mem_balance core + of_nat (length (ClientSendQueue core))"
  "mem_balance (core\<lparr>CloudSendQueue := []\<rparr>) = mem_balance core + of_nat (length (CloudSendQueue core))"
  "mem_balance (core\<lparr>ConnectTasksResult := []\<rparr>) = mem_balance core + of_nat (length (ConnectTasksResult core))"
  "mem_balance (core\<lparr>ConnectTasks := ts\<rparr>) =
     mem_balance core + of_nat (length (ConnectTasks core)) - of_nat (length ts)"
  by (simp_all add: mem_balance_def live_objects_def)

lemma XGPSendQueeu_keeps:
  assumes "gw_inv core"
  shows "gw_inv (XGPSendQueeu env core)" and "mem_balance (XGPSendQueeu env core) = mem_balance core"
proof -
  let ?c0 = "core\<lparr>ClientSendQueue := []\<rparr>"
  let ?c1 = "send_loop XGSendQueueClient (ClientSendQueue core) ?c0"
  let ?c2 = "?c1\<lparr>CloudSendQueue := []\<rparr>"
  let ?c3 = "send_loop XGSendQueueCloud (CloudSendQueue ?c1) ?c2"
  have items: "list_all item_ok (ClientSendQueue core)" "list_all item_ok (CloudSendQueue ?c1)"
    using assms by (simp_all add: gw_inv_def send_loop_queues)
  have "core_inv ?c1"
    using keeps_core_inv [OF to_device.send_loop_keeps [OF items(1)], of ?c0] assms by (simp add: gw_inv_def)
  then have "core_inv ?c3"
    using keeps_core_inv [OF to_cloud.send_loop_keeps [OF items(2)], of ?c2] by simp
  moreover have "ClientSendQueue ?c3 = []" "CloudSendQueue ?c3 = []"
    by (simp_all add: send_loop_queues)
  ultimately show "gw_inv (XGPSendQueeu env core)"
    using assms by (simp add: XGPSendQueeu_def Let_def gw_inv_def)
  have "mem_balance ?c3 = mem_balance core"
    by (simp add: to_device.send_loop_balance to_cloud.send_loop_balance mem_balance_queues send_loop_queues)
  then show "mem_balance (XGPSendQueeu env core) = mem_balance core"
    by (simp add: XGPSendQueeu_def Let_def)
qed

lemma XGReleaseDataQueue_eq: "XGReleaseDataQueue q core = ([], core)"
  by (induction q arbitrary: core) simp_all

lemma balance_chain:
  assumes "(b2 :: u32) + t = b0 + s + q" "d + s = b2 + r + x"
  shows "d + t = b0 + r + (q + x)"
proof -
  have "d = b2 + r + x - s" "t = b0 + s + q - b2"
    using assms by (simp_all add: eq_diff_eq add.commute)
  then show ?thesis
    by simp
qed

text \<open>One connection of the task loop, and what it leaks.\<close>

lemma connect_task_loop_keeps:
  assumes "\<forall>i \<in> set js. i < length (Connects core)" "distinct js"
  shows "keeps core (snd (connect_task_loop env sz js tasks core))
    \<and> same_queues core (snd (connect_task_loop env sz js tasks core))
    \<and> mem_balance (snd (connect_task_loop env sz js tasks core)) + of_nat (length tasks) =
      mem_balance core + of_nat (length (fst (connect_task_loop env sz js tasks core)))
        + of_nat (sum_list (map (\<lambda>i. if wants_cloud env (Connects core ! i)
            then length (sv_sendQueue (server (Connects core ! i))) else 0) js))"
  using assms
proof (induction js arbitrary: tasks core)
  case Nil
  then show ?case by simp
next
  case (Cons i js)
  have i: "i < length (Connects core)" "i \<notin> set js" "distinct js"
    using Cons.prems by auto
  show ?case
  proof (cases "wants_cloud env (Connects core ! i)")
    case False
    then show ?thesis
      using Cons by (simp del: of_nat_add)
  next
    case True
    define c1 where "c1 = upd_server i (\<lambda>s. s\<lparr>sv_sendQueue := []\<rparr>) core"
    define c2 where "c2 = (if env_malloc env sz
      then upd_server i (\<lambda>s. s\<lparr>sv_status := E_SER_CONNECTING\<rparr>) (c1\<lparr>memcount := memcount c1 + 1\<rparr>) else c1)"
    define ts where "ts = (if env_malloc env sz
      then tasks @ [\<lparr>task_device_id = device_id (Connects core ! i), task_fd = 0\<rparr>] else tasks)"
    have eq: "connect_task_loop env sz (i # js) tasks core = connect_task_loop env sz js ts c2"
      using True i(1) by (simp add: XGReleaseDataQueue_eq XGMemalloc_def c1_def c2_def ts_def upd_defs)
    have len: "length (Connects c2) = length (Connects core)"
      by (simp add: c2_def c1_def)
    have "keeps core c1"
      using i(1) unfolding c1_def upd_server_def by (intro keeps_upd_conn) (simp_all add: conn_ok_def)
    then have k: "keeps core c2"
      using i(1) unfolding c2_def
      by (auto intro!: keeps_trans [OF keeps_trans [OF _ keeps_memcount] upd_server_keeps(1)] simp: c1_def)
    have q: "same_queues core c2"
      by (simp add: c2_def c1_def same_queues_def user_queues)
    have "mem_balance c1 = mem_balance core + of_nat (length (sv_sendQueue (server (Connects core ! i))))"
      using i(1) unfolding c1_def upd_server_def by (simp add: mem_balance_upd_conn conn_items_def)
    moreover have "mem_balance c2 = mem_balance c1 + (if env_malloc env sz then 1 else 0)"
    proof (cases "env_malloc env sz")
      case True
      have "mem_balance (upd_server i (\<lambda>s. s\<lparr>sv_status := E_SER_CONNECTING\<rparr>)
          (c1\<lparr>memcount := memcount c1 + 1\<rparr>)) = mem_balance (c1\<lparr>memcount := memcount c1 + 1\<rparr>)"
        using i(1) by (intro upd_server_keeps(2)) (simp_all add: c1_def)
      then show ?thesis
        using True by (simp add: c2_def)
    qed (simp add: c2_def)
    ultimately have m: "mem_balance c2 + of_nat (length tasks) = mem_balance core + of_nat (length ts)
        + of_nat (length (sv_sendQueue (server (Connects core ! i))))"
      by (simp add: ts_def)
    have same: "Connects c2 ! k = Connects core ! k" if "k \<in> set js" for k
    proof -
      have "k \<noteq> i"
        using that i(2) by blast
      then show ?thesis
        by (simp add: c2_def c1_def upd_defs)
    qed
    have sums: "map (\<lambda>i. if wants_cloud env (Connects c2 ! i)
          then length (sv_sendQueue (server (Connects c2 ! i))) else 0) js =
        map (\<lambda>i. if wants_cloud env (Connects core ! i)
          then length (sv_sendQueue (server (Connects core ! i))) else 0) js"
      by (rule map_cong) (simp_all add: same)
    have "\<forall>i \<in> set js. i < length (Connects c2)"
      using Cons.prems len by simp
    note ih = Cons.IH [OF this i(3), of ts]
    have "mem_balance (snd (connect_task_loop env sz js ts c2)) + of_nat (length ts) =
        mem_balance c2 + of_nat (length (fst (connect_task_loop env sz js ts c2)))
        + of_nat (sum_list (map (\<lambda>i. if wants_cloud env (Connects core ! i)
            then length (sv_sendQueue (server (Connects core ! i))) else 0) js))"
      using ih unfolding sums by blast
    from balance_chain [OF m this] show ?thesis
      unfolding eq using k q True ih by (auto intro: keeps_trans same_queues_trans)
  qed
qed

lemma connect_task_loop_tasks [simp]:
  "ConnectTasks (snd (connect_task_loop env sz js tasks core)) = ConnectTasks core"
  by (induction js arbitrary: tasks core)
    (simp_all add: XGReleaseDataQueue_eq XGMemalloc_def upd_defs Let_def)

lemma Connects_log_event [simp]: "Connects (log_event e core) = Connects core"
  by (simp add: log_event_def)

text \<open>What a connection attempt drops: the items waiting for the cloud on the connections concerned.\<close>

definition dropped_items :: "xg_env \<Rightarrow> XGCore \<Rightarrow> nat" where
  "dropped_items env core = sum_list (map (\<lambda>c. if wants_cloud env c
     then length (sv_sendQueue (server c)) else 0) (Connects core))"

lemma XGConnectTask_loop:
  defines "r \<equiv> \<lambda>env sz core. connect_task_loop env sz [0..<length (Connects core)] [] core"
  shows "keeps core (snd (r env sz core)) \<and> same_queues core (snd (r env sz core)) \<and>
    mem_balance (snd (r env sz core)) = mem_balance core + of_nat (length (fst (r env sz core)))
      + of_nat (dropped_items env core)"
proof -
  let ?js = "[0..<length (Connects core)]"
  have l: "keeps core (snd (r env sz core)) \<and> same_queues core (snd (r env sz core)) \<and>
      mem_balance (snd (r env sz core)) + of_nat (length ([] :: ConnectTask list)) =
      mem_balance core + of_nat (length (fst (r env sz core)))
        + of_nat (sum_list (map (\<lambda>i. if wants_cloud env (Connects core ! i)
            then length (sv_sendQueue (server (Connects core ! i))) else 0) ?js))"
    unfolding r_def by (rule connect_task_loop_keeps) simp_all
  have "sum_list (map (\<lambda>i. if wants_cloud env (Connects core ! i)
            then length (sv_sendQueue (server (Connects core ! i))) else 0) ?js) = dropped_items env core"
    unfolding dropped_items_def by (rule arg_cong [of _ _ sum_list]) (rule nth_equalityI, simp_all)
  then show ?thesis
    using l by simp
qed

lemma XGConnectTask_balance:
  "mem_balance (XGConnectTask env sz core) = mem_balance core + of_nat (dropped_items env core)"
  using XGConnectTask_loop [of core env sz]
  by (simp add: XGConnectTask_def split_beta Let_def mem_balance_queues)

lemma XGConnectTask_keeps: "gw_inv core \<Longrightarrow> gw_inv (XGConnectTask env sz core)"
  using XGConnectTask_loop [of core env sz]
  by (auto simp: XGConnectTask_def split_beta Let_def gw_inv_def keeps_def same_queues_def)

lemma upd_ref_server_keeps:
  assumes "XGGetConnectByDeviceid d core0 = Some r" "length (Connects core0) = length (Connects core)"
    and "\<And>s. sv_recvBuffer (f s) = sv_recvBuffer s" "\<And>s. sv_sendQueue (f s) = sv_sendQueue s"
  shows "keeps core (upd_ref_server r f core)" "mem_balance (upd_ref_server r f core) = mem_balance core"
proof -
  have "r = Head \<or> (\<exists>i. r = At i \<and> i < length (Connects core))"
    using assms(1,2) by (auto simp: XGGetConnectByDeviceid_def split: if_splits dest!: find_conn_Some)
  moreover have "keeps core (upd_server i f core) \<and> mem_balance (upd_server i f core) = mem_balance core"
    if "i < length (Connects core)" for i
    using that assms(3,4) by (intro conjI upd_server_keeps) simp_all
  moreover have "upd_ref_server (At i) f = upd_server i f" for i
    by (intro ext) (simp add: upd_ref_server_def upd_ref_def upd_server_def)
  moreover have "keeps core (upd_ref_server Head f core)"
    "mem_balance (upd_ref_server Head f core) = mem_balance core"
    by (simp_all add: upd_ref_server_def upd_ref_def keeps_def mem_balance_def live_objects_def)
  ultimately show "keeps core (upd_ref_server r f core)"
    "mem_balance (upd_ref_server r f core) = mem_balance core"
    by auto
qed

lemma task_result_keeps:
  "keeps core (task_result env task core) \<and> mem_balance (task_result env task core) = mem_balance core
    \<and> same_queues core (task_result env task core)
    \<and> ConnectTasksResult (task_result env task core) = ConnectTasksResult core"
proof (cases "XGGetConnectByDeviceid (task_device_id task) core")
  case None
  then show ?thesis
    by (auto simp: task_result_def same_queues_def user_queues intro: keeps_steps)
      (simp add: drop_socket_def log_event_def)
next
  case (Some r)
  let ?f = "\<lambda>s. s\<lparr>sv_status := E_SER_WAIT_CONECT, sv_time := env_now env\<rparr>"
  let ?g = "\<lambda>s. s\<lparr>sv_SocketHandle := task_fd task, sv_status := E_SER_WAIT_LOGIN_RESULT,
      sv_time := env_now env\<rparr>"
  let ?c1 = "upd_ref_server r ?f core"
  let ?c2 = "log_event (Ev_Send (task_fd task) (login_packet (get_ref r ?c1))) ?c1"
  have k1: "keeps core ?c1" "mem_balance ?c1 = mem_balance core"
    using upd_ref_server_keeps [OF Some refl, of ?f] by simp_all
  then have k2: "keeps core ?c2" "mem_balance ?c2 = mem_balance core"
    "length (Connects core) = length (Connects ?c2)"
    using keeps_length [OF k1(1)] by (auto intro: keeps_steps)
  have k3: "keeps ?c2 (upd_ref_server r ?g ?c2)" "mem_balance (upd_ref_server r ?g ?c2) = mem_balance ?c2"
    using upd_ref_server_keeps [OF Some k2(3), of ?g] by simp_all
  have res: "task_result env task core = (if task_fd task > 0 then if env_send env (task_fd task) > 0
      then upd_ref_server r ?g ?c2 else drop_socket (task_fd task) ?c2 else ?c1)"
    by (simp add: task_result_def Some Let_def)
  have "ConnectTasksResult (upd_ref_server r h c) = ConnectTasksResult c" for h c
    by (simp add: upd_ref_server_def upd_ref_def upd_conn_def split: conn_ref.split)
  then show ?thesis
    unfolding res using k1 k2 k3 keeps_trans [OF k2(1) k3(1)]
    by (auto simp: same_queues_def user_queues intro: keeps_steps)
      (simp_all add: drop_socket_def log_event_def)
qed

lemma task_results_keep:
  "keeps core (fold (\<lambda>task core. XGFree (task_result env task core)) ts core)
    \<and> mem_balance (fold (\<lambda>task core. XGFree (task_result env task core)) ts core) =
        mem_balance core - of_nat (length ts)
    \<and> same_queues core (fold (\<lambda>task core. XGFree (task_result env task core)) ts core)"
proof (induction ts arbitrary: core)
  case Nil
  then show ?case by simp
next
  case (Cons t ts)
  let ?c = "XGFree (task_result env t core)"
  have "keeps core ?c" "mem_balance ?c = mem_balance core - 1" "same_queues core ?c"
    using task_result_keeps [of core env t]
    by (auto simp: XGFree_def same_queues_def intro: keeps_trans)
  then show ?case
    using Cons.IH [of ?c] by (auto intro: keeps_trans same_queues_trans simp: diff_diff_eq add.commute)
qed

lemma XGConnectTaskResult_keeps:
  assumes "gw_inv core"
  shows "gw_inv (XGConnectTaskResult env core)"
    and "mem_balance (XGConnectTaskResult env core) = mem_balance core"
  using assms task_results_keep [of "core\<lparr>ConnectTasksResult := []\<rparr>" env "ConnectTasksResult core"]
  by (auto simp: XGConnectTaskResult_def gw_inv_def keeps_def same_queues_def mem_balance_queues)

lemma mem_balance_map:
  assumes "\<And>c. conn_items (f c) = conn_items c"
  shows "mem_balance (core\<lparr>Connects := map f (Connects core)\<rparr>) = mem_balance core"
proof -
  have "conn_items \<circ> f = conn_items"
    using assms by auto
  then show ?thesis
    by (simp add: mem_balance_def live_objects_def)
qed

lemma timeout_conn_keeps:
  "device_id (fst (timeout_conn now c)) = device_id c"
  "isActive (fst (timeout_conn now c)) \<Longrightarrow> isActive c"
  "conn_ok c \<Longrightarrow> conn_ok (fst (timeout_conn now c))"
  "conn_items (fst (timeout_conn now c)) = conn_items c"
  by (auto simp: timeout_conn_def timeout_server_def Let_def conn_ok_def conn_items_def
      split: e_client_status_t.splits if_splits)

lemma XGTimeout_keeps:
  assumes "gw_inv core"
  shows "gw_inv (XGTimeout env core)" and "mem_balance (XGTimeout env core) = mem_balance core"
proof -
  let ?f = "\<lambda>c. fst (timeout_conn (env_now env) c)"
  have "core_inv (core\<lparr>Connects := map ?f (Connects core)\<rparr>)"
    using assms by (intro core_inv_map) (auto simp: gw_inv_def timeout_conn_keeps)
  then show "gw_inv (XGTimeout env core)"
    using assms by (simp add: XGTimeout_def gw_inv_def core_inv_def Let_def split_beta comp_def)
  have "mem_balance (core\<lparr>Connects := map ?f (Connects core)\<rparr>) = mem_balance core"
    by (intro mem_balance_map) (simp add: timeout_conn_keeps)
  then show "mem_balance (XGTimeout env core) = mem_balance core"
    by (simp add: XGTimeout_def Let_def split_beta comp_def mem_balance_def live_objects_def)
qed

lemma watch_conn_keeps:
  "device_id (fst (watch_conn c)) = device_id c"
  "isActive (fst (watch_conn c)) \<Longrightarrow> isActive c"
  "conn_ok c \<Longrightarrow> conn_ok (fst (watch_conn c))"
  "conn_items (fst (watch_conn c)) = conn_items c"
  "client (fst (watch_conn c)) = client c" "server (fst (watch_conn c)) = server c"
  by (auto simp: watch_conn_def Let_def split: if_splits)

subsection \<open>A turn of the loop\<close>

lemma write_loop_keeps:
  assumes "write_loop ready js core = Inr core'" "\<forall>i \<in> set js. i < length (Connects core)"
  shows "keeps core core' \<and> mem_balance core' = mem_balance core \<and> same_queues core core'"
  using assms
proof (induction js arbitrary: core)
  case Nil
  then show ?case by simp
next
  case (Cons i js)
  have send: "keeps a b \<and> mem_balance b = mem_balance a \<and> same_queues a b"
    if "XGConnectSend s i a = Inr b \<or> b = a" "i < length (Connects a)" for s a b
    using that XGConnectSend_keeps [of i a s b]
    by (auto simp: XGConnectSend_def Let_def same_queues_def user_queues split: list.splits)
  obtain c1 c2 where c: "XGConnectSend False i core = Inr c1 \<or> c1 = core"
      "XGConnectSend True i c1 = Inr c2 \<or> c2 = c1" "write_loop ready js c2 = Inr core'"
    using Cons.prems(1) by (auto split: if_splits)
  have k1: "keeps core c1 \<and> mem_balance c1 = mem_balance core \<and> same_queues core c1"
    using send [OF c(1)] Cons.prems(2) by simp
  then have "i < length (Connects c1)"
    using Cons.prems(2) by (simp add: keeps_def)
  note k2 = send [OF c(2) this]
  have "\<forall>i \<in> set js. i < length (Connects c2)"
    using k1 k2 Cons.prems(2) by (simp add: keeps_def)
  from Cons.IH [OF c(3) this] k1 k2 show ?case
    using keeps_trans same_queues_trans by metis
qed

lemma read_loop_keeps:
  assumes "recv_contract rcv" "core_inv core" "\<forall>i \<in> set js. i < length (Connects core)"
  shows "keeps core (read_loop env rcv ready js core)
    \<and> mem_balance (read_loop env rcv ready js core) = mem_balance core
    \<and> same_queues core (read_loop env rcv ready js core)"
  using assms(2,3)
proof (induction js arbitrary: core)
  case Nil
  then show ?case by simp
next
  case (Cons i js)
  define c1 where "c1 = (if ready (cl_SocketHandle (client (Connects core ! i)))
                  then XGRecvConnectClient rcv i core else core)"
  define c2 where "c2 = (if ready (sv_SocketHandle (server (Connects c1 ! i)))
                  then XGRecvConnectServer env rcv i c1 else c1)"
  have k1: "keeps core c1 \<and> mem_balance c1 = mem_balance core \<and> same_queues core c1"
    using XGRecvConnectClient_keeps [OF assms(1) Cons.prems(1), of i] Cons.prems(2)
    by (auto simp: c1_def XGRecvConnectClient_def Let_def same_queues_def user_queues split_beta)
  then have i1: "core_inv c1" "i < length (Connects c1)"
    using Cons.prems by (simp_all add: keeps_def)
  have k2: "keeps c1 c2 \<and> mem_balance c2 = mem_balance c1 \<and> same_queues c1 c2"
    using XGRecvConnectServer_keeps [OF assms(1) i1, of env]
    by (auto simp: c2_def XGRecvConnectServer_def Let_def same_queues_def user_queues split_beta)
  have "core_inv c2" "\<forall>i \<in> set js. i < length (Connects c2)"
    using k1 k2 Cons.prems by (simp_all add: keeps_def)
  note ih = Cons.IH [OF this]
  have "read_loop env rcv ready (i # js) core = read_loop env rcv ready js c2"
    by (simp add: c2_def c1_def)
  then show ?case
    using ih k1 k2 keeps_trans same_queues_trans by metis
qed

lemma only_logs_keeps:
  "only_logs core core' \<Longrightarrow> keeps core core' \<and> mem_balance core' = mem_balance core \<and> same_queues core core'"
  by (auto simp: only_logs_def keeps_def mem_balance_def live_objects_def same_queues_def)

lemma dispatch_keeps:
  assumes "gw_inv core" "recv_contract (rd_recv rd)" "XGCoreThread_dispatch rd rds wrs core = Inr core'"
  shows "gw_inv core' \<and> mem_balance core' = mem_balance core"
proof -
  define c1 where "c1 = (if ServerTcpSocketHandle core \<in> set rds \<and> rd_readable rd (ServerTcpSocketHandle core)
    then XGAcceptConnect (rd_env rd) (rd_sizeof_Connect rd) (fst (rd_accept rd)) (snd (rd_accept rd)) core
    else core)"
  have k1: "core_inv c1" "mem_balance c1 = mem_balance core" "same_queues core c1"
    using assms(1) XGAcceptConnect_keeps
    by (auto simp: c1_def gw_inv_def XGAcceptConnect_def XGMemalloc_def same_queues_def user_queues)
  obtain c2 where c2: "XGRecvUdpData (rd_env rd) (rd_udp rd) c1 = Inr c2 \<or> c2 = c1"
    and "\<exists>c3. (write_loop (\<lambda>fd. fd \<in> set wrs \<and> rd_writable rd fd) [0..<length (Connects c2)] c2 = Inr c3 \<or> c3 = c2)
      \<and> core' = read_loop (rd_env rd) (rd_recv rd) (\<lambda>fd. fd \<in> set rds \<and> rd_readable rd fd)
            [0..<length (Connects c3)] c3"
    using assms(3) unfolding XGCoreThread_dispatch_def Let_def c1_def [symmetric]
    by (auto split: if_splits)
  then obtain c3 where c3: "write_loop (\<lambda>fd. fd \<in> set wrs \<and> rd_writable rd fd) [0..<length (Connects c2)] c2
        = Inr c3 \<or> c3 = c2"
    and fin: "core' = read_loop (rd_env rd) (rd_recv rd) (\<lambda>fd. fd \<in> set rds \<and> rd_readable rd fd)
            [0..<length (Connects c3)] c3"
    by blast
  have "only_logs c1 c2"
    using c2 by (auto simp: XGRecvUdpData_def split: prod.splits if_splits intro: XGStartProtocolUdp_only_logs)
  then have k2: "keeps c1 c2 \<and> mem_balance c2 = mem_balance c1 \<and> same_queues c1 c2"
    by (rule only_logs_keeps)
  have k3: "keeps c2 c3 \<and> mem_balance c3 = mem_balance c2 \<and> same_queues c2 c3"
    using c3 write_loop_keeps by auto
  have "core_inv c3"
    using k1 k2 k3 by (simp add: keeps_def)
  from read_loop_keeps [OF assms(2) this, of "[0..<length (Connects c3)]" "rd_env rd"]
  have "keeps c3 core' \<and> mem_balance core' = mem_balance c3 \<and> same_queues c3 core'"
    by (simp add: fin)
  then show ?thesis
    using k1 k2 k3 assms(1) by (auto simp: gw_inv_def same_queues_def keeps_def)
qed

lemma prepare_keeps:
  assumes "gw_inv core" "XGCoreThread_prepare rd core = Inr (core', rds, wrs)"
  shows "gw_inv core' \<and> (\<exists>c1. XGProtocolStart (rd_env rd) (XGRemoveNotActive core) = Inr c1
    \<and> mem_balance core' = mem_balance core
        + of_nat (dropped_items (rd_env rd) (XGPSendQueeu (rd_env rd) c1)))"
proof -
  let ?c0 = "XGRemoveNotActive core"
  have i0: "core_inv ?c0" "mem_balance ?c0 = mem_balance core" "same_queues core ?c0"
    using assms(1) core_inv_remove_inactive mem_balance_remove_inactive
    by (simp_all add: gw_inv_def) (simp add: same_queues_def XGRemoveNotActive_eq)
  obtain c1 where c1: "XGProtocolStart (rd_env rd) ?c0 = Inr c1"
    using assms(2) by (auto simp: XGCoreThread_prepare_def split: if_splits)
  define c2 where "c2 = XGPSendQueeu (rd_env rd) c1"
  define c5 where "c5 = XGTimeout (rd_env rd) (XGConnectTaskResult (rd_env rd)
      (XGConnectTask (rd_env rd) (rd_sizeof_task rd) c2))"
  have fin: "core' = c5\<lparr>Connects := map (\<lambda>c. fst (watch_conn c)) (Connects c5)\<rparr>"
    using assms(2) c1 by (auto simp: XGCoreThread_prepare_def Let_def c2_def c5_def comp_def split: if_splits)
  have k1: "keeps ?c0 c1 \<and> mem_balance c1 = mem_balance ?c0 \<and> same_queues ?c0 c1"
    using c1 i0(1) unfolding XGProtocolStart_def by (intro protocol_loop_keeps) simp_all
  then have g1: "gw_inv c1"
    using i0 assms(1) by (simp add: gw_inv_def keeps_def same_queues_def)
  have g5: "gw_inv c5"
    unfolding c5_def c2_def by (intro XGTimeout_keeps XGConnectTaskResult_keeps XGConnectTask_keeps
        XGPSendQueeu_keeps g1)
  have m5: "mem_balance c5 = mem_balance core + of_nat (dropped_items (rd_env rd) c2)"
    unfolding c5_def using k1 i0(2) g1 by (simp add: c2_def XGTimeout_keeps XGConnectTaskResult_keeps
        XGConnectTask_keeps XGConnectTask_balance XGPSendQueeu_keeps)
  have "gw_inv core'"
    using g5 unfolding fin gw_inv_def by (auto intro!: core_inv_map simp: watch_conn_keeps)
  moreover have "mem_balance core' = mem_balance c5"
    unfolding fin by (rule mem_balance_map) (simp add: watch_conn_keeps)
  ultimately show ?thesis
    using m5 c1 by (simp add: c2_def)
qed

lemma turn_keeps:
  assumes "gw_inv core" "recv_contract (rd_recv rd)" "XGCoreThread_turn rd core = Inr core'"
  shows "gw_inv core'"
proof -
  obtain c1 rds wrs where p: "XGCoreThread_prepare rd core = Inr (c1, rds, wrs)"
      "core' = c1 \<or> XGCoreThread_dispatch rd rds wrs c1 = Inr core'"
    using assms(3) by (auto simp: XGCoreThread_turn_def split: if_splits)
  then show ?thesis
    using prepare_keeps [OF assms(1) p(1)] dispatch_keeps [OF _ assms(2), of c1] by blast
qed

section \<open>Reachable states\<close>

text \<open>
  The gateway as a transition system: a turn of the core thread, a turn of the connecting thread,
  an item handed over by the user, the request to quit. Only the first can run into a fault, and
  then it has no successor.
\<close>

inductive gw_step :: "XGCore \<Rightarrow> XGCore \<Rightarrow> bool" where
  turn: "\<not> isQuit core \<Longrightarrow> recv_contract (rd_recv rd) \<Longrightarrow> XGCoreThread_turn rd core = Inr core' \<Longrightarrow>
    gw_step core core'"
| connect: "gw_step core (XGCoreConnectServerThread env net core)"
| user: "item_ok item \<Longrightarrow> gw_step core (snd (XGCoreSendData item dest core))"
| quit: "gw_step core (core\<lparr>isQuit := True\<rparr>)"

inductive gw_reach :: "XGCore \<Rightarrow> bool" where
  start: "Connects core = [] \<Longrightarrow> ClientSendQueue core = [] \<Longrightarrow> CloudSendQueue core = [] \<Longrightarrow>
    XGStartCore tcp udp core = (0, core') \<Longrightarrow> gw_reach (XGCoreThread_start core')"
| step: "gw_reach core \<Longrightarrow> gw_step core core' \<Longrightarrow> gw_reach core'"

inductive_cases gw_stepE: "gw_step core core'"

lemma connect_thread_queues [user_queues]:
  "ClientSendQueue (XGCoreConnectServerThread env net core) = ClientSendQueue core"
  "CloudSendQueue (XGCoreConnectServerThread env net core) = CloudSendQueue core"
  "Connects (XGCoreConnectServerThread env net core) = Connects core"
  by (simp_all add: XGCoreConnectServerThread_def XGConnectServer_def Let_def user_queues
      split: list.split)

lemma gw_step_inv:
  assumes "gw_step core core'" "gw_inv core"
  shows "gw_inv core'"
  using assms(1)
proof (rule gw_stepE)
  fix rd
  assume "recv_contract (rd_recv rd)" "XGCoreThread_turn rd core = Inr core'"
  then show ?thesis
    using turn_keeps [OF assms(2)] by blast
qed (use assms(2) in \<open>auto simp: gw_inv_def core_inv_def user_queues XGCoreSendData_def\<close>)

lemma gw_reach_inv: "gw_reach core \<Longrightarrow> gw_inv core"
proof (induction rule: gw_reach.induct)
  case (start core tcp udp core')
  then show ?case
    by (auto simp: gw_inv_def core_inv_def unique_ids_def XGCoreThread_start_def XGStartCore_def Let_def
        split: if_splits)
next
  case (step core core')
  then show ?case
    by (simp add: gw_step_inv)
qed

section \<open>Dotted addresses\<close>

abbreviation is_digit :: "byte \<Rightarrow> bool" where
  "is_digit c \<equiv> 0x30 \<le> c \<and> c \<le> 0x39"

definition field_step :: "u32 \<Rightarrow> byte \<Rightarrow> u32" where
  "field_step sec c = sec * 10 + ucast c - 0x30"

definition field_value :: "bytes \<Rightarrow> nat" where
  "field_value = foldl (\<lambda>v c. v * 10 + (unat c - 0x30)) 0"

lemma ip_loop_digits:
  assumes "\<forall>c \<in> set f. is_digit c"
  shows "is_valid_ip_loop sec dot prev (f @ rest) =
    (\<not> (f \<noteq> [] \<and> prev = Some 0x30) \<and> 0x30 \<notin> set (butlast f) \<and>
     is_valid_ip_loop (foldl field_step sec f) dot (if f = [] then prev else Some (last f)) rest)"
  using assms
proof (induction f arbitrary: sec prev)
  case Nil
  then show ?case by simp
next
  case (Cons c f)
  then have "c \<noteq> 0" "c \<noteq> 0x2E"
    by auto
  then show ?case
    using Cons by (auto simp: field_step_def)
qed

lemma ip_loop_bad_char:
  assumes "\<exists>c \<in> set f. \<not> is_digit c" "0 \<notin> set f" "0x2E \<notin> set f"
  shows "\<not> is_valid_ip_loop sec dot prev (f @ rest)"
  using assms
proof (induction f arbitrary: sec prev)
  case (Cons c f)
  then show ?case by auto
qed simp

lemma field_value_snoc: "field_value (f @ [c]) = field_value f * 10 + (unat c - 0x30)"
  by (simp add: field_value_def)

lemma field_value_bound:
  "\<forall>c \<in> set f. is_digit c \<Longrightarrow> field_value f < 10 ^ length f"
proof (induction f rule: rev_induct)
  case Nil
  then show ?case by (simp add: field_value_def)
next
  case (snoc c f)
  have "unat c \<le> 0x39"
    using snoc.prems by (simp add: word_le_nat_alt)
  then show ?case
    using snoc by (simp add: field_value_snoc)
qed

lemma foldl_field_step:
  "\<forall>c \<in> set f. is_digit c \<Longrightarrow> foldl field_step 0 f = of_nat (field_value f)"
proof (induction f rule: rev_induct)
  case Nil
  then show ?case by (simp add: field_value_def)
next
  case (snoc c f)
  have "0x30 \<le> unat c"
    using snoc.prems by (simp add: word_le_nat_alt)
  then have "of_nat (unat c - 0x30) = (ucast c - 0x30 :: u32)"
    by (simp add: of_nat_diff)
  then show ?case
    using snoc by (simp add: field_value_snoc field_step_def)
qed

lemma section_ok_value:
  assumes "\<forall>c \<in> set f. is_digit c" "length f \<le> 9"
  shows "section_ok (foldl field_step 0 f) \<longleftrightarrow> field_value f \<le> 255"
proof -
  have "field_value f < 10 ^ 9"
    using field_value_bound [OF assms(1)] power_increasing [OF assms(2), of "10 :: nat"] by simp
  then have "unat (of_nat (field_value f) :: u32) = field_value f"
    by (intro unat_of_nat_u32) simp
  then have "sint (of_nat (field_value f) :: u32) = int (field_value f)"
    using \<open>field_value f < 10 ^ 9\<close> by (subst sint_u32_small) simp_all
  then show ?thesis
    by (simp add: section_ok_def foldl_field_step [OF assms(1)])
qed

text \<open>A field the function accepts: digits only, at most 255, no digit behind a zero.\<close>

definition field_ok :: "bytes \<Rightarrow> bool" where
  "field_ok f \<longleftrightarrow> (\<forall>c \<in> set f. is_digit c) \<and> field_value f \<le> 255 \<and> 0x30 \<notin> set (butlast f)"

primrec join_dots :: "bytes \<Rightarrow> bytes list \<Rightarrow> bytes" where
  "join_dots f [] = f"
| "join_dots f (g # gs) = f @ 0x2E # join_dots g gs"

lemma ip_loop_fields:
  assumes "\<forall>f \<in> set (f # gs). length f \<le> 9 \<and> 0 \<notin> set f \<and> 0x2E \<notin> set f" "prev \<noteq> Some 0x30"
  shows "is_valid_ip_loop 0 dot prev (join_dots f gs) \<longleftrightarrow>
    (\<forall>f \<in> set (f # gs). field_ok f) \<and> dot + length gs = 3"
  using assms
proof (induction gs arbitrary: f dot prev)
  case Nil
  then show ?case
    using ip_loop_digits [of f 0 dot prev "[]"] ip_loop_bad_char [of f 0 dot prev "[]"]
      section_ok_value [of f] by (auto simp: field_ok_def)
next
  case (Cons g gs)
  have ih: "is_valid_ip_loop 0 (dot + 1) (Some 0x2E) (join_dots g gs) \<longleftrightarrow>
      (\<forall>f \<in> set (g # gs). field_ok f) \<and> dot + 1 + length gs = 3"
    using Cons by (intro Cons.IH) simp_all
  show ?case
  proof (cases "\<forall>c \<in> set f. is_digit c")
    case True
    then show ?thesis
      using ip_loop_digits [OF True, of 0 dot prev "0x2E # join_dots g gs"] Cons.prems
        section_ok_value [OF True] ih by (auto simp: field_ok_def)
  next
    case False
    then show ?thesis
      using ip_loop_bad_char [of f 0 dot prev "0x2E # join_dots g gs"] Cons.prems
      by (auto simp: field_ok_def)
  qed
qed

section \<open>Sending only what is pending\<close>

definition sockets :: "Connect \<Rightarrow> int list" where
  "sockets c = filter (\<lambda>fd. fd > 0) [cl_SocketHandle (client c), sv_SocketHandle (server c)]"

definition pending :: "(int \<Rightarrow> bool) \<Rightarrow> Connect \<Rightarrow> bool" where
  "pending ready c \<longleftrightarrow> (ready (cl_SocketHandle (client c)) \<longrightarrow> cl_sendQueue (client c) \<noteq> [])
     \<and> (ready (sv_SocketHandle (server c)) \<longrightarrow> sv_sendQueue (server c) \<noteq> [])"

lemma XGConnectSend_frame:
  assumes "XGConnectSend s i core = Inr core'"
  shows "length (Connects core') = length (Connects core)"
    and "j \<noteq> i \<Longrightarrow> Connects core' ! j = Connects core ! j"
    and "\<not> s \<Longrightarrow> i < length (Connects core) \<Longrightarrow> server (Connects core' ! i) = server (Connects core ! i)"
  using assms by (auto simp: XGConnectSend_def Let_def upd_defs split: list.splits if_splits)

lemma XGConnectSend_total:
  "(if s then sv_sendQueue (server (Connects core ! i)) else cl_sendQueue (client (Connects core ! i))) \<noteq> []
    \<Longrightarrow> \<exists>core'. XGConnectSend s i core = Inr core'"
  by (cases s) (auto simp: XGConnectSend_def Let_def split: list.splits)

lemma write_loop_total:
  assumes "distinct js" "\<forall>i \<in> set js. i < length (Connects core) \<and> pending ready (Connects core ! i)"
  shows "\<exists>core'. write_loop ready js core = Inr core'"
  using assms
proof (induction js arbitrary: core)
  case Nil
  then show ?case by simp
next
  case (Cons i js)
  let ?c = "Connects core ! i"
  have p: "i < length (Connects core)" "pending ready ?c" "i \<notin> set js"
    using Cons.prems by auto
  have "\<exists>c1. (if ready (cl_SocketHandle (client ?c)) then XGConnectSend False i core else Inr core) = Inr c1"
    using p(2) XGConnectSend_total [of False core i] by (simp add: pending_def)
  then obtain c1 where c1: "(if ready (cl_SocketHandle (client ?c)) then XGConnectSend False i core
      else Inr core) = Inr c1" by blast
  then have f1: "length (Connects c1) = length (Connects core)" "\<forall>j. j \<noteq> i \<longrightarrow> Connects c1 ! j = Connects core ! j"
    "server (Connects c1 ! i) = server ?c"
    using XGConnectSend_frame [of False i core c1] p(1) by (auto split: if_splits)
  have "\<exists>c2. (if ready (sv_SocketHandle (server (Connects c1 ! i))) then XGConnectSend True i c1
      else Inr c1) = Inr c2"
    using p(2) f1(3) XGConnectSend_total [of True c1 i] by (simp add: pending_def)
  then obtain c2 where c2: "(if ready (sv_SocketHandle (server (Connects c1 ! i))) then XGConnectSend True i c1
      else Inr c1) = Inr c2" by blast
  then have f2: "length (Connects c2) = length (Connects c1)" "\<forall>j. j \<noteq> i \<longrightarrow> Connects c2 ! j = Connects c1 ! j"
    using XGConnectSend_frame [of True i c1 c2] by (auto split: if_splits)
  have "\<forall>j \<in> set js. j < length (Connects c2) \<and> pending ready (Connects c2 ! j)"
    using Cons.prems f1 f2 p(3) by (metis list.set_intros(2))
  then obtain c3 where "write_loop ready js c2 = Inr c3"
    using Cons.IH Cons.prems(1) by auto
  then show ?case
    using c1 c2 by simp
qed

definition watched_writes :: "Connect list \<Rightarrow> int list" where
  "watched_writes cs = concat (map (snd \<circ> snd \<circ> watch_conn) cs)"

lemma watched_write_pending:
  assumes "distinct (concat (map sockets cs))" "c \<in> set cs"
  shows "pending (\<lambda>fd. fd \<in> set (watched_writes cs) \<and> rdy fd) c"
proof -
  have w: "\<exists>d \<in> set cs. fd > 0 \<and> (fd = cl_SocketHandle (client d) \<and> cl_sendQueue (client d) \<noteq> []
      \<or> fd = sv_SocketHandle (server d) \<and> sv_sendQueue (server d) \<noteq> [])"
    if "fd \<in> set (watched_writes cs)" for fd
    using that by (auto simp: watched_writes_def watch_conn_def Let_def split: if_splits)
  have same: "c = d" if "d \<in> set cs" "fd \<in> set (sockets c)" "fd \<in> set (sockets d)" for d fd
    using assms that
  proof (induction cs)
    case (Cons a cs)
    then show ?case by (auto simp: disjoint_iff)
  qed simp
  have dist: "distinct (sockets c)"
    using assms by (induction cs) auto
  show ?thesis
    unfolding pending_def
  proof (intro conjI impI)
    assume r: "cl_SocketHandle (client c) \<in> set (watched_writes cs) \<and> rdy (cl_SocketHandle (client c))"
    with w [of "cl_SocketHandle (client c)"] obtain d where d: "d \<in> set cs" "cl_SocketHandle (client c) > 0"
      "cl_SocketHandle (client c) = cl_SocketHandle (client d) \<and> cl_sendQueue (client d) \<noteq> []
       \<or> cl_SocketHandle (client c) = sv_SocketHandle (server d) \<and> sv_sendQueue (server d) \<noteq> []"
      by blast
    then have "c = d"
      using same [OF d(1), of "cl_SocketHandle (client c)"] by (auto simp: sockets_def)
    then show "cl_sendQueue (client c) \<noteq> []"
      using d dist by (auto simp: sockets_def split: if_splits)
  next
    assume r: "sv_SocketHandle (server c) \<in> set (watched_writes cs) \<and> rdy (sv_SocketHandle (server c))"
    with w [of "sv_SocketHandle (server c)"] obtain d where d: "d \<in> set cs" "sv_SocketHandle (server c) > 0"
      "sv_SocketHandle (server c) = cl_SocketHandle (client d) \<and> cl_sendQueue (client d) \<noteq> []
       \<or> sv_SocketHandle (server c) = sv_SocketHandle (server d) \<and> sv_sendQueue (server d) \<noteq> []"
      by blast
    then have "c = d"
      using same [OF d(1), of "sv_SocketHandle (server c)"] by (auto simp: sockets_def)
    then show "sv_sendQueue (server c) \<noteq> []"
      using d dist by (auto simp: sockets_def split: if_splits)
  qed
qed

lemma watched_writes_pos: "0 \<notin> set (watched_writes cs)"
  by (auto simp: watched_writes_def watch_conn_def Let_def split: if_splits)

lemma prepare_watches:
  assumes "XGCoreThread_prepare rd core = Inr (c1, rds, wrs)"
  shows "\<exists>cs. Connects c1 = map (\<lambda>c. fst (watch_conn c)) cs \<and> wrs = watched_writes cs"
proof -
  obtain x where x: "XGProtocolStart (rd_env rd) (XGRemoveNotActive core) = Inr x"
    using assms by (auto simp: XGCoreThread_prepare_def split: if_splits)
  define c0 where "c0 = XGTimeout (rd_env rd) (XGConnectTaskResult (rd_env rd)
      (XGConnectTask (rd_env rd) (rd_sizeof_task rd) (XGPSendQueeu (rd_env rd) x)))"
  have "Connects c1 = map (\<lambda>c. fst (watch_conn c)) (Connects c0)" "wrs = watched_writes (Connects c0)"
    using assms x by (auto simp: XGCoreThread_prepare_def Let_def watched_writes_def comp_def c0_def
        split: if_splits)
  then show ?thesis by blast
qed

lemma udp_no_null: "XGStartProtocolUdp env buffer n addr core \<noteq> Inl Null_Deref"
proof -
  have a: "udp_accept env cmd buffer addr core \<noteq> Inl Null_Deref" for cmd core
    by (simp add: udp_accept_eq)
  have j: "XGUdpDevcieRequestJoin env buffer n addr core \<noteq> Inl Null_Deref" for core
    using a by (auto simp: XGUdpDevcieRequestJoin_def Let_def split: option.split)
  have r: "XGDeviceRestartNotify env buffer n addr core \<noteq> Inl Null_Deref" for core
    using a by (auto simp: XGDeviceRestartNotify_def Let_def memcpy_chk_def split: option.split)
  show ?thesis
    using j r by (auto simp: XGStartProtocolUdp_def XGProtocoUdpFuns_def XGDevcieDiscoverGateway_def
        c_bind_def split: sum.split)
qed

lemma only_logs_Connects: "only_logs core core' \<Longrightarrow> Connects core' = Connects core"
  by (auto simp: only_logs_def)

section \<open>Properties\<close>



text \<open>
  Closing connections. Before each turn the inactive connections, and only they, are taken
  out; for each of them both sockets are shut down and closed in order, the user is told once if
  the device was logged in, and the connection and the items on both its queues are released, so
  that the allocation balance does not change.
\<close>

theorem XGRemoveNotActive_spec:
  "XGRemoveNotActive core = core\<lparr>Connects := filter isActive (Connects core),
     xlog := xlog core @ concat (map (close_events (config core)) (filter (\<lambda>c. \<not> isActive c) (Connects core))),
     memcount := memcount core
       - of_nat (sum_list (map (\<lambda>c. conn_items c + 1) (filter (\<lambda>c. \<not> isActive c) (Connects core))))\<rparr>
   \<and> mem_balance (XGRemoveNotActive core) = mem_balance core"
  by (intro conjI XGRemoveNotActive_eq mem_balance_remove_inactive)

lemma send_loop_client_frame:
  "server (Connects (send_loop XGSendQueueClient its core) ! j) = server (Connects core ! j)
   \<and> find_conn d (Connects (send_loop XGSendQueueClient its core)) = find_conn d (Connects core)"
proof (induction its arbitrary: core)
  case (Cons it its)
  have "server (Connects (snd (XGSendQueueClient it core)) ! j) = server (Connects core ! j)
      \<and> find_conn d (Connects (snd (XGSendQueueClient it core))) = find_conn d (Connects core)"
    by (auto simp: XGSendQueueClient_def queue_client_nth dest: find_conn_Some split: option.split)
  then show ?case
    by (simp add: Cons split_beta)
qed simp

lemma send_loop_cloud_frame:
  "client (Connects (send_loop XGSendQueueCloud its core) ! j) = client (Connects core ! j)"
proof (induction its arbitrary: core)
  case (Cons it its)
  have "client (Connects (snd (XGSendQueueCloud it core)) ! j) = client (Connects core ! j)"
    by (auto simp: XGSendQueueCloud_def queue_server_nth dest: find_conn_Some split: option.split)
  then show ?case
    by (simp add: Cons split_beta)
qed simp

text \<open>
  Delivery of the user's messages. When the core gets the lock, it empties both user queues:
  a message for a device goes, in order, to the end of the send queue of the first connection that
  speaks for the device, if the device is logged in (for messages to the cloud: if the connection
  is logged in to the cloud); all others are released, and nothing is lost from the balance.
\<close>

theorem XGPSendQueeu_delivers:
  assumes "env_trylock env"
  shows "let core' = XGPSendQueeu env core in
    ClientSendQueue core' = [] \<and> CloudSendQueue core' = []
    \<and> (\<forall>i. cl_sendQueue (client (Connects core' ! i)) = cl_sendQueue (client (Connects core ! i))
          @ filter (\<lambda>it. client_target core (q_deviceid it) = Some i) (ClientSendQueue core))
    \<and> (\<forall>i. sv_sendQueue (server (Connects core' ! i)) = sv_sendQueue (server (Connects core ! i))
          @ filter (\<lambda>it. cloud_target core (q_deviceid it) = Some i) (CloudSendQueue core))
    \<and> mem_balance core' = mem_balance core"
proof -
  let ?c0 = "core\<lparr>ClientSendQueue := []\<rparr>"
  let ?c1 = "send_loop XGSendQueueClient (ClientSendQueue core) ?c0"
  let ?c2 = "?c1\<lparr>CloudSendQueue := []\<rparr>"
  have t: "client_target ?c0 d = client_target core d" "cloud_target ?c2 d = cloud_target core d" for d
    using send_loop_client_frame [of "ClientSendQueue core" ?c0]
    by (simp_all add: client_target_def cloud_target_def split: option.split)
  have eq: "XGPSendQueeu env core = send_loop XGSendQueueCloud (CloudSendQueue core) ?c2"
    using assms by (auto simp: XGPSendQueeu_def Let_def send_loop_queues)
  show ?thesis
    using send_loop_client_frame [of "ClientSendQueue core" ?c0]
    unfolding eq Let_def
    by (simp add: send_loop_queues to_cloud.send_loop_delivers to_device.send_loop_delivers t
        send_loop_cloud_frame to_cloud.send_loop_balance to_device.send_loop_balance mem_balance_queues)
qed

theorem XGPSendQueeu_delivers_witness:
  "let core = (sample_core [] [])\<lparr>ClientSendQueue := [frame_item [0x30, 0, 0, 0, 0]]\<rparr> in
     ClientSendQueue (XGPSendQueeu sample_env core) = []
     \<and> cl_sendQueue (client (Connects (XGPSendQueeu sample_env core) ! 0)) = []"
  using XGPSendQueeu_delivers [of sample_env "(sample_core [] [])\<lparr>ClientSendQueue := [frame_item [0x30, 0, 0, 0, 0]]\<rparr>"]
  by (simp add: Let_def sample_env_def client_target_def)

text \<open>
  Reconnecting leaks what waits for the cloud. Preparing a connection attempt empties the
  cloud send queue of the connection without releasing its items: the balance of allocations over
  reachable objects grows by exactly the number of dropped items (and by nothing else).
\<close>

theorem XGConnectTask_leak:
  "mem_balance (XGConnectTask env sizeof_task core) =
     mem_balance core + of_nat (sum_list (map (\<lambda>c. if sv_status (server c) = E_SER_WAIT_CONECT \<and> isActive c
       \<and> env_now env - sv_time (server c) > 3000 then length (sv_sendQueue (server c)) else 0) (Connects core)))"
  using XGConnectTask_balance by (simp add: dropped_items_def wants_cloud_def)

lemma unat_elapsed:
  "unat ((now :: u64) - (if t > now then now else t)) = unat now - unat t"
proof (cases "t > now")
  case True
  then show ?thesis by (simp add: word_less_nat_alt)
next
  case False
  then show ?thesis by (simp add: unat_sub)
qed

lemma elapsed_gt:
  "(now :: u64) - (if t > now then now else t) > k \<longleftrightarrow> unat now - unat t > unat k"
  unfolding word_less_nat_alt [of k] unat_elapsed ..

text \<open>
  Time-outs. On every connection, with elapsed times taken as numbers (a clock that jumped
  back counts as no time elapsed, nothing wraps around): a device that has not logged in for more
  than 20 seconds, or has logged in but been silent for more than 180, is marked inactive with the
  matching reason and no other device is; a cloud connection that has waited for its login answer
  for more than 15 seconds is dropped and queued for a new attempt, and no other is.
\<close>

theorem XGTimeout_spec:
  assumes "i < length (Connects core)"
  shows "let c = Connects core ! i; c' = Connects (XGTimeout env core) ! i; now = unat (env_now env);
      limit = (case cl_status (client c) of E_CLI_WAIT_LOGIN \<Rightarrow> 20000 | E_CLI_LOGINED \<Rightarrow> 180000);
      late = now - unat (cl_time (client c)) > limit;
      drop = sv_status (server c) = E_SER_WAIT_LOGIN_RESULT \<and> sv_SocketHandle (server c) > 0
        \<and> now - unat (sv_time (server c)) > 15000
    in isActive c' = (isActive c \<and> \<not> late)
      \<and> disconnectReason c' = (if late then (case cl_status (client c) of
          E_CLI_WAIT_LOGIN \<Rightarrow> E_DIS_CLIENT_LOGIN_TIMEOUT | E_CLI_LOGINED \<Rightarrow> E_DIS_CLIENT_PING_TIMEOUT)
          else disconnectReason c)
      \<and> sv_status (server c') = (if drop then E_SER_WAIT_CONECT else sv_status (server c))
      \<and> sv_SocketHandle (server c') = (if drop then 0 else sv_SocketHandle (server c))
      \<and> cl_time (client c') \<le> env_now env \<and> sv_time (server c') \<le> env_now env"
proof -
  let ?c = "Connects core ! i" and ?now = "env_now env"
  have e: "?now - (if t > ?now then ?now else t) > 20000 \<longleftrightarrow> unat ?now - unat t > 20000"
    "?now - (if t > ?now then ?now else t) > 180000 \<longleftrightarrow> unat ?now - unat t > 180000"
    "?now - (if t > ?now then ?now else t) > 15000 \<longleftrightarrow> unat ?now - unat t > 15000" for t
    using elapsed_gt [of 20000 ?now t] elapsed_gt [of 180000 ?now t] elapsed_gt [of 15000 ?now t] by simp_all
  have cl: "cl_time (if cl_time c > ?now then c\<lparr>cl_time := ?now\<rparr> else c) =
      (if cl_time c > ?now then ?now else cl_time c)" for c
    by simp
  have sv: "sv_time (if ?now < sv_time s then s\<lparr>sv_time := ?now\<rparr> else s) =
      (if sv_time s > ?now then ?now else sv_time s)" for s
    by simp
  have "Connects (XGTimeout env core) ! i = fst (timeout_conn ?now ?c)"
    using assms by (simp add: XGTimeout_def Let_def split_beta)
  moreover have "cl_status (if cl_time c > ?now then c\<lparr>cl_time := ?now\<rparr> else c) = cl_status c" for c
    by simp
  moreover have "sv_status (if ?now < sv_time s then s\<lparr>sv_time := ?now\<rparr> else s) = sv_status s"
    "sv_SocketHandle (if ?now < sv_time s then s\<lparr>sv_time := ?now\<rparr> else s) = sv_SocketHandle s" for s
    by simp_all
  ultimately show ?thesis
    unfolding Let_def timeout_conn_def timeout_server_def
    by (cases "cl_status (client ?c)") (simp_all only: cl sv e Let_def split_beta fst_conv snd_conv
        if_distrib [of fst] Connect.simps Client.simps Server.simps e_client_status_t.simps, auto)
qed

theorem XGTimeout_spec_witness:
  "\<not> isActive (Connects (XGTimeout (sample_env\<lparr>env_now := 20001\<rparr>) (sample_core [] [])) ! 0)"
  using XGTimeout_spec [of 0 "sample_core [] []" "sample_env\<lparr>env_now := 20001\<rparr>"]
  by (simp add: Let_def sample_conn_def zero_Connect_def)

text \<open>
  What counts as a dotted address. A text of fields separated by dots (each of at most nine
  characters) is taken for an address exactly if there are four fields, each of digits only, of
  value at most 255, in which no digit follows a zero. So an empty field counts, and an octet such
  as 100 does not.
\<close>

theorem is_valid_ip_iff:
  assumes "\<forall>f \<in> set (f # gs). length f \<le> 9 \<and> 0 \<notin> set f \<and> 0x2E \<notin> set f"
  shows "is_valid_ip (join_dots f gs) \<longleftrightarrow>
    length gs = 3 \<and> (\<forall>f \<in> set (f # gs). (\<forall>c \<in> set f. 0x30 \<le> c \<and> c \<le> 0x39)
      \<and> field_value f \<le> 255 \<and> 0x30 \<notin> set (butlast f))"
  using ip_loop_fields [OF assms, of None 0] by (auto simp: is_valid_ip_def field_ok_def)

theorem is_valid_ip_iff_witness:
  "is_valid_ip (join_dots [0x31, 0x30] [[0x30], [], [0x32, 0x35, 0x35]])
   \<and> \<not> is_valid_ip (join_dots [0x31, 0x30, 0x30] [[0x30], [0x30], [0x31]])"
  using is_valid_ip_iff [of "[0x31, 0x30]" "[[0x30], [], [0x32, 0x35, 0x35]]"]
    is_valid_ip_iff [of "[0x31, 0x30, 0x30]" "[[0x30], [0x30], [0x31]]"]
  by (simp add: field_value_def)

text \<open>
  Sockets of connection attempts. An attempt to connect to the cloud either succeeds, and the
  task then owns the one socket that was opened and it is still open, or it fails with the task
  unchanged, and a socket that was opened has been shut down and closed; it succeeds exactly when
  an address was found, a socket obtained and the connection made at once or in time.
\<close>

theorem XGConnectServer_spec:
  "case XGConnectServer net task core of (ret, task', core') \<Rightarrow>
     let ip = XGGetIpaddr net core; opened = (ip \<noteq> 0 \<and> net_socket net > 0);
         made = (net_connect net \<noteq> -1
           \<or> net_einprogress net \<and> net_select net > 0 \<and> net_so_error net = 0) in
     ret = (if opened \<and> made then 0 else -1)
     \<and> task' = (if opened \<and> made then task\<lparr>task_fd := net_socket net\<rparr> else task)
     \<and> core' = core\<lparr>xlog := xlog core @ (if opened
          then Ev_Connect (net_socket net) \<lparr>sin_family = 2, sin_port = htons (of_int (ServerPort core)), sin_addr = ip\<rparr>
            # (if made then [] else [Ev_Shutdown (net_socket net), Ev_Close (net_socket net)])
          else [])\<rparr>"
  by (auto simp: XGConnectServer_def Let_def log_event_def drop_socket_def)

theorem XGConnectServer_spec_witness:
  "let net = \<lparr>net_inet_addr = (\<lambda>a. 7), net_inet_ntoa = (\<lambda>a. []), net_gethostbyname = (\<lambda>h. Some 7), net_socket = 5,
      net_connect = -1, net_einprogress = False, net_select = 1, net_so_error = 0\<rparr>;
      task = \<lparr>task_device_id = 7, task_fd = 0\<rparr>
    in fst (XGConnectServer net task (sample_core [] [])) = -1
      \<and> drop 1 (xlog (snd (snd (XGConnectServer net task (sample_core [] []))))) = [Ev_Shutdown 5, Ev_Close 5]"
  using XGConnectServer_spec [of "\<lparr>net_inet_addr = (\<lambda>a. 7), net_inet_ntoa = (\<lambda>a. []),
      net_gethostbyname = (\<lambda>h. Some 7), net_socket = 5,
      net_connect = -1, net_einprogress = False, net_select = 1, net_so_error = 0\<rparr>"
      "sample_core [] []" "\<lparr>task_device_id = 7, task_fd = 0\<rparr>"]
  by (simp add: Let_def split_beta XGGetIpaddr_def)

text \<open>
  Sending never finds an empty queue. If the sockets of the connections are pairwise different
  and a connection accepted in this turn gets a new one, the second half of a turn never takes an
  item off an empty send queue, which would be a read through a NULL pointer: a socket is only
  asked about for writing when its queue has something, and nothing in between takes it away.
\<close>

theorem XGCoreThread_sends_pending:
  assumes "XGCoreThread_prepare rd core = Inr (c1, rds, wrs)"
    and "distinct (concat (map sockets (Connects c1)))"
    and "fst (rd_accept rd) \<notin> set wrs"
  shows "XGCoreThread_dispatch rd rds wrs c1 \<noteq> Inl Null_Deref"
proof -
  define c2 where "c2 = (if ServerTcpSocketHandle c1 \<in> set rds \<and> rd_readable rd (ServerTcpSocketHandle c1)
    then XGAcceptConnect (rd_env rd) (rd_sizeof_Connect rd) (fst (rd_accept rd)) (snd (rd_accept rd)) c1
    else c1)"
  let ?w = "\<lambda>fd. fd \<in> set wrs \<and> rd_writable rd fd"
  obtain cs where cs: "Connects c1 = map (\<lambda>c. fst (watch_conn c)) cs" "wrs = watched_writes cs"
    using prepare_watches [OF assms(1)] by blast
  have pos: "0 \<notin> set wrs"
    using cs(2) watched_writes_pos by blast
  have "sockets (fst (watch_conn c)) = sockets c" for c
    by (simp add: sockets_def watch_conn_keeps)
  then have "concat (map sockets cs) = concat (map sockets (Connects c1))"
    by (simp add: cs(1) comp_def)
  then have "pending ?w c" if "c \<in> set cs" for c
    using watched_write_pending [of cs c "rd_writable rd"] that assms(2) by (simp add: cs(2))
  then have p1: "pending ?w c" if "c \<in> set (Connects c1)" for c
    using that by (auto simp: cs(1) pending_def watch_conn_keeps)
  have p2: "pending ?w c" if "c \<in> set (Connects c2)" for c
  proof -
    have "pending ?w (new_connect t (fst (rd_accept rd)) a)" for t a
      using assms(3) pos by (simp add: pending_def new_connect_def zero_Connect_def)
    then show ?thesis
      using that p1 by (auto simp: c2_def XGAcceptConnect_def XGMemalloc_def split: if_splits)
  qed
  have w: "\<exists>c4. write_loop ?w [0..<length (Connects c3)] c3 = Inr c4" if "Connects c3 = Connects c2" for c3
    using p2 that by (intro write_loop_total) auto
  have u: "XGRecvUdpData (rd_env rd) (rd_udp rd) c2 \<noteq> Inl Null_Deref"
    "XGRecvUdpData (rd_env rd) (rd_udp rd) c2 = Inr c3 \<Longrightarrow> Connects c3 = Connects c2" for c3
    using udp_no_null XGStartProtocolUdp_only_logs only_logs_Connects
    by (auto simp: XGRecvUdpData_def split: prod.splits if_splits)
  show ?thesis
    unfolding XGCoreThread_dispatch_def Let_def c2_def [symmetric]
    using u w by (auto simp: c_bind_def split: sum.splits if_splits) (metis Inl_Inr_False)+
qed

definition sample_round :: xg_round where
  "sample_round = \<lparr>rd_env = sample_env, rd_sizeof_Connect = 4400, rd_sizeof_task = 16, rd_select = 1,
     rd_readable = (\<lambda>fd. False), rd_writable = (\<lambda>fd. True), rd_accept = (0, zero_sockaddr),
     rd_udp = (0, [], zero_sockaddr), rd_recv = (\<lambda>s n. (-1, []))\<rparr>"

definition sample_busy_core :: XGCore where
  "sample_busy_core = (sample_core [] [])\<lparr>Connects := [(sample_conn [] [])\<lparr>client :=
     (client (sample_conn [] []))\<lparr>cl_sendQueue := [frame_item [0x30, 0, 0, 0, 0]]\<rparr>\<rparr>]\<rparr>"

lemma sample_prepare:
  "\<exists>c1. XGCoreThread_prepare sample_round sample_busy_core = Inr (c1, [3, 4, 5, 6], [5])
     \<and> concat (map sockets (Connects c1)) = [5, 6]"
  by (simp add: XGCoreThread_prepare_def sample_busy_core_def sample_round_def sample_core_def fd_ok_def
      XGRemoveNotActive_eq XGProtocolStart_def sint_XGByteQueueSize filled_queue XGPSendQueeu_def
      XGConnectTask_def wants_cloud_def XGConnectTaskResult_def XGTimeout_def timeout_conn_def
      timeout_server_def watch_conn_def sample_conn_def zero_Connect_def Let_def sockets_def)

theorem XGCoreThread_sends_pending_witness:
  "\<exists>c1. XGCoreThread_prepare sample_round sample_busy_core = Inr (c1, [3, 4, 5, 6], [5])
     \<and> XGCoreThread_dispatch sample_round [3, 4, 5, 6] [5] c1 \<noteq> Inl Null_Deref"
  using sample_prepare XGCoreThread_sends_pending [of sample_round sample_busy_core _ "[3, 4, 5, 6]" "[5]"]
  by (auto simp: sample_round_def)

text \<open>
  A failed UDP server is fatal. Starting succeeds even if the UDP port cannot be bound; the
  invalid descriptor is kept, and the first turn of the core thread uses it as an index of a bit
  set, outside of it.
\<close>

theorem XGStartCore_udp_failure:
  assumes "\<not> isInited core" and "XGCreateTcpServer tcp > 0" and "XGCreatUdpServer udp = -1"
  shows "fst (XGStartCore tcp udp core) = 0
    \<and> XGCoreThread_turn rd (XGCoreThread_start (snd (XGStartCore tcp udp core))) = Inl Out_Of_Bounds"
  using assms by (simp add: XGStartCore_def XGCoreThread_turn_def XGCoreThread_prepare_def
      XGCoreThread_start_def fd_ok_def)

theorem XGStartCore_udp_failure_witness:
  "fst (XGStartCore \<lparr>li_socket = 3, li_bind = 0, li_listen = 0\<rparr> \<lparr>li_socket = 4, li_bind = -1, li_listen = 0\<rparr>
     ((sample_core [] [])\<lparr>isInited := False\<rparr>)) = 0"
  using XGStartCore_udp_failure [of "(sample_core [] [])\<lparr>isInited := False\<rparr>"
      "\<lparr>li_socket = 3, li_bind = 0, li_listen = 0\<rparr>" "\<lparr>li_socket = 4, li_bind = -1, li_listen = 0\<rparr>"]
  by (simp add: XGCreateTcpServer_def XGCreatUdpServer_def)

text \<open>Leaving the thread, and stopping with connections left, are faults in every case.\<close>

lemma XGCoreThread_quit_faults: "isQuit core \<Longrightarrow> XGCoreThread (rd # rds) core = Inl Null_Deref"
  by (simp add: XGCoreThread_exit_def)

lemma XGStopCore_faults:
  "\<not> isRuning core \<Longrightarrow> Connects core \<noteq> [] \<Longrightarrow> XGStopCore core = Some (Inl Use_After_Free)"
  by (cases "Connects core") (simp_all add: XGStopCore_def)

end
