(* ===== verification/XGMd5.thy ===== *)
theory XGMd5 imports Prelude begin

text \<open>
  The MD5 digest of the gateway, \<^verbatim>\<open>src/XGmd5.c\<close>: a context that is fed pieces of a message, a
  64-byte input buffer, a bit count in two words, and the transform of 64 unrolled steps. The
  target is little endian, so \<^verbatim>\<open>HIGHFIRST\<close> is not defined and the casts of the input buffer to
  words read it from the low byte up. The reference is RFC 1321: padding, blocks and the step
  formulas of the four rounds.
\<close>

section \<open>The code\<close>

record XGMD5_CTX =
  md5_buf :: "u32 list"
  md5_bits0 :: u32
  md5_bits1 :: u32
  md5_in :: bytes

definition XLINK_F1 :: "u32 \<Rightarrow> u32 \<Rightarrow> u32 \<Rightarrow> u32" where
  "XLINK_F1 x y z = z XOR (x AND (y XOR z))"

definition XLINK_F2 :: "u32 \<Rightarrow> u32 \<Rightarrow> u32 \<Rightarrow> u32" where
  "XLINK_F2 x y z = XLINK_F1 z x y"

definition XLINK_F3 :: "u32 \<Rightarrow> u32 \<Rightarrow> u32 \<Rightarrow> u32" where
  "XLINK_F3 x y z = x XOR y XOR z"

definition XLINK_F4 :: "u32 \<Rightarrow> u32 \<Rightarrow> u32 \<Rightarrow> u32" where
  "XLINK_F4 x y z = y XOR (x OR NOT z)"

definition XLINK_MD5STEP ::
  "(u32 \<Rightarrow> u32 \<Rightarrow> u32 \<Rightarrow> u32) \<Rightarrow> u32 \<Rightarrow> u32 \<Rightarrow> u32 \<Rightarrow> u32 \<Rightarrow> u32 \<Rightarrow> nat \<Rightarrow> u32" where
  "XLINK_MD5STEP f w x y z data s =
     (let w = w + (f x y z + data); w = push_bit s w OR drop_bit (32 - s) w in w + x)"

text \<open>
  The 64 lines of the transform, each with its macro's arguments: the function, the four registers
  in the order they are passed (the first is the one assigned), the input word, the constant, the
  shift. A register is its position in \<open>[a, b, c, d]\<close>.
\<close>

type_synonym md5_line =
  "(u32 \<Rightarrow> u32 \<Rightarrow> u32 \<Rightarrow> u32) \<times> (nat \<times> nat \<times> nat \<times> nat) \<times> nat \<times> u32 \<times> nat"

definition md5_lines :: "md5_line list" where
  "md5_lines = [
   (XLINK_F1, (0, 1, 2, 3), 0, 0xd76aa478, 7),
   (XLINK_F1, (3, 0, 1, 2), 1, 0xe8c7b756, 12),
   (XLINK_F1, (2, 3, 0, 1), 2, 0x242070db, 17),
   (XLINK_F1, (1, 2, 3, 0), 3, 0xc1bdceee, 22),
   (XLINK_F1, (0, 1, 2, 3), 4, 0xf57c0faf, 7),
   (XLINK_F1, (3, 0, 1, 2), 5, 0x4787c62a, 12),
   (XLINK_F1, (2, 3, 0, 1), 6, 0xa8304613, 17),
   (XLINK_F1, (1, 2, 3, 0), 7, 0xfd469501, 22),
   (XLINK_F1, (0, 1, 2, 3), 8, 0x698098d8, 7),
   (XLINK_F1, (3, 0, 1, 2), 9, 0x8b44f7af, 12),
   (XLINK_F1, (2, 3, 0, 1), 10, 0xffff5bb1, 17),
   (XLINK_F1, (1, 2, 3, 0), 11, 0x895cd7be, 22),
   (XLINK_F1, (0, 1, 2, 3), 12, 0x6b901122, 7),
   (XLINK_F1, (3, 0, 1, 2), 13, 0xfd987193, 12),
   (XLINK_F1, (2, 3, 0, 1), 14, 0xa679438e, 17),
   (XLINK_F1, (1, 2, 3, 0), 15, 0x49b40821, 22),
   (XLINK_F2, (0, 1, 2, 3), 1, 0xf61e2562, 5),
   (XLINK_F2, (3, 0, 1, 2), 6, 0xc040b340, 9),
   (XLINK_F2, (2, 3, 0, 1), 11, 0x265e5a51, 14),
   (XLINK_F2, (1, 2, 3, 0), 0, 0xe9b6c7aa, 20),
   (XLINK_F2, (0, 1, 2, 3), 5, 0xd62f105d, 5),
   (XLINK_F2, (3, 0, 1, 2), 10, 0x02441453, 9),
   (XLINK_F2, (2, 3, 0, 1), 15, 0xd8a1e681, 14),
   (XLINK_F2, (1, 2, 3, 0), 4, 0xe7d3fbc8, 20),
   (XLINK_F2, (0, 1, 2, 3), 9, 0x21e1cde6, 5),
   (XLINK_F2, (3, 0, 1, 2), 14, 0xc33707d6, 9),
   (XLINK_F2, (2, 3, 0, 1), 3, 0xf4d50d87, 14),
   (XLINK_F2, (1, 2, 3, 0), 8, 0x455a14ed, 20),
   (XLINK_F2, (0, 1, 2, 3), 13, 0xa9e3e905, 5),
   (XLINK_F2, (3, 0, 1, 2), 2, 0xfcefa3f8, 9),
   (XLINK_F2, (2, 3, 0, 1), 7, 0x676f02d9, 14),
   (XLINK_F2, (1, 2, 3, 0), 12, 0x8d2a4c8a, 20),
   (XLINK_F3, (0, 1, 2, 3), 5, 0xfffa3942, 4),
   (XLINK_F3, (3, 0, 1, 2), 8, 0x8771f681, 11),
   (XLINK_F3, (2, 3, 0, 1), 11, 0x6d9d6122, 16),
   (XLINK_F3, (1, 2, 3, 0), 14, 0xfde5380c, 23),
   (XLINK_F3, (0, 1, 2, 3), 1, 0xa4beea44, 4),
   (XLINK_F3, (3, 0, 1, 2), 4, 0x4bdecfa9, 11),
   (XLINK_F3, (2, 3, 0, 1), 7, 0xf6bb4b60, 16),
   (XLINK_F3, (1, 2, 3, 0), 10, 0xbebfbc70, 23),
   (XLINK_F3, (0, 1, 2, 3), 13, 0x289b7ec6, 4),
   (XLINK_F3, (3, 0, 1, 2), 0, 0xeaa127fa, 11),
   (XLINK_F3, (2, 3, 0, 1), 3, 0xd4ef3085, 16),
   (XLINK_F3, (1, 2, 3, 0), 6, 0x04881d05, 23),
   (XLINK_F3, (0, 1, 2, 3), 9, 0xd9d4d039, 4),
   (XLINK_F3, (3, 0, 1, 2), 12, 0xe6db99e5, 11),
   (XLINK_F3, (2, 3, 0, 1), 15, 0x1fa27cf8, 16),
   (XLINK_F3, (1, 2, 3, 0), 2, 0xc4ac5665, 23),
   (XLINK_F4, (0, 1, 2, 3), 0, 0xf4292244, 6),
   (XLINK_F4, (3, 0, 1, 2), 7, 0x432aff97, 10),
   (XLINK_F4, (2, 3, 0, 1), 14, 0xab9423a7, 15),
   (XLINK_F4, (1, 2, 3, 0), 5, 0xfc93a039, 21),
   (XLINK_F4, (0, 1, 2, 3), 12, 0x655b59c3, 6),
   (XLINK_F4, (3, 0, 1, 2), 3, 0x8f0ccc92, 10),
   (XLINK_F4, (2, 3, 0, 1), 10, 0xffeff47d, 15),
   (XLINK_F4, (1, 2, 3, 0), 1, 0x85845dd1, 21),
   (XLINK_F4, (0, 1, 2, 3), 8, 0x6fa87e4f, 6),
   (XLINK_F4, (3, 0, 1, 2), 15, 0xfe2ce6e0, 10),
   (XLINK_F4, (2, 3, 0, 1), 6, 0xa3014314, 15),
   (XLINK_F4, (1, 2, 3, 0), 13, 0x4e0811a1, 21),
   (XLINK_F4, (0, 1, 2, 3), 4, 0xf7537e82, 6),
   (XLINK_F4, (3, 0, 1, 2), 11, 0xbd3af235, 10),
   (XLINK_F4, (2, 3, 0, 1), 2, 0x2ad7d2bb, 15),
   (XLINK_F4, (1, 2, 3, 0), 9, 0xeb86d391, 21)
  ]"

fun md5_exec :: "u32 list \<Rightarrow> md5_line \<Rightarrow> u32 list \<Rightarrow> u32 list" where
  "md5_exec inp (f, (w, x, y, z), k, c, s) regs =
     regs[w := XLINK_MD5STEP f (regs ! w) (regs ! x) (regs ! y) (regs ! z) (inp ! k + c) s]"

definition XlinkMD5Transform :: "u32 list \<Rightarrow> u32 list \<Rightarrow> u32 list" where
  "XlinkMD5Transform buf inp = map2 (+) buf (fold (md5_exec inp) md5_lines buf)"

text \<open>The cast of the input buffer to sixteen words.\<close>

definition word_at :: "bytes \<Rightarrow> nat \<Rightarrow> u32" where
  "word_at bs k = UTIL_INT32_SET (bs ! (4 * k + 3)) (bs ! (4 * k + 2)) (bs ! (4 * k + 1)) (bs ! (4 * k))"

definition words_of :: "bytes \<Rightarrow> u32 list" where
  "words_of bs = map (word_at bs) [0..<16]"

definition bytes_of_word :: "u32 \<Rightarrow> bytes" where
  "bytes_of_word w = [UTIL_INT32_GET_BIT0 w, UTIL_INT32_GET_BIT1 w, UTIL_INT32_GET_BIT2 w, UTIL_INT32_GET_BIT3 w]"

definition XlinkMD5Init :: "XGMD5_CTX \<Rightarrow> XGMD5_CTX" where
  "XlinkMD5Init ctx = ctx\<lparr>md5_buf := [0x67452301, 0xefcdab89, 0x98badcfe, 0x10325476],
     md5_bits0 := 0, md5_bits1 := 0\<rparr>"

text \<open>The loop over whole blocks: the rest of the data and the context it leaves.\<close>

function md5_blocks :: "bytes \<Rightarrow> XGMD5_CTX \<Rightarrow> bytes \<times> XGMD5_CTX" where
  "md5_blocks data ctx =
     (if length data \<ge> 64
      then md5_blocks (drop 64 data)
             (let ctx = ctx\<lparr>md5_in := memcpy_at 0 (take 64 data) (md5_in ctx)\<rparr>
              in ctx\<lparr>md5_buf := XlinkMD5Transform (md5_buf ctx) (words_of (md5_in ctx))\<rparr>)
      else (data, ctx))"
  by pat_completeness auto
termination
  by (relation "measure (\<lambda>(data, ctx). length data)") auto

declare md5_blocks.simps [simp del]

definition md5_count :: "u32 \<Rightarrow> XGMD5_CTX \<Rightarrow> XGMD5_CTX" where
  "md5_count len ctx =
     (let t = md5_bits0 ctx;
          ctx = ctx\<lparr>md5_bits0 := t + push_bit 3 len\<rparr>;
          ctx = (if md5_bits0 ctx < t then ctx\<lparr>md5_bits1 := md5_bits1 ctx + 1\<rparr> else ctx)
      in ctx\<lparr>md5_bits1 := md5_bits1 ctx + drop_bit 29 len\<rparr>)"

definition XlinkMD5Update :: "XGMD5_CTX \<Rightarrow> bytes \<Rightarrow> XGMD5_CTX" where
  "XlinkMD5Update ctx data =
     (let t = unat (drop_bit 3 (md5_bits0 ctx) AND 0x3f);
          ctx = md5_count (of_nat (length data)) ctx
      in if t \<noteq> 0 \<and> length data < 64 - t
         then ctx\<lparr>md5_in := memcpy_at t data (md5_in ctx)\<rparr>
         else
           let (data, ctx) =
                 (if t \<noteq> 0
                  then (drop (64 - t) data,
                        let ctx = ctx\<lparr>md5_in := memcpy_at t (take (64 - t) data) (md5_in ctx)\<rparr>
                        in ctx\<lparr>md5_buf := XlinkMD5Transform (md5_buf ctx) (words_of (md5_in ctx))\<rparr>)
                  else (data, ctx));
               (data, ctx) = md5_blocks data ctx
           in ctx\<lparr>md5_in := memcpy_at 0 data (md5_in ctx)\<rparr>)"

definition XlinkMD5Final :: "XGMD5_CTX \<Rightarrow> bytes" where
  "XlinkMD5Final ctx =
     (let count = unat (drop_bit 3 (md5_bits0 ctx) AND 0x3F);
          ctx = ctx\<lparr>md5_in := (md5_in ctx)[count := 0x80]\<rparr>;
          p = count + 1;
          count = 64 - 1 - count;
          ctx = (if count < 8
            then
              let ctx = ctx\<lparr>md5_in := memcpy_at p (replicate count 0) (md5_in ctx)\<rparr>;
                  ctx = ctx\<lparr>md5_buf := XlinkMD5Transform (md5_buf ctx) (words_of (md5_in ctx))\<rparr>
              in ctx\<lparr>md5_in := memcpy_at 0 (replicate 56 0) (md5_in ctx)\<rparr>
            else ctx\<lparr>md5_in := memcpy_at p (replicate (count - 8) 0) (md5_in ctx)\<rparr>);
          ctx = ctx\<lparr>md5_in := memcpy_at 60 (bytes_of_word (md5_bits1 ctx))
                  (memcpy_at 56 (bytes_of_word (md5_bits0 ctx)) (md5_in ctx))\<rparr>;
          ctx = ctx\<lparr>md5_buf := XlinkMD5Transform (md5_buf ctx) (words_of (md5_in ctx))\<rparr>
      in concat (map bytes_of_word (md5_buf ctx)))"

definition zero_md5 :: XGMD5_CTX where
  "zero_md5 = \<lparr>md5_buf = replicate 4 0, md5_bits0 = 0, md5_bits1 = 0, md5_in = replicate 64 0\<rparr>"

text \<open>\<open>ctx\<close> is the uninitialised local context, whose input buffer may hold anything.\<close>

definition xlinkGetMd5 :: "XGMD5_CTX \<Rightarrow> bytes \<Rightarrow> bytes option" where
  "xlinkGetMd5 ctx data =
     (if data = [] then None else Some (XlinkMD5Final (XlinkMD5Update (XlinkMD5Init ctx) data)))"

definition hex_digit :: "nat \<Rightarrow> byte" where
  "hex_digit n = (if n < 10 then of_nat (0x30 + n) else of_nat (0x41 + (n - 10)))"

definition XlinkHttpM5dFinalString :: "XGMD5_CTX \<Rightarrow> bytes" where
  "XlinkHttpM5dFinalString ctx =
     concat (map (\<lambda>b. [hex_digit (unat b div 16), hex_digit (unat b mod 16)]) (XlinkMD5Final ctx))"

section \<open>RFC 1321\<close>

definition rfc_F :: "nat \<Rightarrow> u32 \<Rightarrow> u32 \<Rightarrow> u32 \<Rightarrow> u32" where
  "rfc_F i x y z =
     (if i < 16 then (x AND y) OR (NOT x AND z)
      else if i < 32 then (x AND z) OR (y AND NOT z)
      else if i < 48 then x XOR y XOR z
      else y XOR (x OR NOT z))"

definition rfc_k :: "nat \<Rightarrow> nat" where
  "rfc_k i = (if i < 16 then i else if i < 32 then (5 * i + 1) mod 16
     else if i < 48 then (3 * i + 5) mod 16 else (7 * i) mod 16)"

definition rfc_s :: "nat \<Rightarrow> nat" where
  "rfc_s i = [7, 12, 17, 22, 5, 9, 14, 20, 4, 11, 16, 23, 6, 10, 15, 21] ! (4 * (i div 16) + i mod 4)"

definition rfc_T :: "u32 list" where
  "rfc_T = [
    0xd76aa478, 0xe8c7b756, 0x242070db, 0xc1bdceee, 0xf57c0faf, 0x4787c62a, 0xa8304613,
     0xfd469501, 0x698098d8, 0x8b44f7af, 0xffff5bb1, 0x895cd7be, 0x6b901122, 0xfd987193,
     0xa679438e, 0x49b40821, 0xf61e2562, 0xc040b340, 0x265e5a51, 0xe9b6c7aa, 0xd62f105d,
     0x02441453, 0xd8a1e681, 0xe7d3fbc8, 0x21e1cde6, 0xc33707d6, 0xf4d50d87, 0x455a14ed,
     0xa9e3e905, 0xfcefa3f8, 0x676f02d9, 0x8d2a4c8a, 0xfffa3942, 0x8771f681, 0x6d9d6122,
     0xfde5380c, 0xa4beea44, 0x4bdecfa9, 0xf6bb4b60, 0xbebfbc70, 0x289b7ec6, 0xeaa127fa,
     0xd4ef3085, 0x04881d05, 0xd9d4d039, 0xe6db99e5, 0x1fa27cf8, 0xc4ac5665, 0xf4292244,
     0x432aff97, 0xab9423a7, 0xfc93a039, 0x655b59c3, 0x8f0ccc92, 0xffeff47d, 0x85845dd1,
     0x6fa87e4f, 0xfe2ce6e0, 0xa3014314, 0x4e0811a1, 0xf7537e82, 0xbd3af235, 0x2ad7d2bb,
     0xeb86d391
  ]"

definition rfc_step :: "u32 list \<Rightarrow> nat \<Rightarrow> u32 \<times> u32 \<times> u32 \<times> u32 \<Rightarrow> u32 \<times> u32 \<times> u32 \<times> u32" where
  "rfc_step X i = (\<lambda>(a, b, c, d).
     (d, b + word_rotl (rfc_s i) (a + rfc_F i b c d + X ! rfc_k i + rfc_T ! i), b, c))"

definition rfc_compress :: "u32 list \<Rightarrow> u32 \<times> u32 \<times> u32 \<times> u32 \<Rightarrow> u32 \<times> u32 \<times> u32 \<times> u32" where
  "rfc_compress X = (\<lambda>(a, b, c, d). case fold (rfc_step X) [0..<64] (a, b, c, d) of
     (a', b', c', d') \<Rightarrow> (a + a', b + b', c + c', d + d'))"

definition rfc_pad :: "bytes \<Rightarrow> bytes" where
  "rfc_pad m = m @ 0x80 # replicate ((119 - length m mod 64) mod 64) 0
     @ bytes_of_word (of_nat (8 * length m)) @ bytes_of_word (of_nat (8 * length m div 2 ^ 32))"

function rfc_blocks :: "bytes \<Rightarrow> u32 \<times> u32 \<times> u32 \<times> u32 \<Rightarrow> u32 \<times> u32 \<times> u32 \<times> u32" where
  "rfc_blocks m s = (if length m < 64 then s
     else rfc_blocks (drop 64 m) (rfc_compress (words_of (take 64 m)) s))"
  by pat_completeness auto
termination
  by (relation "measure (\<lambda>(m, s). length m)") auto

declare rfc_blocks.simps [simp del]

definition rfc_init :: "u32 \<times> u32 \<times> u32 \<times> u32" where
  "rfc_init = (0x67452301, 0xefcdab89, 0x98badcfe, 0x10325476)"

definition rfc_md5 :: "bytes \<Rightarrow> bytes" where
  "rfc_md5 m = (case rfc_blocks (rfc_pad m) rfc_init of (a, b, c, d) \<Rightarrow>
     bytes_of_word a @ bytes_of_word b @ bytes_of_word c @ bytes_of_word d)"

section \<open>The transform is the compression function\<close>

definition xf :: "nat \<Rightarrow> u32 \<Rightarrow> u32 \<Rightarrow> u32 \<Rightarrow> u32" where
  "xf i = (if i < 16 then XLINK_F1 else if i < 32 then XLINK_F2 else if i < 48 then XLINK_F3 else XLINK_F4)"

definition rot :: "nat \<Rightarrow> nat \<times> nat \<times> nat \<times> nat" where
  "rot i = [(0, 1, 2, 3), (3, 0, 1, 2), (2, 3, 0, 1), (1, 2, 3, 0)] ! (i mod 4)"

lemma md5_lines_eq:
  "md5_lines = map (\<lambda>i. (xf i, rot i, rfc_k i, rfc_T ! i, rfc_s i)) [0..<64]"
proof -
  have u: "[0..<64] = [0, 1, 2, 3, 4, 5, 6, 7, 8, 9, 10, 11, 12, 13, 14, 15, 16, 17, 18, 19, 20, 21, 22,
      23, 24, 25, 26, 27, 28, 29, 30, 31, 32, 33, 34, 35, 36, 37, 38, 39, 40, 41, 42, 43, 44, 45,
      46, 47, 48, 49, 50, 51, 52, 53, 54, 55, 56, 57, 58, 59, 60, 61, 62, 63]"
    by (simp add: upt_conv_Cons)
  show ?thesis
    unfolding u by (simp add: md5_lines_def xf_def rot_def rfc_k_def rfc_T_def rfc_s_def)
qed

lemma xf_rfc_F: "xf i x y z = rfc_F i x y z"
  by (auto intro!: bit_word_eqI simp: xf_def rfc_F_def XLINK_F1_def XLINK_F2_def XLINK_F3_def
      XLINK_F4_def bit_simps)

lemma rotl_eq:
  assumes "s < 32"
  shows "push_bit s (w :: u32) OR drop_bit (32 - s) w = word_rotl s w"
proof (rule bit_word_eqI)
  fix n assume "n < LENGTH(32)"
  then have n: "n < 32" by simp
  have m: "(n + (32 - s)) mod 32 = (if s \<le> n then n - s else 32 - s + n)"
    using n assms by (auto simp: mod_if)
  have r: "bit (word_rotl s w) n = bit w (if s \<le> n then n - s else 32 - s + n)"
    using n assms unfolding m [symmetric] by (simp add: bit_word_rotl_iff)
  have "\<not> bit w (32 - s + n)" if "s \<le> n"
    using that assms bit_imp_le_length [of w "32 - s + n"] by auto
  then show "bit (push_bit s w OR drop_bit (32 - s) w) n = bit (word_rotl s w) n"
    unfolding r using n by (auto simp: bit_simps)
qed

text \<open>
  Simulation: the registers stay in place in the code and move through the formal parameters in
  the RFC, so after \<open>n\<close> steps the two agree up to a rotation by \<open>n\<close>.
\<close>

definition unrot :: "nat \<Rightarrow> u32 \<times> u32 \<times> u32 \<times> u32 \<Rightarrow> u32 list" where
  "unrot n = (\<lambda>(p, q, r, s).
     [[p, q, r, s], [q, r, s, p], [r, s, p, q], [s, p, q, r]] ! (n mod 4))"

lemma md5_exec_step:
  assumes "n < 64"
  shows "md5_exec inp (xf n, rot n, rfc_k n, rfc_T ! n, rfc_s n) (unrot n st) =
    unrot (Suc n) (rfc_step inp n st)"
proof -
  obtain p q r s where st: "st = (p, q, r, s)"
    by (cases st)
  have "n div 16 \<le> 3" "n mod 4 \<le> 3"
    using assms div_le_mono [of n 63 16] by simp_all
  then have "4 * (n div 16) + n mod 4 < 16"
    by linarith
  then have "rfc_s n \<in> set [7, 12, 17, 22, 5, 9, 14, 20, 4, 11, 16, 23, 6, 10, 15, 21]"
    unfolding rfc_s_def by (intro nth_mem) simp
  then have "rfc_s n < 32"
    by auto
  note rl = rotl_eq [OF this]
  have "n mod 4 = 0 \<and> Suc n mod 4 = 1 \<or> n mod 4 = 1 \<and> Suc n mod 4 = 2
      \<or> n mod 4 = 2 \<and> Suc n mod 4 = 3 \<or> n mod 4 = 3 \<and> Suc n mod 4 = 0"
    by presburger
  then show ?thesis
    by (elim disjE) (simp_all add: st unrot_def rot_def rfc_step_def XLINK_MD5STEP_def Let_def
        xf_rfc_F rl add.assoc add.commute [of _ q] add.left_commute del: mod_Suc)
qed

lemma md5_fold_lines:
  assumes "n \<le> 64"
  shows "fold (md5_exec inp) (map (\<lambda>i. (xf i, rot i, rfc_k i, rfc_T ! i, rfc_s i)) [0..<n]) [a, b, c, d] =
    unrot n (fold (rfc_step inp) [0..<n] (a, b, c, d))"
  using assms
proof (induction n)
  case 0
  then show ?case by (simp add: unrot_def)
next
  case (Suc n)
  then show ?case
    using md5_exec_step [of n inp] by simp
qed

definition reg_list :: "u32 \<times> u32 \<times> u32 \<times> u32 \<Rightarrow> u32 list" where
  "reg_list = (\<lambda>(a, b, c, d). [a, b, c, d])"

lemma transform_compress: "XlinkMD5Transform (reg_list s) inp = reg_list (rfc_compress inp s)"
proof -
  obtain a b c d where s: "s = (a, b, c, d)"
    by (cases s)
  obtain a' b' c' d' where f: "fold (rfc_step inp) [0..<64] (a, b, c, d) = (a', b', c', d')"
    by (cases "fold (rfc_step inp) [0..<64] (a, b, c, d)")
  show ?thesis
    using md5_fold_lines [of 64 inp a b c d]
    by (simp add: XlinkMD5Transform_def md5_lines_eq s reg_list_def rfc_compress_def f unrot_def)
qed

section \<open>Blocks and the state after a message\<close>

lemma rfc_blocks_step:
  "length b = 64 \<Longrightarrow> rfc_blocks (b @ m) s = rfc_blocks m (rfc_compress (words_of b) s)"
  by (subst rfc_blocks.simps) simp

lemma rfc_blocks_short: "length m < 64 \<Longrightarrow> rfc_blocks m s = s"
  by (subst rfc_blocks.simps) simp

lemma rfc_blocks_append:
  "length m = 64 * k \<Longrightarrow> rfc_blocks (m @ m') s = rfc_blocks m' (rfc_blocks m s)"
proof (induction k arbitrary: m s)
  case 0
  then show ?case by (simp add: rfc_blocks_short)
next
  case (Suc k)
  have m: "m = take 64 m @ drop 64 m" "length (take 64 m) = 64" "length (drop 64 m) = 64 * k"
    using Suc.prems by simp_all
  have "rfc_blocks (m @ m') s = rfc_blocks (drop 64 m @ m') (rfc_compress (words_of (take 64 m)) s)"
    by (metis m(1,2) append_assoc rfc_blocks_step)
  also have "\<dots> = rfc_blocks m' (rfc_blocks (drop 64 m) (rfc_compress (words_of (take 64 m)) s))"
    by (rule Suc.IH [OF m(3)])
  also have "rfc_blocks (drop 64 m) (rfc_compress (words_of (take 64 m)) s) = rfc_blocks m s"
    by (metis m(1,2) rfc_blocks_step)
  finally show ?case .
qed

text \<open>The whole blocks of a message and the bytes behind them.\<close>

definition whole :: "bytes \<Rightarrow> bytes" where
  "whole m = take (64 * (length m div 64)) m"

definition rest :: "bytes \<Rightarrow> bytes" where
  "rest m = drop (64 * (length m div 64)) m"

lemma whole_rest:
  "whole m @ rest m = m" "length (whole m) = 64 * (length m div 64)" "length (rest m) = length m mod 64"
  by (simp_all add: whole_def rest_def minus_mult_div_eq_mod)

lemma rfc_blocks_rest: "rfc_blocks (m @ d) s = rfc_blocks (rest m @ d) (rfc_blocks m s)"
proof -
  have "rfc_blocks (m @ d) s = rfc_blocks (whole m @ (rest m @ d)) s"
    by (metis whole_rest(1) append_assoc)
  also have "\<dots> = rfc_blocks (rest m @ d) (rfc_blocks (whole m) s)"
    by (rule rfc_blocks_append [OF whole_rest(2)])
  also have "rfc_blocks (whole m) s = rfc_blocks m s"
    using rfc_blocks_append [OF whole_rest(2), of m "rest m" s] whole_rest(3) [of m]
    by (simp add: whole_rest(1) rfc_blocks_short)
  finally show ?thesis .
qed

text \<open>What the context holds after the bytes \<open>m\<close>.\<close>

definition absorbed :: "bytes \<Rightarrow> XGMD5_CTX \<Rightarrow> bool" where
  "absorbed m ctx \<longleftrightarrow> md5_buf ctx = reg_list (rfc_blocks m rfc_init)
     \<and> md5_bits0 ctx = of_nat (8 * length m) \<and> md5_bits1 ctx = of_nat (8 * length m div 2 ^ 32)
     \<and> length (md5_in ctx) = 64 \<and> take (length m mod 64) (md5_in ctx) = rest m"

lemma absorbed_Nil: "length (md5_in ctx) = 64 \<Longrightarrow> absorbed [] (XlinkMD5Init ctx)"
  by (simp add: absorbed_def XlinkMD5Init_def rfc_blocks_short rfc_init_def reg_list_def rest_def)

lemma md5_blocks_spec:
  assumes "md5_buf ctx = reg_list s" "length (md5_in ctx) = 64"
  shows "\<exists>ctx'. md5_blocks d ctx = (rest d, ctx') \<and> md5_buf ctx' = reg_list (rfc_blocks d s)
    \<and> length (md5_in ctx') = 64 \<and> md5_bits0 ctx' = md5_bits0 ctx \<and> md5_bits1 ctx' = md5_bits1 ctx"
  using assms
proof (induction d ctx arbitrary: s rule: md5_blocks.induct)
  case (1 d ctx)
  show ?case
  proof (cases "64 \<le> length d")
    case False
    then show ?thesis
      using "1.prems" by (simp add: md5_blocks.simps [of d] rfc_blocks_short rest_def)
  next
    case True
    let ?ctx = "let ctx = ctx\<lparr>md5_in := memcpy_at 0 (take 64 d) (md5_in ctx)\<rparr>
              in ctx\<lparr>md5_buf := XlinkMD5Transform (md5_buf ctx) (words_of (md5_in ctx))\<rparr>"
    have inb: "memcpy_at 0 (take 64 d) (md5_in ctx) = take 64 d"
      using True "1.prems"(2) by (simp add: memcpy_at_def)
    have c: "md5_buf ?ctx = reg_list (rfc_compress (words_of (take 64 d)) s)" "length (md5_in ?ctx) = 64"
      using True "1.prems"(1) by (simp_all add: inb transform_compress)
    have "rest (drop 64 d) = rest d"
    proof -
      have "length d div 64 = Suc ((length d - 64) div 64)"
        using True by (simp add: le_div_geq)
      then show ?thesis
        by (simp add: rest_def add.commute)
    qed
    moreover have "rfc_blocks (drop 64 d) (rfc_compress (words_of (take 64 d)) s) = rfc_blocks d s"
      using rfc_blocks_step [of "take 64 d" "drop 64 d" s] True by simp
    ultimately show ?thesis
      using "1.IH" [OF True c] True by (simp add: md5_blocks.simps [of d ctx])
  qed
qed

section \<open>The bit count\<close>

lemma add_div_carry:
  assumes "c < b" "d < (b :: nat)"
  shows "(a * b + c + (e * b + d)) div b = a + e + (if b \<le> c + d then 1 else 0)"
proof -
  have "a * b + c + (e * b + d) = (c + d) + (a + e) * b"
    by (simp add: algebra_simps)
  then have "(a * b + c + (e * b + d)) div b = (a + e) + (c + d) div b"
    using assms by (simp only:) simp
  also have "(c + d) div b = (if b \<le> c + d then 1 else 0)"
    using assms by (auto simp: div_if)
  finally show ?thesis .
qed

lemma add_div_carry':
  "0 < (b :: nat) \<Longrightarrow> (M + N) div b = M div b + N div b + (if b \<le> M mod b + N mod b then 1 else 0)"
  using add_div_carry [of "M mod b" b "N mod b" "M div b" "N div b"] by simp

lemma of_nat_u32_mod: "(of_nat n :: u32) = of_nat (n mod 2 ^ 32)"
  by (rule word_unat_eq_iff [THEN iffD2]) (simp add: unat_of_nat)

lemma md5_count_spec:
  assumes "md5_bits0 ctx = of_nat (8 * m)" "md5_bits1 ctx = of_nat (8 * m div 2 ^ 32)" "d < 2 ^ 32"
  shows "md5_bits0 (md5_count (of_nat d) ctx) = of_nat (8 * (m + d))"
    and "md5_bits1 (md5_count (of_nat d) ctx) = of_nat (8 * (m + d) div 2 ^ 32)"
    and "md5_buf (md5_count len ctx) = md5_buf ctx" "md5_in (md5_count len ctx) = md5_in ctx"
proof -
  let ?b = "2 ^ 32 :: nat"
  have p: "push_bit 3 (of_nat d :: u32) = of_nat (8 * d)"
    by (simp add: push_bit_eq_mult)
  have sum: "(of_nat (8 * m) + of_nat (8 * d) :: u32) = of_nat (8 * (m + d))"
    by (simp add: algebra_simps)
  show "md5_bits0 (md5_count (of_nat d) ctx) = of_nat (8 * (m + d))"
    using sum by (simp add: md5_count_def Let_def p assms(1) del: of_nat_mult)
  have u: "unat (of_nat (8 * m) :: u32) = 8 * m mod ?b" "unat (of_nat (8 * d) :: u32) = 8 * d mod ?b"
    by (simp_all add: unat_of_nat del: of_nat_mult)
  have carry: "of_nat (8 * (m + d)) < (of_nat (8 * m) :: u32) \<longleftrightarrow> ?b \<le> 8 * m mod ?b + 8 * d mod ?b"
    unfolding sum [symmetric] word_less_nat_alt unat_word_ariths u
    by (simp add: mod_if [of "8 * m mod 4294967296 + 8 * d mod 4294967296"]) linarith
  have e: "8 * d div ?b = d div 2 ^ 29"
    by simp
  have "unat (of_nat d :: u32) = d"
    using assms(3) by (rule unat_of_nat_u32)
  then have dr: "drop_bit 29 (of_nat d :: u32) = of_nat (d div 2 ^ 29)"
    by (intro word_unat_eq_iff [THEN iffD2]) (simp add: unat_drop_bit_div unat_of_nat)
  have raw: "md5_bits1 (md5_count len ctx) = (if md5_bits0 ctx + push_bit 3 len < md5_bits0 ctx
      then md5_bits1 ctx + 1 else md5_bits1 ctx) + drop_bit 29 len" for len
    by (simp add: md5_count_def Let_def)
  have v: "md5_bits1 (md5_count (of_nat d) ctx) = (if of_nat (8 * (m + d)) < (of_nat (8 * m) :: u32)
      then of_nat (8 * m div ?b) + 1 else of_nat (8 * m div ?b)) + of_nat (8 * d div ?b)"
    unfolding raw assms(1,2) p sum dr e ..
  have w: "8 * (m + d) div ?b = 8 * m div ?b + 8 * d div ?b
      + (if ?b \<le> 8 * m mod ?b + 8 * d mod ?b then 1 else 0)"
    unfolding distrib_left by (rule add_div_carry') simp
  show "md5_bits1 (md5_count (of_nat d) ctx) = of_nat (8 * (m + d) div ?b)"
    unfolding v carry w
    by (cases "?b \<le> 8 * m mod ?b + 8 * d mod ?b")
      (simp_all only: if_True if_False of_nat_add of_nat_1 of_nat_0 add_0_right add.assoc
        add.commute [of "1 :: u32"])
  show "md5_buf (md5_count len ctx) = md5_buf ctx" "md5_in (md5_count len ctx) = md5_in ctx"
    by (simp_all add: md5_count_def Let_def)
qed

section \<open>Feeding pieces\<close>

lemma count_mod_64:
  "unat (drop_bit 3 (of_nat (8 * m) :: u32) AND 0x3f) = m mod 64"
proof -
  have "unat ((w :: u32) AND 0x3f) = unat w mod 64" for w
  proof -
    have "w AND 0x3f = take_bit 6 w"
      by (simp only: take_bit_eq_mask mask_eq_exp_minus_1) simp
    then have "unat (w AND 0x3f) = take_bit 6 (unat w)"
      by (simp only: unsigned_take_bit_eq)
    then show ?thesis
      by (simp only: take_bit_eq_mod) simp
  qed
  then have "unat (drop_bit 3 (of_nat (8 * m) :: u32) AND 0x3f) = 8 * m mod 2 ^ 32 div 8 mod 64"
    by (simp only: unat_drop_bit_div unat_of_nat) simp
  also have "8 * m mod 2 ^ 32 = 8 * (m mod 2 ^ 29)"
    using mult_mod_right [of 8 m "2 ^ 29"] by simp
  also have "8 * (m mod 2 ^ 29) div 8 mod 64 = m mod 64"
    by (simp add: mod_mod_cancel)
  finally show ?thesis .
qed

lemma rest_append_short:
  assumes "length m mod 64 + length d < 64"
  shows "rest (m @ d) = rest m @ d" "length (m @ d) mod 64 = length m mod 64 + length d"
proof -
  have "length (m @ d) = 64 * (length m div 64) + (length m mod 64 + length d)"
    by simp
  then have l: "length (m @ d) div 64 = length m div 64" "length (m @ d) mod 64 = length m mod 64 + length d"
    using assms by (metis add.commute div_mult_self2 mod_less mod_mult_self2 div_less add_0 zero_neq_numeral)+
  then show "rest (m @ d) = rest m @ d" "length (m @ d) mod 64 = length m mod 64 + length d"
    by (simp_all add: rest_def)
qed

lemma rest_drop_block:
  assumes "length x = 64 * k"
  shows "rest (x @ d) = rest d" "length (x @ d) mod 64 = length d mod 64"
  using assms by (simp_all add: rest_def)

text \<open>The leading chunk that fills a half-full buffer.\<close>

lemma fill_buffer:
  assumes "absorbed m ctx" "length m mod 64 + length d \<ge> 64"
  defines "t \<equiv> length m mod 64"
  shows "memcpy_at t (take (64 - t) d) (md5_in ctx) = rest m @ take (64 - t) d"
  using assms by (simp add: absorbed_def memcpy_at_def min_def)

lemma update_spec:
  assumes a: "absorbed m ctx" and d: "length d < 2 ^ 32"
  shows "absorbed (m @ d) (XlinkMD5Update ctx d)"
proof -
  define t where "t = length m mod 64"
  define c1 where "c1 = md5_count (of_nat (length d)) ctx"
  have inl: "length (md5_in ctx) = 64" and tail: "take t (md5_in ctx) = rest m" and "t < 64"
    using a by (simp_all add: absorbed_def t_def)
  have t: "unat (drop_bit 3 (md5_bits0 ctx) AND 0x3f) = t"
    using a by (simp add: absorbed_def count_mod_64 t_def del: of_nat_mult)
  have bits: "md5_bits0 c1 = of_nat (8 * length (m @ d))"
    "md5_bits1 c1 = of_nat (8 * length (m @ d) div 2 ^ 32)" "md5_buf c1 = md5_buf ctx" "md5_in c1 = md5_in ctx"
    using a md5_count_spec [of ctx "length m" "length d"] d by (simp_all add: absorbed_def c1_def del: of_nat_mult)
  show ?thesis
  proof (cases "t + length d < 64")
    case True
    note r = rest_append_short [of m d, folded t_def, OF True]
    have buf: "md5_buf ctx = reg_list (rfc_blocks (m @ d) rfc_init)"
      using a True whole_rest(3) [of m] by (simp add: absorbed_def rfc_blocks_rest [of m d] rfc_blocks_short t_def)
    have upd: "XlinkMD5Update ctx d = c1\<lparr>md5_in := memcpy_at t d (md5_in ctx)\<rparr>"
      using True by (auto simp: XlinkMD5Update_def Let_def t bits md5_blocks.simps [of d] simp flip: c1_def)
    have "take (t + length d) (memcpy_at t d (md5_in ctx)) = rest m @ d"
      using tail inl True whole_rest(3) [of m] by (simp add: memcpy_at_def flip: t_def)
    then show ?thesis
      using bits buf inl True r by (simp add: upd absorbed_def del: of_nat_mult)
  next
    case False
    define x where "x = (if t \<noteq> 0 then rest m @ take (64 - t) d else [])"
    define d' where "d' = (if t \<noteq> 0 then drop (64 - t) d else d)"
    define s where "s = rfc_blocks x (rfc_blocks m rfc_init)"
    define c2 where "c2 = (if t \<noteq> 0 then c1\<lparr>md5_in := x, md5_buf := XlinkMD5Transform (md5_buf c1) (words_of x)\<rparr> else c1)"
    have xl: "length x = 64 * (if t \<noteq> 0 then 1 else 0)" "rest m @ d = x @ d'"
      using False whole_rest(3) [of m] by (auto simp: x_def d'_def t_def)
    have s: "rfc_blocks (m @ d) rfc_init = rfc_blocks d' s"
      unfolding rfc_blocks_rest [of m d] xl(2) s_def by (rule rfc_blocks_append [OF xl(1)])
    have c2: "md5_buf c2 = reg_list s" "length (md5_in c2) = 64" "md5_bits0 c2 = md5_bits0 c1"
      "md5_bits1 c2 = md5_bits1 c1"
      using a bits inl xl(1) rfc_blocks_step [of x "[]" "rfc_blocks m rfc_init"]
      by (auto simp: c2_def s_def absorbed_def transform_compress rfc_blocks_short [of "[]"] simp del: of_nat_mult)
    obtain c3 where c3: "md5_blocks d' c2 = (rest d', c3)" "md5_buf c3 = reg_list (rfc_blocks d' s)"
      "length (md5_in c3) = 64" "md5_bits0 c3 = md5_bits0 c1" "md5_bits1 c3 = md5_bits1 c1"
      using md5_blocks_spec [OF c2(1,2), of d'] c2(3,4) by auto
    have "memcpy_at t (take (64 - t) d) (md5_in ctx) = rest m @ take (64 - t) d"
      using fill_buffer [OF a, of d] False by (simp add: t_def)
    then have upd: "XlinkMD5Update ctx d = c3\<lparr>md5_in := memcpy_at 0 (rest d') (md5_in c3)\<rparr>"
      using False c3(1) by (auto simp: XlinkMD5Update_def Let_def t bits c2_def x_def d'_def simp flip: c1_def)
    have "m @ d = (whole m @ x) @ d'"
      using xl(2) by (metis whole_rest(1) append_assoc)
    moreover have "length (whole m @ x) = 64 * (length m div 64 + (if t \<noteq> 0 then 1 else 0))"
      by (simp add: whole_rest(2) xl(1))
    ultimately have r: "rest (m @ d) = rest d'" "length (m @ d) mod 64 = length d' mod 64"
      using rest_drop_block by metis+
    have "length (rest d') \<le> 64"
      by (simp add: whole_rest(3) less_imp_le)
    then show ?thesis
      using bits c3 s r whole_rest(3) [of d'] take_memcpy_at_0 [of "rest d'" "md5_in c3"]
      unfolding upd absorbed_def by (simp del: of_nat_mult length_append)
  qed
qed


section \<open>The padding\<close>

lemma words_of_length [simp]: "length (words_of bs) = 16"
  by (simp add: words_of_def)

lemma length_bytes_of_word [simp]: "length (bytes_of_word w) = 4"
  by (simp add: bytes_of_word_def)

lemma reg_bytes: "concat (map bytes_of_word (reg_list (a, b, c, d))) =
    bytes_of_word a @ bytes_of_word b @ bytes_of_word c @ bytes_of_word d"
  by (simp add: reg_list_def)

lemma memcpy_at_tail: "length a = k \<Longrightarrow> length (a @ y) = n \<Longrightarrow> length x = n - k \<Longrightarrow> memcpy_at k x (a @ y) = a @ x"
  by (simp add: memcpy_at_def)

text \<open>Filling a buffer behind a known prefix.\<close>

lemma memcpy_at_prefix:
  assumes "take k buf = a" "length a = k" "k + length x \<le> length buf"
  shows "take (k + length x) (memcpy_at k x buf) = a @ x"
  using assms by (simp add: memcpy_at_def)

lemma final_spec:
  assumes a: "absorbed m ctx"
  shows "XlinkMD5Final ctx = rfc_md5 m"
proof -
  define t where "t = length m mod 64"
  define s where "s = rfc_blocks m rfc_init"
  define b0 b1 where "b0 = bytes_of_word (of_nat (8 * length m))"
    and "b1 = bytes_of_word (of_nat (8 * length m div 2 ^ 32))"
  have bits: "bytes_of_word (md5_bits0 ctx) = b0" "bytes_of_word (md5_bits1 ctx) = b1"
    and buf: "md5_buf ctx = reg_list s" and inl: "length (md5_in ctx) = 64"
    and tail: "take t (md5_in ctx) = rest m" and "t < 64"
    using a by (simp_all add: absorbed_def t_def s_def b0_def b1_def)
  have bl: "length b0 = 4" "length b1 = 4"
    by (simp_all add: b0_def b1_def)
  have t: "unat (drop_bit 3 (md5_bits0 ctx) AND 0x3f) = t"
    using a by (simp add: absorbed_def count_mod_64 t_def del: of_nat_mult)
  define x where "x = rest m @ [0x80]"
  have xl: "length x = Suc t"
    by (simp add: x_def whole_rest(3) t_def)
  obtain y where y: "(md5_in ctx)[t := 0x80] = x @ y" "length y = 63 - t"
  proof
    show "(md5_in ctx)[t := 0x80] = x @ drop (Suc t) (md5_in ctx)"
      using \<open>t < 64\<close> inl tail by (simp add: upd_conv_take_nth_drop x_def)
    show "length (drop (Suc t) (md5_in ctx)) = 63 - t"
      by (simp add: inl)
  qed
  have spec: "rfc_md5 m = concat (map bytes_of_word (reg_list
      (rfc_blocks (x @ replicate ((119 - t) mod 64) 0 @ b0 @ b1) s)))"
    by (simp add: rfc_md5_def rfc_pad_def rfc_blocks_rest [of m] x_def s_def t_def b0_def b1_def reg_bytes
        split: prod.split del: of_nat_mult)
  have app: "memcpy_at 60 b1 (memcpy_at 56 b0 (w @ z)) = w @ b0 @ b1"
    if "length w = 56" "length z = 8" for w z
    using that bl by (simp add: memcpy_at_def)
  show ?thesis
  proof (cases "t < 56")
    case True
    have p: "(119 - t) mod 64 = 55 - t"
      using True le_mod_geq [of 64 "119 - t"] by simp
    have "memcpy_at (Suc t) (replicate (63 - t - 8) 0) (x @ y) = (x @ replicate (55 - t) 0) @ drop (55 - t) y"
      using True xl by (simp add: memcpy_at_def)
    moreover have "memcpy_at 60 b1 (memcpy_at 56 b0 ((x @ replicate (55 - t) 0) @ drop (55 - t) y)) =
        (x @ replicate (55 - t) 0) @ b0 @ b1"
      using True xl y by (intro app) simp_all
    moreover have "\<not> 63 - t < 8"
      using True by simp
    ultimately have "XlinkMD5Final ctx = concat (map bytes_of_word
        (XlinkMD5Transform (reg_list s) (words_of ((x @ replicate (55 - t) 0) @ b0 @ b1))))"
      by (simp add: XlinkMD5Final_def Let_def t bits buf y(1) del: append_assoc)
    also have "XlinkMD5Transform (reg_list s) (words_of ((x @ replicate (55 - t) 0) @ b0 @ b1)) =
        reg_list (rfc_blocks (x @ replicate ((119 - t) mod 64) 0 @ b0 @ b1) s)"
      using rfc_blocks_step [of "x @ replicate (55 - t) 0 @ b0 @ b1" "[]" s] True xl bl
      by (simp add: transform_compress p rfc_blocks_short [of "[]"])
    finally show ?thesis
      by (simp add: spec)
  next
    case False
    have p: "(119 - t) mod 64 = (63 - t) + 56"
      using False \<open>t < 64\<close> by simp
    define x' where "x' = x @ replicate (63 - t) 0"
    have l': "length x' = 64"
      using xl \<open>t < 64\<close> by (simp add: x'_def)
    have m1: "memcpy_at (Suc t) (replicate (63 - t) 0) (x @ y) = x'"
      using xl y by (simp add: memcpy_at_def x'_def)
    have m2: "memcpy_at 0 (replicate 56 0) x' = replicate 56 0 @ drop 56 x'"
      using l' by (simp add: memcpy_at_def)
    have "63 - t < 8"
      using False \<open>t < 64\<close> by simp
    then have "XlinkMD5Final ctx = concat (map bytes_of_word (XlinkMD5Transform
        (XlinkMD5Transform (reg_list s) (words_of x')) (words_of (replicate 56 0 @ b0 @ b1))))"
      using False xl y app [of "replicate 56 0" "drop 56 x'"] l'
      by (simp add: XlinkMD5Final_def Let_def t bits buf m1 m2)
    also have "XlinkMD5Transform (XlinkMD5Transform (reg_list s) (words_of x')) (words_of (replicate 56 0 @ b0 @ b1)) =
        reg_list (rfc_blocks (x' @ (replicate 56 0 @ b0 @ b1) @ []) s)"
      using rfc_blocks_step [of x' "(replicate 56 0 @ b0 @ b1) @ []" s]
        rfc_blocks_step [of "replicate 56 0 @ b0 @ b1" "[]"] l' bl
      by (simp add: transform_compress rfc_blocks_short [of "[]"])
    also have "x' @ (replicate 56 0 @ b0 @ b1) @ [] = x @ replicate ((119 - t) mod 64) 0 @ b0 @ b1"
      unfolding p replicate_add by (simp add: x'_def)
    finally show ?thesis
      by (simp add: spec)
  qed
qed


lemma updates_spec:
  assumes "absorbed m ctx" "\<forall>d \<in> set ds. length d < 2 ^ 32"
  shows "absorbed (m @ concat ds) (foldl XlinkMD5Update ctx ds)"
  using assms
proof (induction ds arbitrary: m ctx)
  case (Cons d ds)
  then show ?case
    using Cons.IH [of "m @ d" "XlinkMD5Update ctx d"] update_spec [of m ctx d] by simp
qed simp

text \<open>
  C35. The incremental MD5 of the gateway library computes MD5 as RFC 1321 states it: for every way
  of cutting a message into pieces, whatever the buffer of the context held before, initialising,
  feeding the pieces one by one and finishing returns the digest of the concatenation. The unrolled
  64 lines of the transform, the partially filled block carried between calls, the 64-bit count kept
  in two words with its carry, and the one- and two-block padding are all covered.
\<close>

theorem XlinkMD5_correct:
  assumes "length (md5_in ctx) = 64" "\<forall>d \<in> set ds. length d < 2 ^ 32"
  shows "XlinkMD5Final (foldl XlinkMD5Update (XlinkMD5Init ctx) ds) = rfc_md5 (concat ds)"
  using final_spec [OF updates_spec [OF absorbed_Nil [OF assms(1)] assms(2)]] by simp

theorem XlinkMD5_correct_witness:
  "XlinkMD5Final (foldl XlinkMD5Update (XlinkMD5Init zero_md5) [[97], replicate 70 0, [98, 99]]) =
    rfc_md5 (97 # replicate 70 0 @ [98, 99])"
  using XlinkMD5_correct [of zero_md5 "[[97], replicate 70 0, [98, 99]]"] by (simp add: zero_md5_def)

lemma xlinkGetMd5_spec:
  assumes "length (md5_in ctx) = 64" "length d < 2 ^ 32" "d \<noteq> []"
  shows "xlinkGetMd5 ctx d = Some (rfc_md5 d)"
  using final_spec [OF update_spec [OF absorbed_Nil [OF assms(1)], of d]] assms
  by (simp add: xlinkGetMd5_def)

end
