(* ===== verification/XGGateway.thy ===== *)
theory XGGateway imports XGCore XGMd5 begin

text \<open>
  The public interface of the gateway library, \<^verbatim>\<open>src/XGageway.c\<close>: the life of the one core
  context, messages the user sends to devices and to the cloud, and the UDP conversations with
  devices on the local network (discovery, restart notice, access keys, removal).

  The globals are the record \<open>xg_lib\<close>; the allocation count of \<^verbatim>\<open>src/XGMem.c\<close> is kept in the
  core while there is one. A conversation over a socket of its own is a function of what the
  calls of that conversation answer and returns its result with the calls it made.
\<close>

section \<open>The life of the core\<close>

record xg_lib =
  g_ctx :: "XGCore option"
  g_host :: bytes
  g_port :: int
  g_udp_svr_port :: int
  g_udp_listen_port :: u16
  lib_memcount :: u32

definition zero_core :: XGCore where
  "zero_core = \<lparr>isInited = False, isQuit = False, isRuning = False,
     ServerTcpSocketHandle = 0, ServerUdpSocketHandle = 0, LocalTcpServerPort = 0,
     LocalUdpServerPort = 0, core_ErrorCode = EC_NO_ERROR, Host = replicate 128 0, corp = [], token = [],
     productid = [], ServerPort = 0, ConnectsHead = zero_Connect, Connects = [], ConnectTasks = [],
     ConnectTasksResult = [], ClientSendQueue = [], CloudSendQueue = [], config = None,
     memcount = 0, xlog = []\<rparr>"

text \<open>The factory clears the block before anyone looks whether there is one.\<close>

definition XGCoreFactory :: "bool \<Rightarrow> xg_lib \<Rightarrow> XGCore c_result" where
  "XGCoreFactory alloc lib =
     (if alloc then Inr (zero_core\<lparr>memcount := lib_memcount lib + 1\<rparr>) else Inl Null_Deref)"

text \<open>\<^verbatim>\<open>strcpy\<close> into an array: the string and its terminator have to fit.\<close>

definition strcpy_chk :: "bytes \<Rightarrow> bytes \<Rightarrow> bytes c_result" where
  "strcpy_chk src buf = memcpy_chk 0 (c_string src @ [0]) buf"

definition XGInit ::
  "bool \<Rightarrow> xg_listen \<Rightarrow> xg_listen \<Rightarrow> bytes option \<Rightarrow> bytes option \<Rightarrow> bytes option \<Rightarrow> XGConfig option \<Rightarrow>
   xg_lib \<Rightarrow> (int \<times> xg_lib) c_result" where
  "XGInit alloc tcp udp corp_id pid gatewayid cfg lib =
     (case (corp_id, pid, gatewayid, cfg) of
        (Some corp_id, Some pid, Some gatewayid, Some cfg) \<Rightarrow>
          if g_ctx lib \<noteq> None then Inr (-100, lib)
          else c_bind (XGCoreFactory alloc lib) (\<lambda>core.
            c_bind (strcpy_chk (g_host lib) (Host core)) (\<lambda>host.
              let core = core\<lparr>Host := host, ServerPort := g_port lib, LocalTcpServerPort := 23778,
                    config := Some cfg, corp := corp_id, productid := pid, token := gatewayid,
                    LocalUdpServerPort := g_udp_svr_port lib\<rparr>;
                  (ret, core) = XGStartCore tcp udp core
              in Inr (ret, lib\<lparr>g_ctx := Some core\<rparr>)))
      | _ \<Rightarrow> Inr (-1, lib))"

text \<open>\<open>None\<close> when the wait for the core thread does not end.\<close>

definition XGUninit :: "xg_lib \<Rightarrow> (int \<times> xg_lib) c_result option" where
  "XGUninit lib =
     (case g_ctx lib of
        None \<Rightarrow> Some (Inr (0, lib))
      | Some core \<Rightarrow> map_option (\<lambda>r. c_bind r (\<lambda>core.
          Inr (0, lib\<lparr>g_ctx := None, lib_memcount := memcount (XGFree core)\<rparr>))) (XGStopCore core))"

definition XGSetHost :: "bytes \<Rightarrow> xg_lib \<Rightarrow> (int \<times> xg_lib) c_result" where
  "XGSetHost host lib =
     (let lib = lib\<lparr>g_host := replicate 128 0\<rparr>
      in c_bind (strcpy_chk host (g_host lib)) (\<lambda>h. Inr (0, lib\<lparr>g_host := h\<rparr>)))"

definition XGDisconnect :: "u32 \<Rightarrow> xg_lib \<Rightarrow> int" where
  "XGDisconnect deviceid lib =
     (case g_ctx lib of None \<Rightarrow> -1 | Some core \<Rightarrow> if \<not> isRuning core then -2 else 0)"

section \<open>Messages to devices and to the cloud\<close>

text \<open>The bytes the three senders write in front of the payload, by index into the item.\<close>

definition write_header :: "byte \<Rightarrow> u32 \<Rightarrow> u32 \<Rightarrow> u16 \<Rightarrow> u32 \<Rightarrow> bytes \<Rightarrow> bytes" where
  "write_header type datalength peer msgid pipetype buf =
     buf[0 := XGMessage_byte 3 0 type,
         1 := UTIL_INT32_GET_BIT3 (datalength + 7), 2 := UTIL_INT32_GET_BIT2 (datalength + 7),
         3 := UTIL_INT32_GET_BIT1 (datalength + 7), 4 := UTIL_INT32_GET_BIT0 (datalength + 7),
         5 := UTIL_INT32_GET_BIT3 peer, 6 := UTIL_INT32_GET_BIT2 peer,
         7 := UTIL_INT32_GET_BIT1 peer, 8 := UTIL_INT32_GET_BIT0 peer,
         9 := UTIL_INT16_GET_BITH (ucast msgid), 10 := UTIL_INT16_GET_BITL (ucast msgid),
         11 := ucast pipetype]"

text \<open>What the three senders share; \<open>data\<close> is the caller's array, \<open>None\<close> for NULL.\<close>

definition SendPipe ::
  "byte \<Rightarrow> nat \<Rightarrow> u32 \<Rightarrow> xg_env \<Rightarrow> u32 \<Rightarrow> u16 \<Rightarrow> bytes option \<Rightarrow> u32 \<Rightarrow> u32 \<Rightarrow> XGCore \<Rightarrow> (int \<times> XGCore) c_result" where
  "SendPipe type dest peer env formid msgid data datalength pipetype core =
     (case data of
        None \<Rightarrow> Inr (-3, core)
      | Some data \<Rightarrow>
          c_bind (XGDataQueueFactory env (sint (datalength + 32)) core) (\<lambda>(item, core).
            case item of
              None \<Rightarrow> Inr (-4, core)
            | Some item \<Rightarrow>
                if length (q_data item) < 12 \<or> length data < unat datalength then Inl Out_Of_Bounds
                else c_bind (memcpy_chk 12 (take (unat datalength) data)
                       (write_header type datalength peer msgid pipetype (q_data item))) (\<lambda>bs.
                  let item = item\<lparr>q_data := bs, q_dataSize := datalength + 12, q_deviceid := formid\<rparr>;
                      (ret, core) = XGCoreSendData item dest core
                  in Inr (ret, if ret < 0 then XGDataQueueRelease item core else core))))"

definition SendPipeClient ::
  "xg_env \<Rightarrow> u32 \<Rightarrow> u32 \<Rightarrow> u16 \<Rightarrow> bytes option \<Rightarrow> u32 \<Rightarrow> u32 \<Rightarrow> XGCore \<Rightarrow> (int \<times> XGCore) c_result" where
  "SendPipeClient env formid toid = SendPipe TCP_TYPE_PIPE 0 toid env formid"

definition SendPipeCloud ::
  "xg_env \<Rightarrow> u32 \<Rightarrow> u32 \<Rightarrow> u16 \<Rightarrow> bytes option \<Rightarrow> u32 \<Rightarrow> u32 \<Rightarrow> XGCore \<Rightarrow> (int \<times> XGCore) c_result" where
  "SendPipeCloud env formid toid = SendPipe TCP_TYPE_PIPE 1 toid env formid"

definition SendPipeSyncCloud ::
  "xg_env \<Rightarrow> u32 \<Rightarrow> u16 \<Rightarrow> bytes option \<Rightarrow> u32 \<Rightarrow> u32 \<Rightarrow> XGCore \<Rightarrow> (int \<times> XGCore) c_result" where
  "SendPipeSyncCloud env formid = SendPipe TCP_TYPE_PIPE_2 1 formid env formid"

text \<open>Every entry point first asks for a context whose core thread runs.\<close>

definition with_core ::
  "xg_lib \<Rightarrow> (XGCore \<Rightarrow> (int \<times> XGCore) c_result) \<Rightarrow> (int \<times> xg_lib) c_result" where
  "with_core lib f =
     (case g_ctx lib of
        None \<Rightarrow> Inr (-1, lib)
      | Some core \<Rightarrow>
          if \<not> isRuning core then Inr (-2, lib)
          else c_bind (f core) (\<lambda>(ret, core). Inr (ret, lib\<lparr>g_ctx := Some core\<rparr>)))"

definition XGSendDataToDevice ::
  "xg_env \<Rightarrow> u32 \<Rightarrow> u32 \<Rightarrow> u16 \<Rightarrow> bytes option \<Rightarrow> u32 \<Rightarrow> u32 \<Rightarrow> xg_lib \<Rightarrow> (int \<times> xg_lib) c_result" where
  "XGSendDataToDevice env formid toid msgid data datalength pipetype lib =
     with_core lib (SendPipeClient env formid toid msgid data datalength pipetype)"

definition XGSendDataToCloud ::
  "xg_env \<Rightarrow> u32 \<Rightarrow> u32 \<Rightarrow> u16 \<Rightarrow> bytes option \<Rightarrow> u32 \<Rightarrow> u32 \<Rightarrow> xg_lib \<Rightarrow> (int \<times> xg_lib) c_result" where
  "XGSendDataToCloud env formid toid msgid data datalength pipetype lib =
     with_core lib (\<lambda>core.
       if toid = 0 then SendPipeSyncCloud env formid msgid data datalength pipetype core
       else SendPipeCloud env formid toid msgid data datalength pipetype core)"

section \<open>Datagrams from the core's UDP socket\<close>

text \<open>\<open>answer\<close> is what \<^verbatim>\<open>sendto\<close> returns.\<close>

definition XGSendUdpData :: "int \<Rightarrow> bytes \<Rightarrow> sockaddr_in \<Rightarrow> xg_lib \<Rightarrow> (int \<times> xg_lib) c_result" where
  "XGSendUdpData answer data address lib =
     with_core lib (\<lambda>core.
       if ServerUdpSocketHandle core \<le> 0 then Inr (-4, core)
       else Inr (answer, send_udp data address core))"

text \<open>
  The request the gateway sends: header, length, product, corporation and token behind their one
  byte lengths, and a tail. The block holds 16 bytes more than the fixed part and the strings.
\<close>

definition udp_request :: "byte \<Rightarrow> bytes \<Rightarrow> XGCore \<Rightarrow> bytes" where
  "udp_request cmd tail core =
     (let c = c_string (corp core); t = c_string (token core);
          n = of_nat (36 + 1 + length c + 1 + length t + length tail - 4)
      in [0x18, cmd, UTIL_INT16_GET_BITH n, UTIL_INT16_GET_BITL n]
         @ take 32 (productid core) @ of_nat (length c) # c @ of_nat (length t) # t @ tail)"

abbreviation INADDR_BROADCAST :: u32 where
  "INADDR_BROADCAST \<equiv> 0xFFFFFFFF"

text \<open>\<^verbatim>\<open>inet_addr("192.168.8.255")\<close> in network byte order on the little-endian target.\<close>

definition lan_broadcast :: u32 where
  "lan_broadcast = UTIL_INT32_SET 255 8 168 192"

definition udp_alloc :: "xg_env \<Rightarrow> XGCore \<Rightarrow> bool \<times> XGCore" where
  "udp_alloc env core =
     XGMemalloc env (int (4 + 32 + 2 + strlen (corp core) + strlen (token core) + 16)) core"

definition broadcast_request ::
  "byte \<Rightarrow> xg_env \<Rightarrow> int \<Rightarrow> u16 \<Rightarrow> XGCore \<Rightarrow> (int \<times> XGCore) c_result" where
  "broadcast_request cmd env answer port core =
     (if ServerUdpSocketHandle core \<le> 0 then Inr (-4, core)
      else case udp_alloc env core of
          (False, core) \<Rightarrow> Inr (-5, core)
        | (True, core) \<Rightarrow>
            if length (productid core) < 32 then Inl Out_Of_Bounds
            else
              let bs = udp_request cmd [] core;
                  addrto = \<lparr>sin_family = 2, sin_port = htons port, sin_addr = INADDR_BROADCAST\<rparr>;
                  core = send_udp bs addrto (send_udp bs addrto core);
                  addrto = addrto\<lparr>sin_addr := lan_broadcast\<rparr>;
                  core = send_udp bs addrto (send_udp bs addrto core)
              in Inr (answer, XGFree core))"

definition XGDiscover :: "xg_env \<Rightarrow> int \<Rightarrow> xg_lib \<Rightarrow> (int \<times> xg_lib) c_result" where
  "XGDiscover env answer lib = with_core lib (broadcast_request 0x11 env answer (g_udp_listen_port lib))"

definition XGRestartNotify :: "xg_env \<Rightarrow> int \<Rightarrow> xg_lib \<Rightarrow> (int \<times> xg_lib) c_result" where
  "XGRestartNotify env answer lib = with_core lib (broadcast_request 0x13 env answer (g_udp_listen_port lib))"

definition XGRemoveDevice ::
  "xg_env \<Rightarrow> int \<Rightarrow> sockaddr_in \<Rightarrow> u32 \<Rightarrow> xg_lib \<Rightarrow> (int \<times> xg_lib) c_result" where
  "XGRemoveDevice env answer address device lib =
     with_core lib (\<lambda>core.
       if sin_addr address = INADDR_BROADCAST then Inr (-3, core)
       else if ServerUdpSocketHandle core \<le> 0 then Inr (-5, core)
       else case udp_alloc env core of
           (False, core) \<Rightarrow> Inr (-6, core)
         | (True, core) \<Rightarrow>
             if length (productid core) < 32 then Inl Out_Of_Bounds
             else
               let bs = udp_request 0x15 [UTIL_INT32_GET_BIT3 device, UTIL_INT32_GET_BIT2 device,
                          UTIL_INT32_GET_BIT1 device, UTIL_INT32_GET_BIT0 device] core
               in Inr (answer, XGFree (send_udp bs address (send_udp bs address core))))"

section \<open>Conversations over a socket of their own\<close>

text \<open>
  What the calls answer: the descriptor, the clock, what \<^verbatim>\<open>sendto\<close> returns (only the last result
  is looked at), \<^verbatim>\<open>select\<close>, whether the socket is in the set, the received datagram.
\<close>

record udp_session =
  us_socket :: int
  us_now :: u64
  us_sendto :: int
  us_select :: int
  us_isset :: bool
  us_recv :: "int \<times> bytes"

definition close_udp :: "int \<Rightarrow> xg_event list \<Rightarrow> xg_event list" where
  "close_udp sock evs = evs @ [Ev_Shutdown sock, Ev_Close sock]"

definition session_msgid :: "udp_session \<Rightarrow> byte" where
  "session_msgid us = ucast (us_now us mod 126)"

text \<open>
  The skeleton the three conversations share. \<open>request\<close> is sent \<open>copies\<close> times, the answer is
  received into a cleared buffer of \<open>room\<close> bytes and has to have \<open>minlen\<close> bytes, version 4, our
  message number and \<open>cmd\<close>; \<open>decode\<close> reads the rest from the buffer; \<open>otherwise\<close> is returned
  when \<^verbatim>\<open>select\<close> reported another descriptor.
\<close>

definition udp_query ::
  "nat \<Rightarrow> nat \<Rightarrow> int \<Rightarrow> byte \<Rightarrow> int \<Rightarrow> (bytes \<Rightarrow> int \<Rightarrow> int c_result) \<Rightarrow> bytes c_result \<Rightarrow>
   sockaddr_in \<Rightarrow> udp_session \<Rightarrow> xg_lib \<Rightarrow> (int \<times> xg_event list) c_result" where
  "udp_query copies room minlen cmd otherwise decode request addr us lib =
     (case g_ctx lib of
        None \<Rightarrow> Inr (-1, [])
      | Some core \<Rightarrow>
          if \<not> isRuning core then Inr (-2, [])
          else
            let sock = us_socket us
            in if sock \<le> 0 then Inr (-3, [])
               else if sin_addr addr = INADDR_BROADCAST then Inr (-4, close_udp sock [])
               else c_bind request (\<lambda>bs.
                 let evs = replicate copies (Ev_SendTo sock bs addr)
                 in if us_sendto us \<le> 0 then Inr (-5, close_udp sock evs)
                    else if \<not> fd_ok sock then Inl Out_Of_Bounds
                    else if us_select us < 0 then Inr (-6, close_udp sock evs)
                    else if us_select us = 0 then Inr (-7, close_udp sock evs)
                    else if \<not> us_isset us then Inr (otherwise, close_udp sock evs)
                    else
                      let (n, d) = us_recv us; buffer = memcpy_at 0 d (replicate room 0)
                      in if n \<le> 0 then Inr (-8, close_udp sock evs)
                         else if n < minlen then Inr (-9, close_udp sock evs)
                         else if buffer ! 0 \<noteq> 4 then Inr (-10, close_udp sock evs)
                         else if buffer ! 3 \<noteq> session_msgid us then Inr (-11, close_udp sock evs)
                         else if buffer ! 6 \<noteq> cmd then Inr (-12, close_udp sock evs)
                         else c_bind (decode buffer n) (\<lambda>ret. Inr (ret, close_udp sock evs))))"

text \<open>
  The scan answer: behind the MAC and fixed fields lies a device name behind its length, then the
  access key. The buffer has 256 bytes; the index comes from two bytes of the datagram.
\<close>

definition access_key_answer :: "bytes \<Rightarrow> int \<Rightarrow> int c_result" where
  "access_key_answer buffer n =
     (let index = 10 + unat (buffer ! 10) + 2 + 32 + 7 + 1 + 1 + 2
      in if length buffer \<le> index then Inl Out_Of_Bounds
         else
           let index = index + unat (buffer ! index) + 1
           in if int index + 1 < n
              then if length buffer \<le> index + 3 then Inl Out_Of_Bounds
                   else Inr (sint (UTIL_INT32_SET (buffer ! index) (buffer ! (index + 1))
                          (buffer ! (index + 2)) (buffer ! (index + 3))))
              else Inr (-13))"

definition XGGetAccessKey ::
  "sockaddr_in \<Rightarrow> bytes \<Rightarrow> udp_session \<Rightarrow> xg_lib \<Rightarrow> (int \<times> xg_event list) c_result" where
  "XGGetAccessKey addr product us lib =
     udp_query 1 256 43 1 (-14) access_key_answer
       (if length product < 32 then Inl Out_Of_Bounds
        else Inr ([4, 0, 0, session_msgid us, 0, 38, 1, 0, 4, 0, 0, 2] @ take 32 product))
       addr us lib"

definition XGSetAccessKey ::
  "u32 \<Rightarrow> sockaddr_in \<Rightarrow> udp_session \<Rightarrow> xg_lib \<Rightarrow> (int \<times> xg_event list) c_result" where
  "XGSetAccessKey accesskey addr us lib =
     udp_query 1 32 11 11 (-13) (\<lambda>buffer n. Inr (if buffer ! 10 = 0 then 0 else -14))
       (Inr [4, 1, 0, session_msgid us, 0, 11, 11, 0, 0, 0, 0, 0, 0,
             UTIL_INT32_GET_BIT3 accesskey, UTIL_INT32_GET_BIT2 accesskey,
             UTIL_INT32_GET_BIT1 accesskey, UTIL_INT32_GET_BIT0 accesskey])
       addr us lib"

text \<open>
  The key travels as the MD5 of its little-endian bytes; \<open>ctx\<close> is the uninitialised context. The
  digest is written before the fields in front of it, so the message is 27 bytes and a zero.
\<close>

definition sub_key_answer :: "bytes \<Rightarrow> int \<Rightarrow> int c_result" where
  "sub_key_answer buffer n = Inr
     (if buffer ! 10 = 0
      then sint (UTIL_INT32_SET (buffer ! 11) (buffer ! 12) (buffer ! 13) (buffer ! 14)) else -14)"

definition sub_key_digest :: "XGMD5_CTX \<Rightarrow> u32 \<Rightarrow> bytes" where
  "sub_key_digest ctx accesskey =
     (case xlinkGetMd5 ctx [UTIL_INT32_GET_BIT0 accesskey, UTIL_INT32_GET_BIT1 accesskey,
        UTIL_INT32_GET_BIT2 accesskey, UTIL_INT32_GET_BIT3 accesskey] of
        None \<Rightarrow> replicate 16 0 | Some d \<Rightarrow> d)"

definition XGGetSubKey ::
  "XGMD5_CTX \<Rightarrow> u32 \<Rightarrow> sockaddr_in \<Rightarrow> udp_session \<Rightarrow> xg_lib \<Rightarrow> (int \<times> xg_event list) c_result" where
  "XGGetSubKey ctx accesskey addr us lib =
     udp_query 2 64 10 7 (-13) sub_key_answer
       (Inr ([4, 1, 0, session_msgid us, 0, 22, 7, 0, 4, 0, 0] @ sub_key_digest ctx accesskey @ [0]))
       addr us lib"

section \<open>What the senders build\<close>

definition pipe_item :: "byte \<Rightarrow> u32 \<Rightarrow> u32 \<Rightarrow> u16 \<Rightarrow> u32 \<Rightarrow> bytes \<Rightarrow> XGQueue" where
  "pipe_item type peer formid msgid pipetype data =
     \<lparr>q_deviceid = formid, q_dataSize = of_nat (length data + 12),
      q_data = pipe_frame (XGMessage_byte 3 0 type) peer msgid (ucast pipetype) data @ replicate 20 0\<rparr>"

lemma pipe_item_bytes:
  assumes "length data + 12 < 2 ^ 32"
  shows "item_bytes (pipe_item type peer formid msgid pipetype data) =
    pipe_frame (XGMessage_byte 3 0 type) peer msgid (ucast pipetype) data"
  using assms by (simp add: item_bytes_def pipe_item_def unat_of_nat_u32 del: of_nat_add)

lemma write_header_frame:
  "memcpy_at 12 data (write_header type (of_nat (length data)) peer msgid pipetype (replicate (length data + 32) 0)) =
    pipe_frame (XGMessage_byte 3 0 type) peer msgid (ucast pipetype) data @ replicate 20 0"
proof -
  have r: "replicate (length data + 32) (0 :: byte) = replicate 12 0 @ replicate (length data + 20) 0"
    by (simp flip: replicate_add)
  have "write_header type n peer msgid pipetype (replicate 12 0 @ xs) =
      XGMessage_byte 3 0 type # [UTIL_INT32_GET_BIT3 (n + 7), UTIL_INT32_GET_BIT2 (n + 7),
       UTIL_INT32_GET_BIT1 (n + 7), UTIL_INT32_GET_BIT0 (n + 7),
       UTIL_INT32_GET_BIT3 peer, UTIL_INT32_GET_BIT2 peer, UTIL_INT32_GET_BIT1 peer,
       UTIL_INT32_GET_BIT0 peer, UTIL_INT16_GET_BITH (ucast msgid), UTIL_INT16_GET_BITL (ucast msgid),
       ucast pipetype] @ xs" for n xs
    by (simp add: write_header_def eval_nat_numeral)
  note h = this
  show ?thesis
    unfolding r h
    by (simp add: memcpy_at_def pipe_frame_def Let_def add.commute [of 7] numeral_eq_Suc
        flip: replicate_add replicate_Suc del: replicate_Suc)
qed

lemma SendPipe_eq:
  assumes "length data + 45 \<le> 2 ^ 31" "env_malloc env (12 + int (length data + 32))" "dest \<le> 1"
  shows "SendPipe type dest peer env formid msgid (Some data) (of_nat (length data)) pipetype core =
    Inr (XGCoreSendData (pipe_item type peer formid msgid pipetype data) dest
      (core\<lparr>memcount := memcount core + 1\<rparr>))"
proof -
  have u: "unat (of_nat (length data) :: u32) = length data"
    using assms(1) by (intro unat_of_nat_u32) simp
  have "(of_nat (length data) + 32 :: u32) = of_nat (length data + 32)"
    by simp
  moreover have "sint (of_nat (length data + 32) :: u32) = int (length data + 32)"
    using assms(1) by (subst sint_u32_small) (simp_all add: unat_of_nat_u32 del: of_nat_add)
  ultimately have s: "sint (of_nat (length data) + 32 :: u32) = int (length data + 32)"
    by simp
  have l: "length (write_header type n peer msgid pipetype b) = length b" for n b
    by (simp add: write_header_def)
  have d: "dest = 0 \<or> dest = 1"
    using assms(3) by auto
  have z: "(of_nat (length data) + 12 :: u32) = of_nat (length data + 12)"
    by simp
  show ?thesis
    using assms(2) d
    by (auto simp: SendPipe_def XGDataQueueFactory_def XGMemalloc_def s u l memcpy_chk_def
        write_header_frame pipe_item_def z XGCoreSendData_def simp del: of_nat_add)
qed

text \<open>
  A message from the user reaches its device. With a running core, memory, the lock and a
  device that is logged in, the call returns 0, and when the core next empties the user queues the
  item ends up in the send queue of the first connection that speaks for the device, behind what
  was queued before for that connection, and what goes on the wire is the pass-through frame with
  the receiver, the message number, the flag and the payload, byte for byte.
\<close>

theorem XGSendDataToDevice_delivered:
  assumes "g_ctx lib = Some core" "isRuning core"
    and "length data + 45 \<le> 2 ^ 31" "env_malloc env (12 + int (length data + 32))" "env_trylock env"
    and "find_conn formid (Connects core) = Some i"
    and "cl_status (client (Connects core ! i)) = E_CLI_LOGINED"
  shows "\<exists>core'. XGSendDataToDevice env formid toid msgid (Some data) (of_nat (length data)) pipetype lib =
      Inr (0, lib\<lparr>g_ctx := Some core'\<rparr>)
    \<and> cl_sendQueue (client (Connects (XGPSendQueeu env core') ! i)) =
        cl_sendQueue (client (Connects core ! i))
        @ filter (\<lambda>it. client_target core (q_deviceid it) = Some i) (ClientSendQueue core)
        @ [pipe_item TCP_TYPE_PIPE toid formid msgid pipetype data]
    \<and> item_bytes (pipe_item TCP_TYPE_PIPE toid formid msgid pipetype data) =
        pipe_frame (XGMessage_byte 3 0 TCP_TYPE_PIPE) toid msgid (ucast pipetype) data
    \<and> memcount core' = memcount core + 1"
proof -
  let ?it = "pipe_item TCP_TYPE_PIPE toid formid msgid pipetype data"
  let ?core = "core\<lparr>memcount := memcount core + 1, ClientSendQueue := ClientSendQueue core @ [?it]\<rparr>"
  have call: "XGSendDataToDevice env formid toid msgid (Some data) (of_nat (length data)) pipetype lib =
      Inr (0, lib\<lparr>g_ctx := Some ?core\<rparr>)"
    using assms(1,2) by (simp add: XGSendDataToDevice_def with_core_def SendPipeClient_def
        SendPipe_eq [OF assms(3,4)] XGCoreSendData_def)
  have t: "client_target (core\<lparr>memcount := memcount core + 1, ClientSendQueue := []\<rparr>) d = client_target core d" for d
    by (simp add: client_target_def cong: option.case_cong)
  have "client_target core (q_deviceid ?it) = Some i"
    using assms(6,7) by (simp add: client_target_def pipe_item_def)
  then have "cl_sendQueue (client (Connects (XGPSendQueeu env ?core) ! i)) =
      cl_sendQueue (client (Connects core ! i))
      @ filter (\<lambda>it. client_target core (q_deviceid it) = Some i) (ClientSendQueue core) @ [?it]"
    using assms(5)
    by (simp add: XGPSendQueeu_def Let_def send_loop_queues send_loop_cloud_frame
        to_device.send_loop_delivers t)
  moreover have "item_bytes ?it = pipe_frame (XGMessage_byte 3 0 TCP_TYPE_PIPE) toid msgid (ucast pipetype) data"
    using assms(3) by (intro pipe_item_bytes) simp
  ultimately show ?thesis
    using call by (intro exI [of _ ?core]) simp
qed


definition sample_lib :: "XGCore \<Rightarrow> xg_lib" where
  "sample_lib core = \<lparr>g_ctx = Some core, g_host = replicate 128 0, g_port = 23778, g_udp_svr_port = 26637,
     g_udp_listen_port = 5987, lib_memcount = 0\<rparr>"

definition logged_core :: XGCore where
  "logged_core = upd_client 0 (\<lambda>c. c\<lparr>cl_status := E_CLI_LOGINED\<rparr>) (sample_core [] [])"

lemma logged_core_simps [simp]:
  "isRuning logged_core" "find_conn 7 (Connects logged_core) = Some 0" "memcount logged_core = 1"
  "cl_status (client (Connects logged_core ! 0)) = E_CLI_LOGINED" "ClientSendQueue logged_core = []"
  "cl_sendQueue (client (Connects logged_core ! 0)) = []"
  by (simp_all add: logged_core_def upd_defs sample_core_def sample_conn_def zero_Connect_def)

theorem XGSendDataToDevice_delivered_witness:
  "\<exists>core'. XGSendDataToDevice sample_env 7 9 1 (Some [1, 2, 3]) 3 0 (sample_lib logged_core) =
      Inr (0, (sample_lib logged_core)\<lparr>g_ctx := Some core'\<rparr>)
    \<and> cl_sendQueue (client (Connects (XGPSendQueeu sample_env core') ! 0)) =
        [pipe_item TCP_TYPE_PIPE 9 7 1 0 [1, 2, 3]]
    \<and> item_bytes (pipe_item TCP_TYPE_PIPE 9 7 1 0 [1, 2, 3]) =
        pipe_frame (XGMessage_byte 3 0 TCP_TYPE_PIPE) 9 1 0 [1, 2, 3]
    \<and> memcount core' = 2"
  using XGSendDataToDevice_delivered [of "sample_lib logged_core" logged_core "[1, 2, 3]" sample_env 7 0 9 1 0]
  by (simp add: sample_lib_def sample_env_def)

text \<open>
  To the cloud: receiver 0 stands for all subscribers and becomes a sync message from the device
  itself, any other receiver a pass-through message.
\<close>

lemma XGSendDataToCloud_queues:
  assumes "g_ctx lib = Some core" "isRuning core"
    and "length data + 45 \<le> 2 ^ 31" "env_malloc env (12 + int (length data + 32))"
  shows "XGSendDataToCloud env formid toid msgid (Some data) (of_nat (length data)) pipetype lib =
    Inr (0, lib\<lparr>g_ctx := Some (core\<lparr>memcount := memcount core + 1,
      CloudSendQueue := CloudSendQueue core
        @ [if toid = 0 then pipe_item TCP_TYPE_PIPE_2 formid formid msgid pipetype data
           else pipe_item TCP_TYPE_PIPE toid formid msgid pipetype data]\<rparr>)\<rparr>)"
  using assms(1,2) by (simp add: XGSendDataToCloud_def with_core_def SendPipeCloud_def SendPipeSyncCloud_def
      SendPipe_eq [OF assms(3,4)] XGCoreSendData_def)

section \<open>The life of the context\<close>

text \<open>The host name fits into its array with its terminator.\<close>

definition host_ok :: "xg_lib \<Rightarrow> bool" where
  "host_ok lib \<longleftrightarrow> length (g_host lib) = 128 \<and> 0 \<in> set (g_host lib)"

lemma c_string_less: "0 \<in> set bs \<Longrightarrow> length (c_string bs) < length bs"
  by (induction bs) (auto simp: c_string_def)

lemma XGSetHost_spec:
  "(XGSetHost host lib = Inl Out_Of_Bounds) = (128 \<le> length (c_string host))"
  "XGSetHost host lib = Inr (r, lib') \<Longrightarrow> host_ok lib'"
  by (auto simp: XGSetHost_def Let_def strcpy_chk_def memcpy_chk_def host_ok_def memcpy_at_def
      split: if_splits)

lemma c_string_terminated: "c_string (c_string x @ 0 # y) = c_string x"
  by (induction x) (auto simp: c_string_def)

text \<open>
  The life of the one context. While the host name is terminated inside its array, which
  \<^verbatim>\<open>XGSetHost\<close> keeps for every name it survives, \<^verbatim>\<open>XGInit\<close> with memory never faults and the core
  gets the name and the callbacks. A start that fails (no TCP port) keeps its context: every later
  call answers -100 until \<^verbatim>\<open>XGUninit\<close>, which gives the context back and its memory with it.
\<close>

theorem XGInit_lifecycle:
  assumes "host_ok lib" "g_ctx lib = None"
  shows "\<exists>core. XGInit True tcp udp (Some c) (Some p) (Some t) (Some cfg) lib =
      Inr (if 0 < XGCreateTcpServer tcp then 0 else 2, lib\<lparr>g_ctx := Some core\<rparr>)
    \<and> config core = Some cfg \<and> c_string (Host core) = c_string (g_host lib)
    \<and> XGInit alloc tcp' udp' (Some c') (Some p') (Some t') (Some cfg') (lib\<lparr>g_ctx := Some core\<rparr>) =
        Inr (-100, lib\<lparr>g_ctx := Some core\<rparr>)
    \<and> XGUninit (lib\<lparr>g_ctx := Some core\<rparr>) = Some (Inr (0, lib))"
proof -
  have fits: "Suc (length (c_string (g_host lib))) \<le> 128"
    using assms(1) c_string_less [of "g_host lib"] by (simp add: host_ok_def)
  define core0 where "core0 = zero_core\<lparr>memcount := lib_memcount lib + 1,
    Host := memcpy_at 0 (c_string (g_host lib) @ [0]) (replicate 128 0), ServerPort := g_port lib,
    LocalTcpServerPort := 23778, config := Some cfg, corp := c, productid := p, token := t,
    LocalUdpServerPort := g_udp_svr_port lib\<rparr>"
  define core where "core = snd (XGStartCore tcp udp core0)"
  have c0: "\<not> isInited core0" "config core0 = Some cfg" "c_string (Host core0) = c_string (g_host lib)"
    "\<not> isRuning core0" "Connects core0 = []" "memcount core0 = lib_memcount lib + 1"
    by (simp_all add: core0_def zero_core_def memcpy_at_def c_string_terminated)
  have st: "XGStartCore tcp udp core0 = (if 0 < XGCreateTcpServer tcp then 0 else 2, core)"
    using c0(1) by (simp add: core_def XGStartCore_def Let_def)
  have c: "config core = Some cfg" "c_string (Host core) = c_string (g_host lib)"
    "\<not> isRuning core" "Connects core = []" "memcount core = lib_memcount lib + 1"
    using c0 by (simp_all add: core_def XGStartCore_def Let_def)
  have "XGInit True tcp udp (Some c) (Some p) (Some t) (Some cfg) lib =
      Inr (if 0 < XGCreateTcpServer tcp then 0 else 2, lib\<lparr>g_ctx := Some core\<rparr>)"
    using assms(2) fits st
    by (simp add: XGInit_def XGCoreFactory_def strcpy_chk_def memcpy_chk_def core0_def Let_def zero_core_def)
  moreover have "XGUninit (lib\<lparr>g_ctx := Some core\<rparr>) = Some (Inr (0, lib))"
    using c assms(2) by (simp add: XGUninit_def XGStopCore_def XGFree_def)
  ultimately show ?thesis
    using c by (intro exI [of _ core]) (simp add: XGInit_def)
qed

theorem XGInit_lifecycle_witness:
  "\<exists>core. XGInit True \<lparr>li_socket = 3, li_bind = -1, li_listen = 0\<rparr> \<lparr>li_socket = 4, li_bind = 0, li_listen = 0\<rparr>
      (Some []) (Some []) (Some []) (Some sample_config) ((sample_lib zero_core)\<lparr>g_ctx := None\<rparr>) =
      Inr (2, (sample_lib zero_core)\<lparr>g_ctx := Some core\<rparr>)
    \<and> XGUninit ((sample_lib zero_core)\<lparr>g_ctx := Some core\<rparr>) =
        Some (Inr (0, (sample_lib zero_core)\<lparr>g_ctx := None\<rparr>))"
proof -
  let ?lib = "(sample_lib zero_core)\<lparr>g_ctx := None\<rparr>"
  have "host_ok ?lib" "g_ctx ?lib = None"
    "XGCreateTcpServer \<lparr>li_socket = 3, li_bind = -1, li_listen = 0\<rparr> = -1"
    by (simp_all add: host_ok_def sample_lib_def XGCreateTcpServer_def)
  then show ?thesis
    using XGInit_lifecycle [of ?lib "\<lparr>li_socket = 3, li_bind = -1, li_listen = 0\<rparr>"
      "\<lparr>li_socket = 4, li_bind = 0, li_listen = 0\<rparr>" "[]" "[]" "[]" sample_config]
    by fastforce
qed

section \<open>Conversations\<close>

definition opened :: "xg_lib \<Rightarrow> udp_session \<Rightarrow> bool" where
  "opened lib us \<longleftrightarrow> (case g_ctx lib of None \<Rightarrow> False | Some core \<Rightarrow> isRuning core) \<and> us_socket us > 0"

text \<open>A conversation that opened a socket shuts and closes it exactly once, as the last thing it does.\<close>

definition tidy :: "int \<Rightarrow> sockaddr_in \<Rightarrow> xg_event list \<Rightarrow> bool" where
  "tidy sock addr evs \<longleftrightarrow>
     (\<exists>k bs. evs = replicate k (Ev_SendTo sock bs addr) @ [Ev_Shutdown sock, Ev_Close sock])"

lemma tidy_close [simp]: "tidy sock addr (close_udp sock (replicate k (Ev_SendTo sock bs addr)))"
  unfolding tidy_def close_udp_def by blast

lemma tidy_close_Nil [simp]: "tidy sock addr (close_udp sock [])"
  using tidy_close [of sock addr 0] by simp

lemma udp_query_tidy:
  assumes "udp_query copies room minlen cmd other decode request addr us lib = Inr (r, evs)"
  shows "if opened lib us then tidy (us_socket us) addr evs else evs = [] \<and> r \<in> {-1, -2, -3}"
  using assms
  by (auto simp: udp_query_def Let_def split_beta opened_def split: option.splits if_splits)

text \<open>
  No conversation leaks its socket. On every path through reading the access key, setting it
  and reading the sub key (wrong address, failed send, time-out, short, foreign or wrong answer,
  success), a socket that was opened is shut down and closed exactly once, after the datagrams sent
  to the device and as the last thing the call does; without a socket nothing is touched and the
  result says why.
\<close>

theorem conversations_tidy:
  assumes "q \<in> {XGGetAccessKey addr product us lib, XGSetAccessKey key addr us lib, XGGetSubKey ctx key addr us lib}"
    and "q = Inr (r, evs)"
  shows "if opened lib us then tidy (us_socket us) addr evs else evs = [] \<and> r \<in> {-1, -2, -3}"
proof -
  obtain copies room minlen cmd other decode request
    where "udp_query copies room minlen cmd other decode request addr us lib = Inr (r, evs)"
    using assms unfolding XGGetAccessKey_def XGSetAccessKey_def XGGetSubKey_def by blast
  then show ?thesis
    by (rule udp_query_tidy)
qed

definition sample_session :: "bytes \<Rightarrow> udp_session" where
  "sample_session d = \<lparr>us_socket = 9, us_now = 5, us_sendto = 28, us_select = 1, us_isset = True,
     us_recv = (int (length d), d)\<rparr>"

definition sample_addr :: sockaddr_in where
  "sample_addr = \<lparr>sin_family = 2, sin_port = 5987, sin_addr = 7\<rparr>"

lemma sample_session_simps [simp]:
  "us_socket (sample_session d) = 9" "us_sendto (sample_session d) = 28" "us_select (sample_session d) = 1"
  "us_isset (sample_session d)" "us_recv (sample_session d) = (int (length d), d)"
  "session_msgid (sample_session d) = 5" "fd_ok 9" "sin_addr sample_addr = 7"
  "g_ctx (sample_lib core) = Some core"
  by (simp_all add: sample_session_def sample_addr_def session_msgid_def fd_ok_def sample_lib_def)

theorem conversations_tidy_witness:
  "tidy 9 sample_addr [Ev_SendTo 9 [4, 1, 0, 5, 0, 11, 11, 0, 0, 0, 0, 0, 0, 0, 0, 0, 3] sample_addr, Ev_Shutdown 9, Ev_Close 9]"
proof -
  have "XGSetAccessKey 3 sample_addr (sample_session [4, 0, 0, 5, 0, 6, 11, 0, 0, 0, 0]) (sample_lib logged_core) =
    Inr (0, [Ev_SendTo 9 [4, 1, 0, 5, 0, 11, 11, 0, 0, 0, 0, 0, 0, 0, 0, 0, 3] sample_addr, Ev_Shutdown 9, Ev_Close 9])"
    by (simp add: XGSetAccessKey_def udp_query_def Let_def memcpy_at_def close_udp_def UTIL_INT32_GET_alt)
  then show ?thesis
    using conversations_tidy [of "XGSetAccessKey 3 sample_addr (sample_session [4, 0, 0, 5, 0, 6, 11, 0, 0, 0, 0]) (sample_lib logged_core)"
        sample_addr "[]" "sample_session [4, 0, 0, 5, 0, 6, 11, 0, 0, 0, 0]" "sample_lib logged_core" 3 zero_md5]
    by (simp add: opened_def)
qed

text \<open>
  What a device can make the reader of access keys do. For an answer that is long enough and
  carries the version, our message number and the command: the call reads outside its 256-byte
  buffer exactly when the two length bytes of the answer lead there, and otherwise returns the four
  bytes behind the device name as the key, or -13 when the answer ends before them.
\<close>

theorem XGGetAccessKey_bounds:
  assumes "opened lib us" "sin_addr addr \<noteq> INADDR_BROADCAST" "32 \<le> length product" "us_sendto us > 0"
    and "fd_ok (us_socket us)" "us_select us > 0" "us_isset us" "us_recv us = (int (length d), d)"
    and "43 \<le> length d" "length d \<le> 256" "d ! 0 = 4" "d ! 3 = session_msgid us" "d ! 6 = 1"
  shows "let buffer = d @ replicate (256 - length d) 0; name = 55 + unat (d ! 10);
      key = name + 1 + unat (buffer ! name); q = XGGetAccessKey addr product us lib
    in if 256 \<le> name \<or> key + 1 < length d \<and> 256 \<le> key + 3 then q = Inl Out_Of_Bounds
       else \<exists>evs. q = Inr (if key + 1 < length d
          then sint (UTIL_INT32_SET (buffer ! key) (buffer ! (key + 1)) (buffer ! (key + 2)) (buffer ! (key + 3)))
          else -13, evs)"
proof -
  define buffer where "buffer = d @ replicate (256 - length d) 0"
  obtain core where core: "g_ctx lib = Some core" "isRuning core" "\<not> us_socket us \<le> 0"
    using assms(1) by (auto simp: opened_def split: option.splits)
  have b: "memcpy_at 0 d (replicate 256 0) = buffer" "length buffer = 256"
    using assms(10) by (simp_all add: memcpy_at_def buffer_def)
  have n: "buffer ! 0 = 4" "buffer ! 3 = session_msgid us" "buffer ! 6 = 1" "buffer ! 10 = d ! 10"
    using assms(9,11-13) by (auto simp: buffer_def nth_append)
  have "0 < length d" "\<not> int (length d) < 43"
    using assms(9) by linarith+
  then have q: "XGGetAccessKey addr product us lib =
      c_bind (access_key_answer buffer (int (length d))) (\<lambda>ret. Inr (ret, close_udp (us_socket us)
        [Ev_SendTo (us_socket us) ([4, 0, 0, session_msgid us, 0, 38, 1, 0, 4, 0, 0, 2] @ take 32 product) addr]))"
    using assms(2-8) core n by (simp add: XGGetAccessKey_def udp_query_def Let_def b)
  define name where "name = 55 + unat (d ! 10)"
  define key where "key = name + 1 + unat (buffer ! name)"
  have k: "10 + unat (d ! 10) + 2 + 32 + 7 + 1 + 1 + 2 = name" "name + unat (buffer ! name) + 1 = key"
    by (simp_all add: name_def key_def)
  show ?thesis
    unfolding q access_key_answer_def Let_def b n(4) k
    unfolding buffer_def [symmetric] name_def [symmetric] key_def [symmetric]
    by auto
qed

definition hostile_answer :: bytes where
  "hostile_answer = [4, 0, 0, 5, 0, 0, 1, 0, 0, 0, 220] @ replicate 40 0"

lemma hostile_answer_simps:
  "length hostile_answer = 51" "hostile_answer ! 0 = 4" "hostile_answer ! 3 = 5" "hostile_answer ! 6 = 1"
  "hostile_answer ! 10 = 220"
  by (simp_all add: hostile_answer_def)

theorem XGGetAccessKey_bounds_witness:
  "XGGetAccessKey sample_addr (replicate 32 0) (sample_session hostile_answer) (sample_lib logged_core) =
    Inl Out_Of_Bounds"
  using XGGetAccessKey_bounds [of "sample_lib logged_core" "sample_session hostile_answer"
      sample_addr "replicate 32 0" hostile_answer]
  by (simp add: opened_def Let_def hostile_answer_simps)

text \<open>
  The sub key. The request carries the MD5 digest (as RFC 1321 defines it) of the access key
  in little-endian order behind eleven header bytes, sent twice; an answer with status 0 yields the
  big-endian word behind the status as the key, any other status -14.
\<close>

theorem XGGetSubKey_request:
  assumes "opened lib us" "sin_addr addr \<noteq> INADDR_BROADCAST" "us_sendto us > 0"
    and "fd_ok (us_socket us)" "us_select us > 0" "us_isset us" "us_recv us = (int (length d), d)"
    and "15 \<le> length d" "length d \<le> 64" "d ! 0 = 4" "d ! 3 = session_msgid us" "d ! 6 = 7"
    and "length (md5_in ctx) = 64"
  shows "XGGetSubKey ctx key addr us lib =
    Inr (if d ! 10 = 0 then sint (UTIL_INT32_SET (d ! 11) (d ! 12) (d ! 13) (d ! 14)) else -14,
      replicate 2 (Ev_SendTo (us_socket us)
        ([4, 1, 0, session_msgid us, 0, 22, 7, 0, 4, 0, 0] @ rfc_md5 (bytes_of_word key) @ [0]) addr)
      @ [Ev_Shutdown (us_socket us), Ev_Close (us_socket us)])"
proof -
  obtain core where core: "g_ctx lib = Some core" "isRuning core" "\<not> us_socket us \<le> 0"
    using assms(1) by (auto simp: opened_def split: option.splits)
  have len: "0 < length d" "\<not> int (length d) < 10"
    using assms(8) by linarith+
  have n: "memcpy_at 0 d (replicate 64 0) ! k = d ! k" if "k < 15" for k
    using that assms(8,9) by (simp add: memcpy_at_def nth_append)
  have digest: "sub_key_digest ctx key = rfc_md5 (bytes_of_word key)"
    using xlinkGetMd5_spec [of ctx "bytes_of_word key"] assms(13)
    by (simp add: sub_key_digest_def bytes_of_word_def)
  show ?thesis
    using assms(2-7,10-12) core len
    by (simp add: XGGetSubKey_def udp_query_def Let_def n digest sub_key_answer_def close_udp_def)
qed

theorem XGGetSubKey_request_witness:
  "XGGetSubKey zero_md5 258 sample_addr (sample_session ([4, 0, 0, 5, 0, 0, 7, 0, 0, 0, 0, 0, 0, 1, 2])) (sample_lib logged_core) =
    Inr (258, replicate 2 (Ev_SendTo 9
        ([4, 1, 0, 5, 0, 22, 7, 0, 4, 0, 0] @ rfc_md5 (bytes_of_word 258) @ [0]) sample_addr)
      @ [Ev_Shutdown 9, Ev_Close 9])"
proof -
  have "sint (UTIL_INT32_SET 0 0 1 2) = 258"
    by (simp add: UTIL_INT32_SET_def push_bit_eq_mult)
  then show ?thesis
    using XGGetSubKey_request [of "sample_lib logged_core"
        "sample_session ([4, 0, 0, 5, 0, 0, 7, 0, 0, 0, 0, 0, 0, 1, 2])" sample_addr
        "[4, 0, 0, 5, 0, 0, 7, 0, 0, 0, 0, 0, 0, 1, 2]" zero_md5 258]
    by (simp add: opened_def zero_md5_def)
qed

end
