(* ===== verification/Tea.thy ===== *)
theory Tea imports Prelude begin

text \<open>
  The block cipher of the cloud client's local messages, \<^verbatim>\<open>xlink/tea.c\<close>, with the byte order
  helpers of \<^verbatim>\<open>xlink/sdkDef.c\<close>. Signed arithmetic is two's complement on 32 bits, \<^verbatim>\<open>>>\<close> on a
  signed operand is arithmetic, and the target is little endian, as in the rest of the library.
\<close>

section \<open>The code\<close>

definition BigLittleSwap32 :: "u32 \<Rightarrow> u32" where
  "BigLittleSwap32 A = drop_bit 24 (A AND 0xFF000000) OR drop_bit 8 (A AND 0x00FF0000)
     OR push_bit 8 (A AND 0x0000FF00) OR push_bit 24 (A AND 0x000000FF)"

definition NShtonlInt32 :: "u32 \<Rightarrow> u32" where
  "NShtonlInt32 s = BigLittleSwap32 s"

definition NShtonlInt16 :: "u16 \<Rightarrow> u16" where
  "NShtonlInt16 s = drop_bit 8 (s AND 0xFF00) OR push_bit 8 (s AND 0x00FF)"

definition HexStringBuf :: bytes where
  "HexStringBuf = map of_char ''0123456789ABCDEF''"

definition UtilHexToString :: "bytes \<Rightarrow> bytes" where
  "UtilHexToString hexBuffer =
     concat (map (\<lambda>h. [HexStringBuf ! unat (drop_bit 4 (h AND 0xF0)), HexStringBuf ! unat (h AND 0x0F)])
       hexBuffer)"

definition hex_value :: "byte \<Rightarrow> byte" where
  "hex_value c = (if sint c \<le> 0x39 then c - 0x30 else c - 0x41 + 10)"

definition UtilStringToHex :: "byte \<Rightarrow> byte \<Rightarrow> byte" where
  "UtilStringToHex c0 c1 = hex_value c0 * 16 + hex_value c1"

text \<open>One turn of the two loops; the state is \<open>y\<close>, \<open>z\<close> and \<open>sum\<close>, the key four words.\<close>

type_synonym tea_key = "u32 \<times> u32 \<times> u32 \<times> u32"
type_synonym tea_state = "u32 \<times> u32 \<times> u32"

definition tea_delta :: u32 where
  "tea_delta = 0x0e3779b9"

definition tea_mix :: "u32 \<Rightarrow> u32 \<Rightarrow> u32 \<Rightarrow> u32 \<Rightarrow> u32" where
  "tea_mix x sm k l = (push_bit 4 x + k) XOR (x + sm) XOR (signed_drop_bit 5 x + l)"

fun tea_encrypt_round :: "tea_key \<Rightarrow> tea_state \<Rightarrow> tea_state" where
  "tea_encrypt_round (a, b, c, d) (y, z, sm) =
     (let sm = sm + tea_delta;
          y = y + tea_mix z sm a b;
          z = z + tea_mix y sm c d in (y, z, sm))"

fun tea_decrypt_round :: "tea_key \<Rightarrow> tea_state \<Rightarrow> tea_state" where
  "tea_decrypt_round (a, b, c, d) (y, z, sm) =
     (let z = z - tea_mix y sm c d;
          y = y - tea_mix z sm a b;
          sm = sm - tea_delta in (y, z, sm))"

definition tea_encrypt :: "u32 \<times> u32 \<Rightarrow> tea_key \<Rightarrow> u32 \<times> u32" where
  "tea_encrypt v k =
     (case (tea_encrypt_round k ^^ 8) (NShtonlInt32 (fst v), NShtonlInt32 (snd v), 0) of
        (y, z, sm) \<Rightarrow> (NShtonlInt32 y, NShtonlInt32 z))"

definition tea_decrypt :: "u32 \<times> u32 \<Rightarrow> tea_key \<Rightarrow> u32 \<times> u32" where
  "tea_decrypt v k =
     (case (tea_decrypt_round k ^^ 8)
        (NShtonlInt32 (fst v), NShtonlInt32 (snd v), push_bit 3 tea_delta) of
        (y, z, sm) \<Rightarrow> (NShtonlInt32 y, NShtonlInt32 z))"

text \<open>A word of the buffer read through an \<^verbatim>\<open>int *\<close>, low byte first, and written back.\<close>

definition le_word :: "bytes \<Rightarrow> nat \<Rightarrow> u32" where
  "le_word buf i = UTIL_INT32_SET (buf ! (i + 3)) (buf ! (i + 2)) (buf ! (i + 1)) (buf ! i)"

definition le_bytes :: "u32 \<Rightarrow> bytes" where
  "le_bytes w = [UTIL_INT32_GET_BIT0 w, UTIL_INT32_GET_BIT1 w, UTIL_INT32_GET_BIT2 w,
     UTIL_INT32_GET_BIT3 w]"

definition tea_block :: "(u32 \<times> u32 \<Rightarrow> tea_key \<Rightarrow> u32 \<times> u32) \<Rightarrow> tea_key \<Rightarrow> nat \<Rightarrow> bytes \<Rightarrow> bytes c_result" where
  "tea_block f k off src =
     (if off + 8 \<le> length src then
        (case f (le_word src off, le_word src (off + 4)) k of
           (v0, v1) \<Rightarrow> memcpy_chk off (le_bytes v0 @ le_bytes v1) src)
      else Inl Out_Of_Bounds)"

text \<open>The loop over the \<open>num\<close> blocks, from block \<open>i\<close> on.\<close>

primrec tea_loop ::
  "(u32 \<times> u32 \<Rightarrow> tea_key \<Rightarrow> u32 \<times> u32) \<Rightarrow> tea_key \<Rightarrow> nat \<Rightarrow> nat \<Rightarrow> bytes \<Rightarrow> bytes c_result" where
  "tea_loop f k i 0 src = Inr src"
| "tea_loop f k i (Suc n) src = c_bind (tea_block f k (i * 8) src) (tea_loop f k (i + 1) n)"

definition TeaEncrypt :: "bytes \<Rightarrow> u16 \<Rightarrow> u32 \<Rightarrow> (bytes \<times> u16) c_result" where
  "TeaEncrypt src size_src key =
     c_bind (tea_loop tea_encrypt (key, key, key, key) 0 (unat size_src div 8) src)
       (\<lambda>src. Inr (src, size_src))"

definition TeaDecrypt :: "bytes \<Rightarrow> u16 \<Rightarrow> u32 \<Rightarrow> (bytes \<times> u16) c_result" where
  "TeaDecrypt src size_src key =
     c_bind (tea_loop tea_decrypt (key, key, key, key) 0 (unat size_src div 8) src)
       (\<lambda>src. Inr (src, size_src))"

text \<open>
  The sealing of a local message (\<^verbatim>\<open>xlinkv4Udp.c\<close>): the header is eight bytes (version, flags,
  message number, body length, command, checksum), the cipher covers everything from the command
  on. \<open>Encode\<close> finds the length in network order, \<open>Ddcode\<close> after its caller has turned it
  around. The key comes from the configuration of the SDK. The comparison of the checksum is one of
  a \<^verbatim>\<open>signed char\<close> with an \<^verbatim>\<open>unsigned char\<close>, both promoted to \<^verbatim>\<open>int\<close>.
\<close>

definition le16 :: "bytes \<Rightarrow> nat \<Rightarrow> u16" where
  "le16 buf i = UTIL_INT16_SET (buf ! (i + 1)) (buf ! i)"

definition body_sum :: "bytes \<Rightarrow> u16 \<Rightarrow> byte c_result" where
  "body_sum buf len =
     (let n = nat (sint len - 2) in
      if n = 0 \<or> 8 + n \<le> length buf then
        Inr (ucast (sum_list (map (\<lambda>b. scast b :: u32) (take n (drop 8 buf))) AND 0x000000FF))
      else Inl Out_Of_Bounds)"

definition Encode :: "u32 \<Rightarrow> bytes \<Rightarrow> bytes c_result" where
  "Encode key buf =
     (let buf = buf[1 := buf ! 1 OR 0x10]; len = NShtonlInt16 (le16 buf 4) in
      c_bind (body_sum buf len) (\<lambda>flag2.
      let buf = buf[7 := flag2] in
      c_bind (TeaEncrypt (drop 6 buf) len key) (\<lambda>(body, _). Inr (take 6 buf @ body))))"

definition Ddcode :: "u32 \<Rightarrow> bytes \<Rightarrow> (int \<times> bytes) c_result" where
  "Ddcode key buf =
     (let len = le16 buf 4 in
      c_bind (TeaDecrypt (drop 6 buf) len key) (\<lambda>(body, _).
      let buf = take 6 buf @ body in
      c_bind (body_sum buf len) (\<lambda>checkdata.
        Inr (if sint checkdata = int (unat (buf ! 7)) then 0 else -1, buf))))"

text \<open>The receiver's preparation: the length turned into host order.\<close>

definition swap_length :: "bytes \<Rightarrow> bytes" where
  "swap_length buf =
     (let len = NShtonlInt16 (le16 buf 4) in
      buf[4 := UTIL_INT16_GET_BITL (ucast len), 5 := UTIL_INT16_GET_BITH (ucast len)])"

section \<open>One block\<close>

lemma bit_NShtonlInt32:
  "bit (NShtonlInt32 s) n \<longleftrightarrow>
     (if n < 8 then bit s (n + 24) else if n < 16 then bit s (n + 8)
      else if n < 24 then bit s (n - 8) else n < 32 \<and> bit s (n - 24))"
  unfolding NShtonlInt32_def BigLittleSwap32_def and_0xFF000000_32 and_0x00FF0000_32
    and_0x0000FF00_32 and_0xFF_32 bit_or_iff
  by (cases "n < 8"; cases "n < 16"; cases "n < 24"; cases "n < 32") (simp_all add: bit_simps less_diff_conv2 add.commute)

lemma NShtonlInt32_twice [simp]: "NShtonlInt32 (NShtonlInt32 s) = s"
proof (rule bit_word_eqI)
  fix n assume "n < LENGTH(32)"
  then consider "n < 8" | "8 \<le> n \<and> n < 16" | "16 \<le> n \<and> n < 24" | "24 \<le> n \<and> n < 32"
    by fastforce
  then show "bit (NShtonlInt32 (NShtonlInt32 s)) n = bit s n"
    by cases (simp_all add: bit_NShtonlInt32 less_diff_conv2)
qed

lemma decrypt_round_inverse [simp]: "tea_decrypt_round k (tea_encrypt_round k s) = s"
  by (cases k; cases s) (simp add: Let_def)

lemma decrypt_rounds: "(tea_decrypt_round k ^^ n) ((tea_encrypt_round k ^^ n) s) = s"
proof (induction n)
  case (Suc n)
  then show ?case
    by (subst funpow_Suc_right) simp
qed simp

lemma encrypt_rounds_sum:
  "snd (snd ((tea_encrypt_round k ^^ n) (y, z, sm))) = sm + of_nat n * tea_delta"
proof (induction n)
  case (Suc n)
  then show ?case
    by (cases k; cases "(tea_encrypt_round k ^^ n) (y, z, sm)") (simp add: Let_def algebra_simps)
qed simp

lemma tea_decrypt_encrypt [simp]: "tea_decrypt (tea_encrypt v k) k = v"
proof -
  obtain y z s where r: "(tea_encrypt_round k ^^ 8) (NShtonlInt32 (fst v), NShtonlInt32 (snd v), 0)
      = (y, z, s)"
    using prod_cases3 by blast
  moreover have "s = push_bit 3 tea_delta"
    using encrypt_rounds_sum [of 8 k "NShtonlInt32 (fst v)" "NShtonlInt32 (snd v)" 0] r
    by (simp add: push_bit_eq_mult)
  moreover have "(tea_decrypt_round k ^^ 8) (y, z, s) =
      (NShtonlInt32 (fst v), NShtonlInt32 (snd v), 0)"
    using decrypt_rounds [of 8 k "(NShtonlInt32 (fst v), NShtonlInt32 (snd v), 0)"] r by simp
  ultimately show ?thesis
    by (simp add: tea_encrypt_def tea_decrypt_def)
qed

section \<open>A buffer of blocks\<close>

definition tea_eight :: "(u32 \<times> u32 \<Rightarrow> tea_key \<Rightarrow> u32 \<times> u32) \<Rightarrow> tea_key \<Rightarrow> bytes \<Rightarrow> bytes" where
  "tea_eight f k b = (case f (le_word b 0, le_word b 4) k of (v0, v1) \<Rightarrow> le_bytes v0 @ le_bytes v1)"

primrec tea_list ::
  "(u32 \<times> u32 \<Rightarrow> tea_key \<Rightarrow> u32 \<times> u32) \<Rightarrow> tea_key \<Rightarrow> nat \<Rightarrow> bytes \<Rightarrow> bytes" where
  "tea_list f k 0 xs = xs"
| "tea_list f k (Suc n) xs = tea_eight f k (take 8 xs) @ tea_list f k n (drop 8 xs)"

lemma length_le_bytes [simp]: "length (le_bytes w) = 4"
  by (simp add: le_bytes_def)

lemma length_tea_eight [simp]: "length (tea_eight f k b) = 8"
  by (simp add: tea_eight_def split: prod.splits)

lemma le_word_bytes [simp]: "le_word (le_bytes w @ xs) 0 = w" "length a = 4 \<Longrightarrow> le_word (a @ le_bytes w) 4 = w"
  by (simp_all add: le_word_def le_bytes_def nth_append eval_nat_numeral)

lemma le_bytes_word: "length b = 8 \<Longrightarrow> le_bytes (le_word b 0) @ le_bytes (le_word b 4) = b"
proof -
  assume "length b = 8"
  then obtain a0 a1 a2 a3 a4 a5 a6 a7 where "b = [a0, a1, a2, a3, a4, a5, a6, a7]"
    by (auto simp: length_Suc_conv eval_nat_numeral)
  then show ?thesis
    by (simp add: le_bytes_def le_word_def eval_nat_numeral)
qed

lemma tea_eight_inverse:
  assumes "length b = 8" "\<And>v. g (f v k) k = v"
  shows "tea_eight g k (tea_eight f k b) = b"
proof -
  obtain v0 v1 where v: "f (le_word b 0, le_word b 4) k = (v0, v1)"
    by fastforce
  then have "g (v0, v1) k = (le_word b 0, le_word b 4)"
    using assms(2) by metis
  then show ?thesis
    using v le_bytes_word [OF assms(1)] by (simp add: tea_eight_def)
qed

lemma length_tea_list: "8 * n \<le> length xs \<Longrightarrow> length (tea_list f k n xs) = length xs"
  by (induction n arbitrary: xs) auto

lemma tea_list_inverse:
  assumes "\<And>v. g (f v k) k = v" "8 * n \<le> length xs"
  shows "tea_list g k n (tea_list f k n xs) = xs"
  using assms(2) by (induction n arbitrary: xs) (simp_all add: tea_eight_inverse assms(1))

lemma drop_tea_list: "8 * n \<le> length xs \<Longrightarrow> drop (8 * n) (tea_list f k n xs) = drop (8 * n) xs"
  by (induction n arbitrary: xs) (simp_all add: add.commute)

lemma le_word_take_drop: "i + 8 \<le> length src \<Longrightarrow> j \<le> 4 \<Longrightarrow> le_word (take 8 (drop i src)) j = le_word src (i + j)"
  by (simp add: le_word_def add.assoc)

lemma tea_block_eq:
  assumes "i + 8 \<le> length src"
  shows "tea_block f k i src =
    Inr (take i src @ tea_eight f k (take 8 (drop i src)) @ drop (i + 8) src)"
  using assms le_word_take_drop [of i src 0] le_word_take_drop [of i src 4]
  by (simp add: tea_block_def tea_eight_def memcpy_at_def split: prod.splits)

lemma tea_loop_eq:
  assumes "(i + n) * 8 \<le> length src"
  shows "tea_loop f k i n src = Inr (take (i * 8) src @ tea_list f k n (drop (i * 8) src))"
  using assms
proof (induction n arbitrary: i src)
  case (Suc n)
  let ?src = "take (i * 8) src @ tea_eight f k (take 8 (drop (i * 8) src)) @ drop (i * 8 + 8) src"
  have block: "tea_block f k (i * 8) src = Inr ?src"
    using Suc.prems by (intro tea_block_eq) simp
  have "tea_loop f k (i + 1) n ?src = Inr (take ((i + 1) * 8) ?src @ tea_list f k n (drop ((i + 1) * 8) ?src))"
    using Suc.prems by (intro Suc.IH) simp
  moreover have "take ((i + 1) * 8) ?src = take (i * 8) src @ tea_eight f k (take 8 (drop (i * 8) src))"
    using Suc.prems by simp
  moreover have "drop ((i + 1) * 8) ?src = drop 8 (drop (i * 8) src)"
    using Suc.prems by (simp add: add.commute)
  ultimately show ?case
    by (simp add: block)
qed simp

lemma TeaEncrypt_eq:
  "unat n div 8 * 8 \<le> length src \<Longrightarrow>
     TeaEncrypt src n key = Inr (tea_list tea_encrypt (key, key, key, key) (unat n div 8) src, n)"
  by (simp add: TeaEncrypt_def tea_loop_eq)

lemma TeaDecrypt_eq:
  "unat n div 8 * 8 \<le> length src \<Longrightarrow>
     TeaDecrypt src n key = Inr (tea_list tea_decrypt (key, key, key, key) (unat n div 8) src, n)"
  by (simp add: TeaDecrypt_def tea_loop_eq)

section \<open>Sealed messages\<close>

lemma NShtonlInt16_SET [simp]: "NShtonlInt16 (UTIL_INT16_SET h l) = UTIL_INT16_SET l h"
proof (rule bit_word_eqI)
  have set_or: "UTIL_INT16_SET h l = push_bit 8 (ucast h) OR ucast l" for h l :: byte
    unfolding UTIL_INT16_SET_def
  proof (rule disjunctive_add_eq_or)
    have "\<not> bit l n" if "8 \<le> n" for n
      using that bit_imp_le_length [of l n] by auto
    then show "push_bit 8 (ucast h) AND ucast l = (0 :: u16)"
      by (auto intro!: bit_word_eqI simp: bit_simps)
  qed
  have masks: "(0xFF00 :: u16) = push_bit 8 (mask 8)" "(0x00FF :: u16) = mask 8"
    by (simp_all add: mask_eq_exp_minus_1 push_bit_eq_mult)
  fix n assume "n < LENGTH(16)"
  then show "bit (NShtonlInt16 (UTIL_INT16_SET h l)) n = bit (UTIL_INT16_SET l h) n"
    unfolding NShtonlInt16_def set_or masks
    by (cases "n < 8") (auto simp: bit_simps less_diff_conv2 dest: bit_imp_le_length)
qed

lemma bytes_of_16:
  "UTIL_INT16_GET_BITL (ucast (UTIL_INT16_SET h l)) = l"
  "UTIL_INT16_GET_BITH (ucast (UTIL_INT16_SET h l)) = h"
proof -
  have "unat h < 256" "unat l < 256"
    by simp_all
  then have "unat (ucast (UTIL_INT16_SET h l) :: u32) = unat h * 256 + unat l"
    by (simp add: byte_order unsigned_ucast_eq take_bit_eq_mod del: unat_byte_less unat_byte_le)
  then show "UTIL_INT16_GET_BITL (ucast (UTIL_INT16_SET h l)) = l"
    "UTIL_INT16_GET_BITH (ucast (UTIL_INT16_SET h l)) = h"
    by (simp_all only: word_unat_eq_iff byte_order base256_digit unat_byte_less
        mod_less)
qed

lemma body_sum_cong: "length a = length b \<Longrightarrow> drop 8 a = drop 8 b \<Longrightarrow> body_sum a len = body_sum b len"
  by (simp add: body_sum_def Let_def)

lemma sint_le_unat: "sint (w :: 'a::len word) \<le> int (unat w)"
proof -
  have "signed_take_bit (LENGTH('a) - 1) (uint w) \<le> uint w"
    by (simp add: signed_take_bit_int_less_eq_self_iff order_trans [of _ 0])
  then show ?thesis
    by (simp add: sint_uint)
qed

lemma sint_eq_unat: "sint (b :: byte) = int (unat b) \<longleftrightarrow> unat b < 128"
proof -
  have "sint b = int (unat b) \<longleftrightarrow> signed_take_bit 7 (int (unat b)) = int (unat b)"
    by (simp add: sint_uint)
  also have "\<dots> \<longleftrightarrow> int (unat b) < 128"
    by (auto simp: signed_take_bit_int_eq_self_iff intro: order_trans [of _ 0])
  also have "\<dots> \<longleftrightarrow> unat b < 128"
    by (rule of_nat_less_numeral_iff)
  finally show ?thesis .
qed

lemma body_sum_total:
  assumes "unat len + 6 \<le> length buf" "8 \<le> length buf"
  shows "\<exists>s. body_sum buf len = Inr s"
proof -
  have "nat (sint len - 2) = 0 \<or> 8 + nat (sint len - 2) \<le> length buf"
    using assms sint_le_unat [of len] by linarith
  then show ?thesis
    by (simp add: body_sum_def Let_def)
qed

lemma hex_digits_read: "list_all (\<lambda>n. hex_value (HexStringBuf ! n) = of_nat n) [0..<16]"
  by code_simp

lemma hex_digit_read: "n < 16 \<Longrightarrow> hex_value (HexStringBuf ! n) = of_nat n"
  using hex_digits_read by (simp add: list_all_iff)

text \<open>A byte printed as two hexadecimal digits is read back.\<close>

lemma UtilStringToHex_digits: "UtilStringToHex (UtilHexToString [h] ! 0) (UtilHexToString [h] ! 1) = h"
proof -
  have masks: "(0x0F :: byte) = mask 4" "(0xF0 :: byte) = push_bit 4 (mask 4)"
    by (simp_all add: mask_eq_exp_minus_1 push_bit_eq_mult)
  have "drop_bit 4 (h AND 0xF0) = drop_bit 4 h"
    unfolding masks by (rule bit_word_eqI) (auto simp: bit_simps dest: bit_imp_le_length)
  then have hi: "unat (drop_bit 4 (h AND 0xF0)) = unat h div 16"
    by (simp add: unat_drop_bit_div)
  have lo: "unat (h AND 0x0F) = unat h mod 16"
    unfolding masks by (simp only: flip: take_bit_eq_mask)
      (simp only: unsigned_take_bit_eq, simp add: take_bit_eq_mod)
  have "unat h < 256"
    by simp
  then have "unat h div 16 < 16" "unat h mod 16 < 16"
    by (simp_all add: less_mult_imp_div_less)
  then have "UtilStringToHex (UtilHexToString [h] ! 0) (UtilHexToString [h] ! 1) =
      of_nat (unat h div 16) * 16 + of_nat (unat h mod 16)"
    by (simp only: UtilStringToHex_def UtilHexToString_def hi lo hex_digit_read list.map concat.simps
        append.simps nth_Cons_0 nth_Cons_Suc One_nat_def)
  also have "\<dots> = of_nat (unat h div 16 * 16 + unat h mod 16)"
    by (simp only: of_nat_add of_nat_mult of_nat_numeral)
  also have "\<dots> = h"
    by (simp only: div_mult_mod_eq) simp
  finally show ?thesis .
qed

section \<open>Properties\<close>

text \<open>
  Decryption undoes encryption for every key and every buffer, whatever its size; and the last up
  to seven bytes, which do not fill a block, are left as they are: they travel in the clear, since
  the padding the comment announces is switched off.
\<close>
theorem TeaDecrypt_TeaEncrypt:
  assumes "unat n \<le> length src"
  shows "\<exists>sealed. TeaEncrypt src n key = Inr (sealed, n) \<and> length sealed = length src \<and>
    drop (8 * (unat n div 8)) sealed = drop (8 * (unat n div 8)) src \<and>
    TeaDecrypt sealed n key = Inr (src, n)"
proof -
  have "8 * (unat n div 8) \<le> length src"
    using assms mult_div_mod_eq [of 8 "unat n"] by linarith
  then show ?thesis
    by (simp add: TeaEncrypt_eq TeaDecrypt_eq mult.commute [of _ 8] length_tea_list drop_tea_list
        tea_list_inverse)
qed

theorem TeaDecrypt_TeaEncrypt_witness:
  "\<exists>sealed. TeaEncrypt [1, 2, 3, 4, 5, 6, 7, 8, 9] 9 0x12345678 = Inr (sealed, 9) \<and>
    length sealed = length [1 :: byte, 2, 3, 4, 5, 6, 7, 8, 9] \<and>
    drop (8 * (unat (9 :: u16) div 8)) sealed =
      drop (8 * (unat (9 :: u16) div 8)) [1, 2, 3, 4, 5, 6, 7, 8, 9] \<and>
    TeaDecrypt sealed 9 0x12345678 = Inr ([1, 2, 3, 4, 5, 6, 7, 8, 9], 9)"
  by (rule TeaDecrypt_TeaEncrypt) simp

text \<open>
  C39. What becomes of a sealed local message at a receiver with the same key: for every header and
  body whose length field stays within the message, \<open>Encode\<close> succeeds, and \<open>Ddcode\<close> on the message
  with its length turned to host order recovers the header, the flag and the checksum set, and
  the body. It accepts the message exactly when the checksum is below 128: a larger one is
  negative on one side of the comparison only, so half of all sealed messages are refused.
\<close>
theorem Ddcode_Encode:
  assumes "unat (UTIL_INT16_SET l0 l1) \<le> length body + 2"
  shows "\<exists>sealed chk. Encode key ([ver, flags, m0, m1, l0, l1, cmd, g] @ body) = Inr sealed \<and>
    body_sum ([ver, flags OR 0x10, m0, m1, l0, l1, cmd, g] @ body) (UTIL_INT16_SET l0 l1) = Inr chk \<and>
    Ddcode key (swap_length sealed) =
      Inr (if unat chk < 128 then 0 else -1, [ver, flags OR 0x10, m0, m1, l1, l0, cmd, chk] @ body)"
proof -
  define len where "len = UTIL_INT16_SET l0 l1"
  obtain chk where chk: "body_sum ([ver, flags OR 0x10, m0, m1, l0, l1, cmd, g] @ body) len = Inr chk"
    using body_sum_total [of len "[ver, flags OR 0x10, m0, m1, l0, l1, cmd, g] @ body"] assms
    by (auto simp: len_def)
  have "8 * (unat len div 8) \<le> unat len"
    by simp
  then have fits: "8 * (unat len div 8) \<le> length (cmd # chk # body)"
    using assms by (simp add: len_def)
  define enc where "enc = tea_list tea_encrypt (key, key, key, key) (unat len div 8) (cmd # chk # body)"
  have le: "le16 (a # b # c # d # l0 # l1 # xs) 4 = UTIL_INT16_SET l1 l0" for a b c d l0 l1 xs
    by (simp add: le16_def eval_nat_numeral)
  let ?h = "\<lambda>chk. [ver, flags OR 0x10, m0, m1, l0, l1, cmd, chk] @ body"
  have edit: "([ver, flags, m0, m1, l0, l1, cmd, g] @ body)
        [1 := ([ver, flags, m0, m1, l0, l1, cmd, g] @ body) ! 1 OR 0x10] = ?h g"
      "(?h g)[7 := chk] = ?h chk" "drop 6 (?h chk) = cmd # chk # body"
      "take 6 (?h chk) = [ver, flags OR 0x10, m0, m1, l0, l1]"
    by (simp_all add: eval_nat_numeral)
  have "TeaEncrypt (cmd # chk # body) len key = Inr (enc, len)"
    using fits by (simp add: TeaEncrypt_eq enc_def mult.commute [of _ 8])
  moreover have "NShtonlInt16 (le16 (?h g) 4) = len"
    by (simp add: le len_def)
  ultimately have "Encode key ([ver, flags, m0, m1, l0, l1, cmd, g] @ body) =
      Inr ([ver, flags OR 0x10, m0, m1, l0, l1] @ enc)"
    by (simp only: Encode_def Let_def edit chk c_bind_simps prod.case)
  moreover have "swap_length ([ver, flags OR 0x10, m0, m1, l0, l1] @ enc) =
      [ver, flags OR 0x10, m0, m1, l1, l0] @ enc"
    by (simp add: swap_length_def Let_def le bytes_of_16)
  moreover have "Ddcode key ([ver, flags OR 0x10, m0, m1, l1, l0] @ enc) =
      Inr (if unat chk < 128 then 0 else -1, [ver, flags OR 0x10, m0, m1, l1, l0, cmd, chk] @ body)"
  proof -
    have parts: "drop 6 ([ver, flags OR 0x10, m0, m1, l1, l0] @ enc) = enc"
        "take 6 ([ver, flags OR 0x10, m0, m1, l1, l0] @ enc) = [ver, flags OR 0x10, m0, m1, l1, l0]"
        "([ver, flags OR 0x10, m0, m1, l1, l0] @ cmd # chk # body) ! 7 = chk"
      by (simp_all add: eval_nat_numeral)
    have "TeaDecrypt enc len key = Inr (cmd # chk # body, len)"
      using fits by (simp add: enc_def TeaDecrypt_eq length_tea_list tea_list_inverse mult.commute [of _ 8])
    moreover have "body_sum ([ver, flags OR 0x10, m0, m1, l1, l0] @ cmd # chk # body) len = Inr chk"
      using chk body_sum_cong [of "[ver, flags OR 0x10, m0, m1, l1, l0] @ cmd # chk # body" "?h g" len]
      by (simp add: eval_nat_numeral)
    moreover have "le16 ([ver, flags OR 0x10, m0, m1, l1, l0] @ enc) 4 = len"
      by (simp add: le len_def)
    ultimately have "Ddcode key ([ver, flags OR 0x10, m0, m1, l1, l0] @ enc) =
        Inr (if unat chk < 128 then 0 else -1, [ver, flags OR 0x10, m0, m1, l1, l0] @ cmd # chk # body)"
      by (simp only: Ddcode_def Let_def parts c_bind_simps prod.case sint_eq_unat)
    then show ?thesis
      by simp
  qed
  ultimately show ?thesis
    using chk by (auto simp: len_def)
qed

theorem Ddcode_Encode_witness:
  "\<exists>sealed chk. Encode 7 ([1, 0, 0, 9, 0, 5, 3, 0] @ [100, 22, 33]) = Inr sealed \<and>
    body_sum ([1, 0 OR 0x10, 0, 9, 0, 5, 3, 0] @ [100, 22, 33]) (UTIL_INT16_SET 0 5) = Inr chk \<and>
    Ddcode 7 (swap_length sealed) =
      Inr (if unat chk < 128 then 0 else -1, [1, 0 OR 0x10, 0, 9, 5, 0, 3, chk] @ [100, 22, 33])"
  by (rule Ddcode_Encode) (simp add: byte_order)

end
