(* ===== verification/Base64.thy ===== *)
theory Base64 imports Prelude begin

text \<open>
  The base64 codec of the gateway application, \<^verbatim>\<open>base64.c\<close>. Both functions write into an array of
  their caller without knowing its size, so the arrays are arguments and a write past the end is
  a fault. The abstract codec \<open>b64_enc\<close> is what they compute when the array is large enough.
\<close>

section \<open>The code\<close>

definition base64char :: bytes where
  "base64char =
     map of_char ''ABCDEFGHIJKLMNOPQRSTUVWXYZabcdefghijklmnopqrstuvwxyz0123456789+/''"

abbreviation b64_pad :: byte where "b64_pad \<equiv> 0x3D"

text \<open>The four values \<^verbatim>\<open>current\<close> takes for a group of three bytes.\<close>

definition b64_c0 :: "byte \<Rightarrow> byte" where
  "b64_c0 b0 = drop_bit 2 b0 AND 0x3F"

definition b64_c1 :: "byte \<Rightarrow> byte" where
  "b64_c1 b0 = push_bit 4 b0 AND 0x30"

definition b64_c1b :: "byte \<Rightarrow> byte \<Rightarrow> byte" where
  "b64_c1b b0 b1 = b64_c1 b0 OR (drop_bit 4 b1 AND 0x0F)"

definition b64_c2 :: "byte \<Rightarrow> byte" where
  "b64_c2 b1 = push_bit 2 b1 AND 0x3C"

definition b64_c2b :: "byte \<Rightarrow> byte \<Rightarrow> byte" where
  "b64_c2b b1 b2 = b64_c2 b1 OR (drop_bit 6 b2 AND 0x03)"

definition b64_c3 :: "byte \<Rightarrow> byte" where
  "b64_c3 b2 = b2 AND 0x3F"

definition b64_char :: "byte \<Rightarrow> byte" where
  "b64_char current = base64char ! unat current"

text \<open>
  The loop of the encoder: \<open>data\<close> is \<^verbatim>\<open>bindata\<close> from \<^verbatim>\<open>i\<close> up to \<^verbatim>\<open>binlength\<close>, \<open>j\<close> the next position
  of the output. It returns the output and the final \<open>j\<close>.
\<close>

primrec c_puts :: "nat \<Rightarrow> bytes \<Rightarrow> bytes \<Rightarrow> bytes c_result" where
  "c_puts j [] buf = Inr buf"
| "c_puts j (x # xs) buf = c_bind (c_put j x buf) (c_puts (Suc j) xs)"

fun base64_encode_loop :: "bytes \<Rightarrow> nat \<Rightarrow> bytes \<Rightarrow> (bytes \<times> nat) c_result" where
  "base64_encode_loop [] j out = Inr (out, j)"
| "base64_encode_loop [b0] j out =
     c_bind (c_puts j [b64_char (b64_c0 b0), b64_char (b64_c1 b0), b64_pad, b64_pad] out)
       (\<lambda>out. Inr (out, j + 4))"
| "base64_encode_loop [b0, b1] j out =
     c_bind (c_puts j [b64_char (b64_c0 b0), b64_char (b64_c1b b0 b1), b64_char (b64_c2 b1),
       b64_pad] out) (\<lambda>out. Inr (out, j + 4))"
| "base64_encode_loop (b0 # b1 # b2 # data) j out =
     c_bind (c_puts j [b64_char (b64_c0 b0), b64_char (b64_c1b b0 b1), b64_char (b64_c2b b1 b2),
       b64_char (b64_c3 b2)] out) (base64_encode_loop data (j + 4))"

definition base64_encode :: "bytes \<Rightarrow> bytes \<Rightarrow> bytes c_result" where
  "base64_encode bindata base64 =
     c_bind (base64_encode_loop bindata 0 base64) (\<lambda>(base64, j). c_put j 0 base64)"

text \<open>The search for a character of the alphabet: the last match wins, \<^verbatim>\<open>0xFF\<close> without one.\<close>

definition b64_value :: "byte \<Rightarrow> byte" where
  "b64_value c = fold (\<lambda>k t. if base64char ! k = c then of_nat k else t) [0..<64] 0xFF"

definition b64_d0 :: "byte \<Rightarrow> byte \<Rightarrow> byte" where
  "b64_d0 t0 t1 = (push_bit 2 t0 AND 0xFC) OR (drop_bit 4 t1 AND 0x03)"

definition b64_d1 :: "byte \<Rightarrow> byte \<Rightarrow> byte" where
  "b64_d1 t1 t2 = (push_bit 4 t1 AND 0xF0) OR (drop_bit 2 t2 AND 0x0F)"

definition b64_d2 :: "byte \<Rightarrow> byte \<Rightarrow> byte" where
  "b64_d2 t2 t3 = (push_bit 6 t2 AND 0xF0) OR (t3 AND 0x3F)"

text \<open>
  The loop of the decoder. All four characters of a group are read before any is examined, so a
  text whose length is not a multiple of four is read past its terminator.
\<close>

function base64_decode_loop :: "bytes \<Rightarrow> nat \<Rightarrow> nat \<Rightarrow> bytes \<Rightarrow> (bytes \<times> nat) c_result" where
  "base64_decode_loop text i j out =
     c_bind (c_get text i) (\<lambda>c0. if c0 = 0 then Inr (out, j) else
     c_bind (c_get text (i + 1)) (\<lambda>c1.
     c_bind (c_get text (i + 2)) (\<lambda>c2.
     c_bind (c_get text (i + 3)) (\<lambda>c3.
     c_bind (c_put j (b64_d0 (b64_value c0) (b64_value c1)) out) (\<lambda>out.
       if c2 = b64_pad then Inr (out, j + 1) else
     c_bind (c_put (j + 1) (b64_d1 (b64_value c1) (b64_value c2)) out) (\<lambda>out.
       if c3 = b64_pad then Inr (out, j + 2) else
     c_bind (c_put (j + 2) (b64_d2 (b64_value c2) (b64_value c3)) out) (\<lambda>out.
       base64_decode_loop text (i + 4) (j + 3) out)))))))"
  by pat_completeness auto
termination
  by (relation "measure (\<lambda>(text, i, j, out). length text - i)")
    (auto simp: c_get_def split: if_splits)

declare base64_decode_loop.simps [simp del]

definition base64_decode :: "bytes \<Rightarrow> bytes \<Rightarrow> (bytes \<times> nat) c_result" where
  "base64_decode base64 bindata = base64_decode_loop base64 0 0 bindata"

section \<open>The codec without its arrays\<close>

fun b64_enc :: "bytes \<Rightarrow> bytes" where
  "b64_enc [] = []"
| "b64_enc [b0] = [b64_char (b64_c0 b0), b64_char (b64_c1 b0), b64_pad, b64_pad]"
| "b64_enc [b0, b1] =
     [b64_char (b64_c0 b0), b64_char (b64_c1b b0 b1), b64_char (b64_c2 b1), b64_pad]"
| "b64_enc (b0 # b1 # b2 # data) =
     [b64_char (b64_c0 b0), b64_char (b64_c1b b0 b1), b64_char (b64_c2b b1 b2),
      b64_char (b64_c3 b2)] @ b64_enc data"

lemma length_b64_enc: "length (b64_enc data) = 4 * ((length data + 2) div 3)"
proof (induction data rule: b64_enc.induct)
  case (4 b0 b1 b2 data)
  have "(5 + length data) div 3 = Suc (Suc (Suc (length data)) div 3)"
    by presburger
  then show ?case
    using 4 by simp
qed simp_all

subsection \<open>Writing into the array\<close>

lemma c_puts_eq:
  "c_puts j xs buf =
     (if j + length xs \<le> length buf \<or> xs = [] then Inr (memcpy_at j xs buf) else Inl Out_Of_Bounds)"
  by (induction xs arbitrary: j buf) (auto simp: c_put_def memcpy_at_Cons)

declare c_puts.simps [simp del]
declare c_puts_eq [simp]

lemma encode_loop_eq:
  "base64_encode_loop data j out =
     (if j + length (b64_enc data) \<le> length out \<or> data = []
      then Inr (memcpy_at j (b64_enc data) out, j + length (b64_enc data))
      else Inl Out_Of_Bounds)"
proof (induction data arbitrary: j out rule: b64_enc.induct)
  case (4 b0 b1 b2 data)
  let ?cs = "[b64_char (b64_c0 b0), b64_char (b64_c1b b0 b1), b64_char (b64_c2b b1 b2),
    b64_char (b64_c3 b2)]"
  have step: "base64_encode_loop (b0 # b1 # b2 # data) j out =
      (if j + 4 \<le> length out then base64_encode_loop data (j + 4) (memcpy_at j ?cs out)
       else Inl Out_Of_Bounds)"
    by simp
  have "memcpy_at (j + 4) (b64_enc data) (memcpy_at j ?cs out) = memcpy_at j (?cs @ b64_enc data) out"
    if "j + 4 \<le> length out"
    using memcpy_at_append [of j ?cs out "b64_enc data"] that
    by (simp add: numeral_eq_Suc)
  then show ?case
    by (cases "data = []") (simp_all only: step 4, auto)
qed simp_all

lemma base64_encode_eq:
  "base64_encode data out =
     (if length (b64_enc data) < length out then Inr (memcpy_at 0 (b64_enc data @ [0]) out)
      else Inl Out_Of_Bounds)"
proof (cases "length (b64_enc data) < length out")
  case True
  have "(memcpy_at 0 (b64_enc data) out)[length (b64_enc data) := 0] =
      memcpy_at 0 (b64_enc data @ [0]) out"
    using True by (auto simp: memcpy_at_def list_update_append1 list_update_append
        simp flip: Cons_nth_drop_Suc)
  then show ?thesis
    using True by (simp add: base64_encode_def encode_loop_eq)
qed (auto simp: base64_encode_def encode_loop_eq c_put_def)

subsection \<open>Reading it back\<close>

lemma b64_masks:
  "(0x3F :: byte) = mask 6" "(0x30 :: byte) = push_bit 4 (mask 2)"
  "(0x3C :: byte) = push_bit 2 (mask 4)" "(0xFC :: byte) = push_bit 2 (mask 6)"
  "(0xF0 :: byte) = push_bit 4 (mask 4)" "(0x0F :: byte) = mask 4" "(0x03 :: byte) = mask 2"
  by (simp_all add: mask_eq_exp_minus_1 push_bit_eq_mult)

lemmas b64_bit_defs = b64_c0_def b64_c1_def b64_c1b_def b64_c2_def b64_c2b_def b64_c3_def
  b64_d0_def b64_d1_def b64_d2_def

lemma bit_byte_cases: "n < LENGTH(8) \<Longrightarrow> n \<in> {0, 1, 2, 3, 4, 5, 6, 7}"
  by auto

lemma base64char_eq:
  "base64char = [65, 66, 67, 68, 69, 70, 71, 72, 73, 74, 75, 76, 77, 78, 79, 80, 81, 82, 83, 84,
     85, 86, 87, 88, 89, 90, 97, 98, 99, 100, 101, 102, 103, 104, 105, 106, 107, 108, 109, 110,
     111, 112, 113, 114, 115, 116, 117, 118, 119, 120, 121, 122, 48, 49, 50, 51, 52, 53, 54, 55,
     56, 57, 43, 47]"
  by (simp add: base64char_def)

lemma base64char_facts:
  "length base64char = 64" "distinct base64char" "0 \<notin> set base64char" "b64_pad \<notin> set base64char"
  by (simp_all add: base64char_eq)

lemma fold_last_match:
  "distinct ks \<Longrightarrow> inj_on f (set ks) \<Longrightarrow> k \<in> set ks \<Longrightarrow>
     fold (\<lambda>k' t. if f k' = f k then g k' else t) ks t0 = g k"
proof (induction ks arbitrary: t0)
  case (Cons k' ks)
  have none: "fold (\<lambda>k' t. if f k' = f k then g k' else t) ks t = t"
    if "f k \<notin> f ` set ks" for t
    using that by (induction ks arbitrary: t) auto
  show ?case
  proof (cases "k' = k")
    case True
    then show ?thesis
      using Cons.prems none by (simp add: inj_on_image_mem_iff)
  next
    case False
    then show ?thesis
      using Cons.prems Cons.IH by (auto simp: inj_on_def)
  qed
qed simp

lemma b64_groups [simp]:
  "b64_d0 (b64_c0 b0) (b64_c1 b0) = b0"
  "b64_d0 (b64_c0 b0) (b64_c1b b0 b1) = b0"
  "b64_d1 (b64_c1b b0 b1) (b64_c2 b1) = b1"
  "b64_d1 (b64_c1b b0 b1) (b64_c2b b1 b2) = b1"
  "b64_d2 (b64_c2b b1 b2) (b64_c3 b2) = b2"
  unfolding b64_bit_defs b64_masks
  by (rule bit_word_eqI, drule bit_byte_cases, (auto simp: bit_simps; simp add: numeral_eq_Suc))+

lemma b64_small:
  "unat (b64_c0 b0) < 64" "unat (b64_c1 b0) < 64" "unat (b64_c1b b0 b1) < 64"
  "unat (b64_c2 b1) < 64" "unat (b64_c2b b1 b2) < 64" "unat (b64_c3 b2) < 64"
proof -
  have small: "unat x < 64" if "x AND mask 6 = x" for x :: byte
  proof -
    have "unat (take_bit 6 x) < 2 ^ 6"
      using take_bit_nat_less_exp [of 6 "unat x"] by (simp only: unsigned_take_bit_eq)
    then show ?thesis
      using that by (simp add: take_bit_eq_mask)
  qed
  show "unat (b64_c0 b0) < 64" "unat (b64_c1 b0) < 64" "unat (b64_c1b b0 b1) < 64"
    "unat (b64_c2 b1) < 64" "unat (b64_c2b b1 b2) < 64" "unat (b64_c3 b2) < 64"
    unfolding b64_bit_defs b64_masks
    by (rule small, rule bit_word_eqI, drule bit_byte_cases, auto simp: bit_simps)+
qed

lemma b64_char_facts:
  assumes "unat c < 64"
  shows "b64_value (b64_char c) = c" "b64_char c \<noteq> 0" "b64_char c \<noteq> b64_pad"
proof -
  have c: "unat c \<in> set [0..<64]" "unat c < length base64char"
    using assms by (simp_all add: base64char_facts)
  have "inj_on ((!) base64char) (set [0..<64])"
    using base64char_facts by (auto simp: inj_on_def nth_eq_iff_index_eq)
  then show "b64_value (b64_char c) = c"
    unfolding b64_value_def b64_char_def using c
    by (subst fold_last_match) auto
  show "b64_char c \<noteq> 0" "b64_char c \<noteq> b64_pad"
    using base64char_facts(3,4) nth_mem [OF c(2)] unfolding b64_char_def by auto
qed

lemmas b64_chars [simp] = b64_small [THEN b64_char_facts(1)] b64_small [THEN b64_char_facts(2)]
  b64_small [THEN b64_char_facts(3)]

lemma decode_loop_reads:
  assumes "text = pre @ b64_enc data @ 0 # post" "j + length data \<le> length out"
  shows "base64_decode_loop text (length pre) j out =
    Inr (memcpy_at j data out, j + length data)"
  using assms
proof (induction data arbitrary: pre j out rule: b64_enc.induct)
  case (4 b0 b1 b2 data)
  let ?cs = "[b64_char (b64_c0 b0), b64_char (b64_c1b b0 b1), b64_char (b64_c2b b1 b2),
    b64_char (b64_c3 b2)]"
  have "base64_decode_loop text (length (pre @ ?cs)) (j + 3) (memcpy_at j [b0, b1, b2] out) =
      Inr (memcpy_at (j + 3) data (memcpy_at j [b0, b1, b2] out), j + 3 + length data)"
    using 4 by (intro "4.IH") simp_all
  moreover have "base64_decode_loop text (length pre) j out =
      base64_decode_loop text (length (pre @ ?cs)) (j + 3) (memcpy_at j [b0, b1, b2] out)"
    using "4.prems" by (subst base64_decode_loop.simps)
      (simp add: nth_append numeral_eq_Suc flip: memcpy_at_Cons)
  moreover have "memcpy_at (j + 3) data (memcpy_at j [b0, b1, b2] out) =
      memcpy_at j (b0 # b1 # b2 # data) out"
    using memcpy_at_append [of j "[b0, b1, b2]" out data] "4.prems" by (simp add: numeral_eq_Suc)
  ultimately show ?case
    by simp
qed (subst base64_decode_loop.simps, simp add: nth_append numeral_eq_Suc flip: memcpy_at_Cons)+

lemma base64_decode_encode:
  assumes "length data \<le> length out"
  shows "base64_decode (b64_enc data @ 0 # post) out = Inr (memcpy_at 0 data out, length data)"
  using decode_loop_reads [of _ "[]" data post 0 out] assms by (simp add: base64_decode_def)

lemma b64_enc_alphabet:
  "c \<in> set (b64_enc data) \<Longrightarrow> c \<in> set base64char \<or> c = b64_pad"
proof (induction data rule: b64_enc.induct)
  case (4 b0 b1 b2 data)
  then show ?case
    using b64_small base64char_facts(1) by (auto simp: b64_char_def)
qed (use b64_small base64char_facts(1) in \<open>auto simp: b64_char_def\<close>)

lemma plain_b64_alphabet:
  assumes "c \<in> set (b64_enc data)"
  shows "c \<notin> {0x00, 0x0A, 0x0D, 0x25, 0xFF}"
proof -
  have "list_all (\<lambda>c. c \<notin> {0x00, 0x0A, 0x0D, 0x25, 0xFF}) (b64_pad # base64char)"
    by (simp add: base64char_eq)
  moreover have "c \<in> set (b64_pad # base64char)"
    using b64_enc_alphabet [OF assms] by auto
  ultimately show ?thesis
    unfolding list_all_iff by (rule bspec)
qed

section \<open>Properties\<close>

text \<open>
  The codec is lossless: encoding into an array with room for the text and its terminator always
  succeeds, and decoding that array gives back the bytes and their number, whatever they are,
  leaving the rest of the output array alone.
\<close>
theorem base64_roundtrip:
  assumes "4 * ((length data + 2) div 3) < length base64" "length data \<le> length out"
  shows "\<exists>base64'. base64_encode data base64 = Inr base64' \<and> length base64' = length base64 \<and>
    base64_decode base64' out = Inr (memcpy_at 0 data out, length data)"
proof -
  have room: "length (b64_enc data) < length base64"
    using assms(1) by (simp add: length_b64_enc)
  have "memcpy_at 0 (b64_enc data @ [0]) base64 =
      b64_enc data @ 0 # drop (Suc (length (b64_enc data))) base64"
    by (simp add: memcpy_at_def)
  then show ?thesis
    using room base64_decode_encode [OF assms(2)] by (simp add: base64_encode_eq)
qed

theorem base64_roundtrip_witness:
  "\<exists>base64'. base64_encode [0x4D, 0x61, 0x6E, 0xFF] (replicate 9 7) = Inr base64' \<and>
    length base64' = length (replicate 9 (7 :: byte)) \<and>
    base64_decode base64' [1, 2, 3, 4, 5] =
      Inr (memcpy_at 0 [0x4D, 0x61, 0x6E, 0xFF] [1, 2, 3, 4, 5], length [0x4D :: byte, 0x61, 0x6E, 0xFF])"
  by (rule base64_roundtrip [of "[0x4D, 0x61, 0x6E, 0xFF]" "replicate 9 7" "[1, 2, 3, 4, 5]"]) simp_all

end
