(* ===== verification/IniFile.thy ===== *)
theory IniFile imports Prelude "HOL-Library.Sublist" begin

text \<open>
  The configuration file of the gateway, \<^verbatim>\<open>inifile.c\<close>: reading a file into a fixed array, the
  scanner \<^verbatim>\<open>parse_file\<close> with its index arithmetic, and the two entry points. Reads and writes of
  the 8192-byte arrays are checked; a failed \<^verbatim>\<open>assert\<close> is a fault. Section and key are C strings
  without their terminator. The abstract file is a list of bindings in one section.
\<close>

section \<open>The code\<close>

abbreviation MAX_FILE_SIZE :: nat where "MAX_FILE_SIZE \<equiv> 8192"

text \<open>
  What the file system holds under the name: the contents or nothing, whether it can be opened
  for writing, and how many bytes there is room for.
\<close>

record ini_disk =
  disk_file :: "bytes option"
  disk_writable :: bool
  disk_room :: nat

text \<open>The result of \<^verbatim>\<open>load_ini_file\<close>: its return value, the array, and \<^verbatim>\<open>file_size\<close>.\<close>

fun load_loop :: "bytes \<Rightarrow> nat \<Rightarrow> bytes \<Rightarrow> (bytes \<times> nat) c_result" where
  "load_loop [] i buf = Inr (buf[i := 0], i)"
| "load_loop (c # input) i buf =
     (if c = 0xFF then Inr (buf[i := 0], i)
      else if i + 1 < MAX_FILE_SIZE then load_loop input (i + 1) (buf[i := c])
      else Inl Assertion_Failed)"

definition load_ini_file :: "bytes option \<Rightarrow> bytes \<Rightarrow> (bool \<times> bytes \<times> nat) c_result" where
  "load_ini_file file buf = (case file of
     None \<Rightarrow> Inr (False, buf, 0)
   | Some input \<Rightarrow> c_bind (load_loop input 0 buf) (\<lambda>(buf, i). Inr (True, buf, i)))"

definition newline :: "byte \<Rightarrow> bool" where
  "newline c = (c = 0x0A \<or> c = 0x0D)"

definition end_of_string :: "byte \<Rightarrow> bool" where
  "end_of_string c = (c = 0)"

definition left_barce :: "byte \<Rightarrow> bool" where
  "left_barce c = (c = 0x5B)"

definition isright_brace :: "byte \<Rightarrow> bool" where
  "isright_brace c = (c = 0x5D)"

definition isspace :: "byte \<Rightarrow> bool" where
  "isspace c = (c \<in> {0x20, 0x09, 0x0A, 0x0B, 0x0C, 0x0D})"

text \<open>\<^verbatim>\<open>strncmp(a, b, n) == 0\<close>.\<close>

definition char0 :: "bytes \<Rightarrow> byte" where
  "char0 s = (case s of [] \<Rightarrow> 0 | c # _ \<Rightarrow> c)"

primrec strncmp_eq :: "bytes \<Rightarrow> bytes \<Rightarrow> nat \<Rightarrow> bool" where
  "strncmp_eq a b 0 = True"
| "strncmp_eq a b (Suc n) =
     (char0 a = char0 b \<and> (char0 a = 0 \<or> strncmp_eq (tl a) (tl b) n))"

text \<open>A loop that moves an index forward until a character is met.\<close>

function scan :: "(byte \<Rightarrow> bool) \<Rightarrow> bytes \<Rightarrow> nat \<Rightarrow> nat c_result" where
  "scan stop p i = c_bind (c_get p i) (\<lambda>c. if stop c then Inr i else scan stop p (i + 1))"
  by pat_completeness auto
termination
  by (relation "measure (\<lambda>(stop, p, i). length p - i)") (auto simp: c_get_def split: if_splits)

declare scan.simps [simp del]

record ini_pos =
  sec_s :: int
  sec_e :: int
  key_s :: int
  key_e :: int
  value_s :: int
  value_e :: int

definition no_pos :: ini_pos where
  "no_pos = \<lparr>sec_s = -1, sec_e = -1, key_s = -1, key_e = -1, value_s = -1, value_e = -1\<rparr>"

text \<open>
  The search for the key in a line that starts at \<open>start\<close> and ends at \<open>i\<close>: \<open>Some j\<close> for the
  position of the equals sign.
\<close>

function key_loop :: "bytes \<Rightarrow> bytes \<Rightarrow> nat \<Rightarrow> nat \<Rightarrow> nat \<Rightarrow> nat option" where
  "key_loop key p start i j =
     (if j < i \<and> p ! j \<noteq> 0x3D then
        let j = j + 1 in
        if p ! j = 0x3D \<and> strncmp_eq key (drop start p) (j - start) then Some j
        else key_loop key p start i j
      else None)"
  by pat_completeness auto
termination
  by (relation "measure (\<lambda>(key, p, start, i, j). i - j)") auto

declare key_loop.simps [simp del]

text \<open>The lines of the section. \<open>Inl\<close>: where the loop stopped; \<open>Inr\<close>: line start, equals sign, line end.\<close>

lemma scan_ge: "scan stop p i = Inr k \<Longrightarrow> i \<le> k \<and> k < length p \<and> stop (p ! k)"
proof (induction stop p i rule: scan.induct)
  case (1 stop p i)
  then show ?case
    by (cases "i < length p") (auto simp: scan.simps [of stop p i] split: if_splits)
qed

function sec_loop :: "bytes \<Rightarrow> bytes \<Rightarrow> nat \<Rightarrow> (nat + nat \<times> nat \<times> nat) c_result" where
  "sec_loop key p i =
     c_bind (c_get p (i - 1)) (\<lambda>before.
     c_bind (c_get p i) (\<lambda>c.
     if (newline before \<and> left_barce c) \<or> end_of_string c then Inr (Inl i)
     else
       c_bind (scan (\<lambda>c. newline c \<or> end_of_string c) p i) (\<lambda>e.
       case (if p ! i \<noteq> 0x3B then key_loop key p i e i else None) of
         Some j \<Rightarrow> Inr (Inr (i, j, e))
       | None \<Rightarrow> sec_loop key p (e + 1))))"
  by pat_completeness auto
termination
  by (relation "measure (\<lambda>(key, p, i). length p - i)")
    (auto dest!: scan_ge simp: c_get_def split: if_splits)

declare sec_loop.simps [simp del]

lemma sec_loop_ge: "sec_loop key p i = Inr (Inl k) \<Longrightarrow> i \<le> k"
proof (induction "length p - i" arbitrary: i rule: less_induct)
  case less
  show ?case
  proof (rule ccontr)
    assume "\<not> i \<le> k"
    with less.prems obtain e where e: "i \<le> e" "e < length p" "sec_loop key p (e + 1) = Inr (Inl k)"
      by (subst (asm) sec_loop.simps) (auto split: if_splits option.splits dest: scan_ge)
    then have "e + 1 \<le> k"
      by (intro less.hyps) auto
    with e \<open>\<not> i \<le> k\<close> show False
      by simp
  qed
qed

function parse_loop :: "bytes \<Rightarrow> bytes \<Rightarrow> bytes \<Rightarrow> nat \<Rightarrow> ini_pos \<Rightarrow> (bool \<times> ini_pos) c_result" where
  "parse_loop section_name key p i pos =
     c_bind (c_get p i) (\<lambda>c.
     if end_of_string c then Inr (False, pos)
     else if (i = 0 \<or> newline (p ! (i - 1))) \<and> left_barce c then
       c_bind (scan (\<lambda>c. isright_brace c \<or> end_of_string c) p (i + 1)) (\<lambda>r.
       if strncmp_eq (drop (i + 1) p) section_name (r - (i + 1)) then
         c_bind (scan (\<lambda>c. \<not> isspace c) p (r + 1)) (\<lambda>k.
         let pos = pos\<lparr>sec_s := int (i + 1), sec_e := int k\<rparr> in
         c_bind (sec_loop key p k) (\<lambda>found. case found of
             Inr (start, j, e) \<Rightarrow>
               Inr (True, pos\<lparr>key_s := int start, key_e := int j - 1,
                              value_s := int j + 1, value_e := int e\<rparr>)
           | Inl k' \<Rightarrow> parse_loop section_name key p k' pos))
       else parse_loop section_name key p r pos)
     else parse_loop section_name key p (i + 1) pos)"
  by pat_completeness auto
termination
  by (relation "measure (\<lambda>(section_name, key, p, i, pos). length p - i)")
    (auto dest!: scan_ge sec_loop_ge simp: c_get_def split: if_splits)

declare parse_loop.simps [simp del]

definition parse_file :: "bytes \<Rightarrow> bytes \<Rightarrow> bytes \<Rightarrow> (bool \<times> ini_pos) c_result" where
  "parse_file section_name key buf =
     (if section_name = [] \<or> key = [] then Inl Assertion_Failed
      else parse_loop section_name key buf 0 no_pos)"

text \<open>\<^verbatim>\<open>strncpy(value, text, n)\<close>: the text and then zeros, \<open>n\<close> bytes in all.\<close>

definition strncpy :: "bytes \<Rightarrow> bytes \<Rightarrow> nat \<Rightarrow> bytes c_result" where
  "strncpy dest text n = memcpy_chk 0 (take n (c_string text @ replicate n 0)) dest"

definition read_profile_string ::
  "bytes \<Rightarrow> bytes \<Rightarrow> bytes \<Rightarrow> nat \<Rightarrow> bytes option \<Rightarrow> ini_disk \<Rightarrow> (int \<times> bytes) c_result" where
  "read_profile_string section_name key val sz default_value disk =
     (let dflt = (case default_value of
            None \<Rightarrow> Inr (0, val)
          | Some d \<Rightarrow> c_bind (strncpy val d sz) (\<lambda>val. Inr (0, val))) in
      if section_name = [] \<or> key = [] \<or> sz = 0 then Inl Assertion_Failed
      else
        c_bind (load_ini_file (disk_file disk) (replicate MAX_FILE_SIZE 0)) (\<lambda>(ok, buf, file_size).
        if \<not> ok then dflt
        else c_bind (parse_file section_name key buf) (\<lambda>(found, pos).
          if \<not> found then dflt
          else
            let cpcount = value_e pos - value_s pos;
                cpcount = (if int sz - 1 < cpcount then int sz - 1 else cpcount) in
            c_bind (memcpy_chk 0 (replicate sz 0) val) (\<lambda>val.
            c_bind (memcpy_chk 0 (take (nat cpcount) (drop (nat (value_s pos)) buf)) val) (\<lambda>val.
            c_bind (c_put (nat cpcount) 0 val) (\<lambda>val. Inr (1, val)))))))"

text \<open>
  \<^verbatim>\<open>sprintf\<close> into an array at an offset, and the same with a text of the file as its format: a
  conversion in it other than \<^verbatim>\<open>%%\<close> is a fault.
\<close>

definition sprintf_at :: "nat \<Rightarrow> bytes \<Rightarrow> bytes \<Rightarrow> bytes c_result" where
  "sprintf_at off text buf = memcpy_chk off (text @ [0]) buf"

fun format_text :: "bytes \<Rightarrow> bytes c_result" where
  "format_text [] = Inr []"
| "format_text (c # text) =
     (if c \<noteq> 0x25 then c_bind (format_text text) (\<lambda>t. Inr (c # t))
      else case text of
          [] \<Rightarrow> Inl Bad_Format
        | c' # text' \<Rightarrow> if c' = 0x25 then c_bind (format_text text') (\<lambda>t. Inr (0x25 # t))
                       else Inl Bad_Format)"

definition ini_binding :: "bytes \<Rightarrow> bytes \<Rightarrow> bytes" where
  "ini_binding key val = key @ [0x3D] @ val @ [0x0A]"

definition ini_section :: "bytes \<Rightarrow> bytes" where
  "ini_section section_name = [0x5B] @ section_name @ [0x5D, 0x0A]"

definition fputs :: "bytes \<Rightarrow> ini_disk \<Rightarrow> (bool \<times> ini_disk) c_result" where
  "fputs w_buf disk =
     (if 0 \<notin> set w_buf then Inl Out_Of_Bounds
      else Inr (length (c_string w_buf) \<le> disk_room disk,
                disk\<lparr>disk_file := Some (take (disk_room disk) (c_string w_buf))\<rparr>))"

definition new_contents :: "bytes \<Rightarrow> bytes \<Rightarrow> bytes \<Rightarrow> bytes \<Rightarrow> nat \<Rightarrow> ini_pos \<Rightarrow> bytes c_result" where
  "new_contents section_name key val buf file_size pos =
     (let w_buf = replicate MAX_FILE_SIZE 0 in
      if sec_s pos = -1 then
        if file_size = 0 then
          sprintf_at file_size (ini_section section_name @ ini_binding key val) w_buf
        else
          c_bind (memcpy_chk 0 (take file_size buf) w_buf)
            (sprintf_at file_size ([0x0A] @ ini_section section_name @ ini_binding key val))
      else if key_s pos = -1 then
        let e = nat (sec_e pos) in
        c_bind (memcpy_chk 0 (take e buf) w_buf) (\<lambda>w_buf.
        c_bind (sprintf_at e (ini_binding key val) w_buf) (\<lambda>w_buf.
        c_bind (format_text (c_string (drop e buf))) (\<lambda>text.
          sprintf_at (e + length key + length val + 2) text w_buf)))
      else
        let vs = nat (value_s pos); ve = nat (value_e pos) in
        c_bind (memcpy_chk 0 (take vs buf) w_buf) (\<lambda>w_buf.
        c_bind (memcpy_chk vs val w_buf)
          (memcpy_chk (vs + length val) (take (file_size - ve) (drop ve buf)))))"

definition write_profile_string ::
  "bytes \<Rightarrow> bytes \<Rightarrow> bytes \<Rightarrow> ini_disk \<Rightarrow> (int \<times> ini_disk) c_result" where
  "write_profile_string section_name key val disk =
     (if section_name = [] \<or> key = [] then Inl Assertion_Failed
      else
        c_bind (load_ini_file (disk_file disk) (replicate MAX_FILE_SIZE 0)) (\<lambda>(ok, buf, file_size).
        c_bind (if \<not> ok then Inr (False, no_pos) else parse_file section_name key buf)
          (\<lambda>(found, pos).
        c_bind (new_contents section_name key val buf file_size pos) (\<lambda>w_buf.
        if \<not> disk_writable disk then Inr (0, disk)
        else c_bind (fputs w_buf disk) (\<lambda>(ok, disk). Inr (if ok then 1 else 0, disk))))))"

section \<open>Scanning\<close>

lemma scan_reads:
  assumes "p = pre @ xs @ c # post" "\<forall>x \<in> set xs. \<not> stop x" "stop c"
  shows "scan stop p (length pre) = Inr (length pre + length xs)"
  using assms
proof (induction xs arbitrary: pre)
  case (Cons x xs)
  then have "scan stop p (length (pre @ [x])) = Inr (length (pre @ [x]) + length xs)"
    by (intro Cons.IH) auto
  then show ?case
    using Cons.prems by (subst scan.simps) (simp add: nth_append)
qed (subst scan.simps, simp add: nth_append)

lemma strncmp_eq_prefix:
  "0 \<notin> set a \<Longrightarrow> 0 \<notin> set b \<Longrightarrow> strncmp_eq b (a @ post) (length a) \<longleftrightarrow> prefix a b"
  by (induction a arbitrary: b) (auto simp: char0_def split: list.splits)

lemma strncmp_eq_sym: "strncmp_eq a b n = strncmp_eq b a n"
  by (induction n arbitrary: a b) auto

text \<open>The search of a key in its line.\<close>

lemma key_loop_walks:
  assumes "start \<le> j" "j < start + n" "start + n < i" "p ! (start + n) = 0x3D"
    "\<forall>m. j \<le> m \<and> m < start + n \<longrightarrow> p ! m \<noteq> 0x3D"
  shows "key_loop key p start i j =
    (if strncmp_eq key (drop start p) n then Some (start + n) else None)"
  using assms
proof (induction "start + n - j" arbitrary: j rule: less_induct)
  case less
  show ?case
  proof (cases "j + 1 = start + n")
    case True
    then show ?thesis
      using less.prems by (subst key_loop.simps) (simp add: key_loop.simps [of key p start i "start + n"])
  next
    case False
    then have "key_loop key p start i j = key_loop key p start i (j + 1)"
      using less.prems by (subst key_loop.simps) simp
    also have "\<dots> = (if strncmp_eq key (drop start p) n then Some (start + n) else None)"
      using less.prems False by (intro less.hyps) auto
    finally show ?thesis .
  qed
qed

section \<open>A file of bindings\<close>

text \<open>
  The abstract file: one section with its bindings in order. A key or value is plain when the
  scanner takes it as one: no terminator, no end of line, no \<^verbatim>\<open>0xFF\<close> (which \<^verbatim>\<open>fgetc\<close> is taken
  to answer at the end), no percent sign (the text becomes a format when a key is added).
\<close>

type_synonym binding = "bytes \<times> bytes"

definition plain :: "bytes \<Rightarrow> bool" where
  "plain s \<longleftrightarrow> set s \<inter> {0x00, 0x0A, 0x0D, 0x25, 0xFF} = {}"

definition plain_key :: "bytes \<Rightarrow> bool" where
  "plain_key k \<longleftrightarrow> k \<noteq> [] \<and> plain k \<and> 0x3D \<notin> set k \<and> hd k \<notin> {0x3B, 0x5B} \<and> \<not> isspace (hd k)"

definition plain_section :: "bytes \<Rightarrow> bool" where
  "plain_section s \<longleftrightarrow> s \<noteq> [] \<and> plain s \<and> 0x5D \<notin> set s"

definition bindings_text :: "binding list \<Rightarrow> bytes" where
  "bindings_text kvs = concat (map (\<lambda>(k, v). ini_binding k v) kvs)"

definition render :: "bytes \<Rightarrow> binding list \<Rightarrow> bytes" where
  "render section_name kvs = ini_section section_name @ bindings_text kvs"

definition plain_bindings :: "binding list \<Rightarrow> bool" where
  "plain_bindings kvs = list_all (\<lambda>(k, v). plain_key k \<and> plain v) kvs"

text \<open>
  What the code finds under a key: the first binding whose name is a prefix of the key. What it
  stores: the value of that binding, or a new binding at the front.
\<close>

fun ini_find :: "bytes \<Rightarrow> binding list \<Rightarrow> bytes option" where
  "ini_find key [] = None"
| "ini_find key ((k, v) # kvs) = (if prefix k key then Some v else ini_find key kvs)"

fun ini_replace :: "bytes \<Rightarrow> bytes \<Rightarrow> binding list \<Rightarrow> binding list option" where
  "ini_replace key val [] = None"
| "ini_replace key val ((k, v) # kvs) =
     (if prefix k key then Some ((k, val) # kvs)
      else map_option ((#) (k, v)) (ini_replace key val kvs))"

definition ini_store :: "bytes \<Rightarrow> bytes \<Rightarrow> binding list \<Rightarrow> binding list" where
  "ini_store key val kvs =
     (case ini_replace key val kvs of Some kvs' \<Rightarrow> kvs' | None \<Rightarrow> (key, val) # kvs)"

lemma bindings_text_simps [simp]:
  "bindings_text [] = []"
  "bindings_text ((k, v) # kvs) = k @ [0x3D] @ v @ [0x0A] @ bindings_text kvs"
  "bindings_text (us @ kvs) = bindings_text us @ bindings_text kvs"
  by (simp_all add: bindings_text_def ini_binding_def)

lemma plain_bindings_simps [simp]:
  "plain_bindings []"
  "plain_bindings ((k, v) # kvs) \<longleftrightarrow> plain_key k \<and> plain v \<and> plain_bindings kvs"
  "plain_bindings (us @ kvs) \<longleftrightarrow> plain_bindings us \<and> plain_bindings kvs"
  by (simp_all add: plain_bindings_def)

lemma plain_simps [simp]:
  "plain []" "plain (a @ b) \<longleftrightarrow> plain a \<and> plain b"
  "plain (c # s) \<longleftrightarrow> c \<notin> {0x00, 0x0A, 0x0D, 0x25, 0xFF} \<and> plain s"
  by (auto simp: plain_def)

lemma bindings_text_chars:
  "plain_bindings kvs \<Longrightarrow> set (bindings_text kvs) \<inter> {0x00, 0x0D, 0x25, 0xFF} = {}"
  by (induction kvs) (auto simp: plain_key_def plain_def)

lemma render_chars:
  "plain_section sn \<Longrightarrow> plain_bindings kvs \<Longrightarrow> set (render sn kvs) \<inter> {0x00, 0x0D, 0x25, 0xFF} = {}"
  using bindings_text_chars [of kvs]
  by (auto simp: render_def ini_section_def plain_section_def plain_def)

subsection \<open>One line\<close>

lemma key_loop_line:
  assumes p: "p = pre @ k @ [0x3D] @ post" and k: "plain_key k"
    and i: "length pre + length k < i" and key: "0 \<notin> set key"
  shows "key_loop key p (length pre) i (length pre) =
    (if prefix k key then Some (length pre + length k) else None)"
proof -
  have "key_loop key p (length pre) i (length pre) =
      (if strncmp_eq key (drop (length pre) p) (length k) then Some (length pre + length k) else None)"
  proof (rule key_loop_walks)
    show "\<forall>m. length pre \<le> m \<and> m < length pre + length k \<longrightarrow> p ! m \<noteq> 0x3D"
    proof (intro allI impI)
      fix m assume m: "length pre \<le> m \<and> m < length pre + length k"
      then have "p ! m = k ! (m - length pre)" "m - length pre < length k"
        using p by (auto simp: nth_append)
      then show "p ! m \<noteq> 0x3D"
        using k nth_mem [of "m - length pre" k] unfolding plain_key_def by metis
    qed
  qed (use p k i in \<open>auto simp: nth_append plain_key_def\<close>)
  moreover have "0 \<notin> set k"
    using k by (auto simp: plain_key_def plain_def)
  ultimately show ?thesis
    using strncmp_eq_prefix [of k key "[0x3D] @ post"] key p by simp
qed

lemma sec_loop_line:
  assumes p: "p = pre @ k @ [0x3D] @ v @ [0x0A] @ post" and pre: "pre \<noteq> []"
    and k: "plain_key k" and v: "plain v" and key: "0 \<notin> set key"
  shows "sec_loop key p (length pre) =
    (if prefix k key
     then Inr (Inr (length pre, length pre + length k, length pre + length k + 1 + length v))
     else sec_loop key p (length pre + length k + length v + 2))"
proof -
  have first: "p ! length pre = hd k" "length pre < length p"
    using p k by (auto simp: nth_append hd_conv_nth plain_key_def)
  have hdk: "hd k \<in> set k" "hd k \<noteq> 0x5B" "hd k \<noteq> 0x3B" "0 \<notin> set k"
    using k by (auto simp: plain_key_def plain_def)
  define e where "e = length pre + length k + 1 + length v"
  have "scan (\<lambda>c. newline c \<or> end_of_string c) p (length pre) =
      Inr (length pre + length (k @ [0x3D] @ v))"
    using p k v by (intro scan_reads [where c = "0x0A" and post = post])
      (auto simp: newline_def end_of_string_def plain_key_def plain_def)
  then have e: "scan (\<lambda>c. newline c \<or> end_of_string c) p (length pre) = Inr e"
    by (simp add: e_def)
  have kl: "key_loop key p (length pre) e (length pre) =
      (if prefix k key then Some (length pre + length k) else None)"
    using p k key by (intro key_loop_line [where post = "v @ [0x0A] @ post"]) (auto simp: e_def)
  have "\<not> left_barce (hd k)" "\<not> end_of_string (hd k)"
    using hdk by (auto simp: left_barce_def end_of_string_def)
  then have "sec_loop key p (length pre) = (if prefix k key
     then Inr (Inr (length pre, length pre + length k, e)) else sec_loop key p (e + 1))"
    using first hdk pre by (subst sec_loop.simps) (simp add: e kl)
  then show ?thesis
    by (simp add: e_def)
qed

subsection \<open>The whole file\<close>

lemma sec_loop_skips:
  assumes "p = pre @ bindings_text us @ post" "pre \<noteq> []" "plain_bindings us" "0 \<notin> set key"
    "ini_find key us = None"
  shows "sec_loop key p (length pre) = sec_loop key p (length pre + length (bindings_text us))"
  using assms
proof (induction us arbitrary: pre)
  case (Cons kv us)
  obtain k v where kv: "kv = (k, v)"
    by (cases kv)
  have "sec_loop key p (length pre) = sec_loop key p (length (pre @ ini_binding k v))"
    using Cons.prems kv
    by (subst sec_loop_line [where k = k and v = v and post = "bindings_text us @ post"])
      (auto simp: ini_binding_def add.assoc split: if_splits)
  also have "\<dots> = sec_loop key p (length (pre @ ini_binding k v) + length (bindings_text us))"
    using Cons.prems kv by (intro Cons.IH) (auto simp: ini_binding_def split: if_splits)
  finally show ?case
    by (simp add: kv ini_binding_def add.assoc)
qed simp

lemma ini_find_split:
  "ini_find key kvs = Some v \<Longrightarrow>
     \<exists>us k vs. kvs = us @ (k, v) # vs \<and> ini_find key us = None \<and> prefix k key"
proof (induction kvs)
  case (Cons kv kvs)
  obtain k w where kv: "kv = (k, w)"
    by (cases kv)
  show ?case
  proof (cases "prefix k key")
    case True
    with Cons.prems kv have "kv # kvs = [] @ (k, v) # kvs"
      by simp
    with True show ?thesis
      by (metis ini_find.simps(1))
  next
    case False
    with Cons kv obtain us k' vs
      where "kvs = us @ (k', v) # vs" "ini_find key us = None" "prefix k' key"
      by auto
    with False kv show ?thesis
      by (intro exI [of _ "kv # us"]) auto
  qed
qed simp

lemma ini_replace_None [simp]: "ini_replace key val kvs = None \<longleftrightarrow> ini_find key kvs = None"
  by (induction key kvs rule: ini_find.induct) auto

lemma ini_store_None: "ini_find key kvs = None \<Longrightarrow> ini_store key val kvs = (key, val) # kvs"
  by (simp add: ini_store_def ini_replace_None [THEN iffD2])

lemma ini_replace_split:
  "ini_find key us = None \<Longrightarrow> prefix k key \<Longrightarrow>
     ini_replace key val (us @ (k, v) # vs) = Some (us @ (k, val) # vs)"
  by (induction key us rule: ini_find.induct) (auto split: if_splits)

definition header_length :: "bytes \<Rightarrow> nat" where
  "header_length section_name = length section_name + 3"

lemma length_ini_section [simp]: "length (ini_section sn) = header_length sn"
  by (simp add: ini_section_def header_length_def)

lemma ini_section_ends [simp]: "ini_section sn \<noteq> []" "last (ini_section sn) = 0x0A"
  by (simp_all add: ini_section_def)

lemma bindings_text_head:
  "plain_bindings kvs \<Longrightarrow> \<exists>c rest. bindings_text kvs @ 0 # post = c # rest \<and> \<not> isspace c"
  by (cases kvs) (auto simp: plain_key_def isspace_def neq_Nil_conv)

text \<open>Where the scanner is once it has recognised the section.\<close>

lemma parse_header:
  assumes p: "p = render sn kvs @ 0 # post" and sn: "plain_section sn" and kvs: "plain_bindings kvs"
    and key: "key \<noteq> []"
  shows "parse_file sn key p =
    (let pos = no_pos\<lparr>sec_s := 1, sec_e := int (header_length sn)\<rparr> in
     c_bind (sec_loop key p (header_length sn)) (\<lambda>found. case found of
       Inr (start, j, e) \<Rightarrow>
         Inr (True, pos\<lparr>key_s := int start, key_e := int j - 1,
                        value_s := int j + 1, value_e := int e\<rparr>)
     | Inl k \<Rightarrow> parse_loop sn key p k pos))"
proof -
  have len: "length (ini_section sn) = length sn + 3"
    by (simp add: header_length_def)
  obtain c rest where c: "bindings_text kvs @ 0 # post = c # rest" "\<not> isspace c"
    using bindings_text_head [OF kvs] by blast
  have p': "p = [0x5B] @ sn @ [0x5D] @ [0x0A] @ c # rest"
    using p c by (simp add: render_def ini_section_def)
  have brace: "scan (\<lambda>c. isright_brace c \<or> end_of_string c) p 1 = Inr (1 + length sn)"
    using p' sn scan_reads [where p = p and pre = "[0x5B]" and xs = sn and c = "0x5D"
        and post = "[0x0A] @ c # rest" and stop = "\<lambda>c. isright_brace c \<or> end_of_string c"]
    by (auto simp: isright_brace_def end_of_string_def plain_section_def plain_def)
  have space: "scan (\<lambda>c. \<not> isspace c) p (length sn + 2) = Inr (length sn + 3)"
    using p' c scan_reads [where p = p and pre = "[0x5B] @ sn @ [0x5D]" and xs = "[0x0A]" and c = c
        and post = rest and stop = "\<lambda>c. \<not> isspace c"]
    by (auto simp: isspace_def)
  have match: "strncmp_eq (drop 1 p) sn (length sn)"
    using p' sn strncmp_eq_prefix [of sn sn] strncmp_eq_sym
    by (simp add: plain_section_def plain_def)
  have "sn \<noteq> []"
    using sn by (simp add: plain_section_def)
  then have "parse_file sn key p = parse_loop sn key p 0 no_pos"
    using key by (simp add: parse_file_def)
  also have "\<dots> = (let pos = no_pos\<lparr>sec_s := 1, sec_e := int (header_length sn)\<rparr> in
     c_bind (sec_loop key p (header_length sn)) (\<lambda>found. case found of
       Inr (start, j, e) \<Rightarrow>
         Inr (True, pos\<lparr>key_s := int start, key_e := int j - 1,
                        value_s := int j + 1, value_e := int e\<rparr>)
     | Inl k \<Rightarrow> parse_loop sn key p k pos))"
    using brace space match p'
    by (subst parse_loop.simps)
      (simp add: end_of_string_def left_barce_def header_length_def Let_def)
  finally show ?thesis .
qed

lemma parse_render_None:
  assumes "p = render sn kvs @ 0 # post" "plain_section sn" "plain_bindings kvs" "key \<noteq> []"
    "0 \<notin> set key" "ini_find key kvs = None"
  shows "parse_file sn key p =
    Inr (False, no_pos\<lparr>sec_s := 1, sec_e := int (header_length sn)\<rparr>)"
proof -
  let ?k = "length (ini_section sn) + length (bindings_text kvs)"
  have zero: "p ! ?k = 0" "?k < length p"
    using assms(1) by (auto simp: render_def nth_append)
  have "sec_loop key p (length (ini_section sn)) = sec_loop key p ?k"
    using assms by (intro sec_loop_skips [where post = "0 # post"]) (auto simp: render_def)
  also have "\<dots> = Inr (Inl ?k)"
    using zero by (subst sec_loop.simps) (simp add: end_of_string_def)
  finally have "sec_loop key p (header_length sn) = Inr (Inl ?k)"
    by simp
  moreover have "parse_loop sn key p ?k pos = Inr (False, pos)" for pos
    using zero by (subst parse_loop.simps) (simp add: end_of_string_def)
  ultimately show ?thesis
    using assms by (subst parse_header [OF assms(1)]) simp_all
qed

lemma parse_render_Some:
  assumes "p = render sn (us @ (k, v) # vs) @ 0 # post" "plain_section sn"
    "plain_bindings (us @ (k, v) # vs)" "key \<noteq> []" "0 \<notin> set key" "ini_find key us = None"
    "prefix k key"
  defines "start \<equiv> header_length sn + length (bindings_text us)"
  shows "parse_file sn key p =
    Inr (True, \<lparr>sec_s = 1, sec_e = int (header_length sn), key_s = int start,
      key_e = int (start + length k) - 1, value_s = int (start + length k + 1),
      value_e = int (start + length k + 1 + length v)\<rparr>)"
proof -
  let ?pre = "ini_section sn @ bindings_text us"
  have p: "p = ini_section sn @ bindings_text us @ k @ [0x3D] @ v @ [0x0A] @ bindings_text vs @ 0 # post"
    using assms(1) by (simp add: render_def)
  have "sec_loop key p (length (ini_section sn)) =
      sec_loop key p (length (ini_section sn) + length (bindings_text us))"
    using assms p by (intro sec_loop_skips) auto
  also have "\<dots> = sec_loop key p (length ?pre)"
    by simp
  also have "\<dots> = Inr (Inr (length ?pre, length ?pre + length k, length ?pre + length k + 1 + length v))"
    using assms p by (subst sec_loop_line [where pre = ?pre and k = k and v = v]) auto
  finally have "sec_loop key p (header_length sn) =
      Inr (Inr (start, start + length k, start + length k + 1 + length v))"
    by (simp add: start_def)
  then show ?thesis
    using assms by (subst parse_header [OF assms(1)]) (simp_all add: no_pos_def)
qed

lemma load_loop_reads:
  assumes "0xFF \<notin> set input" "i + length input < MAX_FILE_SIZE" "length buf = MAX_FILE_SIZE"
  shows "load_loop input i buf = Inr (memcpy_at i (input @ [0]) buf, i + length input)"
  using assms
proof (induction input arbitrary: i buf)
  case Nil
  then show ?case
    using memcpy_at_Cons [of i buf "[]" 0] by simp
next
  case (Cons c input)
  then show ?case
    using memcpy_at_Cons [of i buf "input @ [0]" c] by simp
qed

lemma load_ini_file_reads:
  assumes "0xFF \<notin> set input" "length input < MAX_FILE_SIZE"
  shows "load_ini_file (Some input) (replicate MAX_FILE_SIZE 0) =
    Inr (True, input @ replicate (MAX_FILE_SIZE - length input) 0, length input)"
  using assms load_loop_reads [of input 0 "replicate MAX_FILE_SIZE 0"]
  by (simp add: load_ini_file_def memcpy_at_def Cons_replicate_eq)

lemma load_render:
  assumes "plain_section sn" "plain_bindings kvs" "length (render sn kvs) < MAX_FILE_SIZE"
  shows "load_ini_file (Some (render sn kvs)) (replicate MAX_FILE_SIZE 0) =
    Inr (True, render sn kvs @ 0 # replicate (8191 - length (render sn kvs)) 0,
         length (render sn kvs))"
proof -
  have "MAX_FILE_SIZE - length (render sn kvs) = Suc (8191 - length (render sn kvs))"
    using assms(3) by simp
  then show ?thesis
    using assms render_chars [of sn kvs] by (subst load_ini_file_reads) auto
qed

section \<open>Reading\<close>

definition ini_bindings :: "bytes \<Rightarrow> ini_disk \<Rightarrow> binding list \<Rightarrow> bool" where
  "ini_bindings sn d kvs \<longleftrightarrow> plain_section sn \<and> plain_bindings kvs \<and>
     (disk_file d = None \<and> kvs = [] \<or>
      disk_file d = Some (render sn kvs) \<and> length (render sn kvs) < MAX_FILE_SIZE)"

text \<open>The array a value is delivered in, cut to its size and padded with zeros.\<close>

definition delivered :: "nat \<Rightarrow> bytes \<Rightarrow> bytes" where
  "delivered sz v = take (sz - 1) v @ replicate (sz - length (take (sz - 1) v)) 0"

lemma length_delivered [simp]: "length (delivered sz v) = sz"
  by (auto simp: delivered_def)

lemma c_string_delivered:
  "plain v \<Longrightarrow> sz > 0 \<Longrightarrow> c_string (delivered sz v) = take (sz - 1) v"
proof -
  assume v: "plain v" and sz: "sz > 0"
  have "\<forall>b \<in> set (take (sz - 1) v). b \<noteq> 0"
    using v set_take_subset [of "sz - 1" v] by (auto simp: plain_def)
  moreover obtain m where "sz - length (take (sz - 1) v) = Suc m"
    using sz by (metis Suc_pred diff_less length_take less_imp_diff_less min_less_iff_conj
        zero_less_diff zero_less_one le_less_trans min.cobounded2)
  ultimately show ?thesis
    by (simp add: c_string_def delivered_def takeWhile_append2)
qed

lemma replicate_update_same: "(replicate n x)[i := x] = replicate n x"
  by (induction n arbitrary: i) (auto split: nat.split)

lemma read_profile_string_finds:
  assumes d: "ini_bindings sn d kvs" and key: "key \<noteq> []" "0 \<notin> set key"
    and sz: "sz > 0" "length val = sz"
  shows "read_profile_string sn key val sz dflt d =
    (case ini_find key kvs of
       Some v \<Rightarrow> Inr (1, delivered sz v)
     | None \<Rightarrow> Inr (0, case dflt of None \<Rightarrow> val
                | Some t \<Rightarrow> take sz (c_string t @ replicate sz 0)))"
proof -
  have sn: "sn \<noteq> []" "plain_section sn" "plain_bindings kvs"
    using d by (auto simp: ini_bindings_def plain_section_def)
  have strncpy_eq: "strncpy val t sz = Inr (take sz (c_string t @ replicate sz 0))" for t
    using sz by (simp add: strncpy_def memcpy_at_def)
  show ?thesis
  proof (cases "disk_file d")
    case None
    then show ?thesis
      using d key sz sn by (auto simp: read_profile_string_def load_ini_file_def ini_bindings_def
          strncpy_eq split: option.splits)
  next
    case (Some f)
    then have f: "f = render sn kvs" "length f < MAX_FILE_SIZE"
      using d by (auto simp: ini_bindings_def)
    note load = load_render [OF sn(2,3) f(2) [unfolded f(1)]]
    show ?thesis
    proof (cases "ini_find key kvs")
      case None
      then show ?thesis
        using key sz sn Some f(1) parse_render_None [OF refl sn(2,3) key None]
        by (auto simp: read_profile_string_def load strncpy_eq split: option.splits)
    next
      case found: (Some v)
      then obtain us k vs where kvs: "kvs = us @ (k, v) # vs" "ini_find key us = None" "prefix k key"
        using ini_find_split by blast
      define p where "p = render sn kvs @ 0 # replicate (8191 - length (render sn kvs)) 0"
      define start where "start = header_length sn + length (bindings_text us) + length k + 1"
      obtain pos where parsed: "parse_file sn key p = Inr (True, pos)"
          and pos: "value_e pos - value_s pos = int (length v)" "nat (value_s pos) = start"
        using sn kvs key parse_render_Some [where us = us and k = k and v = v and vs = vs
            and p = p and sn = sn and key = key] by (simp add: p_def start_def)
      obtain tail where "p = render sn kvs @ 0 # tail"
        by (simp add: p_def)
      then have "drop start p = v @ [0x0A] @ bindings_text vs @ 0 # tail"
        unfolding kvs(1) by (simp add: render_def start_def)
      then have value_text: "take n (drop start p) = take n v" if "n \<le> length v" for n
        using that by simp
      define cp where "cp = min (length v) (sz - 1)"
      have "cp < sz"
        using sz(1) unfolding cp_def by linarith
      then have fits: "cp \<le> length v" "cp < sz" "length (take cp v) = cp"
          "take cp v = take (sz - 1) v"
        by (auto simp: cp_def min_def)
      have cp: "(if int sz - 1 < int (length v) then int sz - 1 else int (length v)) = int cp"
        using sz by (auto simp: cp_def)
      have "(memcpy_at 0 (take cp v) (replicate sz 0))[cp := 0] = delivered sz v"
        using fits by (simp add: memcpy_at_def delivered_def list_update_append
            replicate_update_same)
      moreover have "memcpy_at 0 (replicate sz 0) val = replicate sz 0"
        using sz by (simp add: memcpy_at_def)
      ultimately have copied: "c_bind (memcpy_chk 0 (replicate sz 0) val) (\<lambda>val.
          c_bind (memcpy_chk 0 (take cp v) val) (\<lambda>val. c_bind (c_put cp 0 val)
            (\<lambda>val. Inr (1 :: int, val)))) = Inr (1, delivered sz v)"
        using fits sz by (simp add: memcpy_chk_def)
      have "read_profile_string sn key val sz dflt d =
          c_bind (memcpy_chk 0 (replicate sz 0) val) (\<lambda>val.
          c_bind (memcpy_chk 0 (take cp v) val) (\<lambda>val. c_bind (c_put cp 0 val)
            (\<lambda>val. Inr (1, val))))"
        using key sz sn Some f(1) fits value_text [of cp]
        by (simp only: read_profile_string_def load p_def [symmetric] parsed pos cp Let_def c_bind_simps
            gr_implies_not_zero prod.case option.case if_True if_False simp_thms nat_int list.distinct neq0_conv)
      then show ?thesis
        using copied found by simp
    qed
  qed
qed

section \<open>Writing\<close>

lemma memcpy_zeros:
  assumes "length a = n" "length xs \<le> m"
  shows "memcpy_chk n xs (a @ replicate m 0) = Inr (a @ xs @ replicate (m - length xs) 0)"
  using assms by (simp add: memcpy_at_def)

lemma memcpy_all_zeros:
  "length xs \<le> m \<Longrightarrow> memcpy_chk 0 xs (replicate m 0) = Inr (xs @ replicate (m - length xs) 0)"
  using memcpy_zeros [of "[]" 0 xs m] by simp

lemma sprintf_zeros:
  assumes "length a = n" "length xs < m"
  shows "sprintf_at n xs (a @ replicate m 0) = Inr (a @ xs @ replicate (m - length xs) 0)"
  using assms by (simp add: sprintf_at_def memcpy_at_def Suc_diff_Suc flip: replicate_Suc)

lemma format_text_plain: "0x25 \<notin> set s \<Longrightarrow> format_text s = Inr s"
  by (induction s) auto

lemma c_string_padded: "0 \<notin> set s \<Longrightarrow> c_string (s @ 0 # post) = s"
  unfolding c_string_def by (subst takeWhile_append2) auto

lemma bindings_text_store_length:
  "length (bindings_text (ini_store key val kvs)) \<le>
     length (bindings_text kvs) + length key + length val + 2"
proof (cases "ini_find key kvs")
  case None
  then show ?thesis
    by (simp add: ini_store_None)
next
  case (Some v)
  then obtain us k vs where "kvs = us @ (k, v) # vs" "ini_find key us = None" "prefix k key"
    using ini_find_split by blast
  then show ?thesis
    by (simp add: ini_store_def ini_replace_split)
qed

text \<open>The array that is written back, in the three cases of the code.\<close>

lemma new_contents_fresh:
  assumes "length (render sn [(key, val)]) < MAX_FILE_SIZE"
  shows "new_contents sn key val buf 0 no_pos =
    Inr (render sn [(key, val)] @ replicate (MAX_FILE_SIZE - length (render sn [(key, val)])) 0)"
proof -
  let ?t = "ini_section sn @ ini_binding key val"
  have t: "render sn [(key, val)] = ?t"
    by (simp add: render_def ini_binding_def)
  show ?thesis
    using assms sprintf_zeros [of "[]" 0 ?t MAX_FILE_SIZE] unfolding t
    by (simp add: new_contents_def no_pos_def)
qed

lemma new_contents_added:
  assumes "plain_bindings kvs" "length (render sn ((key, val) # kvs)) < MAX_FILE_SIZE"
  shows "new_contents sn key val (render sn kvs @ 0 # post) n
      (no_pos\<lparr>sec_s := 1, sec_e := int (header_length sn)\<rparr>) =
    Inr (render sn ((key, val) # kvs) @
         replicate (MAX_FILE_SIZE - length (render sn ((key, val) # kvs))) 0)"
proof -
  let ?b = "ini_binding key val" and ?h = "ini_section sn" and ?t = "bindings_text kvs"
  have chars: "0 \<notin> set ?t" "0x25 \<notin> set ?t"
    using bindings_text_chars [OF assms(1)] by auto
  have lb: "length ?b = length key + length val + 2"
    by (simp add: ini_binding_def)
  have len: "header_length sn + length ?b + length ?t < MAX_FILE_SIZE"
    using assms(2) by (simp add: render_def lb)
  define m where "m = MAX_FILE_SIZE - header_length sn"
  have 1: "memcpy_chk 0 (take (header_length sn) (render sn kvs @ 0 # post)) (replicate MAX_FILE_SIZE 0)
      = Inr (?h @ replicate m 0)"
    using len memcpy_all_zeros [of ?h MAX_FILE_SIZE] by (simp add: render_def m_def)
  have 2: "sprintf_at (header_length sn) ?b (?h @ replicate m 0) =
      Inr ((?h @ ?b) @ replicate (m - length ?b) 0)"
    using len sprintf_zeros [of ?h "header_length sn" ?b m] by (simp add: m_def)
  have 3: "format_text (c_string (drop (header_length sn) (render sn kvs @ 0 # post))) = Inr ?t"
    using chars by (simp add: render_def c_string_padded format_text_plain)
  have 4: "sprintf_at (header_length sn + length key + length val + 2) ?t
      ((?h @ ?b) @ replicate (m - length ?b) 0) =
      Inr ((?h @ ?b) @ ?t @ replicate (m - length ?b - length ?t) 0)"
    using len lb by (intro sprintf_zeros) (simp_all add: m_def)
  have render: "render sn ((key, val) # kvs) = (?h @ ?b) @ ?t"
    by (simp add: render_def ini_binding_def)
  have "new_contents sn key val (render sn kvs @ 0 # post) n
      (no_pos\<lparr>sec_s := 1, sec_e := int (header_length sn)\<rparr>) =
      Inr ((?h @ ?b) @ ?t @ replicate (m - length ?b - length ?t) 0)"
    unfolding new_contents_def Let_def no_pos_def
    by (simp only: ini_pos.simps ini_pos.update_convs nat_int 1 2 3 4 c_bind_simps if_False if_True) simp
  then show ?thesis
    by (simp add: render m_def lb)
qed

lemma new_contents_replaced:
  assumes kvs: "kvs = us @ (k, v) # vs" and kvs': "kvs' = us @ (k, val) # vs"
    and fits: "length (render sn kvs') < MAX_FILE_SIZE"
    and start: "start = header_length sn + length (bindings_text us) + length k + 1"
    and pos: "sec_s pos \<noteq> -1" "key_s pos \<noteq> -1" "nat (value_s pos) = start"
      "nat (value_e pos) = start + length v"
  shows "new_contents sn key val (render sn kvs @ post) (length (render sn kvs)) pos =
    Inr (render sn kvs' @ replicate (MAX_FILE_SIZE - length (render sn kvs')) 0)"
proof -
  let ?a = "ini_section sn @ bindings_text us @ k @ [0x3D]"
    and ?c = "[0x0A] @ bindings_text vs"
  have old: "render sn kvs = ?a @ v @ ?c" and new: "render sn kvs' = ?a @ val @ ?c"
    by (simp_all add: kvs kvs' render_def)
  have la: "length ?a = start"
    by (simp add: start)
  have len: "start + length val + length ?c < MAX_FILE_SIZE"
    using fits unfolding new by (simp add: start)
  have 1: "memcpy_chk 0 (take start (render sn kvs @ post)) (replicate MAX_FILE_SIZE 0) =
      Inr (?a @ replicate (MAX_FILE_SIZE - start) 0)"
    using len memcpy_all_zeros [of ?a MAX_FILE_SIZE] unfolding old la [symmetric] by simp
  have 2: "memcpy_chk start val (?a @ replicate (MAX_FILE_SIZE - start) 0) =
      Inr ((?a @ val) @ replicate (MAX_FILE_SIZE - start - length val) 0)"
    using len la memcpy_zeros [of ?a start val "MAX_FILE_SIZE - start"] by simp
  have "drop (start + length v) (render sn kvs @ post) = ?c @ post"
    unfolding old la [symmetric] by simp
  moreover have "length (render sn kvs) - (start + length v) = length ?c"
    unfolding old la [symmetric] by simp
  ultimately have 3: "take (length (render sn kvs) - (start + length v))
      (drop (start + length v) (render sn kvs @ post)) = ?c"
    by simp
  have 4: "memcpy_chk (start + length val) ?c ((?a @ val) @ replicate (MAX_FILE_SIZE - start - length val) 0) =
      Inr ((?a @ val) @ ?c @ replicate (MAX_FILE_SIZE - start - length val - length ?c) 0)"
    using len la by (intro memcpy_zeros) simp_all
  have "new_contents sn key val (render sn kvs @ post) (length (render sn kvs)) pos =
      Inr ((?a @ val) @ ?c @ replicate (MAX_FILE_SIZE - start - length val - length ?c) 0)"
    unfolding new_contents_def Let_def by (simp only: pos 1 2 3 4 c_bind_simps if_False)
  then show ?thesis
    using la by (simp add: new)
qed

lemma plain_bindings_store:
  assumes "plain_bindings kvs" "plain_key key" "plain val"
  shows "plain_bindings (ini_store key val kvs)"
proof (cases "ini_find key kvs")
  case None
  then show ?thesis
    using assms by (simp add: ini_store_None)
next
  case (Some v)
  then obtain us k vs where "kvs = us @ (k, v) # vs" "ini_find key us = None" "prefix k key"
    using ini_find_split by blast
  then show ?thesis
    using assms by (simp add: ini_store_def ini_replace_split)
qed

text \<open>The array computed from what the disk holds, whichever case applies.\<close>

definition next_file :: "bytes \<Rightarrow> bytes \<Rightarrow> bytes \<Rightarrow> binding list \<Rightarrow> bytes" where
  "next_file sn key val kvs = render sn (ini_store key val kvs)"

lemma write_computes:
  assumes d: "ini_bindings sn d kvs" and key: "plain_key key"
    and fits: "length (next_file sn key val kvs) < MAX_FILE_SIZE"
  obtains ok buf n found pos where
    "load_ini_file (disk_file d) (replicate MAX_FILE_SIZE 0) = Inr (ok, buf, n)"
    "(if \<not> ok then Inr (False, no_pos) else parse_file sn key buf) = Inr (found, pos)"
    "new_contents sn key val buf n pos = Inr (next_file sn key val kvs @
       replicate (MAX_FILE_SIZE - length (next_file sn key val kvs)) 0)"
proof (cases "disk_file d")
  case None
  then have "kvs = []"
    using d by (simp add: ini_bindings_def)
  then have nf: "next_file sn key val kvs = render sn [(key, val)]"
    by (simp add: next_file_def ini_store_None)
  show ?thesis
    using None new_contents_fresh [of sn key val] fits
    by (intro that [of False _ 0 False no_pos]) (simp_all add: nf load_ini_file_def)
next
  case (Some f)
  have sn: "sn \<noteq> []" "plain_section sn" "plain_bindings kvs"
    using d by (auto simp: ini_bindings_def plain_section_def)
  have f: "f = render sn kvs" "length (render sn kvs) < MAX_FILE_SIZE"
    using d Some by (auto simp: ini_bindings_def)
  have key': "key \<noteq> []" "0 \<notin> set key"
    using key by (auto simp: plain_key_def plain_def)
  obtain post where load: "load_ini_file (disk_file d) (replicate MAX_FILE_SIZE 0) =
      Inr (True, render sn kvs @ 0 # post, length (render sn kvs))"
    using load_render [OF sn(2,3) f(2)] Some f(1) by auto
  show ?thesis
  proof (cases "ini_find key kvs")
    case None
    then have nf: "next_file sn key val kvs = render sn ((key, val) # kvs)"
      by (simp add: next_file_def ini_store_None)
    show ?thesis
      using None load parse_render_None [OF refl sn(2,3) key' None]
        new_contents_added [OF sn(3) fits [unfolded nf]]
      by (intro that [of True "render sn kvs @ 0 # post" "length (render sn kvs)" False
            "no_pos\<lparr>sec_s := 1, sec_e := int (header_length sn)\<rparr>"]) (simp_all add: nf)
  next
    case found: (Some v)
    then obtain us k vs where kvs: "kvs = us @ (k, v) # vs" "ini_find key us = None" "prefix k key"
      using ini_find_split by blast
    then have nf: "next_file sn key val kvs = render sn (us @ (k, val) # vs)"
      by (simp add: next_file_def ini_store_def ini_replace_split)
    obtain pos where parsed: "parse_file sn key (render sn kvs @ 0 # post) = Inr (True, pos)"
      and pos: "sec_s pos \<noteq> -1" "key_s pos \<noteq> -1"
        "nat (value_s pos) = header_length sn + length (bindings_text us) + length k + 1"
        "nat (value_e pos) = header_length sn + length (bindings_text us) + length k + 1 + length v"
      using sn kvs key' parse_render_Some [where us = us and k = k and v = v and vs = vs
          and sn = sn and key = key and post = post, OF refl] by simp
    show ?thesis
      using load parsed new_contents_replaced [OF kvs(1) refl fits [unfolded nf] refl pos]
      by (intro that [of True "render sn kvs @ 0 # post" "length (render sn kvs)" True pos])
        (simp_all add: nf)
  qed
qed

lemma next_file_chars:
  assumes "ini_bindings sn d kvs" "plain_key key" "plain val"
  shows "0 \<notin> set (next_file sn key val kvs)"
  using render_chars [of sn "ini_store key val kvs"] plain_bindings_store assms
  by (auto simp: next_file_def ini_bindings_def)

lemma write_profile_string_stores:
  assumes d: "ini_bindings sn d kvs" and key: "plain_key key" and val: "plain val"
    and fits: "length (next_file sn key val kvs) < MAX_FILE_SIZE"
  shows "write_profile_string sn key val d =
    Inr (if disk_writable d then
           (if length (next_file sn key val kvs) \<le> disk_room d then 1 else 0,
            d\<lparr>disk_file := Some (take (disk_room d) (next_file sn key val kvs))\<rparr>)
         else (0, d))"
proof -
  let ?t = "next_file sn key val kvs"
  have nonempty: "sn \<noteq> []" "key \<noteq> []"
    using d key by (auto simp: ini_bindings_def plain_section_def plain_key_def)
  have "replicate (MAX_FILE_SIZE - length ?t) (0 :: byte) =
      0 # replicate (MAX_FILE_SIZE - length ?t - 1) 0"
    using fits by (metis Suc_diff_1 replicate_Suc zero_less_diff)
  then have text_of: "c_string (?t @ replicate (MAX_FILE_SIZE - length ?t) 0) = ?t"
      "0 \<in> set (?t @ replicate (MAX_FILE_SIZE - length ?t) 0)"
    using next_file_chars [OF d key val] c_string_padded by simp_all
  obtain ok buf n found pos where
    "load_ini_file (disk_file d) (replicate MAX_FILE_SIZE 0) = Inr (ok, buf, n)"
    "(if \<not> ok then Inr (False, no_pos) else parse_file sn key buf) = Inr (found, pos)"
    "new_contents sn key val buf n pos = Inr (?t @ replicate (MAX_FILE_SIZE - length ?t) 0)"
    by (rule write_computes [OF d key fits])
  then show ?thesis
    using nonempty text_of unfolding write_profile_string_def
    by (simp add: fputs_def split: prod.splits)
qed

lemma write_keeps_bindings:
  assumes "ini_bindings sn d kvs" "plain_key key" "plain val"
    "length (next_file sn key val kvs) < MAX_FILE_SIZE"
  shows "ini_bindings sn (d\<lparr>disk_file := Some (next_file sn key val kvs)\<rparr>) (ini_store key val kvs)"
  using assms plain_bindings_store by (auto simp: ini_bindings_def next_file_def)

section \<open>The scanner on any file\<close>

text \<open>
  An array with two zeros at \<open>n\<close> and \<open>n + 1\<close> holds every scan that starts before them: the loops
  step over the terminator at most once.
\<close>

definition two_zeros :: "bytes \<Rightarrow> nat \<Rightarrow> bool" where
  "two_zeros p n \<longleftrightarrow> n + 1 < length p \<and> p ! n = 0 \<and> p ! (n + 1) = 0"

lemma scan_stops:
  assumes "i \<le> k" "k < length p" "stop (p ! k)"
  shows "\<exists>m. scan stop p i = Inr m \<and> i \<le> m \<and> m \<le> k \<and> stop (p ! m)"
  using assms
proof (induction "k - i" arbitrary: i rule: less_induct)
  case less
  show ?case
  proof (cases "stop (p ! i)")
    case True
    then show ?thesis
      using less.prems by (subst scan.simps) auto
  next
    case False
    then have "i < k"
      using less.prems by (cases "i = k") auto
    then have "k - (i + 1) < k - i"
      by simp
    from less.hyps [OF this] obtain m
      where "scan stop p (i + 1) = Inr m" "i + 1 \<le> m" "m \<le> k" "stop (p ! m)"
      using less.prems \<open>i < k\<close> by auto
    then show ?thesis
      using False less.prems by (subst scan.simps) auto
  qed
qed

lemma scan_two_zeros:
  assumes "two_zeros p n" "stop 0" "i \<le> n + 1"
  shows "\<exists>m. scan stop p i = Inr m \<and> i \<le> m \<and> m \<le> max i n \<and> stop (p ! m)"
  using assms scan_stops [of i "max i n" p stop]
  by (cases "i = n + 1") (auto simp: two_zeros_def max_def)

lemma key_loop_Some:
  "key_loop key p start i j = Some k \<Longrightarrow> j < k \<and> k \<le> i \<and> p ! k = 0x3D"
proof (induction key p start i j rule: key_loop.induct)
  case (1 key p start i j)
  then show ?case
    by (subst (asm) (2) key_loop.simps) (auto simp: Let_def split: if_splits)
qed

lemma sec_loop_safe:
  assumes "two_zeros p n" "1 \<le> i" "i \<le> n + 1"
  shows "(\<exists>k. sec_loop key p i = Inr (Inl k) \<and> k \<le> n + 1) \<or>
         (\<exists>s j e. sec_loop key p i = Inr (Inr (s, j, e)) \<and> j < e \<and> e \<le> n)"
  using assms(2,3)
proof (induction "n + 1 - i" arbitrary: i rule: less_induct)
  case less
  show ?case
  proof (cases "(newline (p ! (i - 1)) \<and> left_barce (p ! i)) \<or> end_of_string (p ! i)")
    case True
    then have "sec_loop key p i = Inr (Inl i)"
      using less.prems assms(1) by (subst sec_loop.simps) (auto simp: two_zeros_def)
    then show ?thesis
      using less.prems by simp
  next
    case False
    then have "i \<le> n"
      using less.prems assms(1) by (cases "i = n + 1") (auto simp: two_zeros_def end_of_string_def)
    then obtain e where e: "scan (\<lambda>c. newline c \<or> end_of_string c) p i = Inr e" "i \<le> e" "e \<le> n"
        "newline (p ! e) \<or> end_of_string (p ! e)"
      using scan_two_zeros [OF assms(1), of "\<lambda>c. newline c \<or> end_of_string c" i]
      by (auto simp: end_of_string_def max_def)
    let ?r = "if p ! i \<noteq> 0x3B then key_loop key p i e i else None"
    have eq: "sec_loop key p i =
        (case ?r of Some j \<Rightarrow> Inr (Inr (i, j, e)) | None \<Rightarrow> sec_loop key p (e + 1))"
      using False less.prems assms(1) e(1)
      by (subst sec_loop.simps) (auto simp: two_zeros_def split: option.splits)
    show ?thesis
    proof (cases ?r)
      case None
      then show ?thesis
        using less.hyps [of "e + 1"] e eq \<open>i \<le> n\<close> by simp
    next
      case (Some j)
      then have "key_loop key p i e i = Some j"
        by (auto split: if_splits)
      then have "j \<le> e" "p ! j = 0x3D"
        using key_loop_Some by blast+
      then have "j < e"
        using e(4) by (cases "j = e") (auto simp: newline_def end_of_string_def)
      then show ?thesis
        using eq Some e(3) by auto
    qed
  qed
qed

lemma parse_loop_safe:
  assumes "two_zeros p n" "i \<le> n + 1"
  shows "\<exists>found pos'. parse_loop sn key p i pos = Inr (found, pos') \<and>
    (found \<longrightarrow> 0 \<le> value_s pos' \<and> value_s pos' \<le> value_e pos' \<and> value_e pos' \<le> int n)"
  using assms(2)
proof (induction "n + 1 - i" arbitrary: i pos rule: less_induct)
  case less
  have in_p: "i < length p"
    using less.prems assms(1) by (simp add: two_zeros_def)
  show ?case
  proof (cases "end_of_string (p ! i)")
    case True
    then have "parse_loop sn key p i pos = Inr (False, pos)"
      using in_p by (subst parse_loop.simps) simp
    then show ?thesis
      by (intro exI [of _ False] exI [of _ pos]) simp
  next
    case more: False
    then have i: "i \<le> n"
      using less.prems assms(1) by (cases "i = n + 1") (auto simp: two_zeros_def end_of_string_def)
    show ?thesis
    proof (cases "(i = 0 \<or> newline (p ! (i - 1))) \<and> left_barce (p ! i)")
      case False
      then have "parse_loop sn key p i pos = parse_loop sn key p (i + 1) pos"
        using more in_p by (subst parse_loop.simps) auto
      then show ?thesis
        using less.hyps [of "i + 1" pos] i by simp
    next
      case brace: True
      obtain r where r: "scan (\<lambda>c. isright_brace c \<or> end_of_string c) p (i + 1) = Inr r"
          "i + 1 \<le> r" "r \<le> max (i + 1) n"
        using scan_two_zeros [OF assms(1), of "\<lambda>c. isright_brace c \<or> end_of_string c" "i + 1"] i
        by (auto simp: end_of_string_def)
      have "r \<le> n"
      proof (rule ccontr)
        assume "\<not> r \<le> n"
        then have "i = n"
          using r i by simp
        then show False
          using more assms(1) by (simp add: two_zeros_def end_of_string_def)
      qed
      show ?thesis
      proof (cases "strncmp_eq (drop (i + 1) p) sn (r - (i + 1))")
        case False
        then have "parse_loop sn key p i pos = parse_loop sn key p r pos"
          using more in_p brace r by (subst parse_loop.simps) auto
        then show ?thesis
          using less.hyps [of r pos] r \<open>r \<le> n\<close> by simp
      next
        case True
        obtain k where k: "scan (\<lambda>c. \<not> isspace c) p (r + 1) = Inr k" "r + 1 \<le> k" "k \<le> n + 1"
          using scan_two_zeros [OF assms(1), of "\<lambda>c. \<not> isspace c" "r + 1"] \<open>r \<le> n\<close>
          by (auto simp: isspace_def)
        let ?pos = "pos\<lparr>sec_s := int (i + 1), sec_e := int k\<rparr>"
        have eq: "parse_loop sn key p i pos =
            c_bind (sec_loop key p k) (\<lambda>found. case found of
               Inr (start, j, e) \<Rightarrow>
                 Inr (True, ?pos\<lparr>key_s := int start, key_e := int j - 1,
                                  value_s := int j + 1, value_e := int e\<rparr>)
             | Inl k' \<Rightarrow> parse_loop sn key p k' ?pos)"
          using more in_p brace r True k by (subst parse_loop.simps) (simp add: Let_def)
        consider (stopped) k' where "sec_loop key p k = Inr (Inl k')" "k' \<le> n + 1"
          | (hit) st j e where "sec_loop key p k = Inr (Inr (st, j, e))" "j < e" "e \<le> n"
          using sec_loop_safe [OF assms(1), of k key] k by auto
        then show ?thesis
        proof cases
          case stopped
          then show ?thesis
            using less.hyps [of k' ?pos] eq k r sec_loop_ge [OF stopped(1)] by simp
        next
          case hit
          then show ?thesis
            using eq by auto
        qed
      qed
    qed
  qed
qed

text \<open>Reading never leaves the arrays when the file leaves two zeros of the 8192 bytes.\<close>

lemma load_loop_any:
  assumes "i + length (takeWhile (\<lambda>c. c \<noteq> 0xFF) input) < MAX_FILE_SIZE" "length buf = MAX_FILE_SIZE"
  shows "load_loop input i buf =
    Inr (memcpy_at i (takeWhile (\<lambda>c. c \<noteq> 0xFF) input @ [0]) buf,
         i + length (takeWhile (\<lambda>c. c \<noteq> 0xFF) input))"
  using assms
proof (induction input arbitrary: i buf)
  case Nil
  then show ?case
    using memcpy_at_Cons [of i buf "[]" 0] by simp
next
  case (Cons c input)
  then show ?case
    using memcpy_at_Cons [of i buf "[]" 0]
      memcpy_at_Cons [of i buf "takeWhile (\<lambda>c. c \<noteq> 0xFF) input @ [0]" c]
    by (cases "c = 0xFF") auto
qed

lemma read_profile_string_safe:
  assumes nonempty: "sn \<noteq> []" "key \<noteq> []" and sz: "sz > 0" "length val = sz"
    and small: "case disk_file d of None \<Rightarrow> True
      | Some f \<Rightarrow> length (takeWhile (\<lambda>c. c \<noteq> 0xFF) f) \<le> MAX_FILE_SIZE - 2"
  shows "\<exists>r v. read_profile_string sn key val sz dflt d = Inr (r, v) \<and> length v = sz \<and>
    (r = 1 \<longrightarrow> 0 \<in> set v)"
proof -
  have dflt: "\<exists>r v. (case dflt of None \<Rightarrow> Inr (0, val)
      | Some t \<Rightarrow> c_bind (strncpy val t sz) (\<lambda>val. Inr (0, val))) = Inr (r, v) \<and> length v = sz \<and>
      (r = (1 :: int) \<longrightarrow> 0 \<in> set v)"
    using sz by (cases dflt) (auto simp: strncpy_def memcpy_at_def)
  show ?thesis
  proof (cases "disk_file d")
    case None
    then show ?thesis
      using nonempty sz dflt by (simp add: read_profile_string_def load_ini_file_def)
  next
    case (Some f)
    define t where "t = takeWhile (\<lambda>c. c \<noteq> 0xFF) f"
    define n where "n = length t"
    define buf where "buf = memcpy_at 0 (t @ [0]) (replicate MAX_FILE_SIZE 0)"
    have n: "n + 1 < MAX_FILE_SIZE"
      using small Some by (simp add: n_def t_def)
    have load: "load_ini_file (disk_file d) (replicate MAX_FILE_SIZE 0) = Inr (True, buf, n)"
      using load_loop_any [of 0 f "replicate MAX_FILE_SIZE 0"] n Some
      by (simp add: load_ini_file_def n_def t_def buf_def)
    have zeros: "two_zeros buf n"
      using n by (simp add: two_zeros_def buf_def memcpy_at_def nth_append n_def)
    obtain found pos where parsed: "parse_file sn key buf = Inr (found, pos)"
      and pos: "found \<Longrightarrow> 0 \<le> value_s pos \<and> value_s pos \<le> value_e pos \<and> value_e pos \<le> int n"
      using parse_loop_safe [OF zeros, of 0 sn key no_pos] nonempty by (auto simp: parse_file_def)
    show ?thesis
    proof (cases found)
      case False
      then show ?thesis
        using nonempty sz dflt by (simp add: read_profile_string_def load parsed)
    next
      case True
      define c where "c = nat (if int sz - 1 < value_e pos - value_s pos then int sz - 1
        else value_e pos - value_s pos)"
      have c: "c < sz"
        using sz(1) pos [OF True] unfolding c_def by (auto simp: nat_less_iff)
      define w where "w = take c (drop (nat (value_s pos)) buf)"
      have w: "length w \<le> c"
        by (simp add: w_def)
      have "read_profile_string sn key val sz dflt d =
          c_bind (memcpy_chk 0 (replicate sz 0) val) (\<lambda>val. c_bind (memcpy_chk 0 w val)
            (\<lambda>val. c_bind (c_put c 0 val) (\<lambda>val. Inr (1, val))))"
        using nonempty sz True
        by (simp only: read_profile_string_def load parsed Let_def c_bind_simps prod.case
            gr_implies_not_zero simp_thms if_False if_True w_def c_def)
      also have "\<dots> = Inr (1, (memcpy_at 0 w (memcpy_at 0 (replicate sz 0) val))[c := 0])"
        using sz c w by simp
      finally show ?thesis
        using sz c w by (auto intro: set_update_memI)
    qed
  qed
qed

end
