(* ===== verification/Config.thy ===== *)
theory Config imports Base64 IniFile begin

text \<open>
  The persistent settings of the gateway: \<^verbatim>\<open>Config.c\<close> on top of \<^verbatim>\<open>inifile.c\<close> and \<^verbatim>\<open>base64.c\<close>, the
  two callbacks of \<^verbatim>\<open>XDevice.c\<close> that keep the state of the cloud client in it, and the part of
  \<^verbatim>\<open>xlink_gateway.c\<close> that reads the host and makes up the gateway's identity on its first start.
  The interface the callers rely on, a store of named values, is the locale \<open>profile_store\<close>; the
  model of the file is its interpretation.
\<close>

section \<open>The code\<close>

definition str :: "string \<Rightarrow> bytes" where
  "str s = map of_char s"

definition SECTION :: bytes where
  "SECTION = str ''config''"

text \<open>
  \<open>val\<close> is the caller's array. Its size reaches \<^verbatim>\<open>XDReadBase64Decode\<close> as an argument that is not
  used. The second component of the result is the number of bytes decoded.
\<close>

definition XDReadBase64Decode :: "bytes \<Rightarrow> bytes \<Rightarrow> ini_disk \<Rightarrow> (bytes \<times> nat) c_result" where
  "XDReadBase64Decode key val disk =
     c_bind (read_profile_string SECTION key (replicate 1024 0) 1024 (Some (str ''1234'')) disk)
       (\<lambda>(ret, buffer). base64_decode buffer val)"

definition XDWriteBase64Encode :: "bytes \<Rightarrow> bytes \<Rightarrow> ini_disk \<Rightarrow> (int \<times> ini_disk) c_result" where
  "XDWriteBase64Encode key data disk =
     c_bind (base64_encode data (replicate 1024 0))
       (\<lambda>temp. write_profile_string SECTION key (c_string temp) disk)"

definition XDReadString :: "bytes \<Rightarrow> bytes \<Rightarrow> nat \<Rightarrow> ini_disk \<Rightarrow> (int \<times> bytes) c_result" where
  "XDReadString key val sz disk = read_profile_string SECTION key val sz (Some []) disk"

definition XDWriteString :: "bytes \<Rightarrow> bytes \<Rightarrow> ini_disk \<Rightarrow> (int \<times> ini_disk) c_result" where
  "XDWriteString key val disk = write_profile_string SECTION key val disk"

definition sdk_key :: bytes where
  "sdk_key = str ''Xlink.v4sdk.cofnig''"

definition OnWriteConfig_t :: "bytes \<Rightarrow> ini_disk \<Rightarrow> (int \<times> ini_disk) c_result" where
  "OnWriteConfig_t Buffer disk = XDWriteBase64Encode sdk_key Buffer disk"

definition OnReadConfig_t :: "bytes \<Rightarrow> ini_disk \<Rightarrow> (bytes \<times> nat) c_result" where
  "OnReadConfig_t Buffer disk = XDReadBase64Decode sdk_key Buffer disk"

text \<open>
  \<^verbatim>\<open>CreateGateId\<close>: the milliseconds of the clock printed with \<^verbatim>\<open>%ld\<close>. A \<^verbatim>\<open>long\<close> of the target has
  32 bits, so the product wraps and the text can be negative.
\<close>

fun decimal_nat :: "nat \<Rightarrow> bytes" where
  "decimal_nat n =
     (if n < 10 then [0x30 + of_nat n] else decimal_nat (n div 10) @ [0x30 + of_nat (n mod 10)])"

declare decimal_nat.simps [simp del]

definition decimal :: "int \<Rightarrow> bytes" where
  "decimal i = (if i < 0 then 0x2D # decimal_nat (nat (- i)) else decimal_nat (nat i))"

definition CreateGateId ::
  "u32 \<Rightarrow> u32 \<Rightarrow> bytes \<Rightarrow> ini_disk \<Rightarrow> (bytes \<times> ini_disk) c_result" where
  "CreateGateId tv_sec tv_usec gateway_id disk =
     (let ms = sint (tv_sec * 1000 + tv_usec div 1000) in
      c_bind (memcpy_chk 0 (take 63 (decimal ms) @ [0]) gateway_id) (\<lambda>gateway_id.
      c_bind (XDWriteString (str ''gatewayid'') (c_string gateway_id) disk) (\<lambda>(ret, disk).
        Inr (gateway_id, disk))))"

text \<open>
  The settings of \<^verbatim>\<open>ft_xlink_gateway_init\<close>: the host with its default, the identity read or made
  up. The result is the host, \<^verbatim>\<open>g_GatewayID\<close> and the disk.
\<close>

definition gateway_settings ::
  "u32 \<Rightarrow> u32 \<Rightarrow> bytes \<Rightarrow> ini_disk \<Rightarrow> (bytes \<times> bytes \<times> ini_disk) c_result" where
  "gateway_settings tv_sec tv_usec gateway_id disk =
     c_bind (XDReadString (str ''host'') (replicate 128 0) 128 disk) (\<lambda>(ret, Host).
     c_bind (if ret = 0 then memcpy_chk 0 (str ''cloud.fotile.com'' @ [0]) Host else Inr Host)
       (\<lambda>Host.
     c_bind (XDReadString (str ''gatewayid'') gateway_id 64 disk) (\<lambda>(ret, gateway_id).
     c_bind (if ret = 0 then CreateGateId tv_sec tv_usec gateway_id disk
             else Inr (gateway_id, disk)) (\<lambda>(gateway_id, disk).
       Inr (Host, gateway_id, disk)))))"

section \<open>The interface: a store of named values\<close>

locale profile_store =
  fixes fetch :: "'s \<Rightarrow> 'k \<Rightarrow> 'v option"
    and store :: "'k \<Rightarrow> 'v \<Rightarrow> 's \<Rightarrow> 's"
    and inv :: "'s \<Rightarrow> bool"
    and name_ok :: "'k \<Rightarrow> bool"
    and value_ok :: "'v \<Rightarrow> bool"
    and room :: "'k \<Rightarrow> 'v \<Rightarrow> 's \<Rightarrow> bool"
  assumes store_inv:
      "inv s \<Longrightarrow> name_ok k \<Longrightarrow> value_ok v \<Longrightarrow> room k v s \<Longrightarrow> inv (store k v s)"
    and fetch_store_same:
      "inv s \<Longrightarrow> name_ok k \<Longrightarrow> value_ok v \<Longrightarrow> room k v s \<Longrightarrow> fetch (store k v s) k = Some v"
    and fetch_store_other:
      "inv s \<Longrightarrow> name_ok k \<Longrightarrow> name_ok k' \<Longrightarrow> value_ok v \<Longrightarrow> room k v s \<Longrightarrow> k' \<noteq> k \<Longrightarrow>
         fetch (store k v s) k' = fetch s k'"
begin

lemma fetch_store:
  assumes "inv s" "name_ok k" "name_ok k'" "value_ok v" "room k v s"
  shows "fetch (store k v s) k' = (if k' = k then Some v else fetch s k')"
  using assms fetch_store_same fetch_store_other by simp

primrec store_all :: "('k \<times> 'v) list \<Rightarrow> 's \<Rightarrow> 's" where
  "store_all [] s = s"
| "store_all (kv # kvs) s = store_all kvs (store (fst kv) (snd kv) s)"

primrec admissible :: "('k \<times> 'v) list \<Rightarrow> 's \<Rightarrow> bool" where
  "admissible [] s = True"
| "admissible (kv # kvs) s =
     (name_ok (fst kv) \<and> value_ok (snd kv) \<and> room (fst kv) (snd kv) s \<and>
      admissible kvs (store (fst kv) (snd kv) s))"

text \<open>After a series of writes every name has the value written last.\<close>

lemma fetch_store_all:
  assumes "inv s" "admissible kvs s" "name_ok k"
  shows "fetch (store_all kvs s) k =
    (case map_of (rev kvs) k of Some v \<Rightarrow> Some v | None \<Rightarrow> fetch s k)"
  using assms
  by (induction kvs arbitrary: s)
    (auto simp: store_inv fetch_store map_add_def map_of_append split: option.splits)

end

text \<open>Binary values kept through an encoding.\<close>

locale encoded_store = profile_store fetch store inv name_ok value_ok room
  for fetch :: "'s \<Rightarrow> 'k \<Rightarrow> 'v option"
    and store :: "'k \<Rightarrow> 'v \<Rightarrow> 's \<Rightarrow> 's"
    and inv :: "'s \<Rightarrow> bool"
    and name_ok :: "'k \<Rightarrow> bool"
    and value_ok :: "'v \<Rightarrow> bool"
    and room :: "'k \<Rightarrow> 'v \<Rightarrow> 's \<Rightarrow> bool" +
  fixes enc :: "'b \<Rightarrow> 'v"
    and dec :: "'v \<Rightarrow> 'b"
    and blob_ok :: "'b \<Rightarrow> bool"
  assumes enc_ok: "blob_ok b \<Longrightarrow> value_ok (enc b)"
    and dec_enc: "blob_ok b \<Longrightarrow> dec (enc b) = b"
begin

lemma fetch_blob:
  assumes "inv s" "name_ok k" "blob_ok b" "room k (enc b) s"
  shows "map_option dec (fetch (store k (enc b) s) k) = Some b"
  using assms by (simp add: fetch_store_same enc_ok dec_enc)

end

section \<open>The file as such a store\<close>

text \<open>The names the program uses. None is a prefix of another.\<close>

definition config_keys :: "bytes list" where
  "config_keys = [str ''host'', str ''gatewayid'', sdk_key, str ''productid'', str ''productkey'',
     str ''mac'']"

definition config_fetch :: "ini_disk \<Rightarrow> bytes \<Rightarrow> bytes option" where
  "config_fetch d key = (case read_profile_string SECTION key (replicate 1024 0) 1024 None d of
     Inr (ret, buffer) \<Rightarrow> if ret = 1 then Some (c_string buffer) else None
   | Inl _ \<Rightarrow> None)"

definition config_store :: "bytes \<Rightarrow> bytes \<Rightarrow> ini_disk \<Rightarrow> ini_disk" where
  "config_store key val d = (case write_profile_string SECTION key val d of
     Inr (ret, d') \<Rightarrow> d' | Inl _ \<Rightarrow> d)"

definition config_bindings :: "ini_disk \<Rightarrow> binding list \<Rightarrow> bool" where
  "config_bindings d kvs \<longleftrightarrow> ini_bindings SECTION d kvs \<and> fst ` set kvs \<subseteq> set config_keys"

definition config_inv :: "ini_disk \<Rightarrow> bool" where
  "config_inv d \<longleftrightarrow> (\<exists>kvs. config_bindings d kvs)"

definition config_name :: "bytes \<Rightarrow> bool" where
  "config_name key \<longleftrightarrow> key \<in> set config_keys"

definition config_value :: "bytes \<Rightarrow> bool" where
  "config_value v \<longleftrightarrow> plain v \<and> length v < 1024"

definition file_length :: "ini_disk \<Rightarrow> nat" where
  "file_length d = (case disk_file d of None \<Rightarrow> header_length SECTION | Some f \<Rightarrow> length f)"

definition config_room :: "bytes \<Rightarrow> bytes \<Rightarrow> ini_disk \<Rightarrow> bool" where
  "config_room key val d \<longleftrightarrow> disk_writable d \<and>
     file_length d + length key + length val + 2 < MAX_FILE_SIZE \<and>
     file_length d + length key + length val + 2 \<le> disk_room d"

lemma str_simps [simp]: "str [] = []" "str (c # s) = of_char c # str s"
  by (simp_all add: str_def)

lemma length_str [simp]: "length (str s) = length s"
  by (simp add: str_def)

lemma plain_SECTION [simp]: "plain_section SECTION"
  by (simp add: SECTION_def plain_section_def)

lemma plain_config_key: "key \<in> set config_keys \<Longrightarrow> plain_key key"
  by (auto simp: config_keys_def sdk_key_def plain_key_def isspace_def)

lemma config_keys_prefix_free:
  "list_all (\<lambda>k. list_all (\<lambda>k'. prefix k k' \<longrightarrow> k = k') config_keys) config_keys"
  by (simp add: config_keys_def sdk_key_def)

lemma prefix_config_key:
  "k \<in> set config_keys \<Longrightarrow> k' \<in> set config_keys \<Longrightarrow> prefix k k' \<longleftrightarrow> k = k'"
  using config_keys_prefix_free by (auto simp: list_all_iff)

lemma ini_find_store_same: "ini_find key (ini_store key val kvs) = Some val"
proof (cases "ini_find key kvs")
  case None
  then show ?thesis
    by (simp add: ini_store_None)
next
  case (Some v)
  then obtain us k vs where split: "kvs = us @ (k, v) # vs" "ini_find key us = None" "prefix k key"
    using ini_find_split by blast
  have "ini_find key (us @ (k, val) # vs) = Some val"
    using split(2,3) by (induction us) (auto split: if_splits)
  then show ?thesis
    using split by (simp add: ini_store_def ini_replace_split)
qed

lemma ini_find_keys:
  "fst ` set kvs \<subseteq> set config_keys \<Longrightarrow> key \<in> set config_keys \<Longrightarrow> ini_find key kvs = map_of kvs key"
  by (induction key kvs rule: ini_find.induct) (auto simp: prefix_config_key)

lemma ini_store_keys:
  assumes "fst ` set kvs \<subseteq> set config_keys" "key \<in> set config_keys"
  shows "map_of (ini_store key val kvs) = (map_of kvs)(key \<mapsto> val)"
    "fst ` set (ini_store key val kvs) \<subseteq> set config_keys"
proof -
  have "map_of (ini_store key val kvs) = (map_of kvs)(key \<mapsto> val) \<and>
    fst ` set (ini_store key val kvs) \<subseteq> set config_keys"
  proof (cases "ini_find key kvs")
    case None
    then show ?thesis
      using assms by (simp add: ini_store_None)
  next
    case (Some v)
    then obtain us k vs where split: "kvs = us @ (k, v) # vs" "ini_find key us = None" "prefix k key"
      using ini_find_split by blast
    then have k: "k = key"
      using assms prefix_config_key by auto
    have "fst ` set us \<subseteq> set config_keys"
      using assms(1) split(1) by auto
    then have "map_of us key = None"
      using split(2) assms(2) ini_find_keys [of us key] by simp
    then show ?thesis
      using assms split by (auto simp: ini_store_def ini_replace_split k map_add_def split: option.splits)
  qed
  then show "map_of (ini_store key val kvs) = (map_of kvs)(key \<mapsto> val)"
    "fst ` set (ini_store key val kvs) \<subseteq> set config_keys"
    by simp_all
qed

lemma length_next_file:
  assumes "ini_bindings SECTION d kvs"
  shows "length (next_file SECTION key val kvs) \<le> file_length d + length key + length val + 2"
  using assms bindings_text_store_length [of key val kvs]
  by (auto simp: next_file_def ini_bindings_def file_length_def render_def)

text \<open>What a read and a write do, in terms of the bindings.\<close>

lemma config_read:
  assumes "ini_bindings SECTION d kvs" "plain_key key" "sz > 0" "length val = sz"
  shows "read_profile_string SECTION key val sz dflt d = (case ini_find key kvs of
       Some v \<Rightarrow> Inr (1, delivered sz v)
     | None \<Rightarrow> Inr (0, case dflt of None \<Rightarrow> val
                | Some t \<Rightarrow> take sz (c_string t @ replicate sz 0)))"
  using assms by (intro read_profile_string_finds) (auto simp: plain_key_def plain_def)

lemma config_write:
  assumes "ini_bindings SECTION d kvs" "plain_key key" "plain val" "config_room key val d"
  shows "\<exists>d'. write_profile_string SECTION key val d = Inr (1, d') \<and>
    ini_bindings SECTION d' (ini_store key val kvs)"
proof -
  let ?f = "next_file SECTION key val kvs"
  have "length ?f < MAX_FILE_SIZE" "length ?f \<le> disk_room d" "disk_writable d"
    using assms(4) length_next_file [OF assms(1), of key val] by (auto simp: config_room_def)
  then show ?thesis
    using write_profile_string_stores [OF assms(1-3)] write_keeps_bindings [OF assms(1-3)] by auto
qed

lemma config_fetch_eq:
  assumes "config_bindings d kvs" "config_name key"
  shows "config_fetch d key = map_option (take 1023) (map_of kvs key)"
proof -
  have plain: "plain v" if "map_of kvs key = Some v" for v
    using that assms(1) map_of_SomeD [OF that]
    by (auto simp: config_bindings_def ini_bindings_def plain_bindings_def list_all_iff)
  have "ini_find key kvs = map_of kvs key"
    using assms ini_find_keys by (auto simp: config_bindings_def config_name_def)
  then show ?thesis
    using assms plain_config_key [of key] plain
    by (auto simp: config_fetch_def config_bindings_def config_name_def config_read
        c_string_delivered split: option.splits)
qed

lemma config_store_eq:
  assumes "config_bindings d kvs" "config_name key" "plain val" "config_room key val d"
  shows "config_bindings (config_store key val d) (ini_store key val kvs)"
  using config_write [of d kvs key val] assms ini_store_keys(2) plain_config_key
  by (fastforce simp: config_store_def config_bindings_def config_name_def)

interpretation settings: profile_store config_fetch config_store config_inv config_name
  config_value config_room
proof unfold_locales
  fix s k v
  assume s: "config_inv s" and k: "config_name k" and v: "config_value v" and room: "config_room k v s"
  then obtain kvs where kvs: "config_bindings s kvs" "plain v" "length v < 1024"
    by (auto simp: config_inv_def config_value_def)
  note stored = config_store_eq [OF kvs(1) k kvs(2) room]
  show "config_inv (config_store k v s)"
    using stored by (auto simp: config_inv_def)
  have keys: "fst ` set kvs \<subseteq> set config_keys" "k \<in> set config_keys"
    using kvs(1) k by (auto simp: config_bindings_def config_name_def)
  show "config_fetch (config_store k v s) k = Some v"
    using config_fetch_eq [OF stored k] kvs(3) by (simp add: ini_store_keys [OF keys])
  show "config_fetch (config_store k v s) k' = config_fetch s k'" if "config_name k'" "k' \<noteq> k" for k'
    using config_fetch_eq [OF stored that(1)] config_fetch_eq [OF kvs(1) that(1)] that(2)
    by (simp add: ini_store_keys [OF keys])
qed

text \<open>Binary values are kept through the base64 text; 765 bytes fill the 1024-byte array.\<close>

definition b64_dec :: "bytes \<Rightarrow> bytes" where
  "b64_dec t = (case base64_decode (t @ [0]) (replicate (length t) 0) of
     Inr (out, n) \<Rightarrow> take n out | Inl _ \<Rightarrow> [])"

definition small_blob :: "bytes \<Rightarrow> bool" where
  "small_blob data \<longleftrightarrow> length data \<le> 765"

lemma length_b64_small: "small_blob data \<Longrightarrow> length (b64_enc data) \<le> 1020"
  by (auto simp: small_blob_def length_b64_enc)

lemma plain_b64 [simp]: "plain (b64_enc data)"
  using plain_b64_alphabet by (auto simp: plain_def)

interpretation blobs: encoded_store config_fetch config_store config_inv config_name
  config_value config_room b64_enc b64_dec small_blob
proof unfold_locales
  fix data
  assume small: "small_blob data"
  show "config_value (b64_enc data)"
    using length_b64_small [OF small] by (simp add: config_value_def)
  have "length data \<le> length (replicate (length (b64_enc data)) (0 :: byte))"
    by (simp add: length_b64_enc)
  then show "b64_dec (b64_enc data) = data"
    using base64_decode_encode [of data _ "[]"] by (simp add: b64_dec_def memcpy_at_def)
qed

section \<open>The identity of the gateway\<close>

lemma length_decimal_nat: "n < 10 ^ Suc k \<Longrightarrow> length (decimal_nat n) \<le> Suc k"
proof (induction k arbitrary: n)
  case (Suc k)
  have "n div 10 < 10 ^ Suc k"
    using Suc.prems by (simp add: less_mult_imp_div_less mult.commute)
  from Suc.IH [OF this] show ?case
    by (subst decimal_nat.simps) auto
qed (subst decimal_nat.simps, simp)

lemma digit_char: "d < 10 \<Longrightarrow> 0x30 + of_nat d \<in> {0x30 .. 0x39 :: byte}"
proof -
  assume "d < 10"
  then have "unat (0x30 + of_nat d :: byte) = 48 + d"
    by (simp add: unat_word_ariths unat_of_nat)
  with \<open>d < 10\<close> show ?thesis
    by (simp add: word_le_nat_alt)
qed

lemma decimal_nat_chars: "c \<in> set (decimal_nat n) \<Longrightarrow> c \<in> {0x30 .. 0x39}"
proof (induction n rule: decimal_nat.induct)
  case (1 n)
  show ?case
  proof (cases "n < 10")
    case True
    then show ?thesis
      using 1 digit_char [of n] by (subst (asm) (2) decimal_nat.simps) simp
  next
    case False
    then show ?thesis
      using 1 digit_char [of "n mod 10"] by (subst (asm) (2) decimal_nat.simps) auto
  qed
qed

lemma plain_decimal [simp]: "plain (decimal i)"
proof -
  have "plain (decimal_nat n)" for n
    using decimal_nat_chars [of _ n] by (force simp: plain_def)
  then show ?thesis
    by (simp add: decimal_def)
qed

lemma length_decimal_sint: "length (decimal (sint (x :: u32))) \<le> 11"
proof -
  have "- (2 ^ 31) \<le> sint x" "sint x < 2 ^ 31"
    using sint_ge [of x] sint_lt [of x] by simp_all
  then have "nat \<bar>sint x\<bar> < 10 ^ Suc 9"
    by simp
  then have "length (decimal_nat (nat \<bar>sint x\<bar>)) \<le> 10"
    using length_decimal_nat [of "nat \<bar>sint x\<bar>" 9] by simp
  then show ?thesis
    by (auto simp: decimal_def abs_if split: if_splits)
qed

section \<open>Properties\<close>

text \<open>
  Reading a setting is memory safe whatever the file holds: with at most 8190 bytes before the
  first \<^verbatim>\<open>0xFF\<close> (or no file) no array is left and no assertion fails, the delivered array keeps
  its size, and it is terminated when the key is found.
\<close>
theorem XDReadString_safe:
  assumes "key \<noteq> []" "sz > 0" "length val = sz"
    "disk_file d = None \<or>
     length (takeWhile (\<lambda>c. c \<noteq> 0xFF) (the (disk_file d))) \<le> MAX_FILE_SIZE - 2"
  shows "\<exists>r v. XDReadString key val sz d = Inr (r, v) \<and> length v = sz \<and> (r = 1 \<longrightarrow> 0 \<in> set v)"
  using assms unfolding XDReadString_def
  by (intro read_profile_string_safe) (auto simp: SECTION_def split: option.splits)

theorem XDReadString_safe_witness:
  "\<exists>r v. XDReadString (str ''host'') (replicate 4 1) 4
      \<lparr>disk_file = Some (str ''[config]''), disk_writable = True, disk_room = 100\<rparr> = Inr (r, v) \<and>
    length v = 4 \<and> (r = 1 \<longrightarrow> 0 \<in> set v)"
  by (rule XDReadString_safe) simp_all

text \<open>
  A setting that was written is read back, cut to the reader's array, and no other setting of the
  program changes: for every file of settings with room, the write succeeds and every later read
  of a name gives the new value if it is that name and what it gave before otherwise.
\<close>
theorem XDWriteString_then_read:
  assumes d: "config_inv d" and key: "config_name key" and val: "config_value val"
    and room: "config_room key val d" and key': "config_name key'" and sz: "sz > 0" "length buf = sz"
  shows "\<exists>d'. XDWriteString key val d = Inr (1, d') \<and> config_inv d' \<and>
    XDReadString key' buf sz d' =
      (if key' = key then Inr (1, delivered sz val) else XDReadString key' buf sz d)"
proof -
  obtain kvs where kvs: "ini_bindings SECTION d kvs" "fst ` set kvs \<subseteq> set config_keys"
    using d by (auto simp: config_inv_def config_bindings_def)
  have keys: "plain_key key" "plain_key key'" "plain val" "key \<in> set config_keys" "key' \<in> set config_keys"
    using key key' val plain_config_key by (auto simp: config_name_def config_value_def)
  obtain d' where d': "write_profile_string SECTION key val d = Inr (1, d')"
      "ini_bindings SECTION d' (ini_store key val kvs)"
    using config_write [OF kvs(1) keys(1,3) room] by blast
  note stored = ini_store_keys [OF kvs(2) keys(4)]
  have "ini_find key' (ini_store key val kvs) = (if key' = key then Some val else ini_find key' kvs)"
    using kvs(2) keys(5) stored by (simp add: ini_find_keys)
  then have "XDReadString key' buf sz d' =
      (if key' = key then Inr (1, delivered sz val) else XDReadString key' buf sz d)"
    using config_read [OF d'(2) keys(2) sz] config_read [OF kvs(1) keys(2) sz]
    by (simp add: XDReadString_def)
  moreover have "config_inv d'"
    using d'(2) stored(2) by (auto simp: config_inv_def config_bindings_def)
  ultimately show ?thesis
    using d'(1) by (auto simp: XDWriteString_def)
qed

definition sample_disk :: ini_disk where
  "sample_disk = \<lparr>disk_file = None, disk_writable = True, disk_room = 4096\<rparr>"

lemma sample_disk_ok: "config_bindings sample_disk []" "config_inv sample_disk"
  by (auto simp: sample_disk_def config_inv_def config_bindings_def ini_bindings_def)

lemma file_length_sample: "file_length sample_disk = 9"
  by (simp add: file_length_def sample_disk_def header_length_def SECTION_def)

theorem XDWriteString_then_read_witness:
  "\<exists>d'. XDWriteString (str ''host'') (str ''a.b'') sample_disk = Inr (1, d') \<and> config_inv d' \<and>
    XDReadString (str ''host'') (replicate 8 1) 8 d' =
      (if str ''host'' = str ''host'' then Inr (1, delivered 8 (str ''a.b''))
       else XDReadString (str ''host'') (replicate 8 1) 8 sample_disk)"
  by (rule XDWriteString_then_read)
    (simp_all add: sample_disk_ok file_length_sample config_name_def config_keys_def config_value_def
      config_room_def, simp add: sample_disk_def)

text \<open>
  The state of the cloud client survives: what the SDK hands to the write callback, up to 765
  bytes of any content, is what the read callback puts into the SDK's buffer, with its length, and
  the program's other settings keep their values.
\<close>
theorem sdk_state_persists:
  assumes d: "config_inv d" and small: "length data \<le> 765"
    and room: "disk_writable d" "file_length d + 4 * ((length data + 2) div 3) + 20 < MAX_FILE_SIZE"
      "file_length d + 4 * ((length data + 2) div 3) + 20 \<le> disk_room d"
    and out: "length data \<le> length out"
  shows "\<exists>d'. OnWriteConfig_t data d = Inr (1, d') \<and> config_inv d' \<and>
    OnReadConfig_t out d' = Inr (memcpy_at 0 data out, length data) \<and>
    (\<forall>key \<in> set config_keys. key \<noteq> sdk_key \<longrightarrow> config_fetch d' key = config_fetch d key)"
proof -
  let ?v = "b64_enc data"
  obtain kvs where kvs: "ini_bindings SECTION d kvs"
    using d by (auto simp: config_inv_def config_bindings_def)
  have key: "config_name sdk_key" "plain_key sdk_key" "length sdk_key = 18"
    using plain_config_key [of sdk_key]
    by (simp_all add: config_name_def config_keys_def, simp add: sdk_key_def)
  have v: "config_value ?v" "length ?v \<le> 1020"
    using blobs.enc_ok length_b64_small small by (auto simp: small_blob_def)
  have room': "config_room sdk_key ?v d"
    using room key(3) by (simp add: config_room_def length_b64_enc)
  obtain d' where d': "write_profile_string SECTION sdk_key ?v d = Inr (1, d')"
      "ini_bindings SECTION d' (ini_store sdk_key ?v kvs)"
    using config_write [OF kvs key(2) plain_b64 room'] by blast
  have stored: "config_store sdk_key ?v d = d'"
    using d'(1) by (simp add: config_store_def)
  have "c_string (memcpy_at 0 (?v @ [0]) (replicate 1024 0)) = ?v"
    using plain_b64 [of data] by (simp add: memcpy_at_def c_string_padded plain_def)
  then have "OnWriteConfig_t data d = Inr (1, d')"
    using v(2) d'(1) by (simp add: OnWriteConfig_t_def XDWriteBase64Encode_def base64_encode_eq)
  moreover have "OnReadConfig_t out d' = Inr (memcpy_at 0 data out, length data)"
  proof -
    have "delivered 1024 ?v = ?v @ 0 # replicate (1023 - length ?v) 0"
      using v(2) by (simp add: delivered_def flip: replicate_Suc Suc_diff_le)
    then show ?thesis
      using config_read [OF d'(2) key(2), of 1024] base64_decode_encode [OF out]
      by (simp add: OnReadConfig_t_def XDReadBase64Decode_def ini_find_store_same)
  qed
  moreover have "config_inv d'"
    using settings.store_inv [OF d key(1) v(1) room'] stored by simp
  moreover have "config_fetch d' k = config_fetch d k" if "k \<in> set config_keys" "k \<noteq> sdk_key" for k
    using settings.fetch_store_other [OF d key(1) _ v(1) room', of k] that stored
    by (simp add: config_name_def)
  ultimately show ?thesis
    by blast
qed

theorem sdk_state_persists_witness:
  "\<exists>d'. OnWriteConfig_t [0, 255, 37, 10] sample_disk = Inr (1, d') \<and> config_inv d' \<and>
    OnReadConfig_t [9, 9, 9, 9, 9] d' =
      Inr (memcpy_at 0 [0, 255, 37, 10] [9, 9, 9, 9, 9], length [0 :: byte, 255, 37, 10]) \<and>
    (\<forall>key \<in> set config_keys. key \<noteq> sdk_key \<longrightarrow> config_fetch d' key = config_fetch sample_disk key)"
  by (rule sdk_state_persists [of sample_disk "[0, 255, 37, 10]" "[9, 9, 9, 9, 9]"])
    (simp_all add: sample_disk_ok file_length_sample, simp_all add: sample_disk_def)



text \<open>
  A name is found under any of its prefixes: a lookup of a setting that is absent can return the
  value of another one, because the scanner compares only as many characters as the line has.
\<close>
lemma prefix_lookup:
  "XDReadString (str ''gatewayid'') (replicate 4 0) 4
     \<lparr>disk_file = Some (render SECTION [(str ''gate'', str ''x'')]), disk_writable = True,
      disk_room = 100\<rparr> = Inr (1, [0x78, 0, 0, 0])"
proof -
  let ?d = "\<lparr>disk_file = Some (render SECTION [(str ''gate'', str ''x'')]), disk_writable = True,
    disk_room = 100\<rparr>"
  have keys: "plain_key (str ''gate'')" "plain_key (str ''gatewayid'')"
    by (auto simp: plain_key_def isspace_def)
  moreover have "length SECTION = 6"
    by (simp add: SECTION_def)
  ultimately have d: "ini_bindings SECTION ?d [(str ''gate'', str ''x'')]"
    by (simp add: ini_bindings_def render_def header_length_def)
  have "ini_find (str ''gatewayid'') [(str ''gate'', str ''x'')] = Some (str ''x'')"
    by simp
  moreover have "delivered 4 (str ''x'') = [0x78, 0, 0, 0]"
    by (simp add: delivered_def numeral_eq_Suc)
  ultimately show ?thesis
    using config_read [OF d keys(2), of 4 "replicate 4 0"] by (simp only: XDReadString_def length_replicate
        zero_less_numeral simp_thms option.case)
qed

end
