(* ===== verification/XsdkConfig.thy ===== *)
theory XsdkConfig imports Tea XGMd5 Config begin

text \<open>
  The configuration of the cloud client (\<^verbatim>\<open>xlink/xsdk_config.c\<close>): the structure \<^verbatim>\<open>xsdk_flash\<close>, how it
  is packed, masked and handed to the application's callbacks, and what is read and written by
  index. The masked image of 180 bytes is what \<open>Config\<close> keeps in the settings file.

  The value a callback is given or gives back is an argument or a result; \<open>None\<close> stands for a callback
  that is not installed. The structure members behind the indices of \<^verbatim>\<open>xsdk_write_config\<close> and
  \<^verbatim>\<open>xsdk_read_config\<close> are the constructors of \<open>cfg_item\<close>.
\<close>

section \<open>Data\<close>

record xlink_SdkConfig =
  flag_All :: byte
  Deviceid :: bytes
  CurrentSoftVersion :: u16

record xsdk_flash =
  sdk :: xlink_SdkConfig
  f_name :: bytes
  f_auth :: bytes
  isXlinkCheck :: bytes
  accesskey :: u32
  f_subkey :: u32
  domain_ip :: bytes

definition zero_flash :: xsdk_flash where
  "zero_flash = \<lparr>sdk = \<lparr>flag_All = 0, Deviceid = replicate 4 0, CurrentSoftVersion = 0\<rparr>,
     f_name = replicate 16 0, f_auth = replicate 16 0, isXlinkCheck = replicate 16 0,
     accesskey = 0, f_subkey = 0, domain_ip = replicate 76 0\<rparr>"

definition m_key :: bytes where
  "m_key = [0x23, 0x68, 0x59, 0x13, 0x07, 0x31, 0x22, 0x55,
     0x29, 0x64, 0x19, 0x17, 0x11, 0x26, 0x53, 0x44,
     0x85, 0x29, 0x71, 0x43, 0x49, 0x51, 0x06, 0x35,
     0x28, 0x35, 0x18, 0x42, 0x82, 0x99, 0x18, 0x33]"

definition masked :: "bytes \<Rightarrow> bytes" where
  "masked saveBuffer = map (\<lambda>iter. saveBuffer ! iter XOR m_key ! (iter mod 32)) [0..<length saveBuffer]"

text \<open>\<^verbatim>\<open>strncmp\<close> compares two arrays up to their first zero byte.\<close>

lemma strncmp_eq_iff:
  "n \<le> length a \<Longrightarrow> n \<le> length b \<Longrightarrow> strncmp_eq a b n \<longleftrightarrow> c_string (take n a) = c_string (take n b)"
proof (induction n arbitrary: a b)
  case (Suc n)
  then obtain x a' y b' where "a = x # a'" "b = y # b'" by (cases a; cases b) auto
  then show ?case using Suc by (auto simp: c_string_def char0_def)
qed (simp add: c_string_def)

lemma strncmp_eq_refl [simp]: "strncmp_eq a a n"
  by (induction n arbitrary: a) auto

section \<open>Saving and loading\<close>

definition flash_image :: "xsdk_flash \<Rightarrow> bytes" where
  "flash_image f =
     (let saveBuffer = (replicate 180 0)
            [0 := flag_All (sdk f),
             1 := Deviceid (sdk f) ! 0, 2 := Deviceid (sdk f) ! 1,
             3 := Deviceid (sdk f) ! 2, 4 := Deviceid (sdk f) ! 3,
             5 := ucast (CurrentSoftVersion (sdk f)),
             6 := ucast (drop_bit 8 (CurrentSoftVersion (sdk f)))];
          saveBuffer = memcpy_at 7 (f_name f) saveBuffer;
          saveBuffer = memcpy_at 23 (f_auth f) saveBuffer;
          saveBuffer = memcpy_at 55 (isXlinkCheck f) saveBuffer;
          saveBuffer = memcpy_at 77 (le_bytes (accesskey f)) saveBuffer;
          saveBuffer = memcpy_at 81 (le_bytes (f_subkey f)) saveBuffer
      in memcpy_at 85 (domain_ip f) saveBuffer)"

text \<open>What \<^verbatim>\<open>xsdk_config_save\<close> hands to \<^verbatim>\<open>OnWriteConfig\<close>.\<close>

definition xsdk_config_save :: "xsdk_flash \<Rightarrow> bytes" where
  "xsdk_config_save f = masked (flash_image f)"

definition flash_of_image :: "bytes \<Rightarrow> xsdk_flash" where
  "flash_of_image b =
     \<lparr>sdk = \<lparr>flag_All = b ! 0, Deviceid = [b ! 1, b ! 2, b ! 3, b ! 4],
        CurrentSoftVersion = UTIL_INT16_SET (b ! 6) (b ! 5)\<rparr>,
      f_name = take 16 (drop 7 b), f_auth = take 16 (drop 23 b), isXlinkCheck = take 16 (drop 55 b),
      accesskey = le_word b 77, f_subkey = le_word b 81, domain_ip = take 76 (drop 85 b)\<rparr>"

definition hex_upper :: "byte \<Rightarrow> bytes" where
  "hex_upper b = [hex_digit (unat b div 16), hex_digit (unat b mod 16)]"

text \<open>The digest that ties a saved configuration to the product and the first six bytes of the MAC.\<close>

definition xlinkflag :: "XGMD5_CTX \<Rightarrow> bytes \<Rightarrow> bytes \<Rightarrow> bytes \<Rightarrow> bytes" where
  "xlinkflag ctx proID proKey mac =
     (let md5String = c_string proID @ concat (map hex_upper (take 6 mac)) @ c_string proKey
      in case xlinkGetMd5 ctx md5String of None \<Rightarrow> replicate 16 0 | Some d \<Rightarrow> d)"

text \<open>
  \<^verbatim>\<open>xsdk_config_init\<close>: \<open>saved\<close> is the buffer after \<^verbatim>\<open>OnReadConfig\<close>. The second component is what is
  written back when the saved configuration belongs to something else.
\<close>

definition xsdk_config_init ::
  "XGMD5_CTX \<Rightarrow> bytes \<Rightarrow> bytes \<Rightarrow> bytes \<Rightarrow> bytes option \<Rightarrow> xsdk_flash \<times> bytes option" where
  "xsdk_config_init ctx proID proKey mac saved =
     (let flash = (case saved of None \<Rightarrow> zero_flash | Some b \<Rightarrow> flash_of_image (masked b));
          flag = xlinkflag ctx proID proKey mac
      in if strncmp_eq (isXlinkCheck flash) flag 16 then (flash, None)
         else
           let flash = zero_flash\<lparr>f_subkey := -1, isXlinkCheck := take 16 flag, accesskey := -1\<rparr>
           in (flash, Some (xsdk_config_save flash)))"

section \<open>Access by index\<close>

datatype cfg_item =
  Cfg_Config xlink_SdkConfig | Cfg_Name bytes | Cfg_Auth bytes | Cfg_Share_Key u32 | Cfg_Subkey u32
| Cfg_Domain_Ip bytes

definition padded :: "nat \<Rightarrow> bytes \<Rightarrow> bytes" where
  "padded n bs = bs @ replicate (n - length bs) 0"

primrec xsdk_write_config :: "cfg_item \<Rightarrow> xsdk_flash \<Rightarrow> xsdk_flash" where
  "xsdk_write_config (Cfg_Config c) f = f\<lparr>sdk := c\<rparr>"
| "xsdk_write_config (Cfg_Name p_data) f = f\<lparr>f_name := padded 16 (take 16 p_data)\<rparr>"
| "xsdk_write_config (Cfg_Auth p_data) f = f\<lparr>f_auth := padded 16 (take 16 p_data)\<rparr>"
| "xsdk_write_config (Cfg_Share_Key k) f = f\<lparr>accesskey := k\<rparr>"
| "xsdk_write_config (Cfg_Subkey k) f = f\<lparr>f_subkey := k\<rparr>"
| "xsdk_write_config (Cfg_Domain_Ip p_data) f =
     (if length p_data \<le> 74 then f\<lparr>domain_ip := padded 76 p_data\<rparr> else f)"

text \<open>The name and the code as read into a buffer of \<open>n\<close> bytes.\<close>

definition xsdk_read_name :: "nat \<Rightarrow> xsdk_flash \<Rightarrow> bytes" where
  "xsdk_read_name n f = take (min 16 n) (f_name f)"

definition XlinkGetAuthCode :: "xsdk_flash \<Rightarrow> bytes" where
  "XlinkGetAuthCode f = take 16 (f_auth f)"

definition XlinkGetACK :: "xsdk_flash \<Rightarrow> u32" where
  "XlinkGetACK f = accesskey f"

definition XlinkGetSubKey :: "xsdk_flash \<Rightarrow> u32" where
  "XlinkGetSubKey f = f_subkey f"

definition XlinkSetSubKey :: "u32 \<Rightarrow> xsdk_flash \<Rightarrow> xsdk_flash \<times> bytes" where
  "XlinkSetSubKey subkey f =
     (let f = xsdk_write_config (Cfg_Subkey subkey) f in (f, xsdk_config_save f))"

text \<open>A key is legal from 1 to 999999999.\<close>

definition legal_key :: "u32 \<Rightarrow> bool" where
  "legal_key k \<longleftrightarrow> 0 < sint k \<and> sint k \<le> 999999999"

definition XlinkBuildSubKey :: "bytes \<Rightarrow> u64 \<Rightarrow> xsdk_flash \<Rightarrow> u32" where
  "XlinkBuildSubKey mac c_time f =
     (let subkey = -1 + sum_list (map ucast mac) + ucast (isXlinkCheck f ! 0) + ucast (isXlinkCheck f ! 1)
            + ucast (isXlinkCheck f ! 2) + ucast c_time;
          subkey = (subkey AND 0x2ffffff) XOR 0xCDEF7A
      in if legal_key subkey then subkey else 0xCDEF7A)"

definition XlinkSetACK :: "bytes \<Rightarrow> u64 \<Rightarrow> u32 \<Rightarrow> xsdk_flash \<Rightarrow> xsdk_flash \<times> bytes" where
  "XlinkSetACK mac c_time key f =
     (let f = (if legal_key (XlinkGetSubKey f) then f
               else xsdk_write_config (Cfg_Subkey (XlinkBuildSubKey mac c_time f)) f);
          f = xsdk_write_config (Cfg_Share_Key key) f
      in (f, xsdk_config_save f))"

definition isActivation :: "xlink_SdkConfig \<Rightarrow> bool" where
  "isActivation c \<longleftrightarrow> bit (flag_All c) 0"

definition isAppSetName :: "xlink_SdkConfig \<Rightarrow> bool" where
  "isAppSetName c \<longleftrightarrow> bit (flag_All c) 3"

text \<open>\<^verbatim>\<open>XlinkReSetSDK\<close>: the flash, the copy of its first member in \<^verbatim>\<open>g_xlink_info\<close>, what is saved.\<close>

definition XlinkReSetSDK ::
  "xsdk_flash \<times> xlink_SdkConfig \<Rightarrow> (xsdk_flash \<times> xlink_SdkConfig) \<times> bytes" where
  "XlinkReSetSDK = (\<lambda>(f, config).
     let f = f\<lparr>accesskey := -1, f_subkey := -1, sdk := (sdk f)\<lparr>flag_All := flag_All (sdk f) AND NOT 1\<rparr>\<rparr>
     in ((f, config\<lparr>flag_All := flag_All config AND NOT 1\<rparr>), xsdk_config_save f))"

text \<open>Timers: a time and how long after it they run out.\<close>

record xlink_timer =
  timer_time :: u64
  outtime :: u32

definition xsdk_timer_set :: "u64 \<Rightarrow> u32 \<Rightarrow> xlink_timer" where
  "xsdk_timer_set now out = \<lparr>timer_time = now, outtime = out\<rparr>"

definition xsdk_tiemr_timerout :: "u64 \<Rightarrow> xlink_timer \<Rightarrow> bool \<times> xlink_timer" where
  "xsdk_tiemr_timerout ctime timer =
     (if timer_time timer \<le> ctime then (ucast (outtime timer) + timer_time timer \<le> ctime, timer)
      else (True, timer\<lparr>timer_time := ctime\<rparr>))"

section \<open>Saving and loading again\<close>

definition flash_ok :: "xsdk_flash \<Rightarrow> bool" where
  "flash_ok f \<longleftrightarrow> length (Deviceid (sdk f)) = 4 \<and> length (f_name f) = 16 \<and> length (f_auth f) = 16 \<and>
     length (isXlinkCheck f) = 16 \<and> length (domain_ip f) = 76"

lemma length_masked [simp]: "length (masked b) = length b"
  by (simp add: masked_def)

lemma masked_masked [simp]: "masked (masked b) = b"
  by (rule nth_equalityI) (simp_all add: masked_def xor.assoc)

lemma length_flash_image: "flash_ok f \<Longrightarrow> length (flash_image f) = 180"
  by (simp add: flash_image_def flash_ok_def Let_def le_bytes_def)

lemma memcpy_at_mid:
  "length a = off \<Longrightarrow> length b = length src \<Longrightarrow> memcpy_at off src (a @ b @ c) = a @ src @ c"
  by (simp add: memcpy_at_def)

lemma flash_image_parts:
  assumes "flash_ok f"
  shows "flash_image f = [flag_All (sdk f)] @ Deviceid (sdk f) @
    [ucast (CurrentSoftVersion (sdk f)), ucast (drop_bit 8 (CurrentSoftVersion (sdk f)))] @
    f_name f @ f_auth f @ replicate 16 0 @ isXlinkCheck f @ replicate 6 0 @
    le_bytes (accesskey f) @ le_bytes (f_subkey f) @ domain_ip f @ replicate 19 0"
proof -
  obtain d0 d1 d2 d3 where d: "Deviceid (sdk f) = [d0, d1, d2, d3]"
    using assms by (auto simp: flash_ok_def numeral_eq_Suc length_Suc_conv)
  define h :: bytes where "h = [flag_All (sdk f), d0, d1, d2, d3, ucast (CurrentSoftVersion (sdk f)),
    ucast (drop_bit 8 (CurrentSoftVersion (sdk f)))]"
  let ?z = "\<lambda>n. replicate n (0 :: byte)"
  have len: "length h = 7" "length (f_name f) = 16" "length (f_auth f) = 16" "length (isXlinkCheck f) = 16"
    "length (domain_ip f) = 76" "length (le_bytes k) = 4" for k
    using assms by (simp_all add: h_def flash_ok_def)
  have "?z 180 = [0, 0, 0, 0, 0, 0, 0] @ ?z 173"
    by (simp flip: replicate_Suc replicate_add add: numeral_eq_Suc)
  then have head: "(?z 180)[0 := flag_All (sdk f), 1 := Deviceid (sdk f) ! 0, 2 := Deviceid (sdk f) ! 1,
      3 := Deviceid (sdk f) ! 2, 4 := Deviceid (sdk f) ! 3, 5 := ucast (CurrentSoftVersion (sdk f)),
      6 := ucast (drop_bit 8 (CurrentSoftVersion (sdk f)))] = h @ ?z 173"
    by (simp add: d h_def)
  have split: "?z 173 = ?z 16 @ ?z 16 @ ?z 16 @ ?z 16 @ ?z 6 @ ?z 4 @ ?z 4 @ ?z 76 @ ?z 19"
    by (simp flip: replicate_add)
  note step = memcpy_at_mid [of "_ @ _", unfolded append_assoc]
  have "flash_image f = h @ f_name f @ f_auth f @ ?z 16 @ isXlinkCheck f @ ?z 6 @
      le_bytes (accesskey f) @ le_bytes (f_subkey f) @ domain_ip f @ ?z 19"
    unfolding flash_image_def Let_def head split
    using memcpy_at_mid [of h 7 "?z 16" "f_name f"]
      step [of h "f_name f" 23 "?z 16" "f_auth f"]
      step [of h "f_name f @ f_auth f @ ?z 16" 55 "?z 16" "isXlinkCheck f"]
      step [of h "f_name f @ f_auth f @ ?z 16 @ isXlinkCheck f @ ?z 6" 77 "?z 4" "le_bytes (accesskey f)"]
      step [of h "f_name f @ f_auth f @ ?z 16 @ isXlinkCheck f @ ?z 6 @ le_bytes (accesskey f)" 81 "?z 4"
        "le_bytes (f_subkey f)"]
      step [of h "f_name f @ f_auth f @ ?z 16 @ isXlinkCheck f @ ?z 6 @ le_bytes (accesskey f) @ le_bytes (f_subkey f)"
        85 "?z 76" "domain_ip f"]
    by (simp add: len)
  then show ?thesis by (simp add: h_def d)
qed


lemma UTIL_INT16_SET_ucast [simp]: "UTIL_INT16_SET (ucast (drop_bit 8 x)) (ucast x) = x"
proof -
  have "unat x < 256 * 256" using unsigned_less [of x, where ?'a = nat] by simp
  then have "unat x div 256 < 256" by (simp add: less_mult_imp_div_less)
  then have "unat (UTIL_INT16_SET (ucast (drop_bit 8 x)) (ucast x)) = unat x"
    by (simp add: byte_order unat_ucast_byte unat_drop_bit_div)
  then show ?thesis by (simp only: word_unat_eq_iff)
qed

lemma le_word_le_bytes_at: "length a = i \<Longrightarrow> le_word (a @ le_bytes w @ xs) i = w"
  by (simp add: le_word_def le_bytes_def nth_append)

lemma take_drop_mid: "length a = i \<Longrightarrow> length b = n \<Longrightarrow> take n (drop i (a @ b @ c)) = b"
  by simp

lemma flash_of_flash_image:
  assumes "flash_ok f" shows "flash_of_image (flash_image f) = f"
proof -
  obtain d0 d1 d2 d3 where d: "Deviceid (sdk f) = [d0, d1, d2, d3]"
    using assms by (auto simp: flash_ok_def numeral_eq_Suc length_Suc_conv)
  define h :: bytes where "h = [flag_All (sdk f), d0, d1, d2, d3, ucast (CurrentSoftVersion (sdk f)),
    ucast (drop_bit 8 (CurrentSoftVersion (sdk f)))]"
  let ?z = "\<lambda>n. replicate n (0 :: byte)"
  have len: "length h = 7" "length (f_name f) = 16" "length (f_auth f) = 16" "length (isXlinkCheck f) = 16"
    "length (domain_ip f) = 76" "length (le_bytes k) = 4" for k
    using assms by (simp_all add: h_def flash_ok_def)
  have b: "flash_image f = h @ f_name f @ f_auth f @ ?z 16 @ isXlinkCheck f @ ?z 6 @
      le_bytes (accesskey f) @ le_bytes (f_subkey f) @ domain_ip f @ ?z 19"
    using flash_image_parts [OF assms] by (simp add: h_def d)
  note mid = take_drop_mid [of "_ @ _", unfolded append_assoc] and word = le_word_le_bytes_at [of "_ @ _", unfolded append_assoc]
  have "flag_All (sdk (flash_of_image (flash_image f))) = flag_All (sdk f)"
    "Deviceid (sdk (flash_of_image (flash_image f))) = Deviceid (sdk f)"
    "CurrentSoftVersion (sdk (flash_of_image (flash_image f))) = CurrentSoftVersion (sdk f)"
    by (simp_all add: flash_of_image_def b h_def d)
  moreover have "f_name (flash_of_image (flash_image f)) = f_name f"
    using take_drop_mid [of h 7 "f_name f" 16] by (simp add: flash_of_image_def b len)
  moreover have "f_auth (flash_of_image (flash_image f)) = f_auth f"
    using mid [of h "f_name f" 23 "f_auth f" 16] by (simp add: flash_of_image_def b len)
  moreover have "isXlinkCheck (flash_of_image (flash_image f)) = isXlinkCheck f"
    using mid [of h "f_name f @ f_auth f @ ?z 16" 55 "isXlinkCheck f" 16] by (simp add: flash_of_image_def b len)
  moreover have "accesskey (flash_of_image (flash_image f)) = accesskey f"
    using word [of h "f_name f @ f_auth f @ ?z 16 @ isXlinkCheck f @ ?z 6" 77 "accesskey f"]
    by (simp add: flash_of_image_def b len)
  moreover have "f_subkey (flash_of_image (flash_image f)) = f_subkey f"
    using word [of h "f_name f @ f_auth f @ ?z 16 @ isXlinkCheck f @ ?z 6 @ le_bytes (accesskey f)" 81 "f_subkey f"]
    by (simp add: flash_of_image_def b len)
  moreover have "domain_ip (flash_of_image (flash_image f)) = domain_ip f"
    using mid [of h "f_name f @ f_auth f @ ?z 16 @ isXlinkCheck f @ ?z 6 @ le_bytes (accesskey f) @ le_bytes (f_subkey f)"
        85 "domain_ip f" 76]
    by (simp add: flash_of_image_def b len)
  ultimately show ?thesis by simp
qed

lemma length_xlinkGetMd5: "length (md5_in ctx) = 64 \<Longrightarrow> length d < 2 ^ 32 \<Longrightarrow> d \<noteq> [] \<Longrightarrow>
    xlinkGetMd5 ctx d = Some (rfc_md5 d)"
  by (rule xlinkGetMd5_spec)

text \<open>Starting with what was saved under the same product and MAC gives it back and writes nothing.\<close>

lemma xsdk_config_init_saved:
  assumes "flash_ok f" "strncmp_eq (isXlinkCheck f) (xlinkflag ctx proID proKey mac) 16"
  shows "xsdk_config_init ctx proID proKey mac (Some (xsdk_config_save f)) = (f, None)"
  using assms by (simp add: xsdk_config_init_def xsdk_config_save_def flash_of_flash_image)

lemma flash_ok_zero: "flash_ok zero_flash"
  by (simp add: zero_flash_def flash_ok_def)

lemma length_xsdk_config_save: "flash_ok f \<Longrightarrow> length (xsdk_config_save f) = 180"
  by (simp add: xsdk_config_save_def length_flash_image)

lemma flash_ok_write [simp]:
  "flash_ok f \<Longrightarrow> flash_ok (xsdk_write_config (Cfg_Name n) f)"
  "flash_ok f \<Longrightarrow> flash_ok (xsdk_write_config (Cfg_Auth n) f)"
  "flash_ok f \<Longrightarrow> flash_ok (xsdk_write_config (Cfg_Share_Key k) f)"
  "flash_ok f \<Longrightarrow> flash_ok (xsdk_write_config (Cfg_Subkey k) f)"
  "flash_ok f \<Longrightarrow> flash_ok (xsdk_write_config (Cfg_Domain_Ip d) f)"
  "flash_ok f \<Longrightarrow> length (Deviceid c) = 4 \<Longrightarrow> flash_ok (xsdk_write_config (Cfg_Config c) f)"
  "flash_ok (f\<lparr>accesskey := k\<rparr>) = flash_ok f" "flash_ok (f\<lparr>f_subkey := k\<rparr>) = flash_ok f"
  by (auto simp: flash_ok_def padded_def)



text \<open>Whatever the clock and the device, a fresh sub key is legal.\<close>

lemma legal_XlinkBuildSubKey: "legal_key (XlinkBuildSubKey mac now f)"
  by (simp add: XlinkBuildSubKey_def Let_def) (simp add: legal_key_def)


lemma length_rfc_md5 [simp]: "length (rfc_md5 m) = 16"
  by (simp add: rfc_md5_def bytes_of_word_def split: prod.splits)

definition sample_flash :: xsdk_flash where
  "sample_flash = zero_flash\<lparr>isXlinkCheck := rfc_md5 [0x41, 0x30, 0x31]\<rparr>"


end
