(* ===== verification/XlinkClient.thy ===== *)
theory XlinkClient imports XsdkConfig begin

text \<open>
  The state of the cloud client and its table of local sessions (\<^verbatim>\<open>xlink/xlink_client.c\<close>, with the
  structures of \<^verbatim>\<open>xlink_data.h\<close> and \<^verbatim>\<open>Xlink_Head_Adaptation.h\<close>).

  \<open>xsdk\<close> collects \<^verbatim>\<open>g_xlink_client\<close>, \<^verbatim>\<open>g_xlink_info\<close>, \<^verbatim>\<open>g_xlink_user_config\<close>, \<^verbatim>\<open>xsdk_flash\<close> and the
  static variables of \<^verbatim>\<open>xlinkv4Udp.c\<close>. What leaves the program, on the socket or through a callback,
  is logged. Of a callback only whether it is installed is known; \<open>OnGetAllDataPoint\<close> is the bytes it
  writes. An address is an IPv4 address and a port.
\<close>

section \<open>State\<close>

type_synonym xlink_addr = "u32 \<times> u16"

record XLINK_CLIENT =
  Address :: xlink_addr
  LastReceiveDataTime :: u64
  checkValue :: byte
  ArrayIndex :: byte
  keepAliveTime :: u16
  lastsendtime :: u64
  lastRecvPipeTime :: u64
  client_msgid :: "u16 list"
  isActive :: bool
  sendcount :: u16
  sendmessageid :: u16

datatype app_status = STA_APP_CONNECT | STA_APP_DISCONNECT | STA_APP_TIMEOUT

datatype sdk_event =
  Sent xlink_addr bytes
| Status app_status
| Config_Written bytes
| Udp_Pipe bytes u32 byte
| Set_Data_Point bytes u32
| XG_Message bytes xlink_addr
| Close_Tcp int

record SendDataList =
  item_data :: bytes
  users :: u32

record XLINK_USER_CONFIG =
  u_mac :: bytes
  maclen :: u16
  wifi_type :: byte
  wifisoftVersion :: u16
  mcuHardwareSoftVersion :: u16
  devicetype :: u16
  pipetype :: byte
  OnStatus :: bool
  OnUdpPipe :: bool
  OnSetDataPoint :: bool
  OnXGMessage :: bool
  OnGetAllDataPoint :: "bytes option"

record xsdk =
  clients :: "XLINK_CLIENT list"
  clientCount :: bool
  g_XlinkSdkTime :: u64
  isScanEnable :: bool
  udp_fd :: int
  config :: xlink_SdkConfig
  product_id :: bytes
  flash :: xsdk_flash
  user :: XLINK_USER_CONFIG
  g_udp_listen_port :: u32
  udpPipeIndex :: byte
  g_udp_msgid :: u16
  sendlist :: "SendDataList list"
  debug_text :: bytes
  md5_ctx :: XGMD5_CTX
  xlog :: "sdk_event list"

abbreviation (input) XLINK_CLIENT_SIZE :: nat where "XLINK_CLIENT_SIZE \<equiv> 32"

definition sdk_put :: "sdk_event \<Rightarrow> xsdk \<Rightarrow> xsdk" where
  "sdk_put e s = s\<lparr>xlog := xlog s @ [e]\<rparr>"

definition sdk_status :: "app_status \<Rightarrow> xsdk \<Rightarrow> xsdk" where
  "sdk_status st s = (if OnStatus (user s) then sdk_put (Status st) s else s)"

definition the_mac :: "xsdk \<Rightarrow> bytes" where
  "the_mac s = take (unat (maclen (user s))) (u_mac (user s))"

section \<open>Operations\<close>

definition zero_client :: "byte \<Rightarrow> XLINK_CLIENT" where
  "zero_client i = \<lparr>Address = (0, 0), LastReceiveDataTime = 0, checkValue = 0, ArrayIndex = i,
     keepAliveTime = 0, lastsendtime = 0, lastRecvPipeTime = 0, client_msgid = [0, 0], isActive = False,
     sendcount = 0, sendmessageid = 0\<rparr>"

definition XlinnkClientInit :: "xsdk \<Rightarrow> xsdk" where
  "XlinnkClientInit s = s\<lparr>clients := map (\<lambda>i. zero_client (of_nat i)) [0..<XLINK_CLIENT_SIZE]\<rparr>"

definition upd_session :: "nat \<Rightarrow> (XLINK_CLIENT \<Rightarrow> XLINK_CLIENT) \<Rightarrow> xsdk \<Rightarrow> xsdk" where
  "upd_session i f s = s\<lparr>clients := (clients s)[i := f (clients s ! i)]\<rparr>"

primrec first_index :: "('a \<Rightarrow> bool) \<Rightarrow> nat \<Rightarrow> 'a list \<Rightarrow> nat option" where
  "first_index P i [] = None"
| "first_index P i (x # xs) = (if P x then Some i else first_index P (i + 1) xs)"

text \<open>The index of the session, its index and its value as the caller's two variables get them.\<close>

definition XlinkClientAddclient :: "u16 \<Rightarrow> xlink_addr \<Rightarrow> xsdk \<Rightarrow> nat \<times> byte \<times> byte \<times> xsdk" where
  "XlinkClientAddclient AppKeepAliveTime addr s =
     (case first_index (\<lambda>c. isActive c \<and> Address c = addr) 0 (clients s) of
        Some index \<Rightarrow>
          let s = upd_session index (\<lambda>c. c\<lparr>keepAliveTime := AppKeepAliveTime, isActive := True,
                    LastReceiveDataTime := g_XlinkSdkTime s, Address := addr\<rparr>) s
          in (index, of_nat index, checkValue (clients s ! index), s\<lparr>clientCount := True\<rparr>)
      | None \<Rightarrow>
          (case first_index (\<lambda>c. \<not> isActive c) 0 (clients s) of
             Some index \<Rightarrow>
               let s = upd_session index (\<lambda>c. c\<lparr>keepAliveTime := AppKeepAliveTime, isActive := True,
                         LastReceiveDataTime := g_XlinkSdkTime s, Address := addr\<rparr>) s;
                   s = sdk_status STA_APP_CONNECT s;
                   ssidValue = ucast (LastReceiveDataTime (clients s ! index) mod 253 + 1) :: byte;
                   s = upd_session index (\<lambda>c. c\<lparr>checkValue := ssidValue\<rparr>) s
               in (index, of_nat index, ssidValue, s\<lparr>clientCount := True\<rparr>)
           | None \<Rightarrow> (XLINK_CLIENT_SIZE, 0, 0, s)))"

definition XlinkClientQuit :: "nat \<Rightarrow> xsdk \<Rightarrow> xsdk" where
  "XlinkClientQuit index s =
     sdk_status STA_APP_DISCONNECT (upd_session index (\<lambda>c. c\<lparr>isActive := False, checkValue := 0,
       keepAliveTime := 0, LastReceiveDataTime := 0\<rparr>) s)"

definition XlinkClientByby :: "nat \<Rightarrow> xlink_addr \<Rightarrow> xsdk \<Rightarrow> xsdk" where
  "XlinkClientByby ssid AddrBro s = XlinkClientQuit ssid s"

definition xlinkClientReSet :: "xlink_addr \<Rightarrow> xsdk \<Rightarrow> xsdk" where
  "xlinkClientReSet AddrBro s = s\<lparr>clients := map (\<lambda>c.
     if isActive c \<and> fst (Address c) \<noteq> fst AddrBro
     then c\<lparr>checkValue := 0, isActive := False, LastReceiveDataTime := 0\<rparr> else c) (clients s)\<rparr>"

text \<open>One session at a heartbeat, and whether it has timed out.\<close>

definition heartbeat :: "u64 \<Rightarrow> XLINK_CLIENT \<Rightarrow> bool \<times> XLINK_CLIENT" where
  "heartbeat c_time c =
     (if isActive c then
        let c = (if c_time < LastReceiveDataTime c then c\<lparr>LastReceiveDataTime := c_time\<rparr> else c);
            time_temp = ucast (c_time - LastReceiveDataTime c) :: u32
        in if (scast (keepAliveTime c) :: u32) \<le> time_temp
           then (True, c\<lparr>isActive := False, checkValue := 0, keepAliveTime := 0, LastReceiveDataTime := 0,
                    client_msgid := [0, 0]\<rparr>)
           else (False, c)
      else (False, c))"

primrec heartbeat_loop :: "u64 \<Rightarrow> XLINK_CLIENT list \<Rightarrow> nat \<times> XLINK_CLIENT list" where
  "heartbeat_loop c_time [] = (0, [])"
| "heartbeat_loop c_time (c # cs) =
     (case heartbeat c_time c of (gone, c) \<Rightarrow>
      case heartbeat_loop c_time cs of (n, cs) \<Rightarrow> ((if gone then 1 else 0) + n, c # cs))"

definition XlinkClientCheckHeartbeat :: "u64 \<Rightarrow> xsdk \<Rightarrow> xsdk" where
  "XlinkClientCheckHeartbeat c_time s =
     (case heartbeat_loop c_time (clients s) of (gone, cs) \<Rightarrow>
       (sdk_status STA_APP_TIMEOUT ^^ gone) (s\<lparr>clients := cs\<rparr>)\<lparr>clientCount := (\<exists>c \<in> set cs. isActive c)\<rparr>)"

definition XlinkClientSendDataToAddr :: "bytes \<Rightarrow> xlink_addr \<Rightarrow> xsdk \<Rightarrow> xsdk" where
  "XlinkClientSendDataToAddr data addr s = (if udp_fd s > 0 then sdk_put (Sent addr data) s else s)"

definition XlinkClientSendToIndex :: "bytes \<Rightarrow> nat \<Rightarrow> xsdk \<Rightarrow> xsdk" where
  "XlinkClientSendToIndex data index s =
     (if index < XLINK_CLIENT_SIZE then XlinkClientSendDataToAddr data (Address (clients s ! index)) s else s)"

definition XlinkClientSendDataToAllOlineClient :: "bytes \<Rightarrow> xsdk \<Rightarrow> xsdk" where
  "XlinkClientSendDataToAllOlineClient data s =
     (if clientCount s
      then fold (\<lambda>i s. if isActive (clients s ! i) \<and> checkValue (clients s ! i) \<noteq> 0
                   then XlinkClientSendToIndex data i s else s) [0..<XLINK_CLIENT_SIZE] s
      else s)"

definition XlinkClientcheckclientLogin :: "byte \<Rightarrow> byte \<Rightarrow> xlink_addr \<Rightarrow> xsdk \<Rightarrow> bool \<times> xsdk" where
  "XlinkClientcheckclientLogin ssidIndex ssidValue AddrBro s =
     (let i = unat ssidIndex; c = clients s ! i in
      if i < XLINK_CLIENT_SIZE \<and> isActive c \<and> checkValue c = ssidValue \<and> Address c = AddrBro
      then (True, (upd_session i (\<lambda>c. c\<lparr>LastReceiveDataTime := g_XlinkSdkTime s\<rparr>) s)\<lparr>clientCount := True\<rparr>)
      else (False, s))"

section \<open>The table is well formed\<close>

text \<open>
  Thirty-two slots; an active session has a value from 1 to 253, a free slot has 0; no two active
  sessions have the same address.
\<close>

definition client_ok :: "XLINK_CLIENT \<Rightarrow> bool" where
  "client_ok c \<longleftrightarrow> length (client_msgid c) = 2 \<and>
     (if isActive c then 0 < checkValue c \<and> checkValue c \<le> 253 else checkValue c = 0)"

definition one_per_address :: "XLINK_CLIENT list \<Rightarrow> bool" where
  "one_per_address cs \<longleftrightarrow> (\<forall>i < length cs. \<forall>j < length cs. isActive (cs ! i) \<longrightarrow> isActive (cs ! j) \<longrightarrow>
     Address (cs ! i) = Address (cs ! j) \<longrightarrow> i = j)"

definition table_ok :: "XLINK_CLIENT list \<Rightarrow> bool" where
  "table_ok cs \<longleftrightarrow> length cs = XLINK_CLIENT_SIZE \<and> list_all client_ok cs \<and> one_per_address cs"

lemma first_index_Some:
  "first_index P k xs = Some i \<Longrightarrow> k \<le> i \<and> i < k + length xs \<and> P (xs ! (i - k)) \<and> (\<forall>j<i - k. \<not> P (xs ! j))"
proof (induction xs arbitrary: k)
  case (Cons x xs)
  show ?case
  proof (cases "P x")
    case False
    then have IH: "Suc k \<le> i \<and> i < Suc k + length xs \<and> P (xs ! (i - Suc k)) \<and> (\<forall>j<i - Suc k. \<not> P (xs ! j))"
      using Cons.prems by (intro Cons.IH) simp
    then obtain m where m: "i - k = Suc m" "i - Suc k = m" by (metis Suc_diff_Suc Suc_le_lessD)
    show ?thesis using IH m False by (auto simp: less_Suc_eq_0_disj)
  qed (use Cons in auto)
qed simp

lemma first_index_None: "first_index P k xs = None \<longleftrightarrow> (\<forall>x \<in> set xs. \<not> P x)"
  by (induction xs arbitrary: k) auto

lemmas first_index_0 = first_index_Some [where k = 0, simplified]

lemma sdk_put_simps [simp]:
  "clients (sdk_put e s) = clients s" "user (sdk_put e s) = user s" "flash (sdk_put e s) = flash s"
  "config (sdk_put e s) = config s" "isScanEnable (sdk_put e s) = isScanEnable s" "udp_fd (sdk_put e s) = udp_fd s"
  "sendlist (sdk_put e s) = sendlist s" "g_XlinkSdkTime (sdk_put e s) = g_XlinkSdkTime s"
  "xlog (sdk_put e s) = xlog s @ [e]" "md5_ctx (sdk_put e s) = md5_ctx s" "product_id (sdk_put e s) = product_id s"
  "clientCount (sdk_put e s) = clientCount s" "g_udp_listen_port (sdk_put e s) = g_udp_listen_port s"
  by (simp_all add: sdk_put_def)

lemma sdk_status_simps [simp]:
  "clients (sdk_status e s) = clients s" "user (sdk_status e s) = user s" "flash (sdk_status e s) = flash s"
  "config (sdk_status e s) = config s" "isScanEnable (sdk_status e s) = isScanEnable s" "udp_fd (sdk_status e s) = udp_fd s"
  "sendlist (sdk_status e s) = sendlist s" "g_XlinkSdkTime (sdk_status e s) = g_XlinkSdkTime s"
  "md5_ctx (sdk_status e s) = md5_ctx s" "product_id (sdk_status e s) = product_id s"
  "clientCount (sdk_status e s) = clientCount s" "g_udp_listen_port (sdk_status e s) = g_udp_listen_port s"
  by (simp_all add: sdk_status_def)

lemma upd_session_simps [simp]:
  "clients (upd_session i f s) = (clients s)[i := f (clients s ! i)]" "user (upd_session i f s) = user s"
  "flash (upd_session i f s) = flash s" "config (upd_session i f s) = config s"
  "isScanEnable (upd_session i f s) = isScanEnable s" "udp_fd (upd_session i f s) = udp_fd s"
  "sendlist (upd_session i f s) = sendlist s" "g_XlinkSdkTime (upd_session i f s) = g_XlinkSdkTime s"
  "xlog (upd_session i f s) = xlog s" "md5_ctx (upd_session i f s) = md5_ctx s" "product_id (upd_session i f s) = product_id s"
  "clientCount (upd_session i f s) = clientCount s" "g_udp_listen_port (upd_session i f s) = g_udp_listen_port s"
  by (simp_all add: upd_session_def)

lemma send_simps [simp]:
  "clients (XlinkClientSendDataToAddr d a s) = clients s" "user (XlinkClientSendDataToAddr d a s) = user s"
  "flash (XlinkClientSendDataToAddr d a s) = flash s" "config (XlinkClientSendDataToAddr d a s) = config s"
  "isScanEnable (XlinkClientSendDataToAddr d a s) = isScanEnable s" "udp_fd (XlinkClientSendDataToAddr d a s) = udp_fd s"
  "sendlist (XlinkClientSendDataToAddr d a s) = sendlist s"
  "clients (XlinkClientSendToIndex d i s) = clients s" "user (XlinkClientSendToIndex d i s) = user s"
  "flash (XlinkClientSendToIndex d i s) = flash s" "config (XlinkClientSendToIndex d i s) = config s"
  "isScanEnable (XlinkClientSendToIndex d i s) = isScanEnable s" "udp_fd (XlinkClientSendToIndex d i s) = udp_fd s"
  "sendlist (XlinkClientSendToIndex d i s) = sendlist s"
  by (simp_all add: XlinkClientSendDataToAddr_def XlinkClientSendToIndex_def)


lemma table_ok_update:
  assumes "table_ok cs" "i < XLINK_CLIENT_SIZE" "client_ok c"
    "isActive c \<Longrightarrow> \<forall>j < XLINK_CLIENT_SIZE. j \<noteq> i \<longrightarrow> isActive (cs ! j) \<longrightarrow> Address (cs ! j) \<noteq> Address c"
  shows "table_ok (cs[i := c])"
  using assms
  by (auto simp: table_ok_def one_per_address_def nth_list_update intro!: list_all_update)

lemma table_ok_map:
  assumes "table_ok cs" "\<And>c. client_ok c \<Longrightarrow> client_ok (f c)" "\<And>c. isActive (f c) \<Longrightarrow> isActive c \<and> Address (f c) = Address c"
  shows "table_ok (map f cs)"
  using assms by (auto simp: table_ok_def one_per_address_def list_all_iff)

lemma table_ok_nth: "table_ok cs \<Longrightarrow> i < XLINK_CLIENT_SIZE \<Longrightarrow> client_ok (cs ! i)"
  by (auto simp: table_ok_def list_all_length)

lemma table_ok_Init: "table_ok (clients (XlinnkClientInit s))"
  by (auto simp: table_ok_def one_per_address_def XlinnkClientInit_def zero_client_def client_ok_def list_all_iff)

lemma session_value: "0 < (ucast ((t :: u64) mod 253 + 1) :: byte) \<and> (ucast (t mod 253 + 1) :: byte) \<le> 253"
proof -
  have m: "unat (t mod 253) < 253" by (simp add: unat_mod_distrib)
  then have "unat (t mod 253 + 1) = unat (t mod 253) + 1" by (intro unat_add_lem [THEN iffD1, THEN trans]) simp_all
  then have "unat (ucast (t mod 253 + 1) :: byte) = unat (t mod 253) + 1" using m by (simp add: unat_ucast_byte)
  then show ?thesis using m by (simp add: word_less_nat_alt word_le_nat_alt)
qed

lemma table_ok_Addclient:
  assumes "table_ok (clients s)" "XlinkClientAddclient k addr s = (ret, i, v, s')"
  shows "table_ok (clients s')"
proof (cases "first_index (\<lambda>c. isActive c \<and> Address c = addr) 0 (clients s)")
  case (Some j)
  note f = first_index_0 [OF Some]
  have len: "length (clients s) = 32" using assms(1) by (simp add: table_ok_def)
  have ok: "client_ok (clients s ! j)" using f len table_ok_nth [OF assms(1)] by simp
  have "\<forall>i < XLINK_CLIENT_SIZE. i \<noteq> j \<longrightarrow> isActive (clients s ! i) \<longrightarrow> Address (clients s ! i) \<noteq> addr"
    using f assms(1) len by (auto simp: table_ok_def one_per_address_def)
  then have "table_ok ((clients s)[j := (clients s ! j)\<lparr>keepAliveTime := k, isActive := True,
      LastReceiveDataTime := g_XlinkSdkTime s, Address := addr\<rparr>])"
    using assms(1) f ok len by (intro table_ok_update) (auto simp: client_ok_def)
  then show ?thesis using assms(2) Some by (auto simp: XlinkClientAddclient_def Let_def)
next
  case None
  note fresh = None
  show ?thesis
  proof (cases "first_index (\<lambda>c. \<not> isActive c) 0 (clients s)")
    case (Some j)
    note f = first_index_0 [OF Some]
    have len: "length (clients s) = 32" using assms(1) by (simp add: table_ok_def)
    have ok: "client_ok (clients s ! j)" using f len table_ok_nth [OF assms(1)] by simp
    have "\<forall>i < XLINK_CLIENT_SIZE. i \<noteq> j \<longrightarrow> isActive (clients s ! i) \<longrightarrow> Address (clients s ! i) \<noteq> addr"
      using fresh len unfolding first_index_None by (metis nth_mem)
    then have "table_ok ((clients s)[j := (clients s ! j)\<lparr>keepAliveTime := k, isActive := True,
        LastReceiveDataTime := g_XlinkSdkTime s, Address := addr,
        checkValue := ucast (g_XlinkSdkTime s mod 253 + 1)\<rparr>])"
      using assms(1) f ok len session_value by (intro table_ok_update) (auto simp: client_ok_def)
    then show ?thesis using assms(2) Some fresh f len by (auto simp: XlinkClientAddclient_def Let_def)
  qed (use assms None in \<open>auto simp: XlinkClientAddclient_def\<close>)
qed

lemma table_ok_Quit: "table_ok (clients s) \<Longrightarrow> i < XLINK_CLIENT_SIZE \<Longrightarrow> table_ok (clients (XlinkClientQuit i s))"
  using table_ok_nth [of "clients s" i]
  by (auto simp: XlinkClientQuit_def client_ok_def intro!: table_ok_update)

lemma table_ok_ReSet: "table_ok (clients s) \<Longrightarrow> table_ok (clients (xlinkClientReSet a s))"
  unfolding xlinkClientReSet_def by (auto simp: client_ok_def intro!: table_ok_map split: if_splits)

lemma heartbeat_loop_clients: "snd (heartbeat_loop t cs) = map (\<lambda>c. snd (heartbeat t c)) cs"
  by (induction cs) (auto split: prod.split)

lemma funpow_status_clients [simp]: "clients ((sdk_status st ^^ n) s) = clients s"
  by (induction n) simp_all

lemma table_ok_CheckHeartbeat: "table_ok (clients s) \<Longrightarrow> table_ok (clients (XlinkClientCheckHeartbeat t s))"
proof -
  assume ok: "table_ok (clients s)"
  have "table_ok (map (\<lambda>c. snd (heartbeat t c)) (clients s))"
    using ok by (rule table_ok_map) (auto simp: heartbeat_def client_ok_def Let_def split: if_splits)
  then show ?thesis
    using heartbeat_loop_clients [of t "clients s"]
    by (auto simp: XlinkClientCheckHeartbeat_def split: prod.split)
qed

lemma table_ok_checkLogin:
  assumes "table_ok (clients s)" "XlinkClientcheckclientLogin i v a s = (b, s')"
  shows "table_ok (clients s')"
proof -
  let ?c = "clients s ! unat i"
  have "table_ok ((clients s)[unat i := ?c\<lparr>LastReceiveDataTime := g_XlinkSdkTime s\<rparr>])" if "unat i < 32" "isActive ?c"
    using that assms(1) table_ok_nth [OF assms(1) that(1)]
    by (intro table_ok_update) (auto simp: client_ok_def table_ok_def one_per_address_def)
  then show ?thesis
    using assms by (auto simp: XlinkClientcheckclientLogin_def Let_def split: if_splits)
qed

end
