(* ===== verification/XlinkUdp.thy ===== *)
theory XlinkUdp imports XlinkClient begin

text \<open>
  The local protocol of the cloud client (\<^verbatim>\<open>xlink/xlinkv4Udp.c\<close>): the dispatcher of datagrams, its
  handlers, and the queue of messages that wait for an acknowledgement.

  A datagram arrives in a receive array of fixed size of which it fills the first \<open>BufferLen\<close> bytes;
  the handlers read the array, so what lies behind a short datagram is read as it is. Answers are
  built in zeroed arrays on the stack and sent up to their last field: \<open>resp_frame\<close>.
\<close>

section \<open>Messages\<close>

record AgreementUdpHeader =
  h_flags :: byte
  h_messageid :: u16
  h_bodylength :: u16
  h_cmd :: byte
  h_data :: bytes

definition h_Ack :: "AgreementUdpHeader \<Rightarrow> bool" where "h_Ack h \<longleftrightarrow> bit (h_flags h) 0"
definition h_Priorty :: "AgreementUdpHeader \<Rightarrow> nat" where "h_Priorty h = (if bit (h_flags h) 1 then 1 else 0)"
definition h_isResend :: "AgreementUdpHeader \<Rightarrow> bool" where "h_isResend h \<longleftrightarrow> bit (h_flags h) 2"
definition h_response :: "AgreementUdpHeader \<Rightarrow> bool" where "h_response h \<longleftrightarrow> bit (h_flags h) 3"

text \<open>The array after the two fields behind the message number have been turned to host order.\<close>

definition header_of :: "bytes \<Rightarrow> AgreementUdpHeader" where
  "header_of buf = \<lparr>h_flags = buf ! 1, h_messageid = NShtonlInt16 (le16 buf 2), h_bodylength = le16 buf 4,
     h_cmd = buf ! 6, h_data = drop 8 buf\<rparr>"

abbreviation (input) E_TYPE_SCAN :: byte where "E_TYPE_SCAN \<equiv> 1"
abbreviation (input) E_TYPE_HANDSHAKE :: byte where "E_TYPE_HANDSHAKE \<equiv> 2"
abbreviation (input) E_TYPE_PROBE :: byte where "E_TYPE_PROBE \<equiv> 3"
abbreviation (input) E_TYPE_SET :: byte where "E_TYPE_SET \<equiv> 4"
abbreviation (input) E_TYPE_SYNC :: byte where "E_TYPE_SYNC \<equiv> 5"
abbreviation (input) E_TYPE_SUBKEY :: byte where "E_TYPE_SUBKEY \<equiv> 7"
abbreviation (input) E_TYPE_PIPE :: byte where "E_TYPE_PIPE \<equiv> 8"
abbreviation (input) E_TYPE_SETACK :: byte where "E_TYPE_SETACK \<equiv> 11"
abbreviation (input) E_TYPE_PING :: byte where "E_TYPE_PING \<equiv> 13"
abbreviation (input) E_TYPE_BYEBYE :: byte where "E_TYPE_BYEBYE \<equiv> 14"
abbreviation (input) XLINK_UDP_VERSION :: byte where "XLINK_UDP_VERSION \<equiv> 4"

definition be16 :: "u16 \<Rightarrow> bytes" where
  "be16 x = [UTIL_INT16_GET_BITH (ucast x), UTIL_INT16_GET_BITL (ucast x)]"

definition be32 :: "u32 \<Rightarrow> bytes" where
  "be32 x = [UTIL_INT32_GET_BIT3 x, UTIL_INT32_GET_BIT2 x, UTIL_INT32_GET_BIT1 x, UTIL_INT32_GET_BIT0 x]"

definition udp_frame :: "byte \<Rightarrow> byte \<Rightarrow> u16 \<Rightarrow> bytes \<Rightarrow> bytes" where
  "udp_frame flags cmd msgid data =
     [XLINK_UDP_VERSION, flags] @ be16 msgid @ be16 (of_nat (length data + 2)) @ [cmd, 0] @ data"

definition resp_frame :: "byte \<Rightarrow> u16 \<Rightarrow> bytes \<Rightarrow> bytes" where
  "resp_frame cmd msgid data = udp_frame 0x08 cmd msgid data"

definition maclen_byte :: "xsdk \<Rightarrow> byte" where
  "maclen_byte s = ucast (maclen (user s))"

definition XlinkEnableSubAndScan :: "xsdk \<Rightarrow> xsdk" where
  "XlinkEnableSubAndScan s = s\<lparr>isScanEnable := True\<rparr>"

definition XlinkDisableSubAndScan :: "xsdk \<Rightarrow> xsdk" where
  "XlinkDisableSubAndScan s = s\<lparr>isScanEnable := False\<rparr>"

section \<open>Scan\<close>

definition scan_answer :: "byte \<Rightarrow> xsdk \<Rightarrow> bytes" where
  "scan_answer flag s =
     (let name = c_string (xsdk_read_name 16 (flash s)); ack = accesskey (flash s);
          with_key = legal_key ack \<and> \<not> bit flag 0
      in [XLINK_UDP_VERSION, 0, maclen_byte s] @ the_mac s @ [0, 32] @ take 32 (product_id s)
         @ [wifi_type (user s)] @ be16 (mcuHardwareSoftVersion (user s)) @ be16 (ucast (g_udp_listen_port s))
         @ be16 (devicetype (user s)) @ [flag, if with_key then 5 else 1] @ [0, of_nat (length name)] @ name
         @ (if with_key then be32 ack else []))"

definition XlinkProcessUdpScan_V4 :: "AgreementUdpHeader \<Rightarrow> u32 \<Rightarrow> xlink_addr \<Rightarrow> xsdk \<Rightarrow> xsdk" where
  "XlinkProcessUdpScan_V4 header Datalength addrBro s =
     (let Buffer = h_data header; flag = Buffer ! 3; len = maclen (user s);
          wanted = (if bit flag 0
            then \<not> Datalength - 6 < ucast len \<and> strncmp_eq (drop 6 Buffer) (u_mac (user s)) (unat len)
            else isScanEnable s \<and> strncmp_eq (drop 4 Buffer) (product_id s) 32)
      in if \<not> wanted then s
         else
           let s = (if 32 < len then s\<lparr>user := (user s)\<lparr>maclen := 32\<rparr>\<rparr> else s)
           in XlinkClientSendDataToAddr (resp_frame E_TYPE_SCAN (h_messageid header) (scan_answer flag s)) addrBro s)"

section \<open>Handshake\<close>

definition ack_digest :: "xsdk \<Rightarrow> bytes" where
  "ack_digest s =
     (case xlinkGetMd5 (md5_ctx s) (le_bytes (accesskey (flash s))) of None \<Rightarrow> replicate 16 0 | Some d \<Rightarrow> d)"

definition handshakeErrorResV4 :: "AgreementUdpHeader \<Rightarrow> xlink_addr \<Rightarrow> byte \<Rightarrow> xsdk \<Rightarrow> xsdk" where
  "handshakeErrorResV4 header addrBro opt s =
     XlinkClientSendDataToAddr (resp_frame (h_cmd header) (h_messageid header)
       ([opt, XLINK_UDP_VERSION, 0, 0, 0, maclen_byte s] @ the_mac s)) addrBro s"

definition XlinkProcessUdpHandshake_V4 :: "AgreementUdpHeader \<Rightarrow> xlink_addr \<Rightarrow> xsdk \<Rightarrow> xsdk c_result" where
  "XlinkProcessUdpHandshake_V4 header addrBro s =
     (let Buffer = h_data header in
      if h_bodylength header < 24 then Inr s
      else if \<not> strncmp_eq (drop 3 Buffer) (ack_digest s) 16 then Inr (handshakeErrorResV4 header addrBro 2 s)
      else
        let AppKeepAliveTime = UTIL_INT16_SET (Buffer ! 22) (Buffer ! 23);
            s = XlinkClientCheckHeartbeat (g_XlinkSdkTime s) s
        in case XlinkClientAddclient AppKeepAliveTime addrBro s of (ret, ssidIndex, ssidValue, s) \<Rightarrow>
          if ssidValue = 0 then Inr (handshakeErrorResV4 header addrBro 3 s)
          else c_bind (Encode (accesskey (flash s)) (resp_frame (h_cmd header) (h_messageid header)
                 ([0, XLINK_UDP_VERSION, Buffer ! 1, Buffer ! 2, 0, maclen_byte s] @ the_mac s
                  @ Deviceid (config s) @ be16 (wifisoftVersion (user s)) @ [ssidValue, ssidIndex, 0])))
               (\<lambda>resp. Inr (XlinkClientSendDataToAddr resp addrBro s)))"

section \<open>Keys\<close>

definition XlinkProcessUdpSETACK_V4 :: "AgreementUdpHeader \<Rightarrow> u32 \<Rightarrow> xlink_addr \<Rightarrow> xsdk \<Rightarrow> xsdk" where
  "XlinkProcessUdpSETACK_V4 header Datalength addrBro s =
     (let Buffer = h_data header; key = accesskey (flash s);
          resp = (\<lambda>ret. resp_frame (h_cmd header) (h_messageid header) [Buffer ! 0, Buffer ! 1, ret])
      in if Datalength < 9 then s
         else if \<not> isScanEnable s then s
         else if 0 < sint key \<and> sint key < 999999999 then XlinkClientSendDataToAddr (resp 1) addrBro s
         else
           let key = UTIL_INT32_SET (Buffer ! 5) (Buffer ! 6) (Buffer ! 7) (Buffer ! 8) in
           if \<not> legal_key key then s
           else
             let subkey = XlinkBuildSubKey (the_mac s) (g_XlinkSdkTime s) (flash s);
                 f = xsdk_write_config (Cfg_Subkey subkey) (xsdk_write_config (Cfg_Share_Key key) (flash s));
                 s = sdk_put (Config_Written (xsdk_config_save f)) (s\<lparr>flash := f\<rparr>)
             in XlinkClientSendDataToAddr (resp 0) addrBro s)"

definition SubKeyErrorResV4 :: "AgreementUdpHeader \<Rightarrow> xlink_addr \<Rightarrow> byte \<Rightarrow> xsdk \<Rightarrow> xsdk" where
  "SubKeyErrorResV4 header addrBro opt s =
     XlinkClientSendDataToAddr (resp_frame (h_cmd header) (h_messageid header) [0, 0, opt]) addrBro s"

definition XlinkProcessUdpGetSubKey_V4 :: "AgreementUdpHeader \<Rightarrow> u32 \<Rightarrow> xlink_addr \<Rightarrow> xsdk \<Rightarrow> xsdk" where
  "XlinkProcessUdpGetSubKey_V4 header Datalength addrBro s =
     (let Buffer = h_data header in
      if Datalength < 20 then s
      else if Buffer ! 0 = 4 \<and> strncmp_eq (drop 3 Buffer) (ack_digest s) 16
      then XlinkClientSendDataToAddr (resp_frame (h_cmd header) (h_messageid header)
             ([Buffer ! 1, Buffer ! 2, 0] @ be32 (f_subkey (flash s)))) addrBro s
      else SubKeyErrorResV4 header addrBro 1 s)"

section \<open>Requests of a session\<close>

text \<open>Every request of a session carries the session's value and index in its first two bytes.\<close>

definition session_check :: "bytes \<Rightarrow> xlink_addr \<Rightarrow> xsdk \<Rightarrow> bool \<times> xsdk" where
  "session_check Buffer addrBro s = XlinkClientcheckclientLogin (Buffer ! 1) (Buffer ! 0) addrBro s"

definition XlinkProcessUdpPing_V4 :: "AgreementUdpHeader \<Rightarrow> xlink_addr \<Rightarrow> xsdk \<Rightarrow> xsdk" where
  "XlinkProcessUdpPing_V4 header addrBro s =
     (case session_check (h_data header) addrBro s of
        (False, s) \<Rightarrow> s
      | (True, s) \<Rightarrow> XlinkClientSendToIndex (resp_frame (h_cmd header) (h_messageid header)
          ([0, maclen_byte s] @ the_mac s)) (unat (h_data header ! 1)) s)"

abbreviation (input) XLINK_DATAPOINT_MAX_BYTES :: nat where "XLINK_DATAPOINT_MAX_BYTES \<equiv> 1000"

definition XlinkProcessUdpProbe_Datapoint_V4 :: "AgreementUdpHeader \<Rightarrow> xlink_addr \<Rightarrow> xsdk \<Rightarrow> xsdk c_result" where
  "XlinkProcessUdpProbe_Datapoint_V4 header addrBro s =
     (let ssidIndex = unat (h_data header ! 1) in
      case session_check (h_data header) addrBro s of
        (False, s) \<Rightarrow>
          Inr (XlinkClientSendToIndex (resp_frame (h_cmd header) (h_messageid header) [2]) ssidIndex s)
      | (True, s) \<Rightarrow>
          let name = c_string (xsdk_read_name 16 (flash s));
              front = [0, maclen_byte s] @ the_mac s;
              named = be16 (of_nat (length name)) @ name;
              pos = length front + 1 + length named;
              send = (\<lambda>data. c_bind (Encode (accesskey (flash s)) (resp_frame E_TYPE_SYNC (h_messageid header) data))
                 (\<lambda>resp. Inr (XlinkClientSendToIndex resp ssidIndex s)))
          in case OnGetAllDataPoint (user s) of
               None \<Rightarrow> send (front @ [1] @ named)
             | Some points \<Rightarrow>
                 if XLINK_DATAPOINT_MAX_BYTES + 24 < 8 + pos + length points then Inl Out_Of_Bounds
                 else if points \<noteq> [] \<and> length points < XLINK_DATAPOINT_MAX_BYTES
                 then send (front @ [7] @ named @ points)
                 else send (front @ [1] @ named))"

definition note_msgid :: "nat \<Rightarrow> AgreementUdpHeader \<Rightarrow> xsdk \<Rightarrow> xsdk" where
  "note_msgid i header s =
     upd_session i (\<lambda>c. c\<lparr>client_msgid := (client_msgid c)[h_Priorty header := h_messageid header]\<rparr>) s"

definition seen_msgid :: "nat \<Rightarrow> AgreementUdpHeader \<Rightarrow> xsdk \<Rightarrow> bool" where
  "seen_msgid i header s \<longleftrightarrow> client_msgid (clients s ! i) ! h_Priorty header = h_messageid header"

definition XlinkProcessUdpPipe_V4 :: "AgreementUdpHeader \<Rightarrow> u32 \<Rightarrow> xlink_addr \<Rightarrow> u64 \<Rightarrow> xsdk \<Rightarrow> xsdk" where
  "XlinkProcessUdpPipe_V4 header Datalength addrBro c_timems s =
     (let Buffer = h_data header; i = unat (Buffer ! 1);
          resp = (\<lambda>ret. resp_frame (h_cmd header) (h_messageid header) [Buffer ! 2, Buffer ! 3, ret])
      in case session_check Buffer addrBro s of
        (False, s) \<Rightarrow> XlinkClientSendDataToAddr (resp 1) addrBro s
      | (True, s) \<Rightarrow>
          let s = upd_session i (\<lambda>c. c\<lparr>lastRecvPipeTime := c_timems\<rparr>) s in
          if h_isResend header \<and> seen_msgid i header s
          then if h_Ack header then XlinkClientSendDataToAddr (resp 0) addrBro s else s
          else
            let s = note_msgid i header s;
                s = (if h_Ack header then XlinkClientSendToIndex (resp 0) i s else s);
                s = s\<lparr>udpPipeIndex := Buffer ! 1\<rparr>
            in if OnUdpPipe (user s)
               then sdk_put (Udp_Pipe (take (unat (Datalength - 5)) (drop 5 Buffer)) (Datalength - 5) (Buffer ! 1)) s
               else s)"

definition XlinkProcessUdpByby_V4 :: "AgreementUdpHeader \<Rightarrow> u32 \<Rightarrow> xlink_addr \<Rightarrow> xsdk \<Rightarrow> xsdk" where
  "XlinkProcessUdpByby_V4 header Datalength addrBro s =
     (if 1 < Datalength
      then case session_check (h_data header) addrBro s of
             (True, s) \<Rightarrow> XlinkClientByby (unat (h_data header ! 1)) addrBro s
           | (False, s) \<Rightarrow> s
      else s)"

definition XlinkSdkAppSetDeviceName :: "bytes \<Rightarrow> xsdk \<Rightarrow> xsdk" where
  "XlinkSdkAppSetDeviceName name s =
     (let f = xsdk_write_config (Cfg_Name name) (flash s);
          c = (config s)\<lparr>flag_All := flag_All (config s) OR 8\<rparr>;
          f = xsdk_write_config (Cfg_Config c) f
      in sdk_put (Config_Written (xsdk_config_save f)) (s\<lparr>flash := f, config := c\<rparr>))"

definition XlinkProcessUdpSet_V4 :: "AgreementUdpHeader \<Rightarrow> u32 \<Rightarrow> xlink_addr \<Rightarrow> xsdk \<Rightarrow> xsdk" where
  "XlinkProcessUdpSet_V4 header Datalength addrBro s =
     (let Buffer = h_data header; i = unat (Buffer ! 1); setFlags = Buffer ! 4;
          resp = (\<lambda>ret. resp_frame (h_cmd header) (h_messageid header) [Buffer ! 2, Buffer ! 3, ret])
      in case session_check Buffer addrBro s of
        (False, s) \<Rightarrow> XlinkClientSendDataToAddr (resp 1) addrBro s
      | (True, s) \<Rightarrow>
          if h_isResend header \<and> seen_msgid i header s
          then if h_Ack header then XlinkClientSendDataToAddr (resp 0) addrBro s else s
          else
            let s = note_msgid i header s;
                DeviceNameLength = UTIL_INT16_SET (Buffer ! 5) (Buffer ! 6);
                (BufferIndex, s) = (if bit setFlags 0
                  then (5 + 2 + DeviceNameLength,
                        if DeviceNameLength < 17
                        then XlinkSdkAppSetDeviceName (take (unat DeviceNameLength) (drop 7 Buffer)) s else s)
                  else (5, s));
                rest = Datalength - ucast BufferIndex;
                s = (if bit setFlags 1 \<and> OnSetDataPoint (user s)
                     then sdk_put (Set_Data_Point (take (unat rest) (drop (unat BufferIndex) Buffer)) rest) s else s)
            in XlinkClientSendDataToAddr (resp 0) addrBro s)"

section \<open>The queue of messages to acknowledge\<close>

definition item_msgid :: "SendDataList \<Rightarrow> u16" where
  "item_msgid item = NShtonlInt16 (le16 (item_data item) 2)"

definition item_size :: "SendDataList \<Rightarrow> nat" where
  "item_size item = unat (NShtonlInt16 (le16 (item_data item) 4)) + 6"

primrec NSProcessRemoveClient :: "nat \<Rightarrow> SendDataList list \<Rightarrow> SendDataList list" where
  "NSProcessRemoveClient index [] = []"
| "NSProcessRemoveClient index (item # items) =
     (let item = item\<lparr>users := unset_bit index (users item)\<rparr> in
      if users item = 0 then NSProcessRemoveClient index items
      else item # NSProcessRemoveClient index items)"

primrec NSProcessRemoveMessageid :: "nat \<Rightarrow> u16 \<Rightarrow> SendDataList list \<Rightarrow> SendDataList list" where
  "NSProcessRemoveMessageid index msgid [] = []"
| "NSProcessRemoveMessageid index msgid (item # items) =
     (if item_msgid item \<noteq> msgid then item # NSProcessRemoveMessageid index msgid items
      else
        let item = item\<lparr>users := unset_bit index (users item)\<rparr> in
        if users item = 0 then items else item # items)"

primrec NSProcessClearNotUserData :: "SendDataList list \<Rightarrow> SendDataList list" where
  "NSProcessClearNotUserData [] = []"
| "NSProcessClearNotUserData (item # items) =
     (if users item = 0 then NSProcessClearNotUserData items else item # NSProcessClearNotUserData items)"

text \<open>
  One client's turn: the first message for it is sent, sent again after 300 ms, or given up. The result
  is the client, the queue and what is to be sent. \<open>isResend\<close> is the third flag bit; the code sets it
  for the sending and clears it again, and the senders build their messages with the bit clear.
\<close>

primrec NSProcessSendClient ::
  "XLINK_CLIENT \<Rightarrow> nat \<Rightarrow> u64 \<Rightarrow> SendDataList list \<Rightarrow> XLINK_CLIENT \<times> SendDataList list \<times> bytes list" where
  "NSProcessSendClient client index c_timems [] = (client, [], [])"
| "NSProcessSendClient client index c_timems (item # items) =
     (if \<not> bit (users item) index
      then case NSProcessSendClient client index c_timems items of (client, items, out) \<Rightarrow> (client, item # items, out)
      else if sendmessageid client = item_msgid item
      then
        let client = (if c_timems < lastsendtime client then client\<lparr>lastsendtime := c_timems\<rparr> else client);
            temp = sint (ucast (c_timems - lastsendtime client) :: u32)
        in if temp < 300 then (client, item # items, [])
           else if 3 < sendcount client
           then (client\<lparr>sendcount := 0\<rparr>, item\<lparr>users := unset_bit index (users item)\<rparr> # items, [])
           else (client\<lparr>lastsendtime := c_timems, sendcount := sendcount client + 1\<rparr>, item # items,
                 [take (item_size item) ((item_data item)[1 := item_data item ! 1 OR 4])])
      else
        (client\<lparr>sendmessageid := item_msgid item, lastsendtime := c_timems, sendcount := 0\<rparr>,
         (if bit (item_data item ! 1) 0 then item else item\<lparr>users := unset_bit index (users item)\<rparr>) # items,
         [take (item_size item) (item_data item)]))"

definition send_turn :: "(nat \<Rightarrow> u64) \<Rightarrow> nat \<Rightarrow> xsdk \<Rightarrow> xsdk" where
  "send_turn now i s =
     (let client = clients s ! i in
      if isActive client
      then case NSProcessSendClient client i (now i) (sendlist s) of (client', items, out) \<Rightarrow>
        fold (\<lambda>d. XlinkClientSendDataToAddr d (Address client)) out
          (s\<lparr>clients := (clients s)[i := client'], sendlist := items\<rparr>)
      else s\<lparr>sendlist := NSProcessRemoveClient i (sendlist s)\<rparr>)"

definition NSProcessSendBufferTask :: "(nat \<Rightarrow> u64) \<Rightarrow> xsdk \<Rightarrow> xsdk" where
  "NSProcessSendBufferTask now s =
     (if sendlist s = [] then s
      else
        let s = fold (send_turn now) [0..<XLINK_CLIENT_SIZE] s
        in s\<lparr>sendlist := NSProcessClearNotUserData (sendlist s)\<rparr>)"

definition XlinkResend :: "(nat \<Rightarrow> u64) \<Rightarrow> xsdk \<Rightarrow> xsdk" where
  "XlinkResend now s = NSProcessSendBufferTask now s"

definition XlinkV4UdpInit :: "xsdk \<Rightarrow> xsdk" where
  "XlinkV4UdpInit s = s\<lparr>sendlist := []\<rparr>"

definition XlinkV4UdpUnInit :: "xsdk \<Rightarrow> xsdk" where
  "XlinkV4UdpUnInit s = s\<lparr>sendlist := []\<rparr>"


section \<open>Messages of the application\<close>

definition getUdpMsgID :: "xsdk \<Rightarrow> u16 \<times> xsdk" where
  "getUdpMsgID s =
     (let n = g_udp_msgid s + 1; n = (if 10000 < n then 0 else n) in (n, s\<lparr>g_udp_msgid := n\<rparr>))"

definition is_online :: "XLINK_CLIENT \<Rightarrow> bool" where
  "is_online c \<longleftrightarrow> isActive c \<and> checkValue c \<noteq> 0"

text \<open>The users bits of the sessions from \<open>i\<close> on.\<close>

primrec online_users :: "nat \<Rightarrow> XLINK_CLIENT list \<Rightarrow> u32 \<Rightarrow> u32" where
  "online_users i [] u = u"
| "online_users i (c # cs) u = online_users (i + 1) cs (if is_online c then set_bit i u else u)"

text \<open>
  The allocated message has room for 32 bytes besides the data. \<open>mem\<close> is whether the allocator answers.
\<close>

definition XlinkClientSendUdpDataPointSync_V2 :: "bool \<Rightarrow> bytes \<Rightarrow> byte \<Rightarrow> xsdk \<Rightarrow> (int \<times> xsdk) c_result" where
  "XlinkClientSendUdpDataPointSync_V2 mem DataPoint flag s =
     (if \<not> mem then Inr (-1, s)
      else
        let (msgid, s) = getUdpMsgID s;
            data = [0, maclen_byte s] @ the_mac s @ [if flag = 1 then 0x0E else 0x06] @ DataPoint
        in if length DataPoint + 32 < 8 + length data then Inl Out_Of_Bounds
           else c_bind (Encode (accesskey (flash s)) (udp_frame 0x03 E_TYPE_SYNC msgid data)) (\<lambda>header.
             Inr (0, s\<lparr>sendlist := sendlist s @ [\<lparr>item_data = header, users = online_users 0 (clients s) 0\<rparr>]\<rparr>)))"

definition XlinkSendUdpPipe :: "bool \<Rightarrow> bytes \<Rightarrow> int \<Rightarrow> bool \<Rightarrow> xsdk \<Rightarrow> (int \<times> xsdk) c_result" where
  "XlinkSendUdpPipe mem data index ack s =
     (if \<not> clientCount s then Inr (-1, s)
      else if 1500 < length data then Inr (-2, s)
      else if int XLINK_CLIENT_SIZE \<le> index then Inr (-3, s)
      else if 0 \<le> index \<and> \<not> is_online (clients s ! nat index) then Inr (-4, s)
      else if \<not> mem then Inr (-5, s)
      else
        let (msgid, s) = getUdpMsgID s;
            body = [0, maclen_byte s] @ the_mac s @ [0, 0, if pipetype (user s) = 1 then 1 else 0] @ data
        in if length data + 32 < 8 + length body then Inl Out_Of_Bounds
           else c_bind (Encode (accesskey (flash s)) (udp_frame (if ack then 0x03 else 0x02) E_TYPE_PIPE msgid body))
             (\<lambda>header.
               if index = -1
               then Inr (0, s\<lparr>sendlist := sendlist s @ [\<lparr>item_data = header, users = online_users 0 (clients s) 0\<rparr>]\<rparr>)
               else if index < 0 then Inl Out_Of_Bounds
               else Inr (0, s\<lparr>sendlist := sendlist s @ [\<lparr>item_data = header,
                      users = (if is_online (clients s ! nat index) then set_bit (nat index) 0 else 0)\<rparr>]\<rparr>)))"

section \<open>The dispatcher\<close>

definition XlinkProcessUdpPipeResponse_V4 :: "AgreementUdpHeader \<Rightarrow> xlink_addr \<Rightarrow> xsdk \<Rightarrow> xsdk" where
  "XlinkProcessUdpPipeResponse_V4 header addrBro s =
     (case session_check (h_data header) addrBro s of
        (True, s) \<Rightarrow>
          s\<lparr>sendlist := NSProcessRemoveMessageid (unat (h_data header ! 1)) (h_messageid header) (sendlist s)\<rparr>
      | (False, s) \<Rightarrow> s)"

definition XlinkProcessUdpSyncResponse_V4 :: "AgreementUdpHeader \<Rightarrow> xlink_addr \<Rightarrow> xsdk \<Rightarrow> xsdk" where
  "XlinkProcessUdpSyncResponse_V4 header addrBro s =
     (case session_check (h_data header) addrBro s of
        (True, s) \<Rightarrow>
          s\<lparr>sendlist := NSProcessRemoveMessageid (unat (h_data header ! 1)) (h_messageid header) (sendlist s)\<rparr>
      | (False, s) \<Rightarrow> s)"

definition udp_command :: "AgreementUdpHeader \<Rightarrow> u32 \<Rightarrow> xlink_addr \<Rightarrow> u64 \<Rightarrow> xsdk \<Rightarrow> xsdk c_result" where
  "udp_command header Bodylength addr c_time s =
     (let cmd = h_cmd header in
      if cmd = E_TYPE_SCAN then Inr (XlinkProcessUdpScan_V4 header Bodylength addr s)
      else if cmd = E_TYPE_HANDSHAKE then XlinkProcessUdpHandshake_V4 header addr s
      else if cmd = E_TYPE_SETACK then Inr (XlinkProcessUdpSETACK_V4 header Bodylength addr s)
      else if cmd = E_TYPE_SUBKEY then Inr (XlinkProcessUdpGetSubKey_V4 header Bodylength addr s)
      else if cmd = E_TYPE_PING then Inr (XlinkProcessUdpPing_V4 header addr s)
      else if cmd = E_TYPE_PROBE then XlinkProcessUdpProbe_Datapoint_V4 header addr s
      else if cmd = E_TYPE_PIPE then Inr (XlinkProcessUdpPipe_V4 header Bodylength addr c_time s)
      else if cmd = E_TYPE_BYEBYE then Inr (XlinkProcessUdpByby_V4 header Bodylength addr s)
      else if cmd = E_TYPE_SET then Inr (XlinkProcessUdpSet_V4 header Bodylength addr s)
      else Inr s)"

definition udp_command_response :: "AgreementUdpHeader \<Rightarrow> xlink_addr \<Rightarrow> xsdk \<Rightarrow> xsdk" where
  "udp_command_response header addr s =
     (if h_cmd header = E_TYPE_PIPE then XlinkProcessUdpPipeResponse_V4 header addr s
      else if h_cmd header = E_TYPE_SYNC then XlinkProcessUdpSyncResponse_V4 header addr s
      else s)"

definition XlinkProcess_DebugInfo :: "xlink_addr \<Rightarrow> xsdk \<Rightarrow> xsdk" where
  "XlinkProcess_DebugInfo addr s = XlinkClientSendDataToAddr (debug_text s) addr s"

definition XlinkXGMessage :: "bytes \<Rightarrow> xlink_addr \<Rightarrow> xsdk \<Rightarrow> xsdk" where
  "XlinkXGMessage data addr s = (if OnXGMessage (user s) then sdk_put (XG_Message data addr) s else s)"

definition udp_opened :: "bytes \<Rightarrow> xlink_addr \<Rightarrow> u64 \<Rightarrow> xsdk \<Rightarrow> xsdk c_result" where
  "udp_opened buf addr c_timems s =
     (let header = header_of buf in
      if h_response header then Inr (udp_command_response header addr s)
      else udp_command header (ucast (h_bodylength header) - 2) addr c_timems s)"

definition XlinkProcessUdpDataV4 :: "bytes \<Rightarrow> nat \<Rightarrow> xlink_addr \<Rightarrow> u64 \<Rightarrow> xsdk \<Rightarrow> xsdk c_result" where
  "XlinkProcessUdpDataV4 Buffer BufferLen addr c_timems s =
     (let s = (if BufferLen = 3 \<and> take 3 Buffer = [0x58, 0x44, 0x47] then XlinkProcess_DebugInfo addr s else s)
      in if Buffer ! 0 = 0x18 then Inr (XlinkXGMessage (take BufferLen Buffer) addr s)
         else if BufferLen < 8 then Inr s
         else if Buffer ! 0 \<noteq> XLINK_UDP_VERSION then Inr s
         else
           let buf = swap_length Buffer in
           if BufferLen - 6 < unat (le16 buf 4) then Inr s
           else if bit (Buffer ! 1) 4
           then c_bind (Ddcode (accesskey (flash s)) buf) (\<lambda>(iter, buf).
             if iter \<noteq> 0 then Inr s else udp_opened buf addr c_timems s)
           else udp_opened buf addr c_timems s)"


section \<open>Without a session\<close>

definition has_session :: "xlink_addr \<Rightarrow> xsdk \<Rightarrow> bool" where
  "has_session addr s \<longleftrightarrow> (\<exists>c \<in> set (clients s). isActive c \<and> Address c = addr)"

definition to_application :: "sdk_event \<Rightarrow> bool" where
  "to_application e \<longleftrightarrow> (case e of Udp_Pipe _ _ _ \<Rightarrow> True | Set_Data_Point _ _ \<Rightarrow> True | _ \<Rightarrow> False)"

text \<open>Nothing reaches the application, the name and the queue are what they were.\<close>

definition sdk_quiet :: "xsdk \<Rightarrow> xsdk \<Rightarrow> bool" where
  "sdk_quiet s s' \<longleftrightarrow> filter to_application (xlog s') = filter to_application (xlog s) \<and>
     f_name (flash s') = f_name (flash s) \<and> sendlist s' = sendlist s"

named_theorems quiet_intros "steps that keep the application undisturbed"

lemma sdk_quiet_refl [quiet_intros]: "sdk_quiet s s"
  by (simp add: sdk_quiet_def)

lemma sdk_quiet_trans: "sdk_quiet s t \<Longrightarrow> sdk_quiet t u \<Longrightarrow> sdk_quiet s u"
  by (simp add: sdk_quiet_def)

lemma sdk_quiet_put: "\<not> to_application e \<Longrightarrow> sdk_quiet s t \<Longrightarrow> sdk_quiet s (sdk_put e t)"
  by (simp add: sdk_quiet_def)

lemma to_application_simps [simp]:
  "\<not> to_application (Sent a d)" "\<not> to_application (Status st)" "\<not> to_application (Config_Written b)"
  "\<not> to_application (XG_Message d a)" "to_application (Udp_Pipe d n i)" "to_application (Set_Data_Point d n)"
  by (simp_all add: to_application_def)

lemma sdk_quiet_send [quiet_intros]:
  "sdk_quiet s t \<Longrightarrow> sdk_quiet s (XlinkClientSendDataToAddr d a t)"
  "sdk_quiet s t \<Longrightarrow> sdk_quiet s (XlinkClientSendToIndex d i t)"
  "sdk_quiet s t \<Longrightarrow> sdk_quiet s (sdk_status st t)"
  "sdk_quiet s t \<Longrightarrow> sdk_quiet s (sdk_put (Config_Written b) t)"
  "sdk_quiet s t \<Longrightarrow> sdk_quiet s (sdk_put (XG_Message d a) t)"
  by (simp_all add: XlinkClientSendDataToAddr_def XlinkClientSendToIndex_def sdk_status_def sdk_quiet_put)

lemma sdk_quiet_fields [quiet_intros]:
  "sdk_quiet s t \<Longrightarrow> sdk_quiet s (t\<lparr>clientCount := b\<rparr>)" "sdk_quiet s t \<Longrightarrow> sdk_quiet s (t\<lparr>clients := cs\<rparr>)"
  "sdk_quiet s t \<Longrightarrow> sdk_quiet s (t\<lparr>user := us\<rparr>)" "sdk_quiet s t \<Longrightarrow> sdk_quiet s (upd_session i f t)"
  "sdk_quiet s t \<Longrightarrow> sdk_quiet s (t\<lparr>flash := xsdk_write_config (Cfg_Share_Key k) (flash t)\<rparr>)"
  by (simp_all add: sdk_quiet_def upd_session_def)

lemma session_check_none:
  "length (clients s) = XLINK_CLIENT_SIZE \<Longrightarrow> \<not> has_session addr s \<Longrightarrow> session_check B addr s = (False, s)"
  by (auto simp: session_check_def XlinkClientcheckclientLogin_def has_session_def Let_def)

lemma sdk_quiet_funpow: "sdk_quiet s t \<Longrightarrow> sdk_quiet s ((sdk_status st ^^ n) t)"
  by (induction n) (simp_all add: quiet_intros)

lemma quiet_Scan: "sdk_quiet s (XlinkProcessUdpScan_V4 h n a s)"
  unfolding XlinkProcessUdpScan_V4_def Let_def by (simp add: quiet_intros)

lemma quiet_Addclient: "XlinkClientAddclient k a s = (ret, i, v, s') \<Longrightarrow> sdk_quiet s s'"
  unfolding XlinkClientAddclient_def Let_def
  by (auto split: option.splits intro!: quiet_intros)

lemma quiet_CheckHeartbeat: "sdk_quiet s (XlinkClientCheckHeartbeat t s)"
  unfolding XlinkClientCheckHeartbeat_def
  by (auto split: prod.split intro!: quiet_intros sdk_quiet_funpow)

lemma quiet_Handshake:
  assumes "XlinkProcessUdpHandshake_V4 h a s = Inr s'" shows "sdk_quiet s s'"
proof -
  obtain ret i v t where add: "XlinkClientAddclient (UTIL_INT16_SET (h_data h ! 22) (h_data h ! 23)) a
      (XlinkClientCheckHeartbeat (g_XlinkSdkTime s) s) = (ret, i, v, t)"
    by (metis prod_cases4)
  have t: "sdk_quiet s t"
    using quiet_Addclient [OF add] quiet_CheckHeartbeat [of s] by (blast intro: sdk_quiet_trans)
  show ?thesis
    using assms add t unfolding XlinkProcessUdpHandshake_V4_def handshakeErrorResV4_def Let_def
    by (auto split: if_splits intro!: quiet_intros)
qed

lemma quiet_SETACK: "sdk_quiet s (XlinkProcessUdpSETACK_V4 h n a s)"
proof -
  have "sdk_quiet s (s\<lparr>flash := xsdk_write_config (Cfg_Subkey b) (xsdk_write_config (Cfg_Share_Key k) (flash s))\<rparr>)" for k b
    by (simp add: sdk_quiet_def)
  then show ?thesis
    unfolding XlinkProcessUdpSETACK_V4_def Let_def by (auto intro!: quiet_intros simp del: xsdk_write_config.simps)
qed

lemma quiet_GetSubKey: "sdk_quiet s (XlinkProcessUdpGetSubKey_V4 h n a s)"
  unfolding XlinkProcessUdpGetSubKey_V4_def SubKeyErrorResV4_def Let_def by (simp add: quiet_intros)

lemma quiet_udp_opened:
  assumes "udp_opened buf addr now s = Inr s'" "length (clients s) = XLINK_CLIENT_SIZE" "\<not> has_session addr s"
  shows "sdk_quiet s s'"
proof -
  note none = session_check_none [OF assms(2,3)]
  have "sdk_quiet s s'" if "udp_command h n addr now s = Inr s'" for h n
    using that unfolding udp_command_def
    by (auto simp: Let_def none XlinkProcessUdpPing_V4_def XlinkProcessUdpProbe_Datapoint_V4_def XlinkProcessUdpPipe_V4_def
        XlinkProcessUdpByby_V4_def XlinkProcessUdpSet_V4_def quiet_intros quiet_Scan quiet_SETACK quiet_GetSubKey
        split: if_splits dest: quiet_Handshake)
  moreover have "sdk_quiet s (udp_command_response h addr s)" for h
    by (simp add: udp_command_response_def XlinkProcessUdpPipeResponse_V4_def XlinkProcessUdpSyncResponse_V4_def none quiet_intros)
  ultimately show ?thesis
    using assms(1) by (auto simp: udp_opened_def Let_def split: if_splits)
qed

lemma has_session_DebugInfo [simp]:
  "clients (XlinkProcess_DebugInfo a s) = clients s" "flash (XlinkProcess_DebugInfo a s) = flash s"
  "isScanEnable (XlinkProcess_DebugInfo a s) = isScanEnable s"
  by (simp_all add: XlinkProcess_DebugInfo_def)

lemma quiet_DebugInfo: "sdk_quiet s (XlinkProcess_DebugInfo a s)"
  by (simp add: XlinkProcess_DebugInfo_def quiet_intros)

text \<open>
  What one datagram is, for the proofs: it is ignored, handed to the gateway library, or opened; in
  every case after the answer to the version query.
\<close>

lemma XlinkProcessUdpDataV4_cases:
  assumes "XlinkProcessUdpDataV4 Buffer n addr now s = Inr s'"
  obtains (plain) t where "t = s \<or> t = XlinkProcess_DebugInfo addr s" "s' = t \<or> s' = XlinkXGMessage (take n Buffer) addr t"
  | (opened) buf where "8 \<le> n" "udp_opened buf addr now s = Inr s'"
      "buf = swap_length Buffer \<or> Ddcode (accesskey (flash s)) (swap_length Buffer) = Inr (0, buf)"
proof -
  define t where "t = (if n = 3 \<and> take 3 Buffer = [0x58, 0x44, 0x47] then XlinkProcess_DebugInfo addr s else s)"
  have t: "t = s \<or> t = XlinkProcess_DebugInfo addr s" "\<not> n < 8 \<Longrightarrow> t = s" by (auto simp: t_def)
  show ?thesis
  proof (cases "n < 8 \<or> Buffer ! 0 = 0x18")
    case True
    then show ?thesis
      using assms plain [OF t(1)] unfolding XlinkProcessUdpDataV4_def Let_def t_def [symmetric] by (auto split: if_splits)
  next
    case False
    then have "t = s" using t(2) by simp
    then show ?thesis
      using assms False plain [of s] opened unfolding XlinkProcessUdpDataV4_def Let_def t_def [symmetric]
      by (auto split: if_splits)
  qed
qed

lemma quiet_UdpDataV4:
  assumes "XlinkProcessUdpDataV4 Buffer n addr now s = Inr s'" "length (clients s) = XLINK_CLIENT_SIZE" "\<not> has_session addr s"
  shows "sdk_quiet s s'"
  using assms(1)
proof (cases rule: XlinkProcessUdpDataV4_cases)
  case (plain t)
  then have "sdk_quiet s t" by (auto simp: quiet_intros quiet_DebugInfo)
  then show ?thesis using plain by (auto simp: XlinkXGMessage_def quiet_intros)
next
  case (opened buf)
  then show ?thesis using quiet_udp_opened assms(2,3) by blast
qed


lemma clients_udp_opened:
  assumes "udp_opened buf addr now s = Inr s'" "length (clients s) = XLINK_CLIENT_SIZE" "\<not> has_session addr s"
    "clients s' \<noteq> clients s"
  shows "buf ! 6 = E_TYPE_HANDSHAKE \<and> strncmp_eq (drop 11 buf) (ack_digest s) 16"
proof -
  note none = session_check_none [OF assms(2,3)]
  have "clients s' = clients s \<or> h_cmd h = E_TYPE_HANDSHAKE \<and> strncmp_eq (drop 3 (h_data h)) (ack_digest s) 16"
    if "udp_command h n addr now s = Inr s'" for h n
    using that unfolding udp_command_def
    by (auto simp: Let_def none XlinkProcessUdpPing_V4_def XlinkProcessUdpProbe_Datapoint_V4_def XlinkProcessUdpPipe_V4_def
        XlinkProcessUdpByby_V4_def XlinkProcessUdpSet_V4_def XlinkProcessUdpScan_V4_def XlinkProcessUdpSETACK_V4_def
        XlinkProcessUdpGetSubKey_V4_def SubKeyErrorResV4_def XlinkProcessUdpHandshake_V4_def handshakeErrorResV4_def
        split: if_splits)
  moreover have "clients (udp_command_response h addr s) = clients s" for h
    by (simp add: udp_command_response_def XlinkProcessUdpPipeResponse_V4_def XlinkProcessUdpSyncResponse_V4_def none)
  ultimately have "h_cmd (header_of buf) = E_TYPE_HANDSHAKE \<and> strncmp_eq (drop 3 (h_data (header_of buf))) (ack_digest s) 16"
    using assms(1,4) by (auto simp: udp_opened_def Let_def split: if_splits)
  then show ?thesis by (simp add: header_of_def)
qed

text \<open>
  C25. Without a session nothing comes through. A datagram from an address that has no session, whatever
  it holds, hands no pipe data and no data point to the application, leaves the device name and the
  queue of unacknowledged messages alone, and opens a session only if, read in the clear or unsealed
  with the access key, it is a handshake whose digest agrees with the digest of the access key in the
  sense of \<^verbatim>\<open>strncmp\<close>.
\<close>

theorem session_required:
  assumes "XlinkProcessUdpDataV4 Buffer n addr now s = Inr s'" "length (clients s) = XLINK_CLIENT_SIZE" "\<not> has_session addr s"
  shows "filter to_application (xlog s') = filter to_application (xlog s) \<and> f_name (flash s') = f_name (flash s)
    \<and> sendlist s' = sendlist s
    \<and> (has_session addr s' \<longrightarrow> (\<exists>buf. (buf = swap_length Buffer \<or> Ddcode (accesskey (flash s)) (swap_length Buffer) = Inr (0, buf))
        \<and> buf ! 6 = E_TYPE_HANDSHAKE \<and> strncmp_eq (drop 11 buf) (ack_digest s) 16))"
proof -
  have "\<exists>buf. (buf = swap_length Buffer \<or> Ddcode (accesskey (flash s)) (swap_length Buffer) = Inr (0, buf))
      \<and> buf ! 6 = E_TYPE_HANDSHAKE \<and> strncmp_eq (drop 11 buf) (ack_digest s) 16" if new: "has_session addr s'"
    using assms(1)
  proof (cases rule: XlinkProcessUdpDataV4_cases)
    case (plain t)
    then have "clients s' = clients s" by (auto simp: XlinkXGMessage_def)
    then show ?thesis using new assms(3) by (simp add: has_session_def)
  next
    case (opened buf)
    then have "clients s' \<noteq> clients s" using new assms(3) by (auto simp: has_session_def)
    then show ?thesis using clients_udp_opened [OF opened(2) assms(2,3)] opened(3) by blast
  qed
  then show ?thesis using quiet_UdpDataV4 [OF assms] by (simp add: sdk_quiet_def)
qed

section \<open>The table of sessions stays well formed\<close>

lemma table_ok_upd_same:
  assumes "table_ok (clients s)" "\<And>c. isActive (f c) = isActive c \<and> Address (f c) = Address c \<and> checkValue (f c) = checkValue c
    \<and> length (client_msgid (f c)) = length (client_msgid c)"
  shows "table_ok (clients (upd_session i f s))"
proof (cases "i < XLINK_CLIENT_SIZE")
  case True
  then show ?thesis
    unfolding upd_session_simps
    using assms(2) [of "clients s ! i"] table_ok_nth [OF assms(1) True] assms(1)
    by (intro table_ok_update) (simp_all add: client_ok_def, auto simp: table_ok_def one_per_address_def)
next
  case False
  then have "(clients s)[i := x] = clients s" for x
    using assms(1) by (simp add: table_ok_def list_update_beyond)
  then show ?thesis using assms(1) by simp
qed

lemma table_ok_session_check:
  "table_ok (clients s) \<Longrightarrow> session_check B a s = (b, t) \<Longrightarrow> table_ok (clients t)"
  unfolding session_check_def by (rule table_ok_checkLogin)

lemma session_check_True:
  assumes "session_check B a s = (True, t)"
  shows "unat (B ! 1) < XLINK_CLIENT_SIZE \<and> isActive (clients s ! unat (B ! 1)) \<and> checkValue (clients s ! unat (B ! 1)) = B ! 0
    \<and> Address (clients s ! unat (B ! 1)) = a
    \<and> t = (upd_session (unat (B ! 1)) (\<lambda>c. c\<lparr>LastReceiveDataTime := g_XlinkSdkTime s\<rparr>) s)\<lparr>clientCount := True\<rparr>"
  using assms by (auto simp: session_check_def XlinkClientcheckclientLogin_def Let_def split: if_splits)

lemma session_check_False: "session_check B a s = (False, t) \<Longrightarrow> t = s"
  by (auto simp: session_check_def XlinkClientcheckclientLogin_def Let_def split: if_splits)

lemma table_ok_note: "table_ok (clients s) \<Longrightarrow> table_ok (clients (note_msgid i h s))"
  unfolding note_msgid_def by (rule table_ok_upd_same) simp_all

lemma clients_SetName [simp]: "clients (XlinkSdkAppSetDeviceName n s) = clients s"
  by (simp add: XlinkSdkAppSetDeviceName_def Let_def)

lemma table_ok_Pipe:
  assumes "table_ok (clients s)" shows "table_ok (clients (XlinkProcessUdpPipe_V4 h n a now s))"
proof (cases "session_check (h_data h) a s")
  case (Pair b t)
  have t: "table_ok (clients t)" using table_ok_session_check [OF assms Pair] .
  have "table_ok (clients (upd_session i (\<lambda>c. c\<lparr>lastRecvPipeTime := now\<rparr>) t))" for i
    using t by (rule table_ok_upd_same) simp
  then show ?thesis
    using t table_ok_note unfolding XlinkProcessUdpPipe_V4_def Let_def Pair by (auto simp del: upd_session_simps split: bool.split)
qed

lemma table_ok_Set:
  assumes "table_ok (clients s)" shows "table_ok (clients (XlinkProcessUdpSet_V4 h n a s))"
proof (cases "session_check (h_data h) a s")
  case (Pair b t)
  have t: "table_ok (clients t)" using table_ok_session_check [OF assms Pair] .
  then show ?thesis
    using table_ok_note [OF t] unfolding XlinkProcessUdpSet_V4_def Let_def Pair
    by (auto split: bool.split if_splits)
qed

lemma table_ok_Handshake:
  assumes "table_ok (clients s)" "XlinkProcessUdpHandshake_V4 h a s = Inr s'" shows "table_ok (clients s')"
proof -
  obtain ret i v t where add: "XlinkClientAddclient (UTIL_INT16_SET (h_data h ! 22) (h_data h ! 23)) a
      (XlinkClientCheckHeartbeat (g_XlinkSdkTime s) s) = (ret, i, v, t)"
    by (metis prod_cases4)
  have "table_ok (clients t)" using table_ok_Addclient [OF table_ok_CheckHeartbeat [OF assms(1)] add] .
  then show ?thesis
    using assms add unfolding XlinkProcessUdpHandshake_V4_def handshakeErrorResV4_def Let_def
    by (auto split: if_splits)
qed

lemma table_ok_udp_command:
  assumes "table_ok (clients s)" "udp_command h n a now s = Inr s'" shows "table_ok (clients s')"
proof -
  obtain b t where sc: "session_check (h_data h) a s = (b, t)" by fastforce
  have t: "table_ok (clients t)" using table_ok_session_check [OF assms(1) sc] .
  have bye: "table_ok (clients (XlinkClientByby (unat (h_data h ! 1)) a t))" if b
    using that t session_check_True [of "h_data h" a s t] sc by (simp add: XlinkClientByby_def table_ok_Quit)
  show ?thesis
    using assms t bye unfolding udp_command_def Let_def
    by (auto simp: XlinkProcessUdpPing_V4_def XlinkProcessUdpProbe_Datapoint_V4_def XlinkProcessUdpByby_V4_def
        XlinkProcessUdpScan_V4_def XlinkProcessUdpSETACK_V4_def Let_def sc
        XlinkProcessUdpGetSubKey_V4_def SubKeyErrorResV4_def table_ok_Set table_ok_Pipe
        split: if_splits bool.splits option.splits dest: table_ok_Handshake)
qed

lemma table_ok_udp_opened:
  assumes "table_ok (clients s)" "udp_opened buf a now s = Inr s'" shows "table_ok (clients s')"
proof -
  have "table_ok (clients (udp_command_response h a s))" for h
    using assms(1) table_ok_session_check [of s "h_data h" a]
    by (auto simp: udp_command_response_def XlinkProcessUdpPipeResponse_V4_def XlinkProcessUdpSyncResponse_V4_def
        split: prod.split bool.split)
  then show ?thesis
    using assms table_ok_udp_command [OF assms(1)] by (auto simp: udp_opened_def Let_def split: if_splits)
qed

lemma table_ok_UdpDataV4:
  assumes "table_ok (clients s)" "XlinkProcessUdpDataV4 Buffer n a now s = Inr s'" shows "table_ok (clients s')"
  using assms(2)
proof (cases rule: XlinkProcessUdpDataV4_cases)
  case (plain t)
  then show ?thesis using assms(1) by (auto simp: XlinkXGMessage_def)
next
  case (opened buf)
  then show ?thesis using table_ok_udp_opened [OF assms(1)] by blast
qed


section \<open>The keys\<close>

text \<open>What an operation may do to the keys: nothing, or give a first pair of legal ones while scanning is enabled.\<close>

definition key_settled :: "u32 \<Rightarrow> bool" where
  "key_settled k \<longleftrightarrow> 0 < sint k \<and> sint k < 999999999"

definition keys_kept :: "xsdk \<Rightarrow> xsdk \<Rightarrow> bool" where
  "keys_kept s s' \<longleftrightarrow> accesskey (flash s') = accesskey (flash s) \<and> f_subkey (flash s') = f_subkey (flash s)"

definition keys_given :: "xsdk \<Rightarrow> xsdk \<Rightarrow> bool" where
  "keys_given s s' \<longleftrightarrow> isScanEnable s \<and> \<not> key_settled (accesskey (flash s)) \<and>
     legal_key (accesskey (flash s')) \<and> legal_key (f_subkey (flash s')) \<and>
     Config_Written (xsdk_config_save (flash s')) \<in> set (xlog s')"

text \<open>Everything the invariants are about and most handlers leave alone.\<close>

definition sdk_kept :: "xsdk \<Rightarrow> xsdk \<Rightarrow> bool" where
  "sdk_kept s s' \<longleftrightarrow> flash s' = flash s \<and> isScanEnable s' = isScanEnable s \<and> config s' = config s \<and>
     u_mac (user s') = u_mac (user s) \<and> maclen (user s') \<le> maclen (user s)"

named_theorems kept_intros "steps that leave configuration and keys alone"

lemma sdk_kept_refl [kept_intros]: "sdk_kept s s"
  by (simp add: sdk_kept_def)

lemma sdk_kept_trans: "sdk_kept s t \<Longrightarrow> sdk_kept t u \<Longrightarrow> sdk_kept s u"
  by (auto simp: sdk_kept_def)

lemma sdk_kept_ops [kept_intros]:
  "sdk_kept s t \<Longrightarrow> sdk_kept s (XlinkClientSendDataToAddr d a t)" "sdk_kept s t \<Longrightarrow> sdk_kept s (XlinkClientSendToIndex d i t)"
  "sdk_kept s t \<Longrightarrow> sdk_kept s (sdk_status st t)" "sdk_kept s t \<Longrightarrow> sdk_kept s (sdk_put e t)"
  "sdk_kept s t \<Longrightarrow> sdk_kept s (t\<lparr>clientCount := b\<rparr>)" "sdk_kept s t \<Longrightarrow> sdk_kept s (t\<lparr>clients := cs\<rparr>)"
  "sdk_kept s t \<Longrightarrow> sdk_kept s (upd_session i f t)" "sdk_kept s t \<Longrightarrow> sdk_kept s (t\<lparr>sendlist := q\<rparr>)"
  "sdk_kept s t \<Longrightarrow> sdk_kept s (t\<lparr>udpPipeIndex := p\<rparr>)" "sdk_kept s t \<Longrightarrow> sdk_kept s (note_msgid i h t)"
  "sdk_kept s t \<Longrightarrow> sdk_kept s (t\<lparr>g_udp_msgid := g\<rparr>)" "sdk_kept s t \<Longrightarrow> sdk_kept s (t\<lparr>g_XlinkSdkTime := ti\<rparr>)"
  by (simp_all add: sdk_kept_def note_msgid_def upd_session_def)

lemma sdk_kept_funpow: "sdk_kept s t \<Longrightarrow> sdk_kept s ((sdk_status st ^^ n) t)"
  by (induction n) (simp_all add: kept_intros)

lemma kept_session_check: "session_check B a s = (b, t) \<Longrightarrow> sdk_kept s t"
  by (cases b) (auto dest!: session_check_True session_check_False intro: kept_intros)

lemma kept_Addclient: "XlinkClientAddclient k a s = (ret, i, v, s') \<Longrightarrow> sdk_kept s s'"
  unfolding XlinkClientAddclient_def Let_def by (auto split: option.splits intro!: kept_intros)

lemma kept_CheckHeartbeat: "sdk_kept s (XlinkClientCheckHeartbeat t s)"
  unfolding XlinkClientCheckHeartbeat_def by (auto split: prod.split intro!: kept_intros sdk_kept_funpow)

lemma kept_Handshake:
  assumes "XlinkProcessUdpHandshake_V4 h a s = Inr s'" shows "sdk_kept s s'"
proof -
  obtain ret i v t where add: "XlinkClientAddclient (UTIL_INT16_SET (h_data h ! 22) (h_data h ! 23)) a
      (XlinkClientCheckHeartbeat (g_XlinkSdkTime s) s) = (ret, i, v, t)"
    by (metis prod_cases4)
  have t: "sdk_kept s t"
    using kept_Addclient [OF add] kept_CheckHeartbeat [of s] by (blast intro: sdk_kept_trans)
  show ?thesis
    using assms add t unfolding XlinkProcessUdpHandshake_V4_def handshakeErrorResV4_def Let_def
    by (auto split: if_splits intro!: kept_intros)
qed

lemma kept_Scan: "sdk_kept s (XlinkProcessUdpScan_V4 h n a s)"
  unfolding XlinkProcessUdpScan_V4_def Let_def
  by (auto intro!: kept_intros) (auto simp: sdk_kept_def not_less intro: less_imp_le)

lemma kept_Pipe: "sdk_kept s (XlinkProcessUdpPipe_V4 h n a now s)"
  unfolding XlinkProcessUdpPipe_V4_def Let_def
  by (auto split: prod.split bool.split dest!: kept_session_check intro!: kept_intros)

text \<open>Setting the name goes through the flash too.\<close>

definition name_only :: "xsdk \<Rightarrow> xsdk \<Rightarrow> bool" where
  "name_only s s' \<longleftrightarrow> keys_kept s s' \<and> isScanEnable s' = isScanEnable s \<and> user s' = user s \<and>
     (flash_ok (flash s) \<longrightarrow> length (Deviceid (config s)) = 4 \<longrightarrow> flash_ok (flash s') \<and> length (Deviceid (config s')) = 4)"

lemma name_only_Set: "name_only s (XlinkProcessUdpSet_V4 h n a s)"
proof -
  obtain b t where sc: "session_check (h_data h) a s = (b, t)" by fastforce
  have t: "flash t = flash s" "config t = config s" "isScanEnable t = isScanEnable s" "user t = user s"
    using sc by (cases b; auto dest!: session_check_True session_check_False)+
  have ok: "flash_ok f \<Longrightarrow> length (Deviceid c) = 4 \<Longrightarrow> length nm \<le> 16 \<Longrightarrow> flash_ok (f\<lparr>f_name := padded 16 nm, sdk := c\<rparr>)" for f c nm
    by (simp add: flash_ok_def padded_def)
  have nt: "clients (note_msgid i h t) = clients (note_msgid i h t)" "flash (note_msgid i h t) = flash t"
    "config (note_msgid i h t) = config t" "isScanEnable (note_msgid i h t) = isScanEnable t" "user (note_msgid i h t) = user t" for i
    by (simp_all add: note_msgid_def)
  show ?thesis
    unfolding XlinkProcessUdpSet_V4_def Let_def sc name_only_def keys_kept_def
    by (cases b) (auto simp: t nt XlinkSdkAppSetDeviceName_def Let_def intro!: ok)
qed

lemma keys_SETACK:
  "sdk_kept s (XlinkProcessUdpSETACK_V4 h n a s) \<or>
   keys_given s (XlinkProcessUdpSETACK_V4 h n a s) \<and> isScanEnable (XlinkProcessUdpSETACK_V4 h n a s) = isScanEnable s \<and>
   user (XlinkProcessUdpSETACK_V4 h n a s) = user s \<and> config (XlinkProcessUdpSETACK_V4 h n a s) = config s \<and>
   (flash_ok (flash s) \<longrightarrow> flash_ok (flash (XlinkProcessUdpSETACK_V4 h n a s)))"
  unfolding XlinkProcessUdpSETACK_V4_def Let_def
  by (auto simp: keys_given_def key_settled_def legal_XlinkBuildSubKey XlinkClientSendDataToAddr_def intro: kept_intros)


text \<open>The invariant of the client, and the bounds it gives the senders.\<close>

definition sdk_ok :: "xsdk \<Rightarrow> bool" where
  "sdk_ok s \<longleftrightarrow> table_ok (clients s) \<and> flash_ok (flash s) \<and> length (Deviceid (config s)) = 4 \<and>
     length (u_mac (user s)) = 32 \<and> maclen (user s) \<le> 32"

definition sdk_progress :: "xsdk \<Rightarrow> xsdk \<Rightarrow> bool" where
  "sdk_progress s s' \<longleftrightarrow> isScanEnable s' = isScanEnable s \<and> (keys_kept s s' \<or> keys_given s s') \<and> (sdk_ok s \<longrightarrow> sdk_ok s')"

lemma sdk_kept_progress:
  "sdk_kept s s' \<Longrightarrow> (table_ok (clients s) \<Longrightarrow> table_ok (clients s')) \<Longrightarrow> sdk_progress s s'"
  by (auto simp: sdk_kept_def sdk_progress_def keys_kept_def sdk_ok_def)

lemma kept_udp_command:
  assumes "udp_command h n a now s = Inr s'" "h_cmd h \<noteq> E_TYPE_SETACK" "h_cmd h \<noteq> E_TYPE_SET"
  shows "sdk_kept s s'"
proof -
  obtain b t where sc: "session_check (h_data h) a s = (b, t)" by fastforce
  have "sdk_kept s t" by (rule kept_session_check [OF sc])
  then show ?thesis
    using assms unfolding udp_command_def Let_def
    by (auto simp: XlinkProcessUdpPing_V4_def XlinkProcessUdpProbe_Datapoint_V4_def XlinkProcessUdpByby_V4_def
        XlinkProcessUdpGetSubKey_V4_def SubKeyErrorResV4_def XlinkClientByby_def XlinkClientQuit_def Let_def sc
        kept_Pipe kept_Scan intro!: kept_intros split: if_splits bool.splits option.splits dest: kept_Handshake)
qed

lemma sdk_progress_command:
  assumes "udp_command h n a now s = Inr s'" shows "sdk_progress s s'"
proof -
  have table: "table_ok (clients s) \<Longrightarrow> table_ok (clients s')" using table_ok_udp_command assms by blast
  consider "h_cmd h = E_TYPE_SETACK" | "h_cmd h = E_TYPE_SET" | "h_cmd h \<noteq> E_TYPE_SETACK" "h_cmd h \<noteq> E_TYPE_SET" by blast
  then show ?thesis
  proof cases
    case 1
    then have s': "s' = XlinkProcessUdpSETACK_V4 h n a s" using assms by (simp add: udp_command_def)
    show ?thesis
      using keys_SETACK [of s h n a] table sdk_kept_progress [of s s']
      unfolding s' [symmetric] by (auto simp: sdk_progress_def sdk_ok_def)
  next
    case 2
    then have s': "s' = XlinkProcessUdpSet_V4 h n a s" using assms by (simp add: udp_command_def)
    show ?thesis
      using name_only_Set [of s h n a] table unfolding s' [symmetric] by (auto simp: sdk_progress_def sdk_ok_def name_only_def)
  next
    case 3
    then show ?thesis using kept_udp_command [OF assms] table by (blast intro: sdk_kept_progress)
  qed
qed

lemma sdk_progress_datagram:
  assumes "XlinkProcessUdpDataV4 Buffer n a now s = Inr s'" shows "sdk_progress s s'"
proof -
  have table: "table_ok (clients s) \<Longrightarrow> table_ok (clients s')" using table_ok_UdpDataV4 assms by blast
  show ?thesis
    using assms
  proof (cases rule: XlinkProcessUdpDataV4_cases)
    case (plain t)
    then have "sdk_kept s s'" by (auto simp: XlinkXGMessage_def XlinkProcess_DebugInfo_def intro!: kept_intros)
    then show ?thesis using table by (rule sdk_kept_progress)
  next
    case (opened buf)
    have "sdk_kept s (udp_command_response h a s)" for h
      by (auto simp: udp_command_response_def XlinkProcessUdpPipeResponse_V4_def XlinkProcessUdpSyncResponse_V4_def
          split: prod.split bool.split dest!: kept_session_check intro!: kept_intros)
    then show ?thesis
      using opened(2) sdk_progress_command table
      by (auto simp: udp_opened_def Let_def split: if_splits intro: sdk_kept_progress)
  qed
qed

section \<open>Runs\<close>

text \<open>
  The client's life after its initialisation: datagrams, turns of the sender, heartbeats, the clock,
  messages of the application.
\<close>

inductive sdk_step :: "xsdk \<Rightarrow> xsdk \<Rightarrow> bool" where
  datagram: "XlinkProcessUdpDataV4 Buffer n a now s = Inr s' \<Longrightarrow> sdk_step s s'"
| resend: "sdk_step s (XlinkResend nows s)"
| heartbeat: "sdk_step s (XlinkClientCheckHeartbeat t s)"
| clock: "sdk_step s (s\<lparr>g_XlinkSdkTime := t\<rparr>)"
| pipe: "XlinkSendUdpPipe mem d i ack s = Inr (r, s') \<Longrightarrow> sdk_step s s'"
| sync: "XlinkClientSendUdpDataPointSync_V2 mem d f s = Inr (r, s') \<Longrightarrow> sdk_step s s'"

inductive sdk_reach :: "xsdk \<Rightarrow> xsdk \<Rightarrow> bool" for s where
  start: "sdk_reach s s"
| step: "sdk_reach s t \<Longrightarrow> sdk_step t u \<Longrightarrow> sdk_reach s u"

lemma sdk_kept_fold_send: "sdk_kept s t \<Longrightarrow> sdk_kept s (fold (\<lambda>d. XlinkClientSendDataToAddr d a) out t)"
  by (induction out arbitrary: t) (simp_all add: kept_intros)

lemma clients_fold_send [simp]: "clients (fold (\<lambda>d. XlinkClientSendDataToAddr d a) out t) = clients t"
  "sendlist (fold (\<lambda>d. XlinkClientSendDataToAddr d a) out t) = sendlist t"
  by (induction out arbitrary: t) simp_all

lemma NSProcessSendClient_client:
  "NSProcessSendClient c i t items = (c', items', out) \<Longrightarrow> isActive c' = isActive c \<and> Address c' = Address c
     \<and> checkValue c' = checkValue c \<and> client_msgid c' = client_msgid c"
proof (induction items arbitrary: items' out)
  case (Cons item items)
  show ?case
  proof (cases "bit (users item) i")
    case False
    then show ?thesis using Cons by (auto split: prod.splits)
  next
    case True
    show ?thesis using Cons.prems True by (auto simp: Let_def split: if_splits)
  qed
qed simp

lemma send_turn_keeps: "sdk_kept s (send_turn now i s) \<and> (table_ok (clients s) \<longrightarrow> table_ok (clients (send_turn now i s)))"
proof (cases "isActive (clients s ! i)")
  case True
  obtain c' items out where p: "NSProcessSendClient (clients s ! i) i (now i) (sendlist s) = (c', items, out)"
    by (metis prod_cases3)
  have "table_ok (clients (upd_session i (\<lambda>c. c\<lparr>lastsendtime := lastsendtime c', sendcount := sendcount c',
      sendmessageid := sendmessageid c'\<rparr>) s))" if "table_ok (clients s)"
    using that by (rule table_ok_upd_same) simp
  moreover have "table_ok ((clients s)[i := c'])" if ok: "table_ok (clients s)"
  proof (cases "i < XLINK_CLIENT_SIZE")
    case True
    then show ?thesis
      using ok NSProcessSendClient_client [OF p] table_ok_nth [OF ok True]
      by (intro table_ok_update) (simp_all add: client_ok_def, auto simp: table_ok_def one_per_address_def)
  next
    case False
    then have "(clients s)[i := c'] = clients s" using ok by (simp add: table_ok_def list_update_beyond)
    then show ?thesis using ok by simp
  qed
  ultimately show ?thesis
    using True by (auto simp: send_turn_def Let_def p intro!: sdk_kept_fold_send kept_intros)
qed (auto simp: send_turn_def Let_def intro!: kept_intros)

lemma fold_send_turn_keeps:
  "sdk_kept s (fold (send_turn now) is s) \<and> (table_ok (clients s) \<longrightarrow> table_ok (clients (fold (send_turn now) is s)))"
proof (induction "is" arbitrary: s)
  case (Cons i "is")
  then show ?case using send_turn_keeps [of s now i] by (auto intro: sdk_kept_trans)
qed (simp add: kept_intros)

lemma sdk_progress_step: "sdk_step s s' \<Longrightarrow> sdk_progress s s'"
proof (induction rule: sdk_step.induct)
  case (resend s nows)
  have "sdk_kept s (XlinkResend nows s) \<and> (table_ok (clients s) \<longrightarrow> table_ok (clients (XlinkResend nows s)))"
    using fold_send_turn_keeps [of s nows "[0..<32]"]
    by (auto simp: XlinkResend_def NSProcessSendBufferTask_def Let_def intro: kept_intros)
  then show ?case by (blast intro: sdk_kept_progress)
next
  case (heartbeat s t)
  show ?case by (rule sdk_kept_progress [OF kept_CheckHeartbeat table_ok_CheckHeartbeat])
next
  case (clock s t)
  show ?case by (rule sdk_kept_progress) (simp_all add: kept_intros)
next
  case (pipe mem d i ack s r s')
  then have "sdk_kept s s' \<and> clients s' = clients s"
    by (auto simp: XlinkSendUdpPipe_def getUdpMsgID_def Let_def split: if_splits intro!: kept_intros)
  then show ?case by (auto intro: sdk_kept_progress)
next
  case (sync mem d f s r s')
  then have "sdk_kept s s' \<and> clients s' = clients s"
    by (auto simp: XlinkClientSendUdpDataPointSync_V2_def getUdpMsgID_def Let_def split: if_splits intro!: kept_intros)
  then show ?case by (auto intro: sdk_kept_progress)
qed (rule sdk_progress_datagram)

text \<open>
  C26. What every run of the client keeps, from a well-formed state on, whatever datagrams arrive: the
  table has its 32 slots, active sessions have values from 1 to 253 and different addresses, the
  configuration has its fixed-size fields.
\<close>

theorem sdk_reachable_ok:
  assumes "sdk_reach s t" "sdk_ok s" shows "sdk_ok t"
  using assms by (induction rule: sdk_reach.induct) (auto dest: sdk_progress_step simp: sdk_progress_def)

text \<open>
  C27. Nobody on the network changes the keys. While scanning is disabled, or once an access key from 1 to
  999999998 is set, no run of datagrams, whether they know the key or not, changes the access key or
  the sub key; before that, a run can only leave them or give a legal pair of them.
\<close>

theorem keys_settled:
  assumes "sdk_reach s t"
  shows "isScanEnable t = isScanEnable s
    \<and> (\<not> isScanEnable s \<or> key_settled (accesskey (flash s)) \<longrightarrow> keys_kept s t)
    \<and> (keys_kept s t \<or> legal_key (accesskey (flash t)) \<and> legal_key (f_subkey (flash t)))"
  using assms
  by (induction rule: sdk_reach.induct) (auto dest!: sdk_progress_step simp: sdk_progress_def keys_kept_def keys_given_def)

end
