(* ===== verification/XlinkSession.thy ===== *)
theory XlinkSession imports XlinkUdp begin

text \<open>
  What a session of the local protocol can rely on: how often a message is repeated, that a repeated one
  reaches the application once, when a silent session ends; and where the handlers fail.
\<close>

section \<open>Repetition\<close>

text \<open>Turns of the sender for one client at the given times: the client, the queue, what was sent.\<close>

primrec send_turns :: "nat \<Rightarrow> u64 list \<Rightarrow> XLINK_CLIENT \<Rightarrow> SendDataList list \<Rightarrow> XLINK_CLIENT \<times> SendDataList list \<times> bytes list" where
  "send_turns i [] c q = (c, q, [])"
| "send_turns i (t # ts) c q =
     (case NSProcessSendClient c i t q of (c, q, out) \<Rightarrow>
      case send_turns i ts c q of (c, q, outs) \<Rightarrow> (c, q, out @ outs))"

text \<open>How many copies of the message may still go out.\<close>

definition copies_left :: "nat \<Rightarrow> XLINK_CLIENT \<Rightarrow> SendDataList \<Rightarrow> nat" where
  "copies_left i c item =
     (if \<not> bit (users item) i then 0
      else if sendmessageid c = item_msgid item then 4 - unat (sendcount c) else 5)"

lemma item_msgid_users [simp]: "item_msgid (item\<lparr>users := u\<rparr>) = item_msgid item"
  by (simp add: item_msgid_def)

lemma not_bit_unset [simp]: "\<not> bit (unset_bit i (u :: u32)) i"
  by (simp add: bit_simps)

lemma unat_Suc_small: "\<not> 3 < c \<Longrightarrow> unat ((c :: u16) + 1) = unat c + 1 \<and> unat c \<le> 3"
proof -
  assume "\<not> 3 < c"
  then have "unat c \<le> 3" by (simp add: word_less_nat_alt)
  then show ?thesis by (simp add: unat_word_ariths)
qed

text \<open>One turn for a single waiting message, case by case.\<close>

lemma turn_first:
  "bit (users item) i \<Longrightarrow> sendmessageid c \<noteq> item_msgid item \<Longrightarrow> NSProcessSendClient c i t [item] =
     (c\<lparr>sendmessageid := item_msgid item, lastsendtime := t, sendcount := 0\<rparr>,
      [if bit (item_data item ! 1) 0 then item else item\<lparr>users := unset_bit i (users item)\<rparr>],
      [take (item_size item) (item_data item)])"
  by (simp del: One_nat_def)

definition turn_time :: "u64 \<Rightarrow> XLINK_CLIENT \<Rightarrow> XLINK_CLIENT" where
  "turn_time t c = (if t < lastsendtime c then c\<lparr>lastsendtime := t\<rparr> else c)"

lemma turn_time_simps [simp]: "sendcount (turn_time t c) = sendcount c" "sendmessageid (turn_time t c) = sendmessageid c"
  by (simp_all add: turn_time_def)

definition turn_late :: "u64 \<Rightarrow> XLINK_CLIENT \<Rightarrow> bool" where
  "turn_late t c \<longleftrightarrow> 300 \<le> sint (ucast (t - lastsendtime (turn_time t c)) :: u32)"

lemma turn_again:
  "bit (users item) i \<Longrightarrow> sendmessageid c = item_msgid item \<Longrightarrow> NSProcessSendClient c i t [item] =
     (if \<not> turn_late t c then (turn_time t c, [item], [])
      else if 3 < sendcount c
      then ((turn_time t c)\<lparr>sendcount := 0\<rparr>, [item\<lparr>users := unset_bit i (users item)\<rparr>], [])
      else ((turn_time t c)\<lparr>lastsendtime := t, sendcount := sendcount c + 1\<rparr>, [item],
            [take (item_size item) ((item_data item)[1 := item_data item ! 1 OR 4])]))"
  unfolding turn_late_def turn_time_def by (simp add: Let_def not_le del: One_nat_def)

lemma send_one:
  assumes "NSProcessSendClient c i t [item] = (c', q, out)"
  obtains item' where "q = [item']" "length out + copies_left i c' item' \<le> copies_left i c item"
proof (cases "bit (users item) i")
  case bit: True
  show ?thesis
  proof (cases "sendmessageid c = item_msgid item")
    case True
    note turn = assms [unfolded turn_again [OF bit True]]
    consider "\<not> turn_late t c" | "turn_late t c" "3 < sendcount c" | "turn_late t c" "\<not> 3 < sendcount c" by blast
    then show ?thesis
    proof cases
      case 3
      then show ?thesis
        using turn that unat_Suc_small [OF 3(2)] by (auto simp: copies_left_def bit True)
    qed (use turn that in \<open>auto simp: copies_left_def\<close>)
  next
    case False
    then show ?thesis using assms [unfolded turn_first [OF bit False]] that by (auto simp: copies_left_def bit)
  qed
next
  case False
  then show ?thesis using assms that by auto
qed

lemma send_turns_bound:
  "send_turns i ts c [item] = (c', q, outs) \<Longrightarrow> length outs \<le> copies_left i c item"
proof (induction ts arbitrary: c item outs)
  case (Cons t ts)
  obtain c1 q1 out where one: "NSProcessSendClient c i t [item] = (c1, q1, out)" by (metis prod_cases3)
  obtain item1 where q1: "q1 = [item1]" "length out + copies_left i c1 item1 \<le> copies_left i c item"
    using send_one [OF one] by blast
  obtain outs1 where rest: "send_turns i ts c1 [item1] = (c', q, outs1)" "outs = out @ outs1"
    using Cons.prems one q1(1) by (auto split: prod.splits)
  show ?case using Cons.IH [OF rest(1)] q1(2) rest(2) by simp
qed simp

lemma retransmission_facts:
  fixes t :: u64
  assumes "sendmessageid c \<noteq> item_msgid item" "bit (users item) i" "bit (item_data item ! 1) 0"
    and "unat t + 1500 < 2 ^ 64"
  shows "length (snd (snd (send_turns i ts c [item]))) \<le> 5"
    and "\<exists>c'. send_turns i [t, t + 300, t + 600, t + 900, t + 1200, t + 1500] c [item] =
      (c', [item\<lparr>users := unset_bit i (users item)\<rparr>],
       take (item_size item) (item_data item)
       # replicate 4 (take (item_size item) ((item_data item)[1 := item_data item ! 1 OR 4])))"
proof -
  show "length (snd (snd (send_turns i ts c [item]))) \<le> 5"
    using send_turns_bound [of i ts c item] assms(1,2)
    by (cases "send_turns i ts c [item]") (simp add: copies_left_def)
  have later: "\<not> t + b < t + a" if "a \<le> b" "b \<le> 1500" for a b :: u64
  proof -
    have "unat a \<le> unat b" "unat b \<le> 1500" using that by (simp_all add: word_le_nat_alt)
    then have "unat (t + a) = unat t + unat a" "unat (t + b) = unat t + unat b"
      using assms(4) by (simp_all add: unat_word_ariths)
    then show ?thesis using \<open>unat a \<le> unat b\<close> by (simp add: word_less_nat_alt)
  qed
  show "\<exists>c'. send_turns i [t, t + 300, t + 600, t + 900, t + 1200, t + 1500] c [item] =
      (c', [item\<lparr>users := unset_bit i (users item)\<rparr>],
       take (item_size item) (item_data item)
       # replicate 4 (take (item_size item) ((item_data item)[1 := item_data item ! 1 OR 4])))"
  proof -
    define first rep where "first = take (item_size item) (item_data item)"
      and "rep = take (item_size item) ((item_data item)[1 := item_data item ! 1 OR 4])"
    define st where "st = (\<lambda>u n. c\<lparr>sendmessageid := item_msgid item, lastsendtime := u, sendcount := n\<rparr>)"
    have one: "NSProcessSendClient c i t [item] = (st t 0, [item], [first])"
      using turn_first [OF assms(2,1), of t] assms(3) by (simp only: if_True st_def first_def)
    have late: "turn_late (t + b) (st (t + a) n)" "turn_time (t + b) (st (t + a) n) = st (t + a) n"
      if "b = a + 300" "a \<le> b" "b \<le> 1500" for a b n
    proof -
      have tt: "turn_time (t + b) (st (t + a) n) = st (t + a) n"
        using later [OF that(2,3)] by (simp add: turn_time_def st_def)
      show "turn_time (t + b) (st (t + a) n) = st (t + a) n" by (rule tt)
      show "turn_late (t + b) (st (t + a) n)"
        unfolding turn_late_def tt by (simp add: st_def that(1))
    qed
    have again: "NSProcessSendClient (st (t + a) n) i (t + b) [item] = (st (t + b) (n + 1), [item], [rep])"
      if "b = a + 300" "a \<le> b" "b \<le> 1500" "\<not> 3 < n" for a b n
      using turn_again [OF assms(2), of "st (t + a) n" "t + b"] late [OF that(1-3)] that(4)
      by (simp add: st_def rep_def)
    have over: "NSProcessSendClient (st (t + 1200) 4) i (t + 1500) [item]
        = (st (t + 1200) 0, [item\<lparr>users := unset_bit i (users item)\<rparr>], [])"
      using turn_again [OF assms(2), of "st (t + 1200) 4" "t + 1500"] late [of 1500 1200] by (simp add: st_def)
    have r: "replicate 4 rep = [rep, rep, rep, rep]" by (simp add: eval_nat_numeral)
    show ?thesis
      unfolding first_def [symmetric] rep_def [symmetric] r
      using one again [of 300 0 0] again [of 600 300 1] again [of 900 600 2] again [of 1200 900 3] over
      by (simp del: NSProcessSendClient.simps)
  qed
qed


definition sample_item :: SendDataList where
  "sample_item = \<lparr>item_data = [4, 3, 0, 7, 0, 3, 8, 0, 9], users = 5\<rparr>"


section \<open>Once is enough\<close>

text \<open>A pipe message of a session, accepted: answered if it asks for it, noted, and handed over.\<close>

definition repeated :: "AgreementUdpHeader \<Rightarrow> AgreementUdpHeader" where
  "repeated h = h\<lparr>h_flags := h_flags h OR 4\<rparr>"

lemma repeated_simps [simp]:
  "h_data (repeated h) = h_data h" "h_isResend (repeated h)" "h_Ack (repeated h) = h_Ack h"
  "h_Priorty (repeated h) = h_Priorty h" "h_messageid (repeated h) = h_messageid h" "h_cmd (repeated h) = h_cmd h"
  by (simp_all add: repeated_def h_isResend_def h_Ack_def h_Priorty_def bit_or_iff)

lemma h_Priorty_less [simp]: "h_Priorty h < 2"
  by (simp add: h_Priorty_def)

definition pipe_event :: "AgreementUdpHeader \<Rightarrow> u32 \<Rightarrow> sdk_event" where
  "pipe_event h n = Udp_Pipe (take (unat (n - 5)) (drop 5 (h_data h))) (n - 5) (h_data h ! 1)"

lemma session_again:
  assumes "session_check B a s = (True, t)" "clients u = (clients s)[unat (B ! 1) := c]" "isActive c" "checkValue c = B ! 0" "Address c = a"
    "length (clients s) = 32"
  shows "\<exists>v. session_check B a u = (True, v) \<and> clients v = (clients u)[unat (B ! 1) := c\<lparr>LastReceiveDataTime := g_XlinkSdkTime u\<rparr>]
    \<and> xlog v = xlog u \<and> user v = user u \<and> udp_fd v = udp_fd u"
proof -
  have i: "unat (B ! 1) < 32" using session_check_True [OF assms(1)] by blast
  then show ?thesis using assms by (simp add: session_check_def XlinkClientcheckclientLogin_def Let_def)
qed


lemma to_app_send [simp]:
  "filter to_application (xlog (XlinkClientSendDataToAddr d a s)) = filter to_application (xlog s)"
  "filter to_application (xlog (XlinkClientSendToIndex d i s)) = filter to_application (xlog s)"
  by (simp_all add: XlinkClientSendDataToAddr_def XlinkClientSendToIndex_def)

lemma note_simps [simp]: "xlog (note_msgid i h s) = xlog s" "user (note_msgid i h s) = user s"
  "clients (note_msgid i h s) =
    (clients s)[i := (clients s ! i)\<lparr>client_msgid := (client_msgid (clients s ! i))[h_Priorty h := h_messageid h]\<rparr>]"
  by (simp_all add: note_msgid_def)

lemma pipe_accepted:
  assumes ok: "table_ok (clients s)" and sc: "session_check (h_data h) a s = (True, t)"
    and new: "h_isResend h \<Longrightarrow> \<not> seen_msgid (unat (h_data h ! 1)) h s"
  shows "\<exists>c. clients (XlinkProcessUdpPipe_V4 h n a now s) = (clients s)[unat (h_data h ! 1) := c]
    \<and> isActive c \<and> checkValue c = h_data h ! 0 \<and> Address c = a \<and> client_msgid c ! h_Priorty h = h_messageid h"
    and "filter to_application (xlog (XlinkProcessUdpPipe_V4 h n a now s))
      = filter to_application (xlog s) @ (if OnUdpPipe (user s) then [pipe_event h n] else [])"
    and "user (XlinkProcessUdpPipe_V4 h n a now s) = user s"
proof -
  let ?i = "unat (h_data h ! 1)"
  note st = session_check_True [OF sc]
  have len: "length (clients s) = 32" "length (client_msgid (clients s ! ?i)) = 2"
    using ok st table_ok_nth [OF ok, of ?i] by (auto simp: table_ok_def client_ok_def)
  define u where "u = upd_session ?i (\<lambda>c. c\<lparr>lastRecvPipeTime := now\<rparr>) t"
  have u: "clients u = (clients s)[?i := (clients s ! ?i)\<lparr>LastReceiveDataTime := g_XlinkSdkTime s, lastRecvPipeTime := now\<rparr>]"
    "user u = user s" "xlog u = xlog s"
    using st len by (simp_all add: u_def)
  have "\<not> (h_isResend h \<and> seen_msgid ?i h u)"
    using new st len by (auto simp: seen_msgid_def u)
  then have pipe: "XlinkProcessUdpPipe_V4 h n a now s =
      (let w = (if h_Ack h then XlinkClientSendToIndex (resp_frame (h_cmd h) (h_messageid h) [h_data h ! 2, h_data h ! 3, 0])
              ?i (note_msgid ?i h u) else note_msgid ?i h u)\<lparr>udpPipeIndex := h_data h ! 1\<rparr>
       in if OnUdpPipe (user w) then sdk_put (pipe_event h n) w else w)"
    unfolding XlinkProcessUdpPipe_V4_def Let_def sc prod.case bool.case u_def [symmetric] pipe_event_def
    by (simp only: if_False)
  show "\<exists>c. clients (XlinkProcessUdpPipe_V4 h n a now s) = (clients s)[?i := c]
    \<and> isActive c \<and> checkValue c = h_data h ! 0 \<and> Address c = a \<and> client_msgid c ! h_Priorty h = h_messageid h"
    using st len unfolding pipe Let_def by (simp add: u) (intro exI conjI, rule refl, simp_all)
  show "filter to_application (xlog (XlinkProcessUdpPipe_V4 h n a now s))
      = filter to_application (xlog s) @ (if OnUdpPipe (user s) then [pipe_event h n] else [])"
    unfolding pipe Let_def by (simp add: u pipe_event_def)
  show "user (XlinkProcessUdpPipe_V4 h n a now s) = user s"
    unfolding pipe Let_def by (simp add: u)
qed



definition sample_session_state :: xsdk where
  "sample_session_state =
     \<lparr>clients = (map (\<lambda>i. zero_client (of_nat i)) [0..<32])
        [1 := (zero_client 1)\<lparr>Address := (7, 5), isActive := True, checkValue := 9, keepAliveTime := 30\<rparr>],
      clientCount = True, g_XlinkSdkTime = 100, isScanEnable = True, udp_fd = 4,
      config = \<lparr>flag_All = 0, Deviceid = [0, 0, 0, 1], CurrentSoftVersion = 1\<rparr>, product_id = replicate 32 0x31 @ [0],
      flash = zero_flash,
      user = \<lparr>u_mac = [1, 2, 3, 4, 5, 6] @ replicate 26 0, maclen = 6, wifi_type = 1, wifisoftVersion = 1,
        mcuHardwareSoftVersion = 1, devicetype = 0, pipetype = 0, OnStatus = True, OnUdpPipe = True,
        OnSetDataPoint = True, OnXGMessage = True, OnGetAllDataPoint = Some []\<rparr>,
      g_udp_listen_port = 5987, udpPipeIndex = 0, g_udp_msgid = 1, sendlist = [], debug_text = [],
      md5_ctx = zero_md5, xlog = []\<rparr>"

lemma sample_table: "table_ok (clients sample_session_state)"
proof -
  have "table_ok (map (\<lambda>i. zero_client (of_nat i)) [0..<32])"
    using table_ok_Init by (simp add: XlinnkClientInit_def)
  then have "table_ok ((map (\<lambda>i. zero_client (of_nat i)) [0..<32])
      [1 := (zero_client 1)\<lparr>Address := (7, 5), isActive := True, checkValue := 9, keepAliveTime := 30\<rparr>])"
    by (rule table_ok_update) (simp_all add: client_ok_def zero_client_def word_le_nat_alt word_less_nat_alt)
  then show ?thesis by (simp add: sample_session_state_def)
qed

definition sample_pipe :: AgreementUdpHeader where
  "sample_pipe = \<lparr>h_flags = 1, h_messageid = 77, h_bodylength = 9, h_cmd = 8, h_data = [9, 1, 0, 0, 0, 65, 66]\<rparr>"

lemma sample_check: "session_check (h_data sample_pipe) (7, 5) sample_session_state = (True,
    (upd_session 1 (\<lambda>c. c\<lparr>LastReceiveDataTime := 100\<rparr>) sample_session_state)\<lparr>clientCount := True\<rparr>)"
proof -
  have "clients sample_session_state ! 1 =
      (zero_client 1)\<lparr>Address := (7, 5), isActive := True, checkValue := 9, keepAliveTime := 30\<rparr>"
    "g_XlinkSdkTime sample_session_state = 100"
    by (simp_all add: sample_session_state_def)
  then show ?thesis
    by (simp add: session_check_def XlinkClientcheckclientLogin_def sample_pipe_def zero_client_def Let_def)
qed


lemma signed_of_16: "n < 65536 \<Longrightarrow> (int n + 32768) mod 65536 - 32768 = (if n < 32768 then int n else int n - 65536)"
  by (cases "n < 32768") (auto simp: mod_pos_pos_trivial mod_pos_geq)

lemma minus_of_16: "\<not> n < 32768 \<Longrightarrow> n < 65536 \<Longrightarrow> (int n - 65536) mod 2 ^ 32 = int n + 4294901760"
  using mod_add_self2 [of "int n - 65536" "2 ^ 32"] by (simp add: mod_pos_pos_trivial)

section \<open>When a silent session ends\<close>

text \<open>
  The heartbeat. A session is dropped when the time since its last request, taken modulo
  \<open>2 ^ 32\<close>, has reached the keep-alive time it announced, provided that is below 32768. A larger
  announcement is read as a negative number and compared without sign: such a session is kept for
  \<open>2 ^ 32 - 32768\<close> seconds at least, which is for ever.
\<close>

theorem heartbeat_spec:
  assumes "isActive c" "LastReceiveDataTime c \<le> now"
  shows "fst (heartbeat now c) \<longleftrightarrow>
    (let elapsed = unat (now - LastReceiveDataTime c) mod 2 ^ 32; k = unat (keepAliveTime c)
     in if k < 32768 then k \<le> elapsed else 2 ^ 32 - (65536 - k) \<le> elapsed)"
proof -
  have el: "unat (ucast (now - LastReceiveDataTime c) :: u32) = unat (now - LastReceiveDataTime c) mod 2 ^ 32"
    by (simp add: unsigned_ucast_eq take_bit_eq_mod)
  have k: "unat (scast (keepAliveTime c) :: u32) =
      (if unat (keepAliveTime c) < 32768 then unat (keepAliveTime c) else 2 ^ 32 - (65536 - unat (keepAliveTime c)))"
  proof -
    have b: "unat (keepAliveTime c) < 65536" using unsigned_less [of "keepAliveTime c", where ?'a = nat] by simp
    have w: "(scast (keepAliveTime c) :: u32) = word_of_int (sint (keepAliveTime c))" by simp
    have "int (unat (scast (keepAliveTime c) :: u32)) = sint (keepAliveTime c) mod 2 ^ 32"
      unfolding w by (simp only: unsigned_of_int) (simp add: take_bit_eq_mod)
    moreover have "sint (keepAliveTime c) = (int (unat (keepAliveTime c)) + 32768) mod 65536 - 32768"
      by (simp add: sint_uint signed_take_bit_eq_take_bit_shift take_bit_eq_mod)
    moreover have arith: "\<lbrakk>int m = z mod 2 ^ 32; z = (int n + 32768) mod 65536 - 32768; n < 65536\<rbrakk> \<Longrightarrow>
        m = (if n < 32768 then n else 2 ^ 32 - (65536 - n))" for m n z
      by (simp only: signed_of_16) (auto simp: minus_of_16 [simplified] split: if_splits)
    ultimately show ?thesis using b by blast
  qed
  have cmp: "(scast (keepAliveTime c) :: u32) \<le> ucast (now - LastReceiveDataTime c) \<longleftrightarrow>
      (let elapsed = unat (now - LastReceiveDataTime c) mod 2 ^ 32; k = unat (keepAliveTime c)
       in if k < 32768 then k \<le> elapsed else 2 ^ 32 - (65536 - k) \<le> elapsed)"
    by (cases "unat (keepAliveTime c) < 32768") (simp_all only: word_le_nat_alt el k Let_def if_True if_False)
  show ?thesis
    unfolding cmp [symmetric] using assms by (simp add: heartbeat_def Let_def leD)
qed

theorem heartbeat_spec_witness:
  "\<not> fst (heartbeat 1000000 ((zero_client 1)\<lparr>isActive := True, LastReceiveDataTime := 40000, keepAliveTime := 40000\<rparr>))
   \<and> fst (heartbeat 1000000 ((zero_client 1)\<lparr>isActive := True, LastReceiveDataTime := 40000, keepAliveTime := 30000\<rparr>))"
  using heartbeat_spec [of "(zero_client 1)\<lparr>isActive := True, LastReceiveDataTime := 40000, keepAliveTime := 40000\<rparr>" 1000000]
    heartbeat_spec [of "(zero_client 1)\<lparr>isActive := True, LastReceiveDataTime := 40000, keepAliveTime := 30000\<rparr>" 1000000]
  by (simp add: word_le_nat_alt)

section \<open>Frames\<close>

lemma length_be16 [simp]: "length (be16 x) = 2"
  by (simp add: be16_def)

lemma length_be32 [simp]: "length (be32 x) = 4"
  by (simp add: be32_def)

lemma length_udp_frame [simp]: "length (udp_frame flags cmd msgid data) = length data + 8"
  by (simp add: udp_frame_def)

lemma udp_frame_Cons:
  "udp_frame flags cmd msgid data =
     [XLINK_UDP_VERSION, flags, UTIL_INT16_GET_BITH (ucast msgid), UTIL_INT16_GET_BITL (ucast msgid),
      UTIL_INT16_GET_BITH (ucast (of_nat (length data + 2) :: u16)),
      UTIL_INT16_GET_BITL (ucast (of_nat (length data + 2) :: u16)), cmd, 0] @ data"
  by (simp add: udp_frame_def be16_def)

lemma le16_4: "le16 (a # b # c # d # e # f # xs) 4 = UTIL_INT16_SET f e"
  by (simp add: le16_def eval_nat_numeral)

lemma Encode_total:
  assumes "unat (NShtonlInt16 (le16 buf 4)) + 6 \<le> length buf" "8 \<le> length buf"
  shows "\<exists>sealed. Encode key buf = Inr sealed"
proof -
  define b1 where "b1 = buf[1 := buf ! 1 OR 0x10]"
  define len where "len = NShtonlInt16 (le16 b1 4)"
  have "le16 b1 4 = le16 buf 4" by (simp add: b1_def le16_def)
  then have fits: "unat len + 6 \<le> length b1" "8 \<le> length b1"
    using assms by (simp_all add: b1_def len_def)
  obtain chk where "body_sum b1 len = Inr chk" using body_sum_total [OF fits] by blast
  moreover have "unat len div 8 * 8 \<le> length (drop 6 (b1[7 := chk]))"
    using fits by (simp add: le_trans [OF div_times_less_eq_dividend])
  ultimately show ?thesis
    unfolding Encode_def Let_def b1_def [symmetric] len_def [symmetric] by (simp add: TeaEncrypt_eq)
qed

lemma Encode_frame:
  assumes "length data + 2 < 65536"
  shows "\<exists>sealed. Encode key (udp_frame flags cmd msgid data) = Inr sealed"
proof (rule Encode_total)
  have "NShtonlInt16 (le16 (udp_frame flags cmd msgid data) 4) = of_nat (length data + 2)"
    unfolding udp_frame_Cons append.simps le16_4 by (simp del: of_nat_add of_nat_Suc)
  then show "unat (NShtonlInt16 (le16 (udp_frame flags cmd msgid data) 4)) + 6 \<le> length (udp_frame flags cmd msgid data)"
    using assms by (simp only: unsigned_of_nat) (simp add: take_bit_eq_mod)
qed simp

section \<open>A key whose digest begins with zero\<close>

lemma has_session_update:
  "j < length cs \<Longrightarrow> isActive c \<Longrightarrow> clients s = cs[j := c] \<Longrightarrow> has_session (Address c) s"
  unfolding has_session_def by (metis set_update_memI)

lemma Addclient_opens:
  assumes ok: "table_ok (clients s)" and free: "\<exists>c \<in> set (clients s). \<not> isActive c"
    and add: "XlinkClientAddclient k a s = (r, i, v, s')"
  shows "v \<noteq> 0 \<and> has_session a s' \<and> user s' = user s \<and> config s' = config s"
proof (cases "first_index (\<lambda>c. isActive c \<and> Address c = a) 0 (clients s)")
  case (Some j)
  note f = first_index_0 [OF Some]
  have "checkValue (clients s ! j) \<noteq> 0"
    using f table_ok_nth [OF ok, of j] ok by (auto simp: client_ok_def table_ok_def)
  then show ?thesis
    using add f Some has_session_update [of j "clients s" "(clients s ! j)\<lparr>keepAliveTime := k, isActive := True,
      LastReceiveDataTime := g_XlinkSdkTime s, Address := a\<rparr>" s']
    by (auto simp: XlinkClientAddclient_def Let_def)
next
  case None
  obtain j where j: "first_index (\<lambda>c. \<not> isActive c) 0 (clients s) = Some j"
    using free first_index_None [of "\<lambda>c. \<not> isActive c" 0 "clients s"] by (cases "first_index (\<lambda>c. \<not> isActive c) 0 (clients s)") auto
  note f = first_index_0 [OF j]
  then show ?thesis
    using add f None j session_value [of "g_XlinkSdkTime s"] has_session_update [of j "clients s" "(clients s ! j)\<lparr>
      keepAliveTime := k, isActive := True, LastReceiveDataTime := g_XlinkSdkTime s, Address := a,
      checkValue := ucast (g_XlinkSdkTime s mod 253 + 1)\<rparr>" s']
    by (auto simp: XlinkClientAddclient_def Let_def)
qed

lemma CheckHeartbeat_free:
  assumes "\<exists>c \<in> set (clients s). \<not> isActive c"
  shows "\<exists>c \<in> set (clients (XlinkClientCheckHeartbeat t s)). \<not> isActive c"
proof -
  have "\<not> isActive c \<Longrightarrow> \<not> isActive (snd (heartbeat t c))" for c by (simp add: heartbeat_def)
  then show ?thesis
    using assms heartbeat_loop_clients [of t "clients s"]
    by (auto simp: XlinkClientCheckHeartbeat_def split: prod.split) blast
qed

lemma funpow_status_user [simp]: "user ((sdk_status st ^^ n) s) = user s"
  by (induction n) simp_all

text \<open>
  The key is not always needed. The handshake compares the digest of the key as a string, so when the
  digest begins with a zero byte the comparison ends there: whatever the other fifteen bytes of the
  request, a request that announces at least 24 bytes and whose digest field begins with zero opens a
  session for its sender, as long as a slot is free. One key in 256 is of that kind.
\<close>

theorem handshake_zero_digest:
  assumes "table_ok (clients s)" "\<exists>c \<in> set (clients s). \<not> isActive c"
    and "unat (maclen (user s)) \<le> 32" "length (Deviceid (config s)) = 4"
    and "ack_digest s = 0 # d" "h_data h = b0 # b1 # b2 # 0 # bs" "24 \<le> h_bodylength h"
  shows "\<exists>s'. XlinkProcessUdpHandshake_V4 h a s = Inr s' \<and> has_session a s'"
proof -
  define t where "t = XlinkClientCheckHeartbeat (g_XlinkSdkTime s) s"
  obtain r i v u where add: "XlinkClientAddclient (UTIL_INT16_SET (h_data h ! 22) (h_data h ! 23)) a t = (r, i, v, u)"
    by (metis prod_cases4)
  have "table_ok (clients t)" "\<exists>c \<in> set (clients t). \<not> isActive c"
    using assms(1,2) unfolding t_def by (simp_all add: table_ok_CheckHeartbeat CheckHeartbeat_free)
  note opened = Addclient_opens [OF this add]
  have kept: "user t = user s" "config t = config s"
    using kept_CheckHeartbeat [of s "g_XlinkSdkTime s"] unfolding t_def [symmetric]
    by (simp_all add: sdk_kept_def) (simp add: t_def XlinkClientCheckHeartbeat_def split: prod.split)
  have "length (the_mac u) \<le> 32"
    using opened kept assms(3) by (simp add: the_mac_def)
  then have "length ([0, XLINK_UDP_VERSION, h_data h ! 1, h_data h ! 2, 0, maclen_byte u] @ the_mac u
        @ Deviceid (config u) @ be16 (wifisoftVersion (user u)) @ [v, i, 0]) + 2 < 65536"
    using opened kept assms(4) by simp
  then obtain sealed where sealed: "Encode (accesskey (flash u)) (resp_frame (h_cmd h) (h_messageid h)
      ([0, XLINK_UDP_VERSION, h_data h ! 1, h_data h ! 2, 0, maclen_byte u] @ the_mac u
        @ Deviceid (config u) @ be16 (wifisoftVersion (user u)) @ [v, i, 0])) = Inr sealed"
    using Encode_frame unfolding resp_frame_def by blast
  have digest: "strncmp_eq (drop 3 (h_data h)) (ack_digest s) 16"
    using assms(5,6) by (simp add: numeral_eq_Suc char0_def)
  have "\<not> h_bodylength h < 24" using assms(7) by simp
  then have "XlinkProcessUdpHandshake_V4 h a s = Inr (XlinkClientSendDataToAddr sealed a u)"
    using digest opened sealed unfolding XlinkProcessUdpHandshake_V4_def Let_def t_def [symmetric] add by simp
  then show ?thesis using opened by (simp add: has_session_def)
qed

lemma small_bytes:
  "bytes_of_word 32 = [32, 0, 0, 0]" "bytes_of_word 0 = [0, 0, 0, 0]" "bytes_of_word 0xc90a7300 = [0, 0x73, 0x0a, 0xc9]"
  by (simp_all add: bytes_of_word_def word_unat_eq_iff byte_order)

text \<open>The digest of the key 277, by the rounds of MD5.\<close>

lemma rounds_277:
  "fold (rfc_step [277, 128, 0, 0, 0, 0, 0, 0, 0, 0, 0, 0, 0, 0, 32, 0]) [0..<64] (0x67452301, 0xefcdab89, 0x98badcfe, 0x10325476)
     = (1640321023, 278706091, 1741082130, 36499753)"
  by code_simp

lemma block_277:
  "words_of (take 64 ([21, 1, 0, 0, 0x80] @ replicate 51 0 @ [32, 0, 0, 0, 0, 0, 0, 0]))
     = [277, 128, 0, 0, 0, 0, 0, 0, 0, 0, 0, 0, 0, 0, 32, 0]"
  by code_simp

lemma digest_277: "\<exists>d. rfc_md5 [21, 1, 0, 0] = 0 # d"
proof -
  have pad: "rfc_pad [21, 1, 0, 0] = [21, 1, 0, 0, 0x80] @ replicate 51 0 @ [32, 0, 0, 0, 0, 0, 0, 0]"
    by (simp add: rfc_pad_def small_bytes)
  show ?thesis
    unfolding rfc_md5_def pad
    by (subst rfc_blocks.simps, subst rfc_blocks.simps)
      (simp only: block_277 rfc_compress_def rounds_277 rfc_init_def prod.case, simp add: small_bytes)
qed

theorem handshake_zero_digest_witness:
  "\<exists>s'. XlinkProcessUdpHandshake_V4
     \<lparr>h_flags = 1, h_messageid = 2, h_bodylength = 24, h_cmd = 2, h_data = 4 # 0 # 0 # 0 # replicate 20 7\<rparr> (9, 9)
     (sample_session_state\<lparr>flash := zero_flash\<lparr>accesskey := 277\<rparr>\<rparr>) = Inr s' \<and> has_session (9, 9) s'"
proof -
  let ?s = "sample_session_state\<lparr>flash := zero_flash\<lparr>accesskey := 277\<rparr>\<rparr>"
  obtain d where d: "rfc_md5 [21, 1, 0, 0] = 0 # d" using digest_277 by blast
  have "le_bytes 277 = [21, 1, 0, 0]"
    by (simp add: le_bytes_def word_unat_eq_iff byte_order)
  then have "ack_digest ?s = 0 # d"
    using xlinkGetMd5_spec [of zero_md5 "[21, 1, 0, 0]"] d
    by (simp add: ack_digest_def sample_session_state_def zero_md5_def)
  moreover have "\<exists>c \<in> set (clients ?s). \<not> isActive c"
  proof (rule bexI)
    show "\<not> isActive (clients ?s ! 0)" by (simp add: sample_session_state_def zero_client_def)
    show "clients ?s ! 0 \<in> set (clients ?s)" by (rule nth_mem) (simp add: sample_session_state_def)
  qed
  moreover have "table_ok (clients ?s)" using sample_table by simp
  moreover have "unat (maclen (user ?s)) \<le> 32" "length (Deviceid (config ?s)) = 4"
    by (simp_all add: sample_session_state_def)
  ultimately show ?thesis by (intro handshake_zero_digest) simp_all
qed

section \<open>Lengths that are not checked\<close>

text \<open>
  A probe can overrun its answer. The answer array has 24 bytes besides the data points, but the
  header, the device's address and its name need up to 35: a device with a six-byte address and a
  sixteen-character name whose application reports between 990 and 999 bytes of data points, which
  the code means to allow, writes past the array when a session asks for its state.
\<close>

theorem probe_overruns_answer:
  assumes "session_check (h_data h) a s = (True, t)" "OnGetAllDataPoint (user s) = Some points"
    and "unat (maclen (user s)) = 6" "6 \<le> length (u_mac (user s))" "length (c_string (xsdk_read_name 16 (flash s))) = 16"
    and "990 \<le> length points" "length points < XLINK_DATAPOINT_MAX_BYTES"
  shows "XlinkProcessUdpProbe_Datapoint_V4 h a s = Inl Out_Of_Bounds"
proof -
  have t: "user t = user s" "flash t = flash s"
    using session_check_True [OF assms(1)] by simp_all
  have "length (the_mac t) = 6" using assms(3,4) t by (simp add: the_mac_def)
  then show ?thesis
    using assms t unfolding XlinkProcessUdpProbe_Datapoint_V4_def Let_def by simp
qed

theorem probe_overruns_answer_witness:
  "XlinkProcessUdpProbe_Datapoint_V4 sample_pipe (7, 5)
     (sample_session_state\<lparr>flash := zero_flash\<lparr>f_name := replicate 16 65\<rparr>,
        user := (user sample_session_state)\<lparr>OnGetAllDataPoint := Some (replicate 990 0)\<rparr>\<rparr>) = Inl Out_Of_Bounds"
proof -
  let ?s = "sample_session_state\<lparr>flash := zero_flash\<lparr>f_name := replicate 16 65\<rparr>,
        user := (user sample_session_state)\<lparr>OnGetAllDataPoint := Some (replicate 990 0)\<rparr>\<rparr>"
  have "\<exists>t. session_check (h_data sample_pipe) (7, 5) ?s = (True, t)"
    by (simp add: session_check_def XlinkClientcheckclientLogin_def sample_pipe_def zero_client_def sample_session_state_def Let_def)
  then obtain t where "session_check (h_data sample_pipe) (7, 5) ?s = (True, t)" by blast
  moreover have "length (c_string (xsdk_read_name 16 (flash ?s))) = 16"
    by (simp add: xsdk_read_name_def c_string_def zero_flash_def)
  ultimately show ?thesis
    by (intro probe_overruns_answer [where points = "replicate 990 0"]) (simp_all add: sample_session_state_def)
qed

text \<open>
  A short pipe message reports a huge length. The five bytes in front of the data are subtracted from the
  body's length without a check, so a message of a session with fewer hands the application a length
  of almost \<open>2 ^ 32\<close> for data that are not there.
\<close>

theorem short_pipe_length:
  assumes "table_ok (clients s)" "session_check (h_data h) a s = (True, t)" "OnUdpPipe (user s)"
    and "h_isResend h \<Longrightarrow> \<not> seen_msgid (unat (h_data h ! 1)) h s" "unat n < 5"
  shows "\<exists>len. unat len = 2 ^ 32 - 5 + unat n \<and>
    filter to_application (xlog (XlinkProcessUdpPipe_V4 h n a now s)) =
      filter to_application (xlog s) @ [Udp_Pipe (take (unat len) (drop 5 (h_data h))) len (h_data h ! 1)]"
proof -
  have "n < 5" using assms(5) by (simp add: word_less_nat_alt)
  then have "unat (n - 5) = 2 ^ 32 - 5 + unat n"
    using assms(5) by (subst unat_sub_if') (simp add: word_le_nat_alt)
  then show ?thesis
    using pipe_accepted(2) [OF assms(1,2,4)] assms(3) by (auto simp: pipe_event_def)
qed

theorem short_pipe_length_witness:
  "\<exists>len. unat len = 2 ^ 32 - 5 + unat (4 :: u32) \<and>
    filter to_application (xlog (XlinkProcessUdpPipe_V4 sample_pipe 4 (7, 5) 0 sample_session_state)) =
      filter to_application (xlog sample_session_state)
      @ [Udp_Pipe (take (unat len) (drop 5 (h_data sample_pipe))) len (h_data sample_pipe ! 1)]"
proof (rule short_pipe_length [OF sample_table sample_check])
  show "h_isResend sample_pipe \<Longrightarrow> \<not> seen_msgid (unat (h_data sample_pipe ! 1)) sample_pipe sample_session_state"
    by (simp add: h_isResend_def sample_pipe_def)
qed (simp_all add: sample_session_state_def)

end
