(* ===== verification/KeyExchange.thy ===== *)
theory KeyExchange imports XGGateway XlinkSession begin

text \<open>
  The gateway library and a device, face to face. The calls of \<^verbatim>\<open>XGGateway.c\<close> that read a device's
  access key, set it and read the sub key talk to the handlers of \<^verbatim>\<open>xlinkv4Udp.c\<close>: here each request
  is delivered to the model of the device and its answer handed back to the call.
\<close>

section \<open>A request at the device\<close>

text \<open>A plain request as the gateway library sends it: one byte of message number, one of length.\<close>

definition request_header :: "byte \<Rightarrow> byte \<Rightarrow> byte \<Rightarrow> byte \<Rightarrow> bytes \<Rightarrow> AgreementUdpHeader" where
  "request_header flags mid len cmd data = \<lparr>h_flags = flags, h_messageid = UTIL_INT16_SET 0 mid,
     h_bodylength = UTIL_INT16_SET 0 len, h_cmd = cmd, h_data = data\<rparr>"

lemma request_header_simps [simp]:
  "h_flags (request_header fl mid len cmd d) = fl" "h_messageid (request_header fl mid len cmd d) = UTIL_INT16_SET 0 mid"
  "h_cmd (request_header fl mid len cmd d) = cmd" "h_data (request_header fl mid len cmd d) = d"
  "h_bodylength (request_header fl mid len cmd d) = UTIL_INT16_SET 0 len"
  by (simp_all add: request_header_def)

lemma le16_2: "le16 (a # b # c # d # xs) 2 = UTIL_INT16_SET d c"
  by (simp add: le16_def eval_nat_numeral)

lemma plain_request:
  assumes "\<not> bit fl 3" "\<not> bit fl 4" "unat len \<le> length data + 2"
  shows "XlinkProcessUdpDataV4 (4 # fl # 0 # mid # 0 # len # cmd # x # data @ tail) (length data + 8) a now s =
    udp_command (request_header fl mid len cmd (data @ tail)) (ucast (UTIL_INT16_SET 0 len) - 2) a now s"
proof -
  let ?b = "4 # fl # 0 # mid # 0 # len # cmd # x # data @ tail"
  have swap: "swap_length ?b = 4 # fl # 0 # mid # len # 0 # cmd # x # data @ tail"
    unfolding swap_length_def le16_4 NShtonlInt16_SET bytes_of_16 Let_def by (simp add: numeral_eq_Suc)
  have fits: "\<not> length data + 8 - 6 < unat (UTIL_INT16_SET 0 len)"
    using assms(3) by (simp add: byte_order)
  have head: "header_of (4 # fl # 0 # mid # len # 0 # cmd # x # data @ tail) = request_header fl mid len cmd (data @ tail)"
    by (simp add: header_of_def request_header_def le16_4 le16_2)
  show ?thesis
    using assms(1,2) fits
    unfolding XlinkProcessUdpDataV4_def Let_def swap le16_4 udp_opened_def head h_response_def by simp
qed

text \<open>What the device sends back, if it sends one message.\<close>

definition device_sends :: "bytes \<Rightarrow> bytes \<Rightarrow> xlink_addr \<Rightarrow> u64 \<Rightarrow> xsdk \<Rightarrow> bytes \<Rightarrow> xsdk \<Rightarrow> bool" where
  "device_sends request tail gateway now s d s' \<longleftrightarrow>
     XlinkProcessUdpDataV4 (request @ tail) (length request) gateway now s = Inr s' \<and>
     (\<exists>evs. xlog s' = xlog s @ evs \<and> filter (\<lambda>e. \<exists>a b. e = Sent a b) evs = [Sent gateway d])"

definition same_device :: "xsdk \<Rightarrow> xsdk \<Rightarrow> bool" where
  "same_device s s' \<longleftrightarrow> product_id s' = product_id s \<and> udp_fd s' = udp_fd s \<and> md5_ctx s' = md5_ctx s \<and>
     user s' = user s \<and> isScanEnable s' = isScanEnable s"

section \<open>Reading the access key\<close>

lemma access_key_answer_layout:
  assumes "buffer = A @ [L] @ name @ K @ Z" "length A = 55 + unat (buffer ! 10)" "length name = unat L"
    and "n = int (length A + 1 + length name + length K)"
    and "K = [] \<or> (\<exists>k. K = be32 k)"
  shows "access_key_answer buffer n = Inr (if K = [] then -13 else sint (UTIL_INT32_SET (K ! 0) (K ! 1) (K ! 2) (K ! 3)))"
proof -
  define i where "i = length A"
  have at: "10 + unat (buffer ! 10) + 2 + 32 + 7 + 1 + 1 + 2 = i" using assms(2) by (simp add: i_def)
  have L: "buffer ! i = L" "i < length buffer"
    unfolding assms(1) i_def by simp_all
  define j where "j = i + unat L + 1"
  have K: "buffer ! (j + k) = K ! k" "j + k < length buffer" if "k < length K" for k
    using that assms(3) unfolding assms(1) i_def j_def by (simp_all add: nth_append)
  have n: "int j + 1 < n \<longleftrightarrow> K \<noteq> []"
    using assms(3-5) by (auto simp: i_def j_def be32_def)
  show ?thesis
    using assms(5) L(2) K [of 0] K [of 1] K [of 2] K [of 3]
    unfolding access_key_answer_def Let_def at L(1) j_def [symmetric] n by (auto simp: be32_def)
qed

lemma udp_query_answered:
  assumes "opened lib us" "sin_addr addr \<noteq> INADDR_BROADCAST" "us_sendto us > 0"
    and "fd_ok (us_socket us)" "us_select us > 0" "us_isset us" "us_recv us = (int (length d), d)"
    and "minlen \<le> int (length d)" "8 \<le> length d" "length d \<le> room" "d ! 0 = 4" "d ! 3 = session_msgid us" "d ! 6 = cmd"
  shows "udp_query copies room minlen cmd otherwise decode (Inr bs) addr us lib =
    c_bind (decode (d @ replicate (room - length d) 0) (int (length d)))
      (\<lambda>ret. Inr (ret, close_udp (us_socket us) (replicate copies (Ev_SendTo (us_socket us) bs addr))))"
proof -
  obtain core where core: "g_ctx lib = Some core" "isRuning core" "\<not> us_socket us \<le> 0"
    using assms(1) by (auto simp: opened_def split: option.splits)
  have b: "memcpy_at 0 d (replicate room 0) = d @ replicate (room - length d) 0"
    using assms(10) by (simp add: memcpy_at_def)
  have n: "(d @ replicate (room - length d) 0) ! 0 = 4" "(d @ replicate (room - length d) 0) ! 3 = session_msgid us"
    "(d @ replicate (room - length d) 0) ! 6 = cmd" "\<not> int (length d) \<le> 0" "\<not> int (length d) < minlen"
    using assms(8,9,11-13) by (auto simp: nth_append)
  show ?thesis
    using assms(2-7) core n unfolding udp_query_def Let_def by (simp add: b)
qed

text \<open>The answers of the device, as lists.\<close>

lemma resp_frame_nth:
  "resp_frame cmd (UTIL_INT16_SET 0 mid) data ! 0 = 4" "resp_frame cmd (UTIL_INT16_SET 0 mid) data ! 3 = mid"
  "resp_frame cmd m data ! 6 = cmd" "8 \<le> k \<Longrightarrow> resp_frame cmd m data ! k = data ! (k - 8)"
  "length (resp_frame cmd m data) = length data + 8"
  unfolding resp_frame_def udp_frame_Cons bytes_of_16 by (simp_all add: nth_append) (simp_all add: eval_nat_numeral)

definition reads_key :: "bytes \<Rightarrow> byte \<Rightarrow> bytes" where
  "reads_key product mid = [4, 0, 0, mid, 0, 38, 1, 0, 4, 0, 0, 2] @ take 32 product"

definition scannable :: "bytes \<Rightarrow> xsdk \<Rightarrow> bool" where
  "scannable product s \<longleftrightarrow> isScanEnable s \<and> udp_fd s > 0 \<and> length (product_id s) \<ge> 32 \<and> length product \<ge> 32 \<and>
     take 32 (product_id s) = take 32 product"

lemma scan_request:
  assumes "sdk_ok s" "scannable product s"
  shows "device_sends (reads_key product mid) tail gateway now s
    (resp_frame 1 (UTIL_INT16_SET 0 mid) (scan_answer 2 s))
    (sdk_put (Sent gateway (resp_frame 1 (UTIL_INT16_SET 0 mid) (scan_answer 2 s))) s)"
proof -
  have "strncmp_eq (take 32 product @ tail) (product_id s) 32"
    using assms(2) strncmp_eq_iff [of 32 "take 32 product @ tail" "product_id s"] by (simp add: scannable_def)
  moreover have "\<not> 32 < maclen (user s)" using assms(1) by (simp add: sdk_ok_def not_less)
  moreover have "\<not> bit (2 :: byte) 0" by (simp add: bit_simps)
  ultimately have "XlinkProcessUdpScan_V4 (request_header 0 mid 38 1 (([4, 0, 0, 2] @ take 32 product) @ tail)) n gateway s =
      sdk_put (Sent gateway (resp_frame 1 (UTIL_INT16_SET 0 mid) (scan_answer 2 s))) s" for n
    using assms(2) unfolding XlinkProcessUdpScan_V4_def Let_def
    by (simp add: scannable_def XlinkClientSendDataToAddr_def)
  then show ?thesis
    using plain_request [of 0 38 "[4, 0, 0, 2] @ take 32 product" mid 1 0 tail gateway now s] assms(2)
    by (simp add: device_sends_def reads_key_def udp_command_def scannable_def)
qed

text \<open>
  Reading the access key works from end to end. For every device in a well-formed state that allows
  scanning, with the gateway's product, and for every message number, whatever lies behind the request
  in the device's receive array: the gateway's request makes the device send one answer to the
  gateway, and handed that answer the call returns exactly the device's access key, or -13 when the
  device has no legal key; it sent the request, and closed its socket.
\<close>

lemma access_key_exchange:
  assumes "sdk_ok s" "scannable product s" "opened lib us" "sin_addr addr \<noteq> INADDR_BROADCAST" "us_sendto us > 0"
    and "fd_ok (us_socket us)" "us_select us > 0" "us_isset us"
  shows "\<exists>d s'. device_sends (reads_key product (session_msgid us)) tail gateway now s d s' \<and> flash s' = flash s \<and> same_device s s' \<and>
    XGGetAccessKey addr product (us\<lparr>us_recv := (int (length d), d)\<rparr>) lib =
      Inr (if legal_key (accesskey (flash s)) then sint (accesskey (flash s)) else -13,
        [Ev_SendTo (us_socket us) (reads_key product (session_msgid us)) addr, Ev_Shutdown (us_socket us), Ev_Close (us_socket us)])"
proof -
  define name where "name = c_string (xsdk_read_name 16 (flash s))"
  define key where "key = accesskey (flash s)"
  define K where "K = (if legal_key key then be32 key else [])"
  define A where "A = [4, 8, 0, session_msgid us] @ be16 (of_nat (length (scan_answer 2 s) + 2)) @ [1, 0]
    @ [4, 0, maclen_byte s] @ the_mac s @ [0, 32] @ take 32 (product_id s)
         @ [wifi_type (user s)] @ be16 (mcuHardwareSoftVersion (user s)) @ be16 (ucast (g_udp_listen_port s))
         @ be16 (devicetype (user s)) @ [2, if legal_key key then 5 else 1] @ [0]"
  define d where "d = resp_frame 1 (UTIL_INT16_SET 0 (session_msgid us)) (scan_answer 2 s)"
  have nb: "\<not> bit (2 :: byte) 0" by (simp add: bit_simps)
  have d: "d = A @ [of_nat (length name)] @ name @ K"
    using nb unfolding d_def A_def resp_frame_def udp_frame_def be16_def scan_answer_def Let_def K_def key_def name_def bytes_of_16
    by simp
  have "length name \<le> 16"
    unfolding name_def c_string_def xsdk_read_name_def by (rule order_trans [OF length_takeWhile_le]) simp
  then have n16: "unat (of_nat (length name) :: byte) = length name" "length name \<le> 16"
    by (simp_all add: unsigned_of_nat take_bit_eq_mod)
  have m: "unat (maclen (user s)) \<le> 32" "length (the_mac s) = unat (maclen (user s))"
    using assms(1) by (simp_all add: sdk_ok_def word_le_nat_alt the_mac_def)
  then have mb: "unat (maclen_byte s) = length (the_mac s)"
    by (simp add: maclen_byte_def unsigned_ucast_eq take_bit_eq_mod)
  have lA: "length A = 55 + unat (maclen_byte s)"
    using assms(2) mb by (simp add: A_def scannable_def)
  have lK: "length K \<le> 4" by (simp add: K_def)
  have ld: "8 \<le> length d" "length d \<le> 256" "43 \<le> int (length d)"
    using lA n16 m mb lK by (simp_all add: d)
  have d0: "d ! 0 = 4" "d ! 3 = session_msgid us" "d ! 6 = 1" "d ! 10 = maclen_byte s"
    unfolding d_def resp_frame_nth(1-3) by (simp_all add: resp_frame_nth(4) scan_answer_def Let_def)
  let ?us = "us\<lparr>us_recv := (int (length d), d)\<rparr>"
  let ?b = "d @ replicate (256 - length d) 0"
  have b10: "?b ! 10 = maclen_byte s" using ld(2) d0(4) lA by (simp add: nth_append d)
  have "access_key_answer ?b (int (length d)) =
      Inr (if K = [] then -13 else sint (UTIL_INT32_SET (K ! 0) (K ! 1) (K ! 2) (K ! 3)))"
  proof (rule access_key_answer_layout)
    show "?b = A @ [of_nat (length name)] @ name @ K @ replicate (256 - length d) 0" by (simp add: d)
    show "length A = 55 + unat (?b ! 10)" using lA b10 by simp
    show "length name = unat (of_nat (length name) :: byte)" using n16 by simp
  qed (auto simp: d K_def)
  also have "\<dots> = Inr (if legal_key key then sint key else -13)"
    by (simp add: K_def be32_def)
  finally have ans: "access_key_answer ?b (int (length d)) = Inr (if legal_key key then sint key else -13)" .
  have "XGGetAccessKey addr product ?us lib = udp_query 1 256 43 1 (-14) access_key_answer
      (Inr (reads_key product (session_msgid us))) addr ?us lib"
    using assms(2) by (simp add: XGGetAccessKey_def reads_key_def scannable_def session_msgid_def)
  also have "\<dots> = c_bind (access_key_answer ?b (int (length d))) (\<lambda>ret. Inr (ret,
      close_udp (us_socket ?us) (replicate 1 (Ev_SendTo (us_socket ?us) (reads_key product (session_msgid us)) addr))))"
    using assms(3-8) ld d0 by (intro udp_query_answered) (simp_all add: opened_def session_msgid_def)
  also have "\<dots> = Inr (if legal_key key then sint key else -13,
      close_udp (us_socket us) (replicate 1 (Ev_SendTo (us_socket us) (reads_key product (session_msgid us)) addr)))"
    unfolding ans by simp
  finally show ?thesis
    using scan_request [OF assms(1,2), of "session_msgid us" tail gateway now]
    unfolding d_def [symmetric] key_def 
    by (intro exI [of _ d] exI [of _ "sdk_put (Sent gateway d) s"]) (simp add: close_udp_def same_device_def)
qed

section \<open>Setting the access key\<close>

definition sets_key :: "u32 \<Rightarrow> byte \<Rightarrow> bytes" where
  "sets_key k mid = [4, 1, 0, mid, 0, 11, 11, 0, 0, 0, 0, 0, 0,
     UTIL_INT32_GET_BIT3 k, UTIL_INT32_GET_BIT2 k, UTIL_INT32_GET_BIT1 k, UTIL_INT32_GET_BIT0 k]"

lemma length_sets_key: "length (sets_key k mid) = 17"
  by (simp add: sets_key_def)

definition refused :: "xsdk \<Rightarrow> bool" where
  "refused s \<longleftrightarrow> key_settled (accesskey (flash s))"

definition with_key :: "u32 \<Rightarrow> xsdk \<Rightarrow> xsdk" where
  "with_key k s = s\<lparr>flash := (flash s)\<lparr>accesskey := k,
     f_subkey := XlinkBuildSubKey (the_mac s) (g_XlinkSdkTime s) (flash s)\<rparr>\<rparr>"

lemma set_request:
  assumes "isScanEnable s" "udp_fd s > 0" "legal_key k"
  shows "\<exists>s'. device_sends (sets_key k mid) tail gateway now s
      (resp_frame 11 (UTIL_INT16_SET 0 mid) [0, 0, if refused s then 1 else 0]) s' \<and>
    flash s' = flash (if refused s then s else with_key k s) \<and> same_device s s'"
proof -
  let ?k = "[UTIL_INT32_GET_BIT3 k, UTIL_INT32_GET_BIT2 k, UTIL_INT32_GET_BIT1 k, UTIL_INT32_GET_BIT0 k]"
  have len: "ucast (UTIL_INT16_SET 0 11) - 2 = (9 :: u32)" by (simp add: UTIL_INT16_SET_def)
  have nb: "\<not> bit (1 :: byte) 3" "\<not> bit (1 :: byte) 4" by (simp_all add: bit_simps)
  define frame where "frame = resp_frame 11 (UTIL_INT16_SET 0 mid) [0, 0, if refused s then 1 else 0]"
  define s' where "s' = (if refused s then sdk_put (Sent gateway frame) s
    else sdk_put (Sent gateway frame) (sdk_put (Config_Written (xsdk_config_save (flash (with_key k s)))) (with_key k s)))"
  define h where "h = request_header 1 mid 11 11 (([0, 0, 0, 0, 0] @ ?k) @ tail)"
  have h: "h_data h ! 0 = 0" "h_data h ! 1 = 0" "UTIL_INT32_SET (h_data h ! 5) (h_data h ! 6) (h_data h ! 7) (h_data h ! 8) = k"
    "h_cmd h = 11" "h_messageid h = UTIL_INT16_SET 0 mid"
    by (simp_all add: h_def)
  have "XlinkProcessUdpSETACK_V4 h 9 gateway s = s'"
    using assms unfolding XlinkProcessUdpSETACK_V4_def Let_def h s'_def frame_def
    by (simp add: XlinkClientSendDataToAddr_def with_key_def key_settled_def refused_def)
  then have "XlinkProcessUdpDataV4 (sets_key k mid @ tail) (length (sets_key k mid)) gateway now s = Inr s'"
    using plain_request [of 1 11 "[0, 0, 0, 0, 0] @ ?k" mid 11 0 tail gateway now s] nb h(4)
    unfolding len h_def [symmetric] udp_command_def length_sets_key by (simp add: sets_key_def)
  moreover have "\<exists>evs. xlog s' = xlog s @ evs \<and> filter (\<lambda>e. \<exists>a b. e = Sent a b) evs = [Sent gateway frame]"
    by (auto simp: s'_def with_key_def)
  moreover have "same_device s s'" "flash s' = flash (if refused s then s else with_key k s)"
    by (simp_all add: s'_def same_device_def with_key_def)
  ultimately show ?thesis unfolding device_sends_def frame_def by blast
qed

lemma set_key_exchange:
  assumes "isScanEnable s" "udp_fd s > 0" "legal_key k"
    and "opened lib us" "sin_addr addr \<noteq> INADDR_BROADCAST" "us_sendto us > 0" "fd_ok (us_socket us)" "us_select us > 0" "us_isset us"
  shows "\<exists>d s'. device_sends (sets_key k (session_msgid us)) tail gateway now s d s' \<and>
    flash s' = flash (if refused s then s else with_key k s) \<and> same_device s s' \<and>
    (\<exists>evs. XGSetAccessKey k addr (us\<lparr>us_recv := (int (length d), d)\<rparr>) lib = Inr (if refused s then -14 else 0, evs))"
proof -
  define d where "d = resp_frame 11 (UTIL_INT16_SET 0 (session_msgid us)) [0, 0, if refused s then 1 else 0]"
  have d: "d ! 0 = 4" "d ! 3 = session_msgid us" "d ! 6 = 11" "length d = 11" "d ! 10 = (if refused s then 1 else 0)"
    unfolding d_def resp_frame_nth(1-3) by (simp_all add: resp_frame_nth(4,5))
  let ?us = "us\<lparr>us_recv := (int (length d), d)\<rparr>"
  have "XGSetAccessKey k addr ?us lib = udp_query 1 32 11 11 (-13) (\<lambda>buffer n. Inr (if buffer ! 10 = 0 then 0 else -14))
      (Inr (sets_key k (session_msgid us))) addr ?us lib"
    by (simp add: XGSetAccessKey_def sets_key_def session_msgid_def)
  also have "\<dots> = c_bind (Inr (if (d @ replicate (32 - length d) 0) ! 10 = 0 then 0 else -14)) (\<lambda>ret. Inr (ret,
      close_udp (us_socket ?us) (replicate 1 (Ev_SendTo (us_socket ?us) (sets_key k (session_msgid us)) addr))))"
    using assms(4-9) d by (intro udp_query_answered) (simp_all add: opened_def session_msgid_def)
  also have "(d @ replicate (32 - length d) 0) ! 10 = d ! 10" using d(4) by (simp add: nth_append)
  finally show ?thesis
    using set_request [OF assms(1-3), of "session_msgid us" tail gateway now] d(5)
    unfolding d_def [symmetric] by (auto split: if_splits)
qed

section \<open>Reading the sub key\<close>

definition asks_subkey :: "XGMD5_CTX \<Rightarrow> u32 \<Rightarrow> byte \<Rightarrow> bytes" where
  "asks_subkey ctx k mid = [4, 1, 0, mid, 0, 22, 7, 0, 4, 0, 0] @ sub_key_digest ctx k @ [0]"

text \<open>Two keys the comparison of the digests cannot tell apart.\<close>

definition same_digest :: "u32 \<Rightarrow> u32 \<Rightarrow> bool" where
  "same_digest k k' \<longleftrightarrow> c_string (rfc_md5 (le_bytes k)) = c_string (rfc_md5 (le_bytes k'))"

lemma digests:
  assumes "length (md5_in ctx) = 64"
  shows "sub_key_digest ctx k = rfc_md5 (le_bytes k)" "md5_ctx s = ctx \<Longrightarrow> ack_digest s = rfc_md5 (le_bytes (accesskey (flash s)))"
  using xlinkGetMd5_spec [OF assms, of "le_bytes _"]
  by (simp_all add: sub_key_digest_def ack_digest_def le_bytes_def)

lemma subkey_request:
  assumes "udp_fd s > 0" "length (md5_in ctx) = 64" "length (md5_in (md5_ctx s)) = 64"
    and frame_def: "frame = resp_frame 7 (UTIL_INT16_SET 0 mid)
    (if same_digest k (accesskey (flash s)) then [0, 0, 0] @ be32 (f_subkey (flash s)) else [0, 0, 1])"
  shows "device_sends (asks_subkey ctx k mid) tail gateway now s frame (sdk_put (Sent gateway frame) s)"
proof -
  define D where "D = rfc_md5 (le_bytes k)"
  have lD: "length D = 16" by (simp add: D_def length_rfc_md5)
  have len: "ucast (UTIL_INT16_SET 0 22) - 2 = (20 :: u32)" by (simp add: UTIL_INT16_SET_def)
  have nb: "\<not> bit (1 :: byte) 3" "\<not> bit (1 :: byte) 4" by (simp_all add: bit_simps)
  define h where "h = request_header 1 mid 22 7 (([4, 0, 0] @ D @ [0]) @ tail)"
  have h: "h_data h ! 0 = 4" "h_data h ! 1 = 0" "h_data h ! 2 = 0" "drop 3 (h_data h) = D @ 0 # tail"
    "h_cmd h = 7" "h_messageid h = UTIL_INT16_SET 0 mid"
    by (simp_all add: h_def)
  have cmp: "strncmp_eq (D @ 0 # tail) (ack_digest s) 16 \<longleftrightarrow> same_digest k (accesskey (flash s))"
    using digests(2) [OF assms(3), of s] lD strncmp_eq_iff [of 16 "D @ 0 # tail" "ack_digest s"]
    by (simp add: same_digest_def D_def length_rfc_md5)
  have "XlinkProcessUdpGetSubKey_V4 h 20 gateway s = sdk_put (Sent gateway frame) s"
    using assms(1) unfolding XlinkProcessUdpGetSubKey_V4_def SubKeyErrorResV4_def Let_def h cmp frame_def
    by (simp add: XlinkClientSendDataToAddr_def)
  moreover have "asks_subkey ctx k mid @ tail = 4 # 1 # 0 # mid # 0 # 22 # 7 # 0 # ([4, 0, 0] @ D @ [0]) @ tail"
    "length (asks_subkey ctx k mid) = length ([4, 0, 0] @ D @ [0 :: byte]) + 8"
    using lD by (simp_all add: asks_subkey_def digests(1) [OF assms(2)] D_def)
  ultimately have "XlinkProcessUdpDataV4 (asks_subkey ctx k mid @ tail) (length (asks_subkey ctx k mid)) gateway now s
      = Inr (sdk_put (Sent gateway frame) s)"
    using plain_request [of 1 22 "[4, 0, 0] @ D @ [0]" mid 7 0 tail gateway now s] nb lD h(5)
    unfolding len h_def [symmetric] udp_command_def by (simp only:) simp
  then show ?thesis by (simp add: device_sends_def)
qed

lemma sub_key_exchange:
  assumes "udp_fd s > 0" "length (md5_in ctx) = 64" "length (md5_in (md5_ctx s)) = 64"
    and "opened lib us" "sin_addr addr \<noteq> INADDR_BROADCAST" "us_sendto us > 0" "fd_ok (us_socket us)" "us_select us > 0" "us_isset us"
  shows "\<exists>d s'. device_sends (asks_subkey ctx k (session_msgid us)) tail gateway now s d s' \<and>
    (\<exists>evs. XGGetSubKey ctx k addr (us\<lparr>us_recv := (int (length d), d)\<rparr>) lib =
      Inr (if same_digest k (accesskey (flash s)) then sint (f_subkey (flash s)) else -14, evs))"
proof -
  define ok where "ok = same_digest k (accesskey (flash s))"
  define d where "d = resp_frame 7 (UTIL_INT16_SET 0 (session_msgid us)) (if ok then [0, 0, 0] @ be32 (f_subkey (flash s)) else [0, 0, 1])"
  have d: "d ! 0 = 4" "d ! 3 = session_msgid us" "d ! 6 = 7" "length d = (if ok then 15 else 11)"
    unfolding d_def resp_frame_nth(1-3) by (simp_all add: resp_frame_nth(5))
  let ?us = "us\<lparr>us_recv := (int (length d), d)\<rparr>"
  let ?b = "d @ replicate (64 - length d) 0"
  have b: "?b ! 10 = (if ok then 0 else 1)" "ok \<Longrightarrow> UTIL_INT32_SET (?b ! 11) (?b ! 12) (?b ! 13) (?b ! 14) = f_subkey (flash s)"
    using d(4) unfolding d_def by (auto simp: nth_append resp_frame_nth(4,5) be32_def)
  then have ans: "sub_key_answer ?b n = Inr (if ok then sint (f_subkey (flash s)) else -14)" for n
    by (simp add: sub_key_answer_def)
  have "XGGetSubKey ctx k addr ?us lib = udp_query 2 64 10 7 (-13) sub_key_answer (Inr (asks_subkey ctx k (session_msgid us))) addr ?us lib"
    by (simp add: XGGetSubKey_def asks_subkey_def session_msgid_def)
  also have "\<dots> = c_bind (sub_key_answer ?b (int (length d))) (\<lambda>ret. Inr (ret,
      close_udp (us_socket ?us) (replicate 2 (Ev_SendTo (us_socket ?us) (asks_subkey ctx k (session_msgid us)) addr))))"
    using assms(4-9) d by (intro udp_query_answered) (simp_all add: opened_def session_msgid_def)
  finally show ?thesis
    using subkey_request [OF assms(1-3) refl, of k "session_msgid us" tail gateway now]
    unfolding ok_def [symmetric] d_def [symmetric] ans by auto
qed

section \<open>The whole round\<close>

definition link_ok :: "xg_lib \<Rightarrow> sockaddr_in \<Rightarrow> udp_session \<Rightarrow> bool" where
  "link_ok lib addr us \<longleftrightarrow> opened lib us \<and> sin_addr addr \<noteq> INADDR_BROADCAST \<and> us_sendto us > 0 \<and>
     fd_ok (us_socket us) \<and> us_select us > 0 \<and> us_isset us"

definition hears :: "bytes \<Rightarrow> udp_session \<Rightarrow> udp_session" where
  "hears d us = us\<lparr>us_recv := (int (length d), d)\<rparr>"

lemma device_sends_ok: "device_sends r tail g t s d s' \<Longrightarrow> sdk_ok s \<Longrightarrow> sdk_ok s'"
  unfolding device_sends_def using sdk_progress_datagram [of _ _ g t s s'] unfolding sdk_progress_def by blast

text \<open>
  C7. Provisioning works from end to end. A gateway that sets a legal access key on a device of its product
  that allows scanning, then reads the device's key, then asks for the sub key with the key \<open>q\<close>:
  whatever lies in the device's receive array behind each request, at any times, the device answers
  each request once. Without a settled key the new key is accepted (0) and is the one read back; with
  a settled key it is refused (-14) and the old one is read back. The sub key comes out exactly when the
  digest of \<open>q\<close> cannot be told from that of the device's key; otherwise the answer is -14. The
  device stays well formed, and its key and sub key are those the gateway has seen.
\<close>

theorem provisioning_round:
  assumes "sdk_ok s" "scannable product s" "legal_key k"
    and "length (md5_in ctx) = 64" "length (md5_in (md5_ctx s)) = 64"
    and "link_ok lib addr us1" "link_ok lib addr us2" "link_ok lib addr us3"
  shows "\<exists>d1 s1 d2 s2 d3 s3 evs1 evs2 evs3.
    let key = if key_settled (accesskey (flash s)) then accesskey (flash s) else k in
    device_sends (sets_key k (session_msgid us1)) tail1 gw t1 s d1 s1 \<and>
    XGSetAccessKey k addr (hears d1 us1) lib = Inr (if key_settled (accesskey (flash s)) then -14 else 0, evs1) \<and>
    device_sends (reads_key product (session_msgid us2)) tail2 gw t2 s1 d2 s2 \<and>
    XGGetAccessKey addr product (hears d2 us2) lib = Inr (sint key, evs2) \<and>
    device_sends (asks_subkey ctx q (session_msgid us3)) tail3 gw t3 s2 d3 s3 \<and>
    XGGetSubKey ctx q addr (hears d3 us3) lib = Inr (if same_digest q key then sint (f_subkey (flash s2)) else -14, evs3) \<and>
    sdk_ok s3 \<and> accesskey (flash s2) = key"
proof -
  let ?set = "key_settled (accesskey (flash s))"
  define key where "key = (if ?set then accesskey (flash s) else k)"
  have scan: "isScanEnable s" "udp_fd s > 0" using assms(2) by (simp_all add: scannable_def)
  have link: "opened lib us" "sin_addr addr \<noteq> INADDR_BROADCAST" "us_sendto us > 0" "fd_ok (us_socket us)" "us_select us > 0" "us_isset us"
    if "link_ok lib addr us" for us using that by (simp_all add: link_ok_def)
  obtain d1 s1 evs1 where one: "device_sends (sets_key k (session_msgid us1)) tail1 gw t1 s d1 s1"
      "flash s1 = flash (if refused s then s else with_key k s)" "same_device s s1"
      "XGSetAccessKey k addr (hears d1 us1) lib = Inr (if ?set then -14 else 0, evs1)"
    using set_key_exchange [OF scan assms(3) link [OF assms(6)], of tail1 gw t1] unfolding hears_def refused_def by blast
  have key1: "accesskey (flash s1) = key" using one(2) by (simp add: key_def refused_def with_key_def)
  have legal: "legal_key key" using assms(3) by (auto simp: key_def key_settled_def legal_key_def)
  have ok1: "sdk_ok s1" by (rule device_sends_ok [OF one(1) assms(1)])
  have scan1: "scannable product s1" using assms(2) one(3) by (simp add: scannable_def same_device_def)
  obtain d2 s2 evs2 where two: "device_sends (reads_key product (session_msgid us2)) tail2 gw t2 s1 d2 s2" "flash s2 = flash s1" "same_device s1 s2"
      "XGGetAccessKey addr product (hears d2 us2) lib = Inr (sint key, evs2)"
    using access_key_exchange [OF ok1 scan1 link [OF assms(7)], of tail2 gw t2] legal
    unfolding hears_def key1 by auto
  have same: "udp_fd s2 > 0" "length (md5_in (md5_ctx s2)) = 64"
    using scan(2) assms(5) one(3) two(3) by (simp_all add: same_device_def)
  have ok2: "sdk_ok s2" by (rule device_sends_ok [OF two(1) ok1])
  obtain d3 s3 evs3 where three: "device_sends (asks_subkey ctx q (session_msgid us3)) tail3 gw t3 s2 d3 s3"
      "XGGetSubKey ctx q addr (hears d3 us3) lib = Inr (if same_digest q key then sint (f_subkey (flash s2)) else -14, evs3)"
    using sub_key_exchange [OF same(1) assms(4) same(2) link [OF assms(8)], of q tail3 gw t3]
    unfolding hears_def two(2) key1 by blast
  have "sdk_ok s3" by (rule device_sends_ok [OF three(1) ok2])
  then show ?thesis
    using one(1,4) two(1,4) three key1 two(2) unfolding Let_def key_def [symmetric] by metis
qed

lemma sample_device_ok: "sdk_ok sample_session_state"
  using sample_table
  by (simp add: sdk_ok_def) (simp add: sample_session_state_def flash_ok_zero word_le_nat_alt)

theorem provisioning_round_witness:
  "\<exists>d1 s1 d2 s2 d3 s3 evs1 evs2 evs3.
    device_sends (sets_key 277 5) [] (8, 8) 0 sample_session_state d1 s1 \<and>
    XGSetAccessKey 277 sample_addr (hears d1 (sample_session [])) (sample_lib logged_core) = Inr (0, evs1) \<and>
    device_sends (reads_key (replicate 32 0x31) 5) [7] (8, 8) 0 s1 d2 s2 \<and>
    XGGetAccessKey sample_addr (replicate 32 0x31) (hears d2 (sample_session [])) (sample_lib logged_core) = Inr (277, evs2) \<and>
    device_sends (asks_subkey zero_md5 277 5) [] (8, 8) 0 s2 d3 s3 \<and>
    XGGetSubKey zero_md5 277 sample_addr (hears d3 (sample_session [])) (sample_lib logged_core) = Inr (sint (f_subkey (flash s2)), evs3) \<and>
    sdk_ok s3 \<and> accesskey (flash s2) = 277"
proof -
  have "scannable (replicate 32 0x31) sample_session_state"
    by (simp add: scannable_def sample_session_state_def)
  moreover have "legal_key 277" by (simp add: legal_key_def)
  moreover have "length (md5_in zero_md5) = 64" "length (md5_in (md5_ctx sample_session_state)) = 64"
    by (simp_all add: sample_session_state_def zero_md5_def)
  moreover have "link_ok (sample_lib logged_core) sample_addr (sample_session [])"
    by (simp add: link_ok_def opened_def)
  moreover have "\<not> key_settled (accesskey (flash sample_session_state))"
    by (simp add: key_settled_def sample_session_state_def zero_flash_def)
  moreover have "same_digest 277 277" "sint (277 :: u32) = 277" by (simp_all add: same_digest_def)
  ultimately show ?thesis
    using provisioning_round [OF sample_device_ok, of "replicate 32 0x31" 277 zero_md5 "sample_lib logged_core" sample_addr
        "sample_session []" "sample_session []" "sample_session []" "[]" "(8, 8)" 0 "[7]" 0 277 "[]" 0]
    by (simp only: Let_def if_False if_True sample_session_simps simp_thms)
qed

section \<open>The client's invariants on a run\<close>

text \<open>A stranger sets the key of the sample device.\<close>

lemma sample_set:
  "\<exists>s'. XlinkProcessUdpDataV4 (sets_key 277 5) 17 (8, 8) 0 sample_session_state = Inr s' \<and> accesskey (flash s') = 277"
proof -
  have "isScanEnable sample_session_state" "udp_fd sample_session_state > 0" "legal_key 277"
      "\<not> refused sample_session_state"
    by (simp_all add: sample_session_state_def legal_key_def refused_def key_settled_def zero_flash_def)
  then show ?thesis
    using set_request [of sample_session_state 277 5 "[]" "(8, 8)" 0]
    by (auto simp: device_sends_def length_sets_key with_key_def)
qed

theorem session_required_witness:
  "\<exists>s'. XlinkProcessUdpDataV4 (sets_key 277 5) 17 (8, 8) 0 sample_session_state = Inr s' \<and> accesskey (flash s') = 277
    \<and> filter to_application (xlog s') = [] \<and> f_name (flash s') = replicate 16 0 \<and> sendlist s' = []"
proof -
  obtain s' where s': "XlinkProcessUdpDataV4 (sets_key 277 5) 17 (8, 8) 0 sample_session_state = Inr s'" "accesskey (flash s') = 277"
    using sample_set by blast
  have "length (clients sample_session_state) = 32" using sample_table by (simp add: table_ok_def)
  moreover have "\<not> has_session (8, 8) sample_session_state"
    by (auto simp: has_session_def sample_session_state_def zero_client_def dest!: set_update_subset_insert [THEN subsetD])
  ultimately show ?thesis
    using session_required [OF s'(1)] s' by (simp add: sample_session_state_def zero_flash_def)
qed

theorem sdk_reachable_ok_witness:
  "\<exists>t. sdk_reach sample_session_state t \<and> accesskey (flash t) = 277 \<and> sdk_ok t"
proof -
  obtain s' where s': "XlinkProcessUdpDataV4 (sets_key 277 5) 17 (8, 8) 0 sample_session_state = Inr s'" "accesskey (flash s') = 277"
    using sample_set by blast
  then have "sdk_reach sample_session_state s'" by (blast intro: sdk_reach.intros sdk_step.intros)
  then show ?thesis using sdk_reachable_ok [OF _ sample_device_ok] s'(2) by blast
qed

theorem keys_settled_witness:
  "\<exists>t. sdk_reach sample_session_state t \<and> accesskey (flash t) = 277 \<and> isScanEnable t \<and> legal_key (f_subkey (flash t))"
proof -
  obtain s' where s': "XlinkProcessUdpDataV4 (sets_key 277 5) 17 (8, 8) 0 sample_session_state = Inr s'" "accesskey (flash s') = 277"
    using sample_set by blast
  then have run: "sdk_reach sample_session_state s'" by (blast intro: sdk_reach.intros sdk_step.intros)
  moreover have "\<not> keys_kept sample_session_state s'" "isScanEnable sample_session_state"
    using s'(2) by (simp_all add: keys_kept_def sample_session_state_def zero_flash_def)
  ultimately show ?thesis using keys_settled [OF run] s'(2) by blast
qed

end
