(* ===== verification/XlinkTcp.thy ===== *)
theory XlinkTcp imports XlinkSession begin

text \<open>
  The connection of the client to the cloud: the messages it sends and its work states
  (\<^verbatim>\<open>xlink/xlink_tcp_client.c\<close>) and the handlers of what the cloud sends
  (\<^verbatim>\<open>xlink/xlink_process_tcp_data.c\<close>), for the Linux configuration of \<^verbatim>\<open>Xlink_Head_Adaptation.h\<close>.

  \<open>xcloud\<close> adds to the state \<open>xsdk\<close> of the local protocol what the cloud connection uses of
  \<^verbatim>\<open>g_xlink_info\<close>, of \<^verbatim>\<open>g_xlink_user_config\<close> and of the static variables. What leaves the program is
  logged; of a callback it is known whether it is installed. Handlers get the receive buffer behind
  the five header bytes and the length the header announced.
\<close>

section \<open>State\<close>

datatype XLINK_TCP_WORK_TYPE =
  TCP_NOT_CONNECT | TCP_SEND_HTTPCONNECT | TCP_WAIT_HTTP_RESULT | TCP_ACTIVATION | TCP_WAIT_ACTIVE_RESULT
| TCP_CONNECT | TCP_WAIT_CONNECT_RESULT | TCP_PING | TCP_WAIT_PING_RESULT

datatype XLINK_APP_STATUS = STA_CONNECT_SERVER_FAILED | STA_CONNECT_SERVER | STA_DISCONNCT_SERVER | STA_LOGIN_SUCCESS

record XLINK_SYS_TIME =
  t_year :: u16
  t_mon :: byte
  t_day :: byte
  t_week :: byte
  t_hour :: byte
  t_min :: byte
  t_sec :: byte
  t_zones :: u16

record XLINK_UPGRADE =
  fileSize :: u32
  checkStr :: "bytes option"
  checkStrLength :: u32
  urlstr :: bytes
  urlLength :: u16
  mCheckFlag :: byte
  mHardVersion :: byte
  mSoftVersion :: u16
  mCurrentVersion :: u16
  isWifi :: bool

datatype cloud_event =
  Tcp_Sent bytes
| Tcp_Closed int
| Udp_Closed int
| Cloud_Status XLINK_APP_STATUS
| Tcp_Pipe bytes u32 u32
| Tcp_Pipe2 bytes u32
| Pipe_Done u16 bool
| Pipe2_Done u16 bool
| Datapoint_Done u16 bool
| Tcp_Notify u16 bytes u32
| Tcp_Set_Data_Point bytes u32
| Server_Time XLINK_SYS_TIME
| Upgrade "XLINK_UPGRADE option"
| Foreign_Event

record xcloud =
  dev :: xsdk
  tcp_fd :: int
  ServerPort :: int
  tcpPingCount :: byte
  tcp_last_connect_server :: u64
  isFirstConnectSuccess :: bool
  isLogined :: bool
  is80Port :: bool
  is80ConnectSuccess :: bool
  isConnectWifi :: bool
  domain_connect_times :: u32
  product_key :: bytes
  lastGetServerTimeTime :: u64
  getServerTimeDelay :: u64
  isGetServerTimeTask :: bool
  work_type :: XLINK_TCP_WORK_TYPE
  lastPingTime :: u64
  tcp_timer :: xlink_timer
  last_check_heartbeat :: u64
  Xlink_TCP_ConnectPort :: int
  g_tcpConnectDelayTime :: u32
  hostNameOrIp :: bytes
  m_currentSystemTime :: XLINK_SYS_TIME
  m_old_getTime :: u64
  isInitSystem :: bool
  leap_February :: bool
  isSystemInited :: bool
  in_internet :: bool
  mcuHardwareVersion :: byte
  OnTcpPipe :: bool
  OnTcpPipe2 :: bool
  OnTcpPipeSendCb :: bool
  OnTcpPipe2SendCb :: bool
  OnTcpDatapointSendCb :: bool
  OnTcpNotify :: bool
  OnServerTime :: bool
  OnUpgrade :: bool
  clog :: "cloud_event list"

definition cput :: "cloud_event \<Rightarrow> xcloud \<Rightarrow> xcloud" where
  "cput e s = s\<lparr>clog := clog s @ [e]\<rparr>"

definition cloud_status :: "XLINK_APP_STATUS \<Rightarrow> xcloud \<Rightarrow> xcloud" where
  "cloud_status st s = (if OnStatus (user (dev s)) then cput (Cloud_Status st) s else s)"

text \<open>Changing a flag of the configuration is followed by writing it and saving everything.\<close>

definition save_config :: "xlink_SdkConfig \<Rightarrow> xcloud \<Rightarrow> xcloud" where
  "save_config c s =
     (let d = dev s; f = xsdk_write_config (Cfg_Config c) (flash d)
      in s\<lparr>dev := sdk_put (Config_Written (xsdk_config_save f)) (d\<lparr>config := c, flash := f\<rparr>)\<rparr>)"

abbreviation (input) flag_isActivation :: byte where "flag_isActivation \<equiv> 1"
abbreviation (input) flag_isUpgrade :: byte where "flag_isUpgrade \<equiv> 2"
abbreviation (input) flag_isChangedPassword :: byte where "flag_isChangedPassword \<equiv> 16"

definition set_flag :: "byte \<Rightarrow> bool \<Rightarrow> xlink_SdkConfig \<Rightarrow> xlink_SdkConfig" where
  "set_flag m b c = c\<lparr>flag_All := (if b then flag_All c OR m else flag_All c AND NOT m)\<rparr>"

definition has_flag :: "byte \<Rightarrow> xlink_SdkConfig \<Rightarrow> bool" where
  "has_flag m c \<longleftrightarrow> flag_All c AND m \<noteq> 0"

section \<open>Messages\<close>

abbreviation (input) M_ACTIVATE :: nat where "M_ACTIVATE \<equiv> 0"
abbreviation (input) M_CONNECT :: nat where "M_CONNECT \<equiv> 2"
abbreviation (input) M_SET :: nat where "M_SET \<equiv> 3"
abbreviation (input) M_SYNC :: nat where "M_SYNC \<equiv> 4"
abbreviation (input) M_SETPWD :: nat where "M_SETPWD \<equiv> 5"
abbreviation (input) M_COLLECT :: nat where "M_COLLECT \<equiv> 6"
abbreviation (input) M_PIPE :: nat where "M_PIPE \<equiv> 7"
abbreviation (input) M_PIPE_2 :: nat where "M_PIPE_2 \<equiv> 8"
abbreviation (input) M_SUBSCRIBE :: nat where "M_SUBSCRIBE \<equiv> 9"
abbreviation (input) M_PROBE :: nat where "M_PROBE \<equiv> 10"
abbreviation (input) M_EVENT :: nat where "M_EVENT \<equiv> 12"
abbreviation (input) M_PING :: nat where "M_PING \<equiv> 13"
abbreviation (input) M_DISCONNECT :: nat where "M_DISCONNECT \<equiv> 14"

text \<open>\<^verbatim>\<open>xlink_Message\<close>: three bits of version, the response bit, four bits of type.\<close>

definition tcp_header :: "nat \<Rightarrow> bool \<Rightarrow> byte" where
  "tcp_header type resp = of_nat (3 + (if resp then 8 else 0) + 16 * type)"

definition header_type :: "byte \<Rightarrow> nat" where
  "header_type b = unat (drop_bit 4 b)"

definition header_resp :: "byte \<Rightarrow> bool" where
  "header_resp b \<longleftrightarrow> bit b 3"

definition check_typeOk :: "byte \<Rightarrow> bool" where
  "check_typeOk b \<longleftrightarrow> header_type b \<in> {M_ACTIVATE, M_CONNECT, M_SET, M_SYNC, M_SETPWD, M_COLLECT, M_PIPE, M_PIPE_2,
     M_PROBE, M_SUBSCRIBE, M_PING, M_DISCONNECT, M_EVENT}"

definition check_typeOk_t :: "byte \<Rightarrow> bool" where
  "check_typeOk_t b \<longleftrightarrow> header_type b \<in> {M_ACTIVATE, M_CONNECT, M_SET, M_PIPE, M_PROBE, M_PING, M_EVENT}"

text \<open>A message with its length in four bytes, and the form in which only the last of them is set.\<close>

definition tcp_frame :: "nat \<Rightarrow> bool \<Rightarrow> bytes \<Rightarrow> bytes" where
  "tcp_frame type resp body = [tcp_header type resp] @ be32 (of_nat (length body)) @ body"

definition tcp_short :: "nat \<Rightarrow> bool \<Rightarrow> byte \<Rightarrow> bytes \<Rightarrow> bytes" where
  "tcp_short type resp len body = [tcp_header type resp, 0, 0, 0, len] @ body"

section \<open>Sending\<close>

definition XlinkTcpInit :: "XLINK_TCP_WORK_TYPE \<Rightarrow> xcloud \<Rightarrow> xcloud" where
  "XlinkTcpInit type s = s\<lparr>work_type := type, isLogined := False, tcpPingCount := 0\<rparr>"

definition xlinkChangeWork :: "XLINK_TCP_WORK_TYPE \<Rightarrow> xcloud \<Rightarrow> xcloud" where
  "xlinkChangeWork type s = s\<lparr>work_type := type, tcpPingCount := 0\<rparr>"

definition XlinkTcpPing_Clear :: "xcloud \<Rightarrow> xcloud" where
  "XlinkTcpPing_Clear s = s\<lparr>lastPingTime := g_XlinkSdkTime (dev s), tcpPingCount := 0\<rparr>"

definition XlinkTcpSendData :: "bytes \<Rightarrow> xcloud \<Rightarrow> xcloud" where
  "XlinkTcpSendData data s = (if tcp_fd s > 0 then cput (Tcp_Sent data) s else s)"

text \<open>What the senders return: what \<^verbatim>\<open>send\<close> returned, or -1.\<close>

definition tcp_send_result :: "int \<Rightarrow> xcloud \<Rightarrow> int" where
  "tcp_send_result sent s = (if tcp_fd s > 0 then sent else -1)"

definition xsdk_closeTCP :: "bool \<Rightarrow> xcloud \<Rightarrow> xcloud" where
  "xsdk_closeTCP flag s =
     (let s = (if tcp_fd s > 0 then (cput (Tcp_Closed (tcp_fd s)) s)\<lparr>tcp_fd := 0\<rparr> else s);
          s = (xlinkChangeWork TCP_NOT_CONNECT s)\<lparr>isLogined := False\<rparr>
      in if flag then cloud_status STA_DISCONNCT_SERVER s else s)"

text \<open>\<^verbatim>\<open>sprintf\<close> into an array of 255 bytes.\<close>

definition xlink_tcp_send_http_connect :: "xcloud \<Rightarrow> xcloud c_result" where
  "xlink_tcp_send_http_connect s =
     (let host = c_string (hostNameOrIp s); port = decimal (ServerPort s);
          data = str ''CONNECT '' @ host @ str '':'' @ port @ str '' HTTP/1.1Host: '' @ host @ str '':'' @ port @ [13, 10]
      in if 255 \<le> length data then Inl Out_Of_Bounds else Inr (XlinkTcpSendData data s))"

definition xlinkSendUpgrade :: "byte \<Rightarrow> u16 \<Rightarrow> u16 \<Rightarrow> xcloud \<Rightarrow> xcloud" where
  "xlinkSendUpgrade RetCode Upver currentVer s =
     XlinkTcpSendData (tcp_short M_EVENT False 11
       ([2] @ Deviceid (config (dev s)) @ [0, RetCode] @ be16 Upver @ be16 currentVer)) s"

definition xlink_GetServerTime :: "u64 \<Rightarrow> xcloud \<Rightarrow> xcloud" where
  "xlink_GetServerTime c_time s =
     (if c_time < lastGetServerTimeTime s then s\<lparr>lastGetServerTimeTime := c_time\<rparr>
      else if (scast (ucast (c_time - lastGetServerTimeTime s) :: u32) :: u64) < getServerTimeDelay s then s
      else XlinkTcpSendData (tcp_short M_EVENT False 1 [12])
             (s\<lparr>getServerTimeDelay := 20, lastGetServerTimeTime := c_time\<rparr>))"

definition sync_message :: "u16 \<Rightarrow> bytes \<Rightarrow> bool \<Rightarrow> xcloud \<Rightarrow> bytes" where
  "sync_message handle data flag s =
     tcp_frame M_SYNC False (Deviceid (config (dev s)) @ be16 handle @ [if flag then 0x0E else 0x06] @ data)"

definition xsdk_tcp_SendSync_V2 :: "bytes \<Rightarrow> bool \<Rightarrow> xcloud \<Rightarrow> xcloud" where
  "xsdk_tcp_SendSync_V2 data flag s =
     (if XLINK_DATAPOINT_MAX_BYTES < length data then s else XlinkTcpSendData (sync_message 0x0101 data flag s) s)"

definition xsdk_tcp_SendSync_V2_cb :: "int \<Rightarrow> u16 \<Rightarrow> bytes \<Rightarrow> bool \<Rightarrow> xcloud \<Rightarrow> int \<times> xcloud" where
  "xsdk_tcp_SendSync_V2_cb sent handle data flag s =
     (if XLINK_DATAPOINT_MAX_BYTES < length data then (-1, s)
      else (tcp_send_result sent s, XlinkTcpSendData (sync_message handle data flag s) s))"

definition pipe_flag :: "xcloud \<Rightarrow> byte" where
  "pipe_flag s = (if pipetype (user (dev s)) = 1 then 1 else 0)"

abbreviation (input) XLINK_BUFFER_PIPE :: nat where "XLINK_BUFFER_PIPE \<equiv> 1500"

definition XlinkSendTcpBroadcast :: "int \<Rightarrow> u16 \<Rightarrow> bytes option \<Rightarrow> xcloud \<Rightarrow> int \<times> xcloud" where
  "XlinkSendTcpBroadcast sent handle data s =
     (if \<not> isLogined s then (-1, s)
      else case data of None \<Rightarrow> (-2, s)
        | Some d \<Rightarrow>
            if XLINK_BUFFER_PIPE < length d then (-3, s)
            else (tcp_send_result sent s, XlinkTcpSendData
              (tcp_frame M_PIPE_2 False (Deviceid (config (dev s)) @ be16 handle @ [pipe_flag s] @ d)) s))"

definition XlinkSendTcpPipe :: "int \<Rightarrow> u16 \<Rightarrow> bytes option \<Rightarrow> u32 \<Rightarrow> xcloud \<Rightarrow> int \<times> xcloud" where
  "XlinkSendTcpPipe sent handle data to_id s =
     (if \<not> isLogined s then (-1, s)
      else case data of None \<Rightarrow> (-2, s)
        | Some d \<Rightarrow>
            if XLINK_BUFFER_PIPE < length d then (-3, s)
            else (tcp_send_result sent s, XlinkTcpSendData
              (tcp_frame M_PIPE False (be32 to_id @ be16 handle @ [pipe_flag s] @ d)) s))"

definition XlinkTcpWorkPing :: "xcloud \<Rightarrow> xcloud" where
  "XlinkTcpWorkPing s = XlinkTcpSendData (tcp_short M_PING False 0 []) s"

definition XlinkTcpWorkConnect :: "xcloud \<Rightarrow> xcloud" where
  "XlinkTcpWorkConnect s =
     (let auth = c_string (XlinkGetAuthCode (flash (dev s))) in
      if auth = [] then xsdk_closeTCP True (save_config (set_flag flag_isActivation False (config (dev s))) s)
      else XlinkTcpSendData (tcp_short M_CONNECT False (of_nat (length auth + 10))
             ([3] @ Deviceid (config (dev s)) @ [0, of_nat (length auth)] @ auth
              @ [if has_flag flag_isChangedPassword (config (dev s)) then 1 else 0] @ be16 60)) s)"

definition XlinkGetMACHex :: "bytes \<Rightarrow> bytes" where
  "XlinkGetMACHex dat = concat (map hex_upper dat)"

text \<open>\<open>ss\<close> is the digest's array, which stays as it is when there is nothing to digest.\<close>

definition XlinkTcpWorkActivation :: "bytes \<Rightarrow> xcloud \<Rightarrow> xcloud" where
  "XlinkTcpWorkActivation ss s =
     (let u = user (dev s); mac = the_mac (dev s);
          encrypt = c_string (take 32 (product_key s) @ XlinkGetMACHex mac);
          digest = (case xlinkGetMd5 (md5_ctx (dev s)) encrypt of None \<Rightarrow> ss | Some d \<Rightarrow> d);
          body = [3, 0, maclen_byte (dev s)] @ mac @ [wifi_type u] @ be16 (wifisoftVersion u) @ [mcuHardwareVersion s]
            @ be16 (mcuHardwareSoftVersion u) @ [0, 32] @ XlinkGetMACHex digest @ [0]
      in XlinkTcpSendData (tcp_short M_ACTIVATE False (of_nat (length body)) body) s)"

section \<open>What the cloud sends\<close>

definition is_leap :: "u16 \<Rightarrow> bool" where
  "is_leap y \<longleftrightarrow> y mod 400 = 0 \<or> y mod 100 \<noteq> 0 \<and> y mod 4 = 0"

definition xlink_net_setSystemTime :: "XLINK_SYS_TIME \<Rightarrow> xcloud \<Rightarrow> xcloud" where
  "xlink_net_setSystemTime t s = s\<lparr>isInitSystem := True, m_old_getTime := g_XlinkSdkTime (dev s),
     m_currentSystemTime := t, leap_February := is_leap (t_year t)\<rparr>"

definition process_time :: "bytes \<Rightarrow> xcloud \<Rightarrow> xcloud" where
  "process_time Buffer s =
     (let t = \<lparr>t_year = UTIL_INT16_SET (Buffer ! 0) (Buffer ! 1), t_mon = Buffer ! 2, t_day = Buffer ! 3,
            t_week = Buffer ! 4 - 1, t_hour = Buffer ! 5, t_min = Buffer ! 6, t_sec = Buffer ! 7,
            t_zones = UTIL_INT16_SET (Buffer ! 8) (Buffer ! 9)\<rparr>;
          s = xlink_net_setSystemTime t (s\<lparr>getServerTimeDelay := 599, isGetServerTimeTask := False\<rparr>)
      in if OnServerTime s then cput (Server_Time t) s else s)"

definition xlink_process_tcp_event_res :: "bytes \<Rightarrow> xcloud \<Rightarrow> xcloud" where
  "xlink_process_tcp_event_res data s = (if data ! 0 = 13 then process_time (drop 1 data) s else s)"

definition xlink_process_tcp_active :: "bytes \<Rightarrow> u32 \<Rightarrow> xcloud \<Rightarrow> xcloud" where
  "xlink_process_tcp_active Buffer BufferLen s =
     (if BufferLen < 7 then s
      else if Buffer ! 0 \<noteq> 0 then s
      else
        let d = dev s;
            c = (config d)\<lparr>Deviceid := [Buffer ! 1, Buffer ! 2, Buffer ! 3, Buffer ! 4]\<rparr>;
            mAuthLength = unat (UTIL_INT16_SET (Buffer ! 5) (Buffer ! 6))
        in if unat BufferLen < mAuthLength + 6 \<and> mAuthLength < 17 then s\<lparr>dev := d\<lparr>config := c\<rparr>\<rparr>
           else
             let mAuthLength = min mAuthLength 16;
                 f = xsdk_write_config (Cfg_Auth (take mAuthLength (drop 7 Buffer))) (flash d);
                 c = set_flag flag_isActivation True c
             in xlinkChangeWork TCP_CONNECT (save_config c (s\<lparr>dev := d\<lparr>config := c, flash := f\<rparr>\<rparr>)))"

definition xlink_process_tcp_notify :: "bytes \<Rightarrow> u32 \<Rightarrow> xcloud \<Rightarrow> xcloud" where
  "xlink_process_tcp_notify Buffer BufferLen s =
     (if BufferLen < 10 then s
      else if OnTcpNotify s
      then cput (Tcp_Notify (UTIL_INT16_SET (Buffer ! 8) (Buffer ! 9))
             (take (unat (BufferLen - 12)) (drop 12 Buffer)) (BufferLen - 12)) s
      else s)"

text \<open>
  The reply to a subscription carries the access key, whatever the outcome. \<open>mRetOpt\<close> is the outcome.
\<close>

definition subscribe_code :: "bytes \<Rightarrow> xcloud \<Rightarrow> byte" where
  "subscribe_code Buffer s =
     (let subkey = XlinkGetSubKey (flash (dev s));
          digest = (case xlinkGetMd5 (md5_ctx (dev s)) (le_bytes subkey) of None \<Rightarrow> replicate 16 0 | Some d \<Rightarrow> d)
      in if sint subkey < 0 then 2
         else if \<not> strncmp_eq (drop 4 Buffer) digest 16 then 2 else 0)"

definition xlink_process_tcp_subscribe_V3 :: "bytes \<Rightarrow> xcloud \<Rightarrow> xcloud" where
  "xlink_process_tcp_subscribe_V3 Buffer s =
     XlinkTcpSendData (tcp_short M_SUBSCRIBE True 11
       ([Buffer ! 0, Buffer ! 1, Buffer ! 2, Buffer ! 3, Buffer ! 20, Buffer ! 21, subscribe_code Buffer s]
        @ be32 (XlinkGetACK (flash (dev s))))) s"

definition xlink_process_tcp_set_V2 :: "bytes \<Rightarrow> u32 \<Rightarrow> xcloud \<Rightarrow> xcloud" where
  "xlink_process_tcp_set_V2 Buffer BufferLen s =
     (if BufferLen < 9 then s
      else
        let flag = Buffer ! 6; named = bit flag 0;
            NameLength = unat (UTIL_INT16_SET (Buffer ! 7) (Buffer ! 8))
        in if named \<and> unat BufferLen < NameLength + 8 then s
           else
             let s = (if named \<and> NameLength < 17
                      then s\<lparr>dev := XlinkSdkAppSetDeviceName (take NameLength (drop 9 Buffer)) (dev s)\<rparr> else s);
                 BufferIndex = (if named then 9 + NameLength else 7);
                 n = BufferLen - of_nat BufferIndex;
                 s = (if bit flag 1 \<and> OnSetDataPoint (user (dev s))
                      then cput (Tcp_Set_Data_Point (take (unat n) (drop BufferIndex Buffer)) n) s else s)
             in XlinkTcpSendData (tcp_short M_SET True 7 (take 6 Buffer @ [0])) s)"

text \<open>The answer array has 1020 bytes.\<close>

definition xlink_process_tcp_probe_V2 :: "bytes \<Rightarrow> u32 \<Rightarrow> xcloud \<Rightarrow> xcloud c_result" where
  "xlink_process_tcp_probe_V2 data datalen s =
     (if datalen < 7 then Inr s
      else
        let name = c_string (xsdk_read_name 16 (flash (dev s)));
            scan = (if isScanEnable (dev s) then 8 else 0 :: byte);
            send = (\<lambda>flag points. XlinkTcpSendData (tcp_frame M_PROBE True
              (take 6 data @ [0, flag, 0, of_nat (length name)] @ name @ points)) s)
        in case OnGetAllDataPoint (user (dev s)) of
             None \<Rightarrow> Inr (send (1 OR scan) [])
           | Some points \<Rightarrow>
               if XLINK_DATAPOINT_MAX_BYTES + 20 < 15 + length name + length points then Inl Out_Of_Bounds
               else Inr (send (1 OR scan OR 6) points))"

text \<open>
  The answer to a login. A code of 12 announces another server: two bytes of port at offset 2 and its
  address at offset 6. The length is signed, so a short message makes the copy overrun.
\<close>

definition xlink_process_tcp_connect :: "bytes \<Rightarrow> u32 \<Rightarrow> xcloud \<Rightarrow> xcloud c_result" where
  "xlink_process_tcp_connect data datalen s =
     (if data ! 0 \<noteq> 0
      then
        c_bind
          (let domainiplen = sint (datalen - 6) in
           if data ! 0 = 12 \<and> domainiplen \<le> 72
           then if domainiplen < 0 then Inl Out_Of_Bounds
                else
                  let domainip = take 2 (drop 2 data) @ padded 74 (take (nat domainiplen) (drop 6 data));
                      d = dev s; f = xsdk_write_config (Cfg_Domain_Ip (take 72 domainip)) (flash d)
                  in Inr (s\<lparr>domain_connect_times := 0,
                       dev := sdk_put (Config_Written (xsdk_config_save f)) (d\<lparr>flash := f\<rparr>)\<rparr>)
           else Inr s)
          (\<lambda>s. Inr (xsdk_closeTCP True s))
      else
        let s = cloud_status STA_LOGIN_SUCCESS (xlinkChangeWork TCP_PING (s\<lparr>isLogined := True\<rparr>))
        in if has_flag flag_isChangedPassword (config (dev s))
           then Inr (save_config (set_flag flag_isChangedPassword False (config (dev s))) s) else Inr s)"

text \<open>
  An upgrade offer, behind the event type. An older or equal version is answered, noted, and the
  callback is called without a test, with a structure of zeros (\<open>None\<close>); a newer one is handed to the callback.
\<close>

definition note_upgrade :: "bool \<Rightarrow> xcloud \<Rightarrow> xcloud" where
  "note_upgrade up s =
     (let c = (set_flag flag_isUpgrade up (config (dev s)))\<lparr>CurrentSoftVersion := wifisoftVersion (user (dev s))\<rparr>
      in save_config c s)"

definition xlink_process_tcp_upgrade :: "bytes \<Rightarrow> u32 \<Rightarrow> xcloud \<Rightarrow> xcloud c_result" where
  "xlink_process_tcp_upgrade Buffer BufferLen s =
     (let current = wifisoftVersion (user (dev s)); mSoftVersion = UTIL_INT16_SET (Buffer ! 2) (Buffer ! 3) in
      if BufferLen < 15 then Inr s
      else if wifi_type (user (dev s)) \<noteq> Buffer ! 1 then Inr s
      else if mSoftVersion \<le> current
      then
        let s = note_upgrade False (xlinkSendUpgrade 0 mSoftVersion (CurrentSoftVersion (config (dev s))) s)
        in if OnUpgrade s then Inr (cput (Upgrade None) s) else Inl Null_Deref
      else
        let urlLeng = UTIL_INT16_SET (Buffer ! 9) (Buffer ! 10); Index = 11 + unat urlLeng in
        if unat BufferLen < Index then Inr s
        else
          let checkleng = Buffer ! (Index + 1);
              up = \<lparr>fileSize = UTIL_INT32_SET (Buffer ! 5) (Buffer ! 6) (Buffer ! 7) (Buffer ! 8),
                checkStr = (if 0 < checkleng then Some (take (unat checkleng) (drop (Index + 2) Buffer)) else None),
                checkStrLength = ucast checkleng, urlstr = take (unat urlLeng) (drop 11 Buffer), urlLength = urlLeng,
                mCheckFlag = Buffer ! 4, mHardVersion = Buffer ! 1, mSoftVersion = mSoftVersion,
                mCurrentVersion = current, isWifi = (Buffer ! 0 = 1)\<rparr>
          in if OnUpgrade s then Inr (cput (Upgrade (Some up)) (note_upgrade True s))
             else Inr (xlinkSendUpgrade 0 mSoftVersion current s))"

definition xlink_process_tcp_event :: "bytes \<Rightarrow> u32 \<Rightarrow> xcloud \<Rightarrow> xcloud c_result" where
  "xlink_process_tcp_event Buffer BufferLen s =
     (if Buffer ! 0 = 1 then xlink_process_tcp_upgrade (drop 1 Buffer) (BufferLen - 1) s
      else if Buffer ! 0 = 10 then Inr (xlink_process_tcp_notify Buffer BufferLen s)
      else Inr s)"

definition xlink_process_tcp_pipe2 :: "bytes \<Rightarrow> u32 \<Rightarrow> xcloud \<Rightarrow> xcloud" where
  "xlink_process_tcp_pipe2 data datalen s =
     (if datalen < 7 then s
      else if OnTcpPipe2 s then cput (Tcp_Pipe2 (take (unat (datalen - 7)) (drop 7 data)) (datalen - 7)) s
      else s)"

definition xlink_process_tcp_pipe :: "bytes \<Rightarrow> u32 \<Rightarrow> xcloud \<Rightarrow> xcloud" where
  "xlink_process_tcp_pipe Buffer datalen s =
     (if datalen < 7 then s
      else
        let mDevice_id = UTIL_INT32_SET (Buffer ! 0) (Buffer ! 1) (Buffer ! 2) (Buffer ! 3);
            s = (if mDevice_id \<noteq> 0 then XlinkTcpSendData (tcp_short M_PIPE True 7 (take 6 Buffer @ [0])) s else s)
        in if OnTcpPipe s then cput (Tcp_Pipe (take (unat (datalen - 7)) (drop 7 Buffer)) (datalen - 7) mDevice_id) s
           else s)"

text \<open>The acknowledgement of a message the device sent: its handle and whether it was accepted.\<close>

definition handle_at :: "bytes \<Rightarrow> nat \<Rightarrow> u16" where
  "handle_at data i = UTIL_INT16_SET (data ! i) (data ! (i + 1))"

definition xlink_process_tcp_data :: "bytes \<Rightarrow> u16 \<Rightarrow> u32 \<Rightarrow> xcloud \<Rightarrow> xcloud c_result" where
  "xlink_process_tcp_data data datalen bodylen s =
     (let h = data ! 0; type = header_type h; resp = header_resp h; body = drop 5 data;
          s = (if check_typeOk_t h then XlinkTcpPing_Clear s else s)
      in if type = M_ACTIVATE then Inr (xlink_process_tcp_active body bodylen s)
         else if type = M_CONNECT then xlink_process_tcp_connect body bodylen s
         else if type = M_SET
         then Inr (if \<not> resp \<and> data ! 11 AND 7 \<noteq> 0 then xlink_process_tcp_set_V2 body bodylen s else s)
         else if type = M_SYNC
         then Inr (if OnTcpDatapointSendCb s \<and> 7 < sint datalen
                   then cput (Datapoint_Done (handle_at data 5) (data ! 7 = 0)) s else s)
         else if type = M_PIPE
         then Inr (if resp
                   then if OnTcpPipeSendCb s \<and> 11 < sint datalen
                        then cput (Pipe_Done (handle_at data 9) (data ! 11 = 0)) s else s
                   else xlink_process_tcp_pipe body bodylen s)
         else if type = M_PIPE_2
         then Inr (if resp
                   then if OnTcpPipe2SendCb s \<and> 7 < sint datalen
                        then cput (Pipe2_Done (handle_at data 5) (data ! 7 = 0)) s else s
                   else xlink_process_tcp_pipe2 body bodylen s)
         else if type = M_PROBE then if resp then Inr s else xlink_process_tcp_probe_V2 body bodylen s
         else if type = M_SUBSCRIBE
         then Inr (if \<not> resp \<and> bit (data ! 27) 2 then xlink_process_tcp_subscribe_V3 body s else s)
         else if type = M_PING then Inr (xlinkChangeWork TCP_PING s)
         else if type = M_EVENT
         then if resp then Inr (xlink_process_tcp_event_res body s) else xlink_process_tcp_event body bodylen s
         else Inr s)"

section \<open>The work states\<close>

definition timer_check :: "xcloud \<Rightarrow> bool \<times> xcloud" where
  "timer_check s =
     (case xsdk_tiemr_timerout (g_XlinkSdkTime (dev s)) (tcp_timer s) of (out, t) \<Rightarrow> (out, s\<lparr>tcp_timer := t\<rparr>))"

definition timer_start :: "u32 \<Rightarrow> xcloud \<Rightarrow> xcloud" where
  "timer_start n s = s\<lparr>tcp_timer := xsdk_timer_set (g_XlinkSdkTime (dev s)) n\<rparr>"

definition XlinkTcpLoop :: "bytes \<Rightarrow> u64 \<Rightarrow> xcloud \<Rightarrow> xcloud c_result" where
  "XlinkTcpLoop ss c_time s =
     (case work_type s of
        TCP_NOT_CONNECT \<Rightarrow> Inr s
      | TCP_SEND_HTTPCONNECT \<Rightarrow>
          c_bind (xlink_tcp_send_http_connect s) (\<lambda>s. Inr (timer_start 15 (s\<lparr>work_type := TCP_WAIT_HTTP_RESULT\<rparr>)))
      | TCP_ACTIVATION \<Rightarrow>
          if has_flag flag_isActivation (config (dev s)) then Inr (s\<lparr>work_type := TCP_CONNECT\<rparr>)
          else Inr (timer_start 15 ((XlinkTcpWorkActivation ss s)\<lparr>work_type := TCP_WAIT_ACTIVE_RESULT\<rparr>))
      | TCP_CONNECT \<Rightarrow> Inr (timer_start 15 ((XlinkTcpWorkConnect s)\<lparr>work_type := TCP_WAIT_CONNECT_RESULT\<rparr>))
      | TCP_PING \<Rightarrow>
          Inr (if c_time < lastPingTime s then s\<lparr>lastPingTime := c_time, tcpPingCount := 0\<rparr>
               else if 20 < (ucast (c_time - lastPingTime s) :: u32)
               then timer_start 20 ((XlinkTcpWorkPing s)\<lparr>lastPingTime := c_time,
                      tcpPingCount := tcpPingCount s + 1, work_type := TCP_WAIT_PING_RESULT\<rparr>)
               else s)
      | TCP_WAIT_PING_RESULT \<Rightarrow>
          Inr (case timer_check s of
                 (False, s) \<Rightarrow> s
               | (True, s) \<Rightarrow>
                   if 1 < tcpPingCount s then xsdk_closeTCP True s
                   else timer_start 15 ((XlinkTcpWorkPing s)\<lparr>lastPingTime := c_time, tcpPingCount := tcpPingCount s + 1\<rparr>))
      | _ \<Rightarrow>
          Inr (case timer_check s of
                 (False, s) \<Rightarrow> s
               | (True, s) \<Rightarrow> xsdk_closeTCP True (timer_start 15 s)))"

end
