(* ===== verification/XlinkNet.thy ===== *)
theory XlinkNet imports XlinkTcp begin

text \<open>
  The sockets of the cloud client (\<^verbatim>\<open>xlink/xlink_net.c\<close>): finding and connecting to a server, taking
  messages off the connection, one turn of the event loop. What the system answers is in \<open>net_env\<close>.
  Successive calls of \<^verbatim>\<open>recv\<close> are a list of results: what the call returned and the bytes it wrote.
  When the list ends while the code still asks for bytes, it is blocked in \<^verbatim>\<open>recv\<close>: the result is \<open>None\<close>.
\<close>

record net_env =
  n_udp_socket :: int
  n_udp_bind :: int
  n_tcp_socket :: int
  n_connect :: int
  n_hostbyname :: "bytes \<Rightarrow> u32"
  n_select :: int
  n_ready :: "int \<Rightarrow> bool"
  n_recv :: "(int \<times> bytes) list"
  n_udp_recv :: "int \<times> bytes \<times> xlink_addr"
  n_event_fd :: int
  n_time_ms :: u64
  n_garbage :: bytes
  n_garbage_fields :: "nat list"

abbreviation (input) RECV_SIZE :: nat where "RECV_SIZE \<equiv> XLINK_BUFFER_PIPE + 50"

definition on_dev :: "(xsdk \<Rightarrow> xsdk) \<Rightarrow> xcloud \<Rightarrow> xcloud" where
  "on_dev f s = s\<lparr>dev := f (dev s)\<rparr>"

section \<open>Finding the server\<close>

definition XlinkSetHost :: "bytes \<Rightarrow> xcloud \<Rightarrow> xcloud c_result" where
  "XlinkSetHost domain s =
     (if 64 \<le> length (c_string domain) then Inl Out_Of_Bounds
      else Inr (s\<lparr>hostNameOrIp := padded 64 (c_string domain)\<rparr>))"

definition is_digit_byte :: "byte \<Rightarrow> bool" where
  "is_digit_byte c \<longleftrightarrow> 0x30 \<le> c \<and> c \<le> 0x39"

text \<open>\<^verbatim>\<open>is_valid_ip\<close>: the number so far, the dots so far, the last character; ints that wrap.\<close>

primrec valid_ip_loop :: "u32 \<Rightarrow> nat \<Rightarrow> byte option \<Rightarrow> bytes \<Rightarrow> bool" where
  "valid_ip_loop section dot before [] = (0 \<le> sint section \<and> sint section \<le> 255 \<and> dot = 3)"
| "valid_ip_loop section dot before (c # ip) =
     (if c = 0x2E then dot + 1 \<le> 3 \<and> 0 \<le> sint section \<and> sint section \<le> 255 \<and> valid_ip_loop 0 (dot + 1) (Some c) ip
      else is_digit_byte c \<and> before \<noteq> Some 0x30 \<and> valid_ip_loop (section * 10 + ucast c - 0x30) dot (Some c) ip)"

definition valid_ip :: "bytes \<Rightarrow> bool" where
  "valid_ip ip = valid_ip_loop 0 0 None (c_string ip)"

text \<open>The \<^verbatim>\<open>sscanf\<close> of four decimal fields of up to three digits; fields it does not reach keep what they held.\<close>

definition digits_value :: "bytes \<Rightarrow> nat" where
  "digits_value ds = foldl (\<lambda>n d. n * 10 + (unat d - 48)) 0 ds"

primrec scan_fields :: "nat \<Rightarrow> bytes \<Rightarrow> nat list" where
  "scan_fields 0 s = []"
| "scan_fields (Suc n) s =
     (let ds = takeWhile is_digit_byte (take 3 s)
      in if ds = [] then []
         else digits_value ds # (case drop (length ds) s of [] \<Rightarrow> [] | c # s' \<Rightarrow> if c = 0x2E then scan_fields n s' else []))"

definition IPtoAddr :: "nat list \<Rightarrow> bytes \<Rightarrow> u32" where
  "IPtoAddr garbage ip =
     (let fields = scan_fields 4 (c_string ip); buf = map of_nat (fields @ drop (length fields) garbage) :: u32 list
      in push_bit 24 (buf ! 3) + push_bit 16 (buf ! 2) + push_bit 8 (buf ! 1) + buf ! 0)"

section \<open>Connecting\<close>

definition xlink_udp_create :: "net_env \<Rightarrow> xcloud \<Rightarrow> xcloud" where
  "xlink_udp_create env s =
     (let s = on_dev (udp_fd_update (\<lambda>_. -1)) s
      in if n_udp_socket env \<le> 0 then s
         else if n_udp_bind env < 0 then cput (Udp_Closed (n_udp_socket env)) s
         else on_dev (udp_fd_update (\<lambda>_. n_udp_socket env)) s)"

text \<open>Every attempt changes the port: from 80 to the server's, from the server's to 80.\<close>

definition next_port :: "xcloud \<Rightarrow> xcloud" where
  "next_port s =
     (if ServerPort s = 80 \<or> ServerPort s \<noteq> Xlink_TCP_ConnectPort s
      then s\<lparr>ServerPort := Xlink_TCP_ConnectPort s, is80Port := False, is80ConnectSuccess := True\<rparr>
      else s\<lparr>ServerPort := 80, is80Port := True, is80ConnectSuccess := False\<rparr>)"

definition xlink_tcp_connect_server :: "net_env \<Rightarrow> xcloud \<Rightarrow> xcloud" where
  "xlink_tcp_connect_server env s =
     (let s = s\<lparr>isLogined := False, tcp_fd := 0\<rparr>; tcpfd = n_tcp_socket env
      in if tcpfd \<le> 0 then s
         else
           let s = next_port s
           in if n_connect env < 0 then cput (Tcp_Closed tcpfd) s
              else cloud_status STA_CONNECT_SERVER (s\<lparr>tcp_fd := tcpfd\<rparr>))"

definition tcp_Connect_server_init :: "net_env \<Rightarrow> u64 \<Rightarrow> xcloud \<Rightarrow> (bool \<times> xcloud) c_result" where
  "tcp_Connect_server_init env c_time s =
     (let s = xlink_tcp_connect_server env s
      in if tcp_fd s > 0
         then
           let s = s\<lparr>tcp_last_connect_server := c_time, tcpPingCount := 0\<rparr>;
               s = XlinkTcpInit (if is80Port s then TCP_SEND_HTTPCONNECT else TCP_ACTIVATION) s
           in Inr (True, s\<lparr>isFirstConnectSuccess := True\<rparr>)
         else
           let s = s\<lparr>tcp_last_connect_server := c_time\<rparr>
           in if OnStatus (user (dev s)) then Inr (False, cput (Cloud_Status STA_CONNECT_SERVER_FAILED) s)
              else Inl Null_Deref)"

text \<open>
  The host to try: the announced one, if the configuration holds one, for three turns; its port is
  put together from two signed characters. Giving it up copies 74 bytes from an array of 73.
\<close>

definition choose_host :: "xcloud \<Rightarrow> (bytes \<times> xcloud) c_result" where
  "choose_host s =
     (let domainip = take 72 (domain_ip (flash (dev s)))
      in if domainip ! 2 = 0 then Inr (hostNameOrIp s, s\<lparr>Xlink_TCP_ConnectPort := 23778\<rparr>)
         else
           let s = s\<lparr>Xlink_TCP_ConnectPort := sint (domainip ! 0) * 256 + sint (domainip ! 1),
                 domain_connect_times := domain_connect_times s + 1\<rparr>
           in if 3 < sint (domain_connect_times s) then Inl Out_Of_Bounds
              else Inr (drop 2 domainip @ [0], s))"

definition retry_delay :: "bool \<Rightarrow> xcloud \<Rightarrow> xcloud" where
  "retry_delay ok s = s\<lparr>g_tcpConnectDelayTime :=
     (if ok then 0
      else
        let d = (if g_tcpConnectDelayTime s = 0 then ucast (g_XlinkSdkTime (dev s) mod 6) else g_tcpConnectDelayTime s) + 1
        in if 10 < d then 10 else d)\<rparr>"

definition xlink_net_loop_Domain_name :: "net_env \<Rightarrow> xcloud \<Rightarrow> (u32 \<times> xcloud) c_result" where
  "xlink_net_loop_Domain_name env s =
     (if \<not> isConnectWifi s then Inr (0, s)
      else if 0 < tcp_fd s \<or> \<not> in_internet s then Inr (0, s)
      else c_bind (choose_host s) (\<lambda>(hostIP, s).
        let now = g_XlinkSdkTime (dev s);
            s = (if now < tcp_last_connect_server s then s\<lparr>tcp_last_connect_server := now\<rparr> else s);
            temp = ucast (now - tcp_last_connect_server s) :: u32
        in if isFirstConnectSuccess s \<and> temp \<le> g_tcpConnectDelayTime s then Inr (0, s)
           else
             let ip = (if valid_ip hostIP then IPtoAddr (n_garbage_fields env) hostIP else n_hostbyname env hostIP)
             in if ip = 0 then Inr (ip, s)
                else c_bind (tcp_Connect_server_init env now s) (\<lambda>(ok, s). Inr (ip, retry_delay ok s))))"

section \<open>Taking messages off the connection\<close>

text \<open>
  The loop that collects the body. \<open>ind\<close> is a 16-bit number; what \<^verbatim>\<open>recv\<close> returns is put in an
  unsigned 16-bit number, so that an error, -1, counts as 65535 bytes. The result is \<open>ind\<close>, the buffer,
  and whether the peer has closed.
\<close>

fun body_loop :: "int \<Rightarrow> u16 \<Rightarrow> bytes \<Rightarrow> (int \<times> bytes) list \<Rightarrow> (u16 \<times> bytes \<times> bool) option c_result" where
  "body_loop bodylen ind buf [] = Inr (if bodylen \<le> sint ind then Some (ind, buf, False) else None)"
| "body_loop bodylen ind buf ((n, d) # rs) =
     (if bodylen \<le> sint ind then Inr (Some (ind, buf, False))
      else
        let num = of_int n :: u16 in
        if num = 0 then Inr (Some (ind, buf, True))
        else if n \<le> 0 then body_loop bodylen (ind + num) buf rs
        else if 0 \<le> 5 + sint ind \<and> 5 + sint ind + int (length d) \<le> int (length buf)
        then body_loop bodylen (ind + num) (memcpy_at (nat (5 + sint ind)) d buf) rs
        else Inl Out_Of_Bounds)"

definition tcp_http :: "bytes \<Rightarrow> (int \<times> bytes) list \<Rightarrow> xcloud \<Rightarrow> (bytes \<times> xcloud) option c_result" where
  "tcp_http RecvBuffer rs s =
     (case rs of
        [] \<Rightarrow> Inr None
      | (n, d) # _ \<Rightarrow>
          if n = 0 then Inr (Some (RecvBuffer, xsdk_closeTCP True (s\<lparr>isLogined := False\<rparr>)))
          else if n < 0 then Inr (Some (RecvBuffer, s))
          else c_bind (c_put (nat n) 0 (memcpy_at 0 d RecvBuffer)) (\<lambda>buf.
            Inr (Some (buf, (XlinkTcpInit TCP_ACTIVATION s)\<lparr>is80ConnectSuccess := True\<rparr>))))"

definition event_tcp_recv_data :: "bytes \<Rightarrow> (int \<times> bytes) list \<Rightarrow> xcloud \<Rightarrow> (bytes \<times> xcloud) option c_result" where
  "event_tcp_recv_data RecvBuffer rs s =
     (if is80Port s \<and> \<not> is80ConnectSuccess s then tcp_http RecvBuffer rs s
      else case rs of
        [] \<Rightarrow> Inr None
      | (n, d) # rs \<Rightarrow>
          if n = 0 then Inr (Some (RecvBuffer, xsdk_closeTCP True s))
          else if n < 0 then Inr (Some (RecvBuffer, s))
          else
            let buf = memcpy_at 0 d RecvBuffer;
                bodylen = sint (UTIL_INT32_SET (buf ! 1) (buf ! 2) (buf ! 3) (buf ! 4))
            in if \<not> check_typeOk (buf ! 0) \<or> int XLINK_BUFFER_PIPE + 10 < bodylen
               then Inr (Some (buf, xsdk_closeTCP True s))
               else if bodylen < 0 then Inr (Some (buf, s))
               else c_bind (body_loop bodylen 0 buf rs) (\<lambda>r.
                 case r of
                   None \<Rightarrow> Inr None
                 | Some (ind, buf, closed) \<Rightarrow>
                     let s = (if closed then xsdk_closeTCP True s else s)
                     in if sint ind = bodylen
                        then c_bind (c_put (unat ind + 5) 0 buf) (\<lambda>buf.
                               c_bind (xlink_process_tcp_data buf (ind + 5) (scast ind) s) (\<lambda>s. Inr (Some (buf, s))))
                        else Inr (Some (buf, s))))"

definition event_udp_recv_data :: "bytes \<Rightarrow> int \<times> bytes \<times> xlink_addr \<Rightarrow> u64 \<Rightarrow> xcloud \<Rightarrow> xcloud c_result" where
  "event_udp_recv_data RecvBuffer r now s =
     (case r of (n, d, addr) \<Rightarrow>
        if 0 < n
        then c_bind (c_put (nat n) 0 (memcpy_at 0 d RecvBuffer)) (\<lambda>buf.
               c_bind (XlinkProcessUdpDataV4 buf (nat n) addr now (dev s)) (\<lambda>d. Inr (s\<lparr>dev := d\<rparr>)))
        else Inr s)"

section \<open>One turn of the loop\<close>

definition net_event_tcp :: "net_env \<Rightarrow> xcloud \<Rightarrow> (bytes \<times> xcloud) option c_result" where
  "net_event_tcp env s =
     (let buf = replicate RECV_SIZE 0
      in if in_internet s \<and> 0 < tcp_fd s \<and> n_ready env (tcp_fd s) then event_tcp_recv_data buf (n_recv env) s
         else Inr (Some (buf, s)))"

definition net_event :: "net_env \<Rightarrow> xcloud \<Rightarrow> xcloud option c_result" where
  "net_event env s =
     (if n_select env \<le> 0 then Inr (Some s)
      else c_bind (net_event_tcp env s) (\<lambda>r.
        case r of
          None \<Rightarrow> Inr None
        | Some (buf, s) \<Rightarrow>
            c_bind (if 0 < udp_fd (dev s) \<and> n_ready env (udp_fd (dev s))
                    then event_udp_recv_data buf (n_udp_recv env) (n_time_ms env) s else Inr s) (\<lambda>s.
              Inr (Some (if 0 < n_event_fd env \<and> n_ready env (n_event_fd env) then cput Foreign_Event s else s)))))"

definition set_event_udp :: "net_env \<Rightarrow> xcloud \<Rightarrow> xcloud" where
  "set_event_udp env s =
     (if 0 < udp_fd (dev s) then s
      else if 0 < sint (g_udp_listen_port (dev s)) then xlink_udp_create env s else s)"

definition set_event_tcp :: "bytes \<Rightarrow> u64 \<Rightarrow> xcloud \<Rightarrow> xcloud c_result" where
  "set_event_tcp ss c_time s =
     (let s = (if \<not> isConnectWifi s \<and> 0 < tcp_fd s then xsdk_closeTCP True s else s)
      in if 0 < tcp_fd s then XlinkTcpLoop ss c_time s else Inr s)"

definition check_heartbeat :: "u64 \<Rightarrow> xcloud \<Rightarrow> xcloud" where
  "check_heartbeat c_time s =
     (let (time_temp, s) = (if c_time < last_check_heartbeat s then (4, s\<lparr>last_check_heartbeat := c_time\<rparr>)
            else (ucast (c_time - last_check_heartbeat s) :: u32, s))
      in if 3 < time_temp then on_dev (XlinkClientCheckHeartbeat c_time) (s\<lparr>last_check_heartbeat := c_time\<rparr>) else s)"

text \<open>Without a descriptor to watch the loop only sleeps.\<close>

definition xlink_net_loop :: "net_env \<Rightarrow> u64 \<Rightarrow> xcloud \<Rightarrow> (bool \<times> xcloud) option c_result" where
  "xlink_net_loop env c_time s =
     (let s = set_event_udp env (check_heartbeat c_time s)
      in c_bind (if in_internet s then set_event_tcp (n_garbage env) c_time s else Inr s) (\<lambda>s.
        if 0 < udp_fd (dev s) \<or> in_internet s \<and> 0 < tcp_fd s \<or> 0 < n_event_fd env
        then c_bind (net_event env s) (\<lambda>r. Inr (case r of None \<Rightarrow> None | Some s \<Rightarrow> Some (True, s)))
        else Inr (Some (False, s))))"

definition xsdk_closeUDP :: "xcloud \<Rightarrow> xcloud" where
  "xsdk_closeUDP s =
     (if 0 < udp_fd (dev s) then on_dev (udp_fd_update (\<lambda>_. 0)) (cput (Udp_Closed (udp_fd (dev s))) s) else s)"

definition XlinkCloseNet :: "xcloud \<Rightarrow> xcloud" where
  "XlinkCloseNet s = xsdk_closeUDP (xsdk_closeTCP True s)"

definition XlinkCloseTcp :: "xcloud \<Rightarrow> xcloud" where
  "XlinkCloseTcp s = xsdk_closeTCP False s"

end
