(* ===== verification/XlinkSystem.thy ===== *)
theory XlinkSystem imports XlinkNet begin

text \<open>
  The client as a whole (\<^verbatim>\<open>xlink/xlink_system.c\<close>, \<^verbatim>\<open>XlinkSdkDataInit\<close> of \<^verbatim>\<open>xlink_data.c\<close>): initialisation,
  the main loop, the clock the cloud sets and the loop advances.
\<close>

section \<open>The clock\<close>

text \<open>
  \<open>leap_February\<close> is whether \<^verbatim>\<open>dayOfMonth[1]\<close> is 29. Seconds are a byte; the elapsed time is added to
  them and one minute at most is carried.
\<close>

definition dayOfMonth :: "bool \<Rightarrow> nat list" where
  "dayOfMonth leap = [31, if leap then 29 else 28, 31, 30, 31, 30, 31, 31, 30, 31, 30, 31]"

definition next_day :: "xcloud \<Rightarrow> xcloud c_result" where
  "next_day s =
     (let t = m_currentSystemTime s; week = t_week t + 1;
          t = t\<lparr>t_hour := 0, t_week := (if week = 7 then 0 else week), t_day := t_day t + 1\<rparr>
      in if t_mon t = 0 \<or> 12 < t_mon t then Inl Out_Of_Bounds
         else if unat (t_day t) \<le> dayOfMonth (leap_February s) ! (unat (t_mon t) - 1)
         then Inr (s\<lparr>m_currentSystemTime := t\<rparr>)
         else if 12 < t_mon t + 1
         then Inr (s\<lparr>m_currentSystemTime := t\<lparr>t_day := 1, t_mon := 1, t_year := t_year t + 1\<rparr>,
                leap_February := is_leap (t_year t + 1)\<rparr>)
         else Inr (s\<lparr>m_currentSystemTime := t\<lparr>t_day := 1, t_mon := t_mon t + 1\<rparr>\<rparr>))"

definition xlinkSysTimeCount :: "u64 \<Rightarrow> xcloud \<Rightarrow> xcloud c_result" where
  "xlinkSysTimeCount c_time s =
     (let s = (if c_time < m_old_getTime s then s\<lparr>m_old_getTime := c_time\<rparr> else s);
          temp = ucast (c_time - m_old_getTime s) :: u32
      in if sint temp \<le> 0 then Inr s
         else
           let t = m_currentSystemTime s; sec = t_sec t + ucast temp;
               s = s\<lparr>m_old_getTime := c_time, m_currentSystemTime := t\<lparr>t_sec := sec\<rparr>\<rparr>
           in if sec < 60 then Inr s
              else
                let minute = t_min t + 1;
                    t = t\<lparr>t_sec := sec - 60, t_min := (if 60 \<le> minute then 0 else minute)\<rparr>
                in if minute < 60 then Inr (s\<lparr>m_currentSystemTime := t\<rparr>)
                   else if t_hour t + 1 < 24 then Inr (s\<lparr>m_currentSystemTime := t\<lparr>t_hour := t_hour t + 1\<rparr>\<rparr>)
                   else next_day (s\<lparr>m_currentSystemTime := t\<rparr>))"

definition XlinkGetSystemTime :: "xcloud \<Rightarrow> bool \<times> XLINK_SYS_TIME" where
  "XlinkGetSystemTime s = (isInitSystem s, m_currentSystemTime s)"

definition XlinkGetServerTime :: "xcloud \<Rightarrow> xcloud" where
  "XlinkGetServerTime s = s\<lparr>isGetServerTimeTask := True\<rparr>"

section \<open>Names and numbers\<close>

text \<open>The length of the name is counted in a byte.\<close>

definition XlinkSetDeviceName :: "bytes \<Rightarrow> xcloud \<Rightarrow> xcloud" where
  "XlinkSetDeviceName NameStr s =
     (let d = dev s in
      if isAppSetName (config d) then s
      else
        let n = unat (of_nat (length (c_string NameStr)) :: byte);
            f = xsdk_write_config (Cfg_Name (take (min n 16) NameStr)) (flash d)
        in s\<lparr>dev := sdk_put (Config_Written (xsdk_config_save f)) (d\<lparr>flash := f\<rparr>)\<rparr>)"

definition XlinkGetMacString :: "nat \<Rightarrow> xcloud \<Rightarrow> bytes" where
  "XlinkGetMacString bufflen s =
     (if bufflen < unat (maclen (user (dev s))) * 2 then [] else XlinkGetMACHex (the_mac (dev s)))"

definition XlinkGetDeviceID :: "xcloud \<Rightarrow> u32" where
  "XlinkGetDeviceID s =
     (let c = config (dev s); d = Deviceid c in
      if \<not> isActivation c then 0 else UTIL_INT32_SET (d ! 0) (d ! 1) (d ! 2) (d ! 3))"

definition XlinkUpdateDataPointUdp :: "bool \<Rightarrow> bytes \<Rightarrow> byte \<Rightarrow> xcloud \<Rightarrow> (int \<times> xcloud) c_result" where
  "XlinkUpdateDataPointUdp mem data flag s =
     (if XLINK_DATAPOINT_MAX_BYTES < length data then Inr (-1, s)
      else if \<not> clientCount (dev s) then Inr (-1, s)
      else c_bind (XlinkClientSendUdpDataPointSync_V2 mem data flag (dev s)) (\<lambda>(r, d). Inr (r, s\<lparr>dev := d\<rparr>)))"

definition XlinkUpdateDataPointTcp :: "int \<Rightarrow> u16 \<Rightarrow> bytes \<Rightarrow> bool \<Rightarrow> xcloud \<Rightarrow> int \<times> xcloud" where
  "XlinkUpdateDataPointTcp sent handle data flag s =
     (if XLINK_DATAPOINT_MAX_BYTES < length data then (-1, s) else xsdk_tcp_SendSync_V2_cb sent handle data flag s)"

section \<open>Start and loop\<close>

definition XlinkSdkDataInit :: "bytes \<Rightarrow> bytes \<Rightarrow> xcloud \<Rightarrow> xcloud" where
  "XlinkSdkDataInit productid key s =
     XlinkSetDeviceName (str ''xlink_dev'') (s\<lparr>
       dev := (dev s)\<lparr>config := sdk (flash (dev s)), udp_fd := 0, clientCount := False, g_XlinkSdkTime := 0,
         isScanEnable := False, product_id := take 32 productid @ [0]\<rparr>,
       tcp_fd := 0, ServerPort := 80, tcpPingCount := 0, tcp_last_connect_server := 0, isFirstConnectSuccess := False,
       isLogined := False, is80Port := False, is80ConnectSuccess := False, isConnectWifi := False,
       domain_connect_times := 0, product_key := take 32 key @ [0], lastGetServerTimeTime := 0,
       getServerTimeDelay := 0, isGetServerTimeTask := False\<rparr>)"

definition XlinkNetInit :: "xcloud \<Rightarrow> xcloud" where
  "XlinkNetInit s = s\<lparr>isFirstConnectSuccess := False, isLogined := False, is80ConnectSuccess := False, is80Port := False\<rparr>"

definition zero_time :: XLINK_SYS_TIME where
  "zero_time = \<lparr>t_year = 0, t_mon = 0, t_day = 0, t_week = 0, t_hour = 0, t_min = 0, t_sec = 0, t_zones = 0\<rparr>"

text \<open>\<open>callbacks\<close> is whether both configuration callbacks are there, \<open>saved\<close> what reading delivers.\<close>

definition XlinkInit :: "bool \<Rightarrow> bytes \<Rightarrow> bytes \<Rightarrow> bytes \<Rightarrow> xcloud \<Rightarrow> (bool \<times> xcloud) c_result" where
  "XlinkInit callbacks saved productid key s =
     (if length (c_string productid) \<noteq> 32 then Inr (False, s)
      else
        let s = s\<lparr>isSystemInited := False\<rparr>; u = user (dev s) in
        if 32 < maclen u \<or> maclen u < 1 then Inr (False, s)
        else if \<not> callbacks then Inr (False, s)
        else if length key < 32 then Inl Out_Of_Bounds
        else
          let (f, image) = xsdk_config_init (md5_ctx (dev s)) (c_string productid) (c_string key) (take 6 (u_mac u)) (Some saved);
              d = (dev s)\<lparr>flash := f\<rparr>;
              d = (case image of None \<Rightarrow> d | Some b \<Rightarrow> sdk_put (Config_Written b) d);
              s = XlinkSdkDataInit productid key (s\<lparr>dev := d\<rparr>);
              s = on_dev (XlinkV4UdpInit \<circ> XlinnkClientInit) s;
              s = (XlinkNetInit s)\<lparr>isConnectWifi := True, isSystemInited := True, m_currentSystemTime := zero_time,
                    isInitSystem := False\<rparr>
          in Inr (True, XlinkGetServerTime s))"

definition XlinkReset :: "xcloud \<Rightarrow> xcloud" where
  "XlinkReset s =
     (let s = s\<lparr>isSystemInited := False\<rparr>;
          s = (if 0 < tcp_fd s then (cput (Tcp_Closed (tcp_fd s)) s)\<lparr>tcp_fd := 0\<rparr> else s)
      in on_dev XlinkV4UdpUnInit (xsdk_closeUDP s))"

definition XlinkSetWifiStatus :: "bool \<Rightarrow> xcloud \<Rightarrow> xcloud" where
  "XlinkSetWifiStatus status s = s\<lparr>isConnectWifi := status\<rparr>"

definition XlinkLoop :: "net_env \<Rightarrow> (nat \<Rightarrow> u64) \<Rightarrow> u64 \<Rightarrow> xcloud \<Rightarrow> xcloud option c_result" where
  "XlinkLoop env nows c_time s =
     (let s = on_dev (g_XlinkSdkTime_update (\<lambda>_. c_time)) s in
      c_bind (if isSystemInited s
              then c_bind (xlink_net_loop env c_time s) (\<lambda>r.
                Inr (case r of None \<Rightarrow> None | Some (_, s) \<Rightarrow> Some (on_dev (XlinkResend nows) s)))
              else Inr (Some s)) (\<lambda>r.
        case r of
          None \<Rightarrow> Inr None
        | Some s \<Rightarrow> if isInitSystem s then c_bind (xlinkSysTimeCount c_time s) (\<lambda>s. Inr (Some s)) else Inr (Some s)))"

definition XlinkSystemTcpLoop :: "net_env \<Rightarrow> xcloud \<Rightarrow> (u32 \<times> xcloud) c_result" where
  "XlinkSystemTcpLoop env s =
     (if isSystemInited s \<and> isConnectWifi s then xlink_net_loop_Domain_name env s else Inr (0, s))"

end
