(* ===== verification/CloudInv.thy ===== *)
theory CloudInv imports XlinkSystem begin

text \<open>
  What every run of the client keeps, whatever the cloud and the local network send: the table of sessions
  and the configuration stay well formed, the keys are those the local protocol allows, a login
  lives only as long as its connection.
\<close>

section \<open>What a step may change\<close>

definition login_ok :: "xcloud \<Rightarrow> bool" where
  "login_ok s \<longleftrightarrow> (isLogined s \<longrightarrow> 0 < tcp_fd s)"

definition cloud_keeps :: "xcloud \<Rightarrow> xcloud \<Rightarrow> bool" where
  "cloud_keeps s s' \<longleftrightarrow> (sdk_ok (dev s) \<longrightarrow> sdk_ok (dev s')) \<and> keys_kept (dev s) (dev s') \<and>
     isScanEnable (dev s') = isScanEnable (dev s) \<and> (login_ok s \<longrightarrow> login_ok s')"

named_theorems cloud_intros "steps of the cloud connection"

lemma cloud_keeps_refl [cloud_intros]: "cloud_keeps s s"
  by (simp add: cloud_keeps_def keys_kept_def)

lemma cloud_keeps_trans: "cloud_keeps s t \<Longrightarrow> cloud_keeps t u \<Longrightarrow> cloud_keeps s u"
  by (simp add: cloud_keeps_def keys_kept_def)

lemma dev_simps [simp]:
  "dev (cput e s) = dev s" "dev (cloud_status st s) = dev s" "dev (XlinkTcpSendData d s) = dev s"
  "dev (xlinkChangeWork w s) = dev s" "dev (XlinkTcpInit w s) = dev s" "dev (XlinkTcpPing_Clear s) = dev s"
  "dev (xsdk_closeTCP f s) = dev s" "dev (xlink_net_setSystemTime t s) = dev s" "dev (process_time b s) = dev s"
  by (simp_all add: cput_def cloud_status_def XlinkTcpSendData_def xlinkChangeWork_def XlinkTcpInit_def
      XlinkTcpPing_Clear_def xsdk_closeTCP_def xlink_net_setSystemTime_def process_time_def Let_def)

lemma link_simps [simp]:
  "isLogined (cput e s) = isLogined s" "tcp_fd (cput e s) = tcp_fd s"
  "isLogined (cloud_status st s) = isLogined s" "tcp_fd (cloud_status st s) = tcp_fd s"
  "isLogined (XlinkTcpSendData d s) = isLogined s" "tcp_fd (XlinkTcpSendData d s) = tcp_fd s"
  "isLogined (xlinkChangeWork w s) = isLogined s" "tcp_fd (xlinkChangeWork w s) = tcp_fd s"
  "\<not> isLogined (XlinkTcpInit w s)" "tcp_fd (XlinkTcpInit w s) = tcp_fd s"
  "isLogined (XlinkTcpPing_Clear s) = isLogined s" "tcp_fd (XlinkTcpPing_Clear s) = tcp_fd s"
  "\<not> isLogined (xsdk_closeTCP f s)" "tcp_fd (xsdk_closeTCP f s) = (if 0 < tcp_fd s then 0 else tcp_fd s)"
  "isLogined (process_time b s) = isLogined s" "tcp_fd (process_time b s) = tcp_fd s"
  "isLogined (save_config c s) = isLogined s" "tcp_fd (save_config c s) = tcp_fd s"
  by (simp_all add: cput_def cloud_status_def XlinkTcpSendData_def xlinkChangeWork_def XlinkTcpInit_def
      XlinkTcpPing_Clear_def xsdk_closeTCP_def xlink_net_setSystemTime_def process_time_def save_config_def Let_def)

text \<open>Steps that leave the device alone, and those that only end a login.\<close>

lemma cloud_keeps_same:
  "dev s' = dev s \<Longrightarrow> isLogined s' = isLogined s \<Longrightarrow> tcp_fd s' = tcp_fd s \<Longrightarrow> cloud_keeps s s'"
  by (simp add: cloud_keeps_def login_ok_def keys_kept_def)

lemma cloud_keeps_logout: "dev s' = dev s \<Longrightarrow> \<not> isLogined s' \<Longrightarrow> cloud_keeps s s'"
  by (simp add: cloud_keeps_def login_ok_def keys_kept_def)

lemma cloud_keeps_ops [cloud_intros]:
  "cloud_keeps s t \<Longrightarrow> cloud_keeps s (cput e t)" "cloud_keeps s t \<Longrightarrow> cloud_keeps s (cloud_status st t)"
  "cloud_keeps s t \<Longrightarrow> cloud_keeps s (XlinkTcpSendData d t)" "cloud_keeps s t \<Longrightarrow> cloud_keeps s (xlinkChangeWork w t)"
  "cloud_keeps s t \<Longrightarrow> cloud_keeps s (XlinkTcpInit w t)" "cloud_keeps s t \<Longrightarrow> cloud_keeps s (XlinkTcpPing_Clear t)"
  "cloud_keeps s t \<Longrightarrow> cloud_keeps s (xsdk_closeTCP f t)" "cloud_keeps s t \<Longrightarrow> cloud_keeps s (process_time b t)"
  "cloud_keeps s t \<Longrightarrow> cloud_keeps s (t\<lparr>work_type := w\<rparr>)" "cloud_keeps s t \<Longrightarrow> cloud_keeps s (t\<lparr>lastPingTime := p\<rparr>)"
  "cloud_keeps s t \<Longrightarrow> cloud_keeps s (t\<lparr>tcpPingCount := n\<rparr>)" "cloud_keeps s t \<Longrightarrow> cloud_keeps s (t\<lparr>tcp_timer := m\<rparr>)"
  "cloud_keeps s t \<Longrightarrow> cloud_keeps s (t\<lparr>is80ConnectSuccess := b8\<rparr>)" "cloud_keeps s t \<Longrightarrow> cloud_keeps s (timer_start k t)"
  "cloud_keeps s t \<Longrightarrow> cloud_keeps s (t\<lparr>last_check_heartbeat := h\<rparr>)"
  by (auto elim!: cloud_keeps_trans intro: cloud_keeps_same cloud_keeps_logout simp: timer_start_def)

lemma sdk_ok_write:
  assumes "sdk_ok d" "length (Deviceid c) = 4"
  shows "sdk_ok (sdk_put e (d\<lparr>config := c, flash := xsdk_write_config (Cfg_Config c) (flash d)\<rparr>))"
  using assms by (simp add: sdk_ok_def flash_ok_write(6) del: xsdk_write_config.simps)

lemma keys_write [simp]:
  "accesskey (xsdk_write_config (Cfg_Config c) f) = accesskey f" "f_subkey (xsdk_write_config (Cfg_Config c) f) = f_subkey f"
  "accesskey (xsdk_write_config (Cfg_Auth a) f) = accesskey f" "f_subkey (xsdk_write_config (Cfg_Auth a) f) = f_subkey f"
  "accesskey (xsdk_write_config (Cfg_Name a) f) = accesskey f" "f_subkey (xsdk_write_config (Cfg_Name a) f) = f_subkey f"
  "accesskey (xsdk_write_config (Cfg_Domain_Ip a) f) = accesskey f" "f_subkey (xsdk_write_config (Cfg_Domain_Ip a) f) = f_subkey f"
  by simp_all

lemma save_config_keeps:
  assumes "length (Deviceid (config (dev s))) = 4 \<Longrightarrow> length (Deviceid c) = 4"
  shows "cloud_keeps s (save_config c s)"
  using assms sdk_ok_write [of "dev s" c] unfolding cloud_keeps_def save_config_def Let_def login_ok_def keys_kept_def
  by (simp add: sdk_ok_def del: xsdk_write_config.simps)

lemma Deviceid_set_flag [simp]: "Deviceid (set_flag m b c) = Deviceid c"
  by (simp add: set_flag_def)

lemma save_flag_keeps [cloud_intros]:
  "cloud_keeps s t \<Longrightarrow> cloud_keeps s (save_config (set_flag m b (config (dev t))) t)"
  by (erule cloud_keeps_trans) (simp add: save_config_keeps)

lemma note_upgrade_keeps [cloud_intros]: "cloud_keeps s t \<Longrightarrow> cloud_keeps s (note_upgrade up t)"
  unfolding note_upgrade_def Let_def by (erule cloud_keeps_trans) (rule save_config_keeps, simp)

section \<open>The handlers\<close>

lemma active_keeps: "cloud_keeps s (xlink_process_tcp_active B n s)"
proof -
  have c: "cloud_keeps s (s\<lparr>dev := (dev s)\<lparr>config := (config (dev s))\<lparr>Deviceid := [a, b, c', d']\<rparr>\<rparr>\<rparr>)" for a b c' d'
    by (simp add: cloud_keeps_def keys_kept_def sdk_ok_def login_ok_def)
  have f: "cloud_keeps s (save_config c (s\<lparr>dev := (dev s)\<lparr>config := c,
      flash := xsdk_write_config (Cfg_Auth z) (flash (dev s))\<rparr>\<rparr>))" if "length (Deviceid c) = 4" for c z
  proof (rule cloud_keeps_trans [OF _ save_config_keeps])
    show "cloud_keeps s (s\<lparr>dev := (dev s)\<lparr>config := c, flash := xsdk_write_config (Cfg_Auth z) (flash (dev s))\<rparr>\<rparr>)"
      unfolding cloud_keeps_def keys_kept_def login_ok_def using flash_ok_write(2) that
      by (simp add: sdk_ok_def del: xsdk_write_config.simps)
  qed (rule that)
  show ?thesis
    unfolding xlink_process_tcp_active_def Let_def
    by (auto simp del: xsdk_write_config.simps intro!: cloud_keeps_ops(4) c f)
      (auto intro: cloud_intros)
qed

lemma notify_cloud_keeps: "cloud_keeps s (xlink_process_tcp_notify B n s)"
  unfolding xlink_process_tcp_notify_def by (simp add: cloud_intros)

lemma subscribe_keeps: "cloud_keeps s (xlink_process_tcp_subscribe_V3 B s)"
  unfolding xlink_process_tcp_subscribe_V3_def by (simp add: cloud_intros)

lemma SetName_keeps: "cloud_keeps s (s\<lparr>dev := XlinkSdkAppSetDeviceName n (dev s)\<rparr>)"
proof -
  have "flash_ok f \<Longrightarrow> length (Deviceid c) = 4 \<Longrightarrow> flash_ok (xsdk_write_config (Cfg_Config c) (xsdk_write_config (Cfg_Name n) f))" for f c
    by (intro flash_ok_write)
  then show ?thesis
    unfolding cloud_keeps_def keys_kept_def login_ok_def XlinkSdkAppSetDeviceName_def Let_def
    by (simp add: sdk_ok_def del: xsdk_write_config.simps)
qed

lemma set_keeps: "cloud_keeps s (xlink_process_tcp_set_V2 B n s)"
  unfolding xlink_process_tcp_set_V2_def Let_def by (auto intro!: cloud_intros SetName_keeps)

lemma probe_keeps: "xlink_process_tcp_probe_V2 B n s = Inr s' \<Longrightarrow> cloud_keeps s s'"
  unfolding xlink_process_tcp_probe_V2_def Let_def
  by (auto split: option.splits if_splits intro!: cloud_intros)

lemma connect_keeps:
  assumes "xlink_process_tcp_connect B n s = Inr s'" "0 < tcp_fd s" shows "cloud_keeps s s'"
proof (cases "B ! 0 = 0")
  case True
  have log: "cloud_keeps s (cloud_status STA_LOGIN_SUCCESS (xlinkChangeWork TCP_PING (s\<lparr>isLogined := True\<rparr>)))"
    using assms(2) by (simp add: cloud_keeps_def keys_kept_def login_ok_def)
  show ?thesis
    using assms(1) True unfolding xlink_process_tcp_connect_def Let_def
    by (auto split: if_splits intro!: log cloud_keeps_trans [OF log save_config_keeps])
next
  case False
  have dom: "cloud_keeps s (s\<lparr>domain_connect_times := 0,
      dev := sdk_put e ((dev s)\<lparr>flash := xsdk_write_config (Cfg_Domain_Ip z) (flash (dev s))\<rparr>)\<rparr>)" for e z
    unfolding cloud_keeps_def keys_kept_def login_ok_def using flash_ok_write(5)
    by (simp add: sdk_ok_def del: xsdk_write_config.simps)
  show ?thesis
    using assms(1) False unfolding xlink_process_tcp_connect_def Let_def
    by (auto simp del: xsdk_write_config.simps split: if_splits intro!: cloud_intros dom)
qed

lemma upgrade_keeps: "xlink_process_tcp_upgrade B n s = Inr s' \<Longrightarrow> cloud_keeps s s'"
  unfolding xlink_process_tcp_upgrade_def xlinkSendUpgrade_def Let_def
  by (auto split: if_splits intro!: cloud_intros)

lemma event_keeps: "xlink_process_tcp_event B n s = Inr s' \<Longrightarrow> cloud_keeps s s'"
  unfolding xlink_process_tcp_event_def
  by (auto split: if_splits intro: upgrade_keeps notify_cloud_keeps cloud_intros)

lemma tcp_data_keeps:
  assumes "xlink_process_tcp_data B dl n s = Inr s'" "0 < tcp_fd s" shows "cloud_keeps s s'"
proof -
  define t where "t = (if check_typeOk_t (B ! 0) then XlinkTcpPing_Clear s else s)"
  have t: "cloud_keeps s t" "0 < tcp_fd t" using assms(2) by (simp_all add: t_def cloud_intros)
  have "cloud_keeps t s'"
    using assms(1) t(2)
    unfolding xlink_process_tcp_data_def Let_def t_def [symmetric]
    by (auto split: if_splits intro: active_keeps connect_keeps set_keeps probe_keeps subscribe_keeps event_keeps
        simp: xlink_process_tcp_pipe_def xlink_process_tcp_pipe2_def xlink_process_tcp_event_res_def Let_def
        intro!: cloud_intros)
  then show ?thesis by (rule cloud_keeps_trans [OF t(1)])
qed

lemma TcpLoop_keeps: "XlinkTcpLoop ss t s = Inr s' \<Longrightarrow> cloud_keeps s s'"
  unfolding XlinkTcpLoop_def XlinkTcpWorkPing_def XlinkTcpWorkConnect_def XlinkTcpWorkActivation_def
    xlink_tcp_send_http_connect_def timer_check_def Let_def
  by (auto split: XLINK_TCP_WORK_TYPE.splits if_splits prod.splits bool.splits intro!: cloud_intros)

section \<open>A turn of the loop\<close>

definition key_chain :: "xsdk \<Rightarrow> xsdk \<Rightarrow> bool" where
  "key_chain d d' \<longleftrightarrow> isScanEnable d' = isScanEnable d \<and>
     (\<not> isScanEnable d \<or> key_settled (accesskey (flash d)) \<longrightarrow> keys_kept d d') \<and>
     (keys_kept d d' \<or> legal_key (accesskey (flash d')) \<and> legal_key (f_subkey (flash d')))"

definition cloud_ok :: "xcloud \<Rightarrow> bool" where
  "cloud_ok s \<longleftrightarrow> sdk_ok (dev s) \<and> login_ok s"

definition cloud_grow :: "xcloud \<Rightarrow> xcloud \<Rightarrow> bool" where
  "cloud_grow s s' \<longleftrightarrow> (cloud_ok s \<longrightarrow> cloud_ok s') \<and> key_chain (dev s) (dev s')"

lemma key_chain_trans: "key_chain d e \<Longrightarrow> key_chain e f \<Longrightarrow> key_chain d f"
  by (auto simp: key_chain_def keys_kept_def)

lemma cloud_grow_trans: "cloud_grow s t \<Longrightarrow> cloud_grow t u \<Longrightarrow> cloud_grow s u"
  by (auto simp: cloud_grow_def intro: key_chain_trans)

lemma cloud_keeps_grow: "cloud_keeps s t \<Longrightarrow> cloud_grow s t"
  by (auto simp: cloud_keeps_def cloud_grow_def cloud_ok_def key_chain_def keys_kept_def)

lemma cloud_grow_refl [simp]: "cloud_grow s s"
  by (simp add: cloud_grow_def key_chain_def keys_kept_def)

lemma sdk_step_grow:
  assumes "sdk_step (dev s) d" shows "cloud_grow s (s\<lparr>dev := d\<rparr>)"
  using sdk_progress_step [OF assms]
  by (auto simp: cloud_grow_def cloud_ok_def login_ok_def key_chain_def sdk_progress_def keys_given_def keys_kept_def)

lemma grow_udp_fd: "cloud_grow s (on_dev (udp_fd_update f) s)"
  by (simp add: on_dev_def cloud_grow_def cloud_ok_def login_ok_def key_chain_def keys_kept_def sdk_ok_def)

lemma grow_clock: "cloud_grow s (on_dev (g_XlinkSdkTime_update (\<lambda>_. t)) s)"
  unfolding on_dev_def by (rule sdk_step_grow) (rule sdk_step.clock)

lemma grow_cput: "cloud_grow s t \<Longrightarrow> cloud_grow s (cput e t)"
  by (erule cloud_grow_trans) (simp add: cloud_keeps_grow cloud_intros)

lemma udp_recv_grow: "event_udp_recv_data buf r now s = Inr s' \<Longrightarrow> cloud_grow s s'"
  unfolding event_udp_recv_data_def
  by (auto split: if_splits prod.splits simp: c_bind_eq_Inr intro!: sdk_step_grow intro: sdk_step.datagram)

lemma body_loop_closed: "body_loop n ind buf rs = Inr (Some (ind', buf', True)) \<Longrightarrow> sint ind' < n"
  by (induction n ind buf rs rule: body_loop.induct) (auto simp: Let_def split: if_splits)

lemma tcp_http_keeps: "tcp_http buf rs s = Inr (Some (buf', s')) \<Longrightarrow> cloud_keeps s s'"
proof -
  have "cloud_keeps s (xsdk_closeTCP True (s\<lparr>isLogined := False\<rparr>))"
    by (rule cloud_keeps_logout) simp_all
  then show "tcp_http buf rs s = Inr (Some (buf', s')) \<Longrightarrow> cloud_keeps s s'"
    unfolding tcp_http_def by (auto split: list.splits if_splits intro!: cloud_intros)
qed

text \<open>The normal path of a receive: \<open>b\<close> is the buffer after the first \<^verbatim>\<open>recv\<close>, \<open>m\<close> the length it announces.\<close>

definition received :: "int \<Rightarrow> u16 \<times> bytes \<times> bool \<Rightarrow> xcloud \<Rightarrow> (bytes \<times> xcloud) option c_result" where
  "received m r s =
     (case r of (ind, buf, closed) \<Rightarrow>
        if sint ind = m
        then c_bind (c_put (unat ind + 5) 0 buf) (\<lambda>buf.
               c_bind (xlink_process_tcp_data buf (ind + 5) (scast ind) (if closed then xsdk_closeTCP True s else s))
                 (\<lambda>s. Inr (Some (buf, s))))
        else Inr (Some (buf, if closed then xsdk_closeTCP True s else s)))"

lemma recv_message:
  assumes "\<not> (is80Port s \<and> \<not> is80ConnectSuccess s)" "0 < n" "b = memcpy_at 0 d buf"
    "m = sint (UTIL_INT32_SET (b ! 1) (b ! 2) (b ! 3) (b ! 4))"
  shows "event_tcp_recv_data buf ((n, d) # rs) s =
     (if \<not> check_typeOk (b ! 0) \<or> int XLINK_BUFFER_PIPE + 10 < m then Inr (Some (b, xsdk_closeTCP True s))
      else if m < 0 then Inr (Some (b, s))
      else c_bind (body_loop m 0 b rs) (\<lambda>r. case r of None \<Rightarrow> Inr None | Some r \<Rightarrow> received m r s))"
proof -
  have n: "(n = 0) = False" "(n < 0) = False" "(is80Port s \<and> \<not> is80ConnectSuccess s) = False"
    using assms(1,2) by auto
  show ?thesis
    unfolding event_tcp_recv_data_def received_def Let_def list.case prod.case n if_False
      assms(3) [symmetric] assms(4) [symmetric] ..
qed

lemma recv_small: "\<not> (is80Port s \<and> \<not> is80ConnectSuccess s) \<Longrightarrow> n \<le> 0 \<Longrightarrow> event_tcp_recv_data buf ((n, d) # rs) s =
    Inr (Some (buf, if n = 0 then xsdk_closeTCP True s else s))"
  unfolding event_tcp_recv_data_def by auto

lemma received_keeps:
  assumes "received m (ind, buf2, closed) s = Inr (Some (buf', s'))" "closed \<Longrightarrow> sint ind < m" "0 < tcp_fd s"
  shows "cloud_keeps s s'"
  using assms unfolding received_def by (cases closed) (auto split: if_splits intro: tcp_data_keeps cloud_intros)

lemma tcp_recv_keeps:
  assumes "event_tcp_recv_data buf rs s = Inr (Some (buf', s'))" "0 < tcp_fd s" shows "cloud_keeps s s'"
proof (cases "is80Port s \<and> \<not> is80ConnectSuccess s")
  case True
  then show ?thesis using assms(1) tcp_http_keeps unfolding event_tcp_recv_data_def by auto
next
  case F: False
  show ?thesis
  proof (cases rs)
    case Nil
    then show ?thesis using assms(1) F unfolding event_tcp_recv_data_def by auto
  next
    case (Cons r rs')
    obtain n d where r: "r = (n, d)" by fastforce
    have close: "cloud_keeps s (xsdk_closeTCP True s)" by (simp add: cloud_intros)
    show ?thesis
    proof (cases "0 < n")
      case True
      note eq = recv_message [OF F True refl refl, where buf = buf and d = d and rs = rs']
      consider "s' = xsdk_closeTCP True s" | "s' = s"
        | ind b2 closed m where "body_loop m 0 (memcpy_at 0 d buf) rs' = Inr (Some (ind, b2, closed))"
            "received m (ind, b2, closed) s = Inr (Some (buf', s'))"
        using assms(1) unfolding Cons r eq by (auto split: if_splits option.splits)
      then show ?thesis
      proof cases
        case 3
        then have "closed \<Longrightarrow> sint ind < m" using body_loop_closed by simp
        then show ?thesis using received_keeps [OF 3(2) _ assms(2)] by simp
      qed (use close in \<open>simp_all add: cloud_intros\<close>)
    next
      case False
      then have "s' = (if n = 0 then xsdk_closeTCP True s else s)"
        using recv_small [OF F, where n = n and buf = buf and d = d and rs = rs'] assms(1) unfolding Cons r by simp
      then show ?thesis using close by (simp add: cloud_intros)
    qed
  qed
qed

lemma net_event_tcp_keeps: "net_event_tcp env s = Inr (Some (buf, s')) \<Longrightarrow> cloud_keeps s s'"
  unfolding net_event_tcp_def Let_def by (auto split: if_splits intro: tcp_recv_keeps cloud_intros)

lemma net_event_grow:
  assumes "net_event env s = Inr (Some s')" shows "cloud_grow s s'"
proof (cases "n_select env \<le> 0")
  case True
  then show ?thesis using assms by (simp add: net_event_def)
next
  case False
  obtain r where r: "net_event_tcp env s = Inr r"
    using assms False unfolding net_event_def by auto
  then obtain buf t where t: "net_event_tcp env s = Inr (Some (buf, t))"
    using assms False unfolding net_event_def by (cases r) auto
  obtain u where "(if 0 < udp_fd (dev t) \<and> n_ready env (udp_fd (dev t))
        then event_udp_recv_data buf (n_udp_recv env) (n_time_ms env) t else Inr t) = Inr u"
    and "s' = (if 0 < n_event_fd env \<and> n_ready env (n_event_fd env) then cput Foreign_Event u else u)"
    using assms False unfolding net_event_def t c_bind_simps option.case prod.case if_False c_bind_eq_Inr by auto
  then have u: "u = t \<or> event_udp_recv_data buf (n_udp_recv env) (n_time_ms env) t = Inr u"
    and s': "s' = u \<or> s' = cput Foreign_Event u"
    by (auto split: if_splits)
  have "cloud_grow s t" by (rule cloud_keeps_grow [OF net_event_tcp_keeps [OF t]])
  moreover have "cloud_grow t u" using u udp_recv_grow by (elim disjE) (hypsubst, rule cloud_grow_refl, blast)
  moreover have "cloud_grow u s'" using s' grow_cput by auto
  ultimately show ?thesis by (blast intro: cloud_grow_trans)
qed

lemma set_event_tcp_keeps: "set_event_tcp ss t s = Inr s' \<Longrightarrow> cloud_keeps s s'"
proof -
  have c: "cloud_keeps s (xsdk_closeTCP True s)" by (simp add: cloud_intros)
  show "set_event_tcp ss t s = Inr s' \<Longrightarrow> cloud_keeps s s'"
    unfolding set_event_tcp_def Let_def
    by (auto split: if_splits intro: TcpLoop_keeps cloud_intros c cloud_keeps_trans [OF c TcpLoop_keeps])
qed

lemma grow_check_heartbeat: "cloud_grow s (check_heartbeat t s)"
proof -
  have "cloud_grow u (on_dev (XlinkClientCheckHeartbeat t) u)" for u
    unfolding on_dev_def by (rule sdk_step_grow) (rule sdk_step.heartbeat)
  then show ?thesis
    unfolding check_heartbeat_def Let_def
    by (auto intro: cloud_keeps_grow cloud_intros cloud_grow_trans [OF cloud_keeps_grow [OF cloud_keeps_ops(15) [OF cloud_keeps_refl]]])
qed

lemma grow_set_event_udp: "cloud_grow s (set_event_udp env s)"
  unfolding set_event_udp_def xlink_udp_create_def Let_def
  by (auto intro: grow_udp_fd grow_cput cloud_grow_trans)

lemma net_loop_grow:
  assumes "xlink_net_loop env t s = Inr (Some (b, s'))" shows "cloud_grow s s'"
proof -
  define u where "u = set_event_udp env (check_heartbeat t s)"
  have u: "cloud_grow s u"
    unfolding u_def by (rule cloud_grow_trans [OF grow_check_heartbeat grow_set_event_udp])
  obtain v where v: "v = u \<or> set_event_tcp (n_garbage env) t u = Inr v" and s': "s' = v \<or> net_event env v = Inr (Some s')"
    using assms unfolding xlink_net_loop_def Let_def u_def [symmetric] by (auto split: if_splits option.splits)
  have "cloud_grow u v" using v cloud_keeps_grow [OF set_event_tcp_keeps] by auto
  moreover have "cloud_grow v s'" using s' net_event_grow by auto
  ultimately show ?thesis using u by (blast intro: cloud_grow_trans)
qed

lemma time_count_keeps: "xlinkSysTimeCount t s = Inr s' \<Longrightarrow> cloud_keeps s s'"
  unfolding xlinkSysTimeCount_def next_day_def Let_def by (auto split: if_splits intro: cloud_keeps_same)

lemma XlinkLoop_grow:
  assumes "XlinkLoop env nows t s = Inr (Some s')" shows "cloud_grow s s'"
proof -
  define u where "u = on_dev (g_XlinkSdkTime_update (\<lambda>_. t)) s"
  have u: "cloud_grow s u" unfolding u_def by (rule grow_clock)
  have r: "cloud_grow w (on_dev (XlinkResend nows) w)" for w
    unfolding on_dev_def by (rule sdk_step_grow) (rule sdk_step.resend)
  obtain r where r1: "(if isSystemInited u
      then c_bind (xlink_net_loop env t u) (\<lambda>r. Inr (case r of None \<Rightarrow> None | Some (_, s) \<Rightarrow> Some (on_dev (XlinkResend nows) s)))
      else Inr (Some u)) = Inr r"
    and r2: "(case r of None \<Rightarrow> Inr None | Some s \<Rightarrow>
        if isInitSystem s then c_bind (xlinkSysTimeCount t s) (\<lambda>s. Inr (Some s)) else Inr (Some s)) = Inr (Some s')"
    using assms unfolding XlinkLoop_def Let_def u_def [symmetric] c_bind_eq_Inr by blast
  obtain v where rv: "r = Some v" using r2 by (cases r) auto
  have v: "v = u \<or> (\<exists>b w. xlink_net_loop env t u = Inr (Some (b, w)) \<and> v = on_dev (XlinkResend nows) w)"
    using r1 unfolding rv by (auto split: if_splits option.splits)
  have s': "s' = v \<or> xlinkSysTimeCount t v = Inr s'"
    using r2 unfolding rv by (auto split: if_splits)
  have "cloud_grow u v" using v r net_loop_grow by (blast intro: cloud_grow_trans cloud_grow_refl)
  moreover have "cloud_grow v s'" using s' cloud_keeps_grow [OF time_count_keeps] by auto
  ultimately show ?thesis using u by (blast intro: cloud_grow_trans)
qed

lemma tcp_loop_keeps:
  assumes loop: "XlinkSystemTcpLoop env s = Inr (ip, s')" shows "cloud_keeps s s'"
proof -
  have init: "cloud_keeps t u" if "tcp_Connect_server_init env' now t = Inr (ok, u)" for env' now t ok u
  proof -
    have "dev (xlink_tcp_connect_server env' t) = dev t \<and> \<not> isLogined (xlink_tcp_connect_server env' t)"
      by (simp add: xlink_tcp_connect_server_def next_port_def Let_def)
    then show ?thesis
      using that unfolding tcp_Connect_server_init_def Let_def
      by (auto split: if_splits intro!: cloud_keeps_logout)
  qed
  have host: "cloud_keeps t u" if "choose_host t = Inr (h, u)" for t h u
    using that unfolding choose_host_def Let_def by (auto split: if_splits intro: cloud_keeps_same)
  have clk: "cloud_keeps t (t\<lparr>tcp_last_connect_server := x\<rparr>)" "cloud_keeps t (retry_delay ok t)" for t x ok
    by (auto intro!: cloud_keeps_same simp: retry_delay_def)
  have attempt: "tcp_Connect_server_init env' now v = Inr (ok, w) \<Longrightarrow> cloud_keeps v (retry_delay ok w)" for env' now v ok w
    by (rule cloud_keeps_trans [OF init clk(2)])
  show ?thesis
  proof (cases "isSystemInited s \<and> isConnectWifi s \<and> \<not> 0 < tcp_fd s \<and> in_internet s")
    case False
    then show ?thesis
      using loop unfolding XlinkSystemTcpLoop_def xlink_net_loop_Domain_name_def by (auto split: if_splits intro: cloud_intros)
  next
    case True
    then obtain h t where h: "choose_host s = Inr (h, t)"
      using loop unfolding XlinkSystemTcpLoop_def xlink_net_loop_Domain_name_def by auto
    define u where "u = (if g_XlinkSdkTime (dev t) < tcp_last_connect_server t
      then t\<lparr>tcp_last_connect_server := g_XlinkSdkTime (dev t)\<rparr> else t)"
    have u: "cloud_keeps s u" using cloud_keeps_trans [OF host [OF h] clk(1)] host [OF h] by (simp add: u_def)
    have "s' = u \<or> cloud_keeps u s'"
      using loop True attempt
      unfolding XlinkSystemTcpLoop_def xlink_net_loop_Domain_name_def h c_bind_simps prod.case Let_def u_def [symmetric]
      by (auto split: if_splits)
    then show ?thesis using u cloud_keeps_trans by auto
  qed
qed

section \<open>Every run\<close>

text \<open>
  What the program may do with the client: the turns of its two loops, the senders, the setters.
\<close>

inductive cloud_step :: "xcloud \<Rightarrow> xcloud \<Rightarrow> bool" where
  loop: "XlinkLoop env nows t s = Inr (Some s') \<Longrightarrow> cloud_step s s'"
| tcp_loop: "XlinkSystemTcpLoop env s = Inr (ip, s') \<Longrightarrow> cloud_step s s'"
| udp_pipe: "XlinkSendUdpPipe mem d i ack (dev s) = Inr (r, d') \<Longrightarrow> cloud_step s (s\<lparr>dev := d'\<rparr>)"
| udp_point: "XlinkUpdateDataPointUdp mem d f s = Inr (r, s') \<Longrightarrow> cloud_step s s'"
| tcp_pipe: "XlinkSendTcpPipe sent h d i s = (r, s') \<Longrightarrow> cloud_step s s'"
| tcp_broadcast: "XlinkSendTcpBroadcast sent h d s = (r, s') \<Longrightarrow> cloud_step s s'"
| tcp_point: "XlinkUpdateDataPointTcp sent h d f s = (r, s') \<Longrightarrow> cloud_step s s'"
| upgrade: "cloud_step s (xlinkSendUpgrade ret up cur s)"
| server_time: "cloud_step s (xlink_GetServerTime t s)"
| want_time: "cloud_step s (XlinkGetServerTime s)"
| device_name: "cloud_step s (XlinkSetDeviceName n s)"
| wifi: "cloud_step s (XlinkSetWifiStatus b s)"
| set_host: "XlinkSetHost h s = Inr s' \<Longrightarrow> cloud_step s s'"
| close_tcp: "cloud_step s (XlinkCloseTcp s)"
| close_net: "cloud_step s (XlinkCloseNet s)"

inductive cloud_reach :: "xcloud \<Rightarrow> xcloud \<Rightarrow> bool" for s where
  start: "cloud_reach s s"
| step: "cloud_reach s t \<Longrightarrow> cloud_step t u \<Longrightarrow> cloud_reach s u"

lemma grow_device_name: "cloud_grow s (XlinkSetDeviceName n s)"
  unfolding XlinkSetDeviceName_def Let_def cloud_grow_def cloud_ok_def login_ok_def key_chain_def keys_kept_def
  using flash_ok_write(1) by (simp add: sdk_ok_def del: xsdk_write_config.simps)

lemma cloud_step_grow: "cloud_step s s' \<Longrightarrow> cloud_grow s s'"
proof (induction rule: cloud_step.induct)
  case (udp_point mem d f s r s')
  then show ?case
    unfolding XlinkUpdateDataPointUdp_def by (auto split: if_splits intro: sdk_step_grow sdk_step.sync)
next
  case (close_net s)
  have "cloud_grow t (xsdk_closeUDP t)" for t
    unfolding xsdk_closeUDP_def by (auto intro: cloud_grow_trans [OF grow_cput [OF cloud_grow_refl] grow_udp_fd])
  then show ?case unfolding XlinkCloseNet_def
    by (rule cloud_grow_trans [rotated]) (simp add: cloud_keeps_grow cloud_intros)
next
  case (udp_pipe mem d i ack s r d')
  then show ?case by (auto intro: sdk_step_grow sdk_step.pipe)
qed (auto intro: XlinkLoop_grow grow_device_name cloud_keeps_grow tcp_loop_keeps,
    auto intro!: cloud_keeps_grow cloud_intros cloud_keeps_same split: if_splits option.splits
    simp: XlinkSendTcpPipe_def XlinkSendTcpBroadcast_def XlinkUpdateDataPointTcp_def xsdk_tcp_SendSync_V2_cb_def
      xlinkSendUpgrade_def xlink_GetServerTime_def XlinkGetServerTime_def XlinkSetWifiStatus_def XlinkSetHost_def
      XlinkCloseTcp_def)

lemma cloud_reach_grow: "cloud_reach s t \<Longrightarrow> cloud_grow s t"
  by (induction rule: cloud_reach.induct) (auto dest: cloud_step_grow intro: cloud_grow_trans)

end
