(* ===== verification/CloudData.thy ===== *)
theory CloudData imports CloudInv begin

text \<open>
  What the messages of the cloud do: a message is the same however the network cuts it, the pipe
  delivers, activation and login follow each other, a subscription tells the access key.
\<close>

section \<open>Headers and frames\<close>

lemma unat_tcp_header: "type < 16 \<Longrightarrow> unat (tcp_header type resp) = 3 + (if resp then 8 else 0) + 16 * type"
  by (simp add: tcp_header_def unat_of_nat del: of_nat_add of_nat_mult)

lemma header_type_tcp [simp]: "type < 16 \<Longrightarrow> header_type (tcp_header type resp) = type"
  unfolding header_type_def unat_drop_bit_div by (simp add: unat_tcp_header)

lemma header_resp_tcp [simp]: "type < 16 \<Longrightarrow> header_resp (tcp_header type resp) = resp"
proof -
  assume t: "type < 16"
  have "bit (tcp_header type resp) 3 = bit (unat (tcp_header type resp)) 3"
    by (simp add: bit_unsigned_iff)
  then show ?thesis by (simp add: header_resp_def unat_tcp_header [OF t] bit_iff_odd) (cases resp, (simp, presburger)+)
qed

section \<open>Messages in pieces\<close>

lemma sint_of_nat_16: "n < 32768 \<Longrightarrow> sint (of_nat n :: u16) = int n"
  by (simp add: signed_of_nat signed_take_bit_int_eq_self)

definition pieces :: "bytes list \<Rightarrow> (int \<times> bytes) list" where
  "pieces cs = map (\<lambda>c. (int (length c), c)) cs"

lemma body_loop_pieces:
  assumes "length h = 5" "[] \<notin> set cs" "length (concat cs) \<le> length z" "length d + length (concat cs) < 32768"
  shows "body_loop (int (length d + length (concat cs))) (of_nat (length d)) (h @ d @ z) (pieces cs) =
    Inr (Some (of_nat (length d + length (concat cs)), h @ d @ concat cs @ drop (length (concat cs)) z, False))"
  using assms
proof (induction cs arbitrary: d z)
  case Nil
  then show ?case by (simp add: pieces_def sint_of_nat_16)
next
  case (Cons c cs)
  define l where "l = length (concat (c # cs))"
  have c: "0 < length c" "length c \<le> l" "l \<le> length z" "length d + l < 32768"
    using Cons.prems by (auto simp: l_def)
  have num: "(of_int (int (length c)) :: u16) = of_nat (length c)" by simp
  have nz: "(of_nat (length c) :: u16) \<noteq> 0"
    using c by (metis Cons.prems(4) sint_of_nat_16 add_lessD1 le_less_trans less_not_refl of_nat_eq_0_iff sint_0 trans_le_add2)
  have "memcpy_at (nat (5 + sint (of_nat (length d) :: u16))) c (h @ d @ z) = h @ (d @ c) @ drop (length c) z"
    using c Cons.prems(1) by (simp add: sint_of_nat_16 memcpy_at_def nat_add_distrib)
  moreover have "body_loop (int (length (d @ c) + length (concat cs))) (of_nat (length (d @ c))) (h @ (d @ c) @ drop (length c) z) (pieces cs) =
      Inr (Some (of_nat (length (d @ c) + length (concat cs)), h @ (d @ c) @ concat cs @ drop (length (concat cs)) (drop (length c) z), False))"
    using Cons.prems by (intro Cons.IH) auto
  moreover have pos: "\<not> int (length c) + int (length (concat cs)) \<le> 0" using c by linarith
  ultimately show ?case
    using c nz Cons.prems(1) pos unfolding pieces_def
    by (simp add: sint_of_nat_16 Let_def num l_def add.assoc ac_simps)
qed

lemma sint_of_nat_32: "n < 32768 \<Longrightarrow> sint (of_nat n :: u32) = int n"
proof -
  assume n: "n < 32768"
  have "signed_take_bit 31 (int n) = int n" by (rule signed_take_bit_int_eq_self) (use n in simp_all)
  then show ?thesis by (simp add: signed_of_nat)
qed

lemma scast_of_nat_16: "n < 32768 \<Longrightarrow> (scast (of_nat n :: u16) :: u32) = of_nat n"
proof -
  assume "n < 32768"
  moreover have "(scast (of_nat n :: u16) :: u32) = of_int (sint (of_nat n :: u16))" by (rule of_int_sint [symmetric])
  ultimately show ?thesis by (simp only: sint_of_nat_16 of_int_of_nat_eq)
qed

definition frame_head :: "byte \<Rightarrow> nat \<Rightarrow> bytes" where
  "frame_head h n = [h] @ be32 (of_nat n)"

lemma length_frame_head [simp]: "length (frame_head h n) = 5"
  by (simp add: frame_head_def)

lemma frame_head_nth:
  "frame_head h n = [h, UTIL_INT32_GET_BIT3 (of_nat n), UTIL_INT32_GET_BIT2 (of_nat n), UTIL_INT32_GET_BIT1 (of_nat n),
     UTIL_INT32_GET_BIT0 (of_nat n)]"
  by (simp add: frame_head_def be32_def)

lemma tcp_frame_head: "tcp_frame type resp body = frame_head (tcp_header type resp) (length body) @ body"
  by (simp add: tcp_frame_def frame_head_def)

lemma c_put_middle: "length a = n \<Longrightarrow> c_put n x (a @ y # z) = Inr (a @ x # z)"
  by (auto simp: c_put_def)

text \<open>
  C19. However the network cuts a message behind its five header bytes, the handler runs once, on the
  whole message, with its length: the result depends on the concatenation of the pieces only.
\<close>

theorem frame_reassembled:
  assumes "\<not> (is80Port s \<and> \<not> is80ConnectSuccess s)" "check_typeOk h" "length RecvBuffer = RECV_SIZE"
    "[] \<notin> set cs" "length (concat cs) \<le> 1510" "body = concat cs"
  shows "event_tcp_recv_data RecvBuffer (pieces (frame_head h (length body) # cs)) s =
    (let buf = frame_head h (length body) @ body @ 0 # drop (length body + 6) RecvBuffer
     in c_bind (xlink_process_tcp_data buf (of_nat (length body + 5)) (of_nat (length body)) s) (\<lambda>s. Inr (Some (buf, s))))"
proof -
  define H where "H = frame_head h (length body)"
  define z where "z = drop 5 RecvBuffer"
  have n: "length body \<le> 1510" "length body < 32768" using assms(5,6) by simp_all
  have z: "length z = 1545" using assms(3) by (simp add: z_def)
  have b: "memcpy_at 0 H RecvBuffer = H @ [] @ z" by (simp add: memcpy_at_def H_def z_def)
  have m: "sint (UTIL_INT32_SET ((H @ [] @ z) ! 1) ((H @ [] @ z) ! 2) ((H @ [] @ z) ! 3) ((H @ [] @ z) ! 4)) = int (length body)"
    using n by (simp add: H_def frame_head_nth sint_of_nat_32)
  have loop: "body_loop (int (length body)) 0 (H @ [] @ z) (pieces cs) =
      Inr (Some (of_nat (length body), H @ body @ drop (length body) z, False))"
    using body_loop_pieces [of H cs z "[]"] n z assms(4,6) by (simp add: H_def)
  have "drop (length body) z = z ! length body # drop (length body + 6) RecvBuffer"
    using n(1) z Cons_nth_drop_Suc [of "length body" z] by (simp add: z_def add.commute)
  then have put: "c_put (length body + 5) 0 (H @ body @ drop (length body) z) = Inr (H @ body @ 0 # drop (length body + 6) RecvBuffer)"
    using c_put_middle [of "H @ body" "length body + 5"] by (simp add: H_def)
  have head: "(H @ [] @ z) ! 0 = h" by (simp add: H_def frame_head_nth)
  have u: "unat (of_nat (length body) :: u16) = length body" using n(2) by (simp add: unat_of_nat)
  have rec: "received (int (length body)) (of_nat (length body), H @ body @ drop (length body) z, False) s =
     (let buf = H @ body @ 0 # drop (length body + 6) RecvBuffer
      in c_bind (xlink_process_tcp_data buf (of_nat (length body + 5)) (of_nat (length body)) s) (\<lambda>s. Inr (Some (buf, s))))"
    unfolding received_def prod.case if_False sint_of_nat_16 [OF n(2)] scast_of_nat_16 [OF n(2)] u put c_bind_simps Let_def
    by (simp only: HOL.refl if_True of_nat_add of_nat_numeral)
  have hl: "0 < int (length H)" by (simp add: H_def)
  have "event_tcp_recv_data RecvBuffer ((int (length H), H) # pieces cs) s =
      received (int (length body)) (of_nat (length body), H @ body @ drop (length body) z, False) s"
    unfolding recv_message [OF assms(1) hl b [symmetric] m [symmetric]] loop head
    using n assms(2) by simp
  then show ?thesis unfolding rec unfolding H_def by (simp add: pieces_def)
qed

section \<open>The pipe\<close>

lemma be_nth:
  "be32 x = [UTIL_INT32_GET_BIT3 x, UTIL_INT32_GET_BIT2 x, UTIL_INT32_GET_BIT1 x, UTIL_INT32_GET_BIT0 x]"
  "be16 y = [UTIL_INT16_GET_BITH (ucast y), UTIL_INT16_GET_BITL (ucast y)]"
  by (simp_all add: be32_def be16_def)

definition pipe_answer :: "u32 \<Rightarrow> u16 \<Rightarrow> xcloud \<Rightarrow> cloud_event list" where
  "pipe_answer source handle s =
     (if source \<noteq> 0 \<and> 0 < tcp_fd s then [Tcp_Sent (tcp_short M_PIPE True 7 (be32 source @ be16 handle @ [0]))] else [])"

lemma pipe_processed:
  assumes "length data \<le> XLINK_BUFFER_PIPE" "OnTcpPipe s"
    "body = be32 source @ be16 handle @ [flag] @ data"
  shows "\<exists>s'. xlink_process_tcp_data (frame_head (tcp_header M_PIPE False) (length body) @ body @ 0 # z)
      (of_nat (length body + 5)) (of_nat (length body)) s = Inr s'
    \<and> clog s' = clog s @ pipe_answer source handle s @ [Tcp_Pipe data (of_nat (length data)) source] \<and> dev s' = dev s"
proof -
  define n where "n = length data"
  have n: "n < 32768" using assms(1) by (simp add: n_def)
  have len: "(of_nat (length body) :: u32) = of_nat n + 7" by (simp add: assms(3) n_def)
  have u: "unat (of_nat n + 7 :: u32) = n + 7" using n by (subst of_nat_numeral [symmetric], subst of_nat_add [symmetric], subst unat_of_nat) simp
  have ge: "\<not> (of_nat n + 7 :: u32) < 7" by (simp add: word_less_nat_alt u)
  have m: "unat (of_nat n :: u32) = n" using n by (simp add: unat_of_nat)
  show ?thesis
    unfolding xlink_process_tcp_data_def Let_def len
    by (simp add: frame_head_nth assms(3) be_nth xlink_process_tcp_pipe_def ge m check_typeOk_t_def XlinkTcpPing_Clear_def
        XlinkTcpSendData_def cput_def pipe_answer_def assms(2) Let_def flip: n_def)
qed


section \<open>Login\<close>

lemma unat_sub_6: "6 \<le> n \<Longrightarrow> unat (n - 6 :: u32) = unat n - 6"
  by (simp add: unat_sub)

lemma sint_small_32: "unat (n :: u32) < 2 ^ 31 \<Longrightarrow> sint n = int (unat n)"
proof -
  assume n: "unat n < 2 ^ 31"
  have "signed_take_bit 31 (int m) = int m" if "m < 2 ^ 31" for m
    by (rule signed_take_bit_int_eq_self) (use that in simp_all)
  from this [OF n] show ?thesis by (simp add: sint_uint)
qed

lemma sint_sub_6_neg: "n < 6 \<Longrightarrow> sint (n - 6 :: u32) < 0"
proof -
  assume "n < 6"
  then have "unat n \<in> {0, 1, 2, 3, 4, 5}" by (auto simp: word_less_nat_alt)
  then have "n \<in> {0, 1, 2, 3, 4, 5}" by (auto simp: word_unat_eq_iff)
  then show ?thesis by auto
qed

lemma closed_state:
  "tcp_fd (xsdk_closeTCP True s) \<le> 0" "work_type (xsdk_closeTCP True s) = TCP_NOT_CONNECT"
  by (simp_all add: xsdk_closeTCP_def cloud_status_def xlinkChangeWork_def cput_def Let_def)

lemma no_flag_16 [simp]: "\<not> has_flag 16 (set_flag 16 False c)" "has_flag 1 (set_flag 1 True c)"
proof -
  have "(x OR 1) AND 1 = 1" "(x AND NOT 16) AND 16 = 0" for x :: byte
    by (rule bit_word_eqI, auto simp: bit_simps)+
  then show "\<not> has_flag 16 (set_flag 16 False c)" "has_flag 1 (set_flag 1 True c)"
    by (simp_all only: has_flag_def set_flag_def if_True if_False xlink_SdkConfig.simps(1) simp_thms) (simp_all add: one_neq_zero)
qed

text \<open>
  C20. The answer to a login. Code 0 logs the device in: the connection stays, the work state is that of the
  pings, and a pending change of password is settled. Any other code but 12 closes the connection and
  changes nothing of the device, so that the next connection tries the same login again. Code 12, with
  an address of at most 72 bytes, closes the connection and stores the announced server; with less than six bytes
  it makes the copy overrun.
\<close>

theorem cloud_login:
  assumes "header_type (data ! 0) = M_CONNECT" "5 < length data" "code = data ! 5"
  shows "(code = 0 \<longrightarrow> (\<exists>s'. xlink_process_tcp_data data dl n s = Inr s' \<and> isLogined s' \<and> tcp_fd s' = tcp_fd s
        \<and> work_type s' = TCP_PING \<and> \<not> has_flag flag_isChangedPassword (config (dev s'))))
    \<and> (code \<noteq> 0 \<and> code \<noteq> 12 \<longrightarrow> (\<exists>s'. xlink_process_tcp_data data dl n s = Inr s' \<and> \<not> isLogined s' \<and> tcp_fd s' \<le> 0
        \<and> work_type s' = TCP_NOT_CONNECT \<and> dev s' = dev s))
    \<and> (code = 12 \<and> 6 \<le> n \<and> n \<le> 78 \<longrightarrow> (\<exists>s'. xlink_process_tcp_data data dl n s = Inr s' \<and> \<not> isLogined s' \<and> tcp_fd s' \<le> 0
        \<and> domain_ip (flash (dev s')) = padded 76 (take 72 (take 2 (drop 7 data) @ padded 74 (take (unat n - 6) (drop 11 data))))))
    \<and> (code = 12 \<and> n < 6 \<longrightarrow> xlink_process_tcp_data data dl n s = Inl Out_Of_Bounds)"
proof -
  define t where "t = (if check_typeOk_t (data ! 0) then XlinkTcpPing_Clear s else s)"
  have t: "dev t = dev s" "tcp_fd t = tcp_fd s" by (simp_all add: t_def)
  have run: "xlink_process_tcp_data data dl n s = xlink_process_tcp_connect (drop 5 data) n t"
    unfolding xlink_process_tcp_data_def Let_def t_def [symmetric] assms(1) by simp
  have c: "drop 5 data ! 0 = code" using assms(2,3) by simp
  have small: "sint (n - 6) = int (unat n - 6)" if "6 \<le> n" "n \<le> 78"
    using that sint_small_32 [of "n - 6"] unat_sub_6 [of n] by (simp add: word_le_nat_alt)
  have set: "work_type (save_config x u) = work_type u" "config (dev (save_config x u)) = x" for x u
    by (simp_all add: save_config_def Let_def)
  have log: "work_type (cloud_status st (xlinkChangeWork w u)) = w" for st w u
    by (simp add: cloud_status_def xlinkChangeWork_def cput_def)
  have "\<exists>s'. xlink_process_tcp_data data dl n s = Inr s' \<and> isLogined s' \<and> tcp_fd s' = tcp_fd s
      \<and> work_type s' = TCP_PING \<and> \<not> has_flag flag_isChangedPassword (config (dev s'))" if "code = 0"
    unfolding run xlink_process_tcp_connect_def c Let_def using that by (simp add: set log t)
  moreover have "\<exists>s'. xlink_process_tcp_data data dl n s = Inr s' \<and> \<not> isLogined s' \<and> tcp_fd s' \<le> 0
      \<and> work_type s' = TCP_NOT_CONNECT \<and> dev s' = dev s" if "code \<noteq> 0" "code \<noteq> 12"
    unfolding run xlink_process_tcp_connect_def c Let_def using that closed_state [of t] by (simp add: t)
  moreover have "\<exists>s'. xlink_process_tcp_data data dl n s = Inr s' \<and> \<not> isLogined s' \<and> tcp_fd s' \<le> 0
      \<and> domain_ip (flash (dev s')) = padded 76 (take 72 (take 2 (drop 7 data) @ padded 74 (take (unat n - 6) (drop 11 data))))"
    if "code = 12" "6 \<le> n" "n \<le> 78"
  proof -
    define x where "x = take 72 (take 2 (drop 7 data) @ padded 74 (take (unat n - 6) (drop 11 data)))"
    have "length x \<le> 74" unfolding x_def length_take by simp
    then have x: "domain_ip (xsdk_write_config (Cfg_Domain_Ip x) f) = padded 76 x" for f by simp
    have d: "drop 2 (drop 5 data) = drop 7 data" "drop 6 (drop 5 data) = drop 11 data" by simp_all
    have n: "int (unat n - 6) \<le> 72" using that(3) by (simp add: word_le_nat_alt)
    show ?thesis
      unfolding run xlink_process_tcp_connect_def c Let_def small [OF that(2,3)] d nat_int x_def [symmetric]
      using that(1) n by (simp add: x t del: xsdk_write_config.simps)
  qed
  moreover have "xlink_process_tcp_data data dl n s = Inl Out_Of_Bounds" if "code = 12" "n < 6"
    unfolding run xlink_process_tcp_connect_def c Let_def using that sint_sub_6_neg [of n] by simp
  ultimately show ?thesis by blast
qed

section \<open>Subscriptions\<close>


section \<open>Activation\<close>

lemma c_string_taken_padded: "0 \<notin> set a \<Longrightarrow> length a \<le> n \<Longrightarrow> c_string (take n (padded n (take n a))) = a"
  by (auto simp: c_string_def padded_def takeWhile_append)

lemma flag_other: "has_flag 16 (set_flag 1 True c) = has_flag 16 c"
proof -
  have "(x OR 1) AND 16 = x AND 16" for x :: byte by (rule bit_word_eqI) (auto simp: bit_simps bit_1_iff)
  then show ?thesis by (simp add: has_flag_def set_flag_def)
qed

lemma flag_Deviceid: "has_flag m (c\<lparr>Deviceid := d\<rparr>) = has_flag m c"
  by (simp add: has_flag_def)

text \<open>
  C21. Activation and login fit together. When the cloud answers an activation with code 0, a device number and an
  authorisation code of 1 to 16 bytes without a zero byte, the device keeps both, saves them with the flag of the
  activation, and its next turn sends the login with just this number and this code.
\<close>

theorem activation_then_login:
  assumes "header_type h = M_ACTIVATE" "length number = 4" "auth \<noteq> []" "length auth \<le> 16" "0 \<notin> set auth" "0 < tcp_fd s"
    "body = [0] @ number @ be16 (of_nat (length auth)) @ auth"
  shows "\<exists>s1 s2. xlink_process_tcp_data (frame_head h (length body) @ body @ z) dl (of_nat (length body)) s = Inr s1
    \<and> XlinkTcpLoop ss now s1 = Inr s2
    \<and> Deviceid (config (dev s1)) = number \<and> has_flag flag_isActivation (config (dev s1)) \<and> sdk (flash (dev s1)) = config (dev s1)
    \<and> xlog (dev s1) = xlog (dev s) @ [Config_Written (xsdk_config_save (flash (dev s1)))]
    \<and> clog s2 = clog s @ [Tcp_Sent (tcp_short M_CONNECT False (of_nat (length auth + 10))
        ([3] @ number @ [0, of_nat (length auth)] @ auth @ [if has_flag flag_isChangedPassword (config (dev s)) then 1 else 0] @ be16 60))]
    \<and> work_type s2 = TCP_WAIT_CONNECT_RESULT \<and> tcp_fd s2 = tcp_fd s"
proof -
  define t where "t = (if check_typeOk_t h then XlinkTcpPing_Clear s else s)"
  have t: "dev t = dev s" "tcp_fd t = tcp_fd s" "clog t = clog s" by (simp_all add: t_def XlinkTcpPing_Clear_def)
  obtain a b c d where num: "number = [a, b, c, d]" using assms(2) by (auto simp: numeral_eq_Suc length_Suc_conv)
  define k where "k = length auth"
  have k: "k \<le> 16" "0 < k" using assms(3,4) by (simp_all add: k_def)
  have lb: "length body = k + 7" by (simp add: assms(7) be_nth num k_def)
  have bl: "unat (of_nat (k + 7) :: u32) = k + 7" using k by (simp add: unat_of_nat del: of_nat_add)
  have nl: "\<not> (of_nat (k + 7) :: u32) < 7" by (simp add: word_less_nat_alt bl del: of_nat_add)
  have uk: "unat (UTIL_INT16_SET (UTIL_INT16_GET_BITH (ucast (of_nat k :: u16))) (UTIL_INT16_GET_BITL (ucast (of_nat k :: u16)))) = k"
    using k by (simp add: unat_of_nat)
  define conf where "conf = set_flag 1 True ((config (dev s))\<lparr>Deviceid := number\<rparr>)"
  define s1 where "s1 = xlinkChangeWork TCP_CONNECT (save_config conf (t\<lparr>dev := (dev t)\<lparr>config := conf,
      flash := xsdk_write_config (Cfg_Auth auth) (flash (dev t))\<rparr>\<rparr>))"
  define B where "B = body @ z"
  have B: "drop 5 (frame_head h (length body) @ B) = B" "(frame_head h (length body) @ B) ! 0 = h"
    by (simp_all add: frame_head_nth)
  have nth: "B ! 0 = 0" "B ! 1 = a" "B ! 2 = b" "B ! 3 = c" "B ! 4 = d"
      "B ! 5 = UTIL_INT16_GET_BITH (ucast (of_nat k :: u16))" "B ! 6 = UTIL_INT16_GET_BITL (ucast (of_nat k :: u16))"
      "take k (drop 7 B) = auth"
    by (simp_all add: B_def assms(7) num be_nth k_def)
  have min: "min k 16 = k" "(k + 7 < k + 6 \<and> k < 17) = False" using k by simp_all
  have act: "xlink_process_tcp_active B (of_nat (k + 7)) t = s1"
    unfolding xlink_process_tcp_active_def Let_def nth uk bl min if_False s1_def conf_def num [symmetric] t
    using nl by (simp del: of_nat_add)
  have run: "xlink_process_tcp_data (frame_head h (length body) @ B) dl (of_nat (length body)) s = Inr s1"
    unfolding xlink_process_tcp_data_def Let_def B unfolding lb act t_def [symmetric] using assms(1) by simp
  have dev1: "config (dev s1) = conf" "work_type s1 = TCP_CONNECT" "tcp_fd s1 = tcp_fd s" "clog s1 = clog s"
      "sdk (flash (dev s1)) = conf" "f_auth (flash (dev s1)) = padded 16 (take 16 auth)"
      "xlog (dev s1) = xlog (dev s) @ [Config_Written (xsdk_config_save (flash (dev s1)))]"
    by (simp_all add: s1_def t save_config_def Let_def xlinkChangeWork_def)
  have auth: "c_string (XlinkGetAuthCode (flash (dev s1))) = auth"
    using c_string_taken_padded assms(4,5) by (simp add: XlinkGetAuthCode_def dev1)
  have conf: "Deviceid conf = number" "has_flag 1 conf" "has_flag 16 conf = has_flag 16 (config (dev s))"
    by (simp_all add: conf_def flag_other flag_Deviceid)
  define s2 where "s2 = timer_start 15 ((XlinkTcpWorkConnect s1)\<lparr>work_type := TCP_WAIT_CONNECT_RESULT\<rparr>)"
  have loop: "XlinkTcpLoop ss now s1 = Inr s2" by (simp add: XlinkTcpLoop_def dev1 s2_def)
  have sent: "clog s2 = clog s @ [Tcp_Sent (tcp_short M_CONNECT False (of_nat (length auth + 10))
        ([3] @ number @ [0, of_nat (length auth)] @ auth @ [if has_flag 16 (config (dev s)) then 1 else 0] @ be16 60))]"
      "work_type s2 = TCP_WAIT_CONNECT_RESULT" "tcp_fd s2 = tcp_fd s"
    using assms(3,6) by (simp_all add: s2_def timer_start_def XlinkTcpWorkConnect_def auth XlinkTcpSendData_def dev1 conf cput_def)
  show ?thesis
    using run loop dev1 conf sent unfolding B_def by (intro exI [of _ s1] exI [of _ s2]) simp
qed

section \<open>A connection\<close>

definition sample_cloud :: xcloud where
  "sample_cloud = \<lparr>dev = sample_session_state, tcp_fd = 6, ServerPort = 23778, tcpPingCount = 0,
     tcp_last_connect_server = 50, isFirstConnectSuccess = True, isLogined = False, is80Port = False,
     is80ConnectSuccess = True, isConnectWifi = True, domain_connect_times = 0, product_key = replicate 32 0x32 @ [0],
     lastGetServerTimeTime = 0, getServerTimeDelay = 0, isGetServerTimeTask = False,
     work_type = TCP_WAIT_CONNECT_RESULT, lastPingTime = 90, tcp_timer = \<lparr>timer_time = 95, outtime = 15\<rparr>,
     last_check_heartbeat = 99, Xlink_TCP_ConnectPort = 23778, g_tcpConnectDelayTime = 0,
     hostNameOrIp = padded 64 (str ''cm2.xlink.cn''),
     m_currentSystemTime = \<lparr>t_year = 2016, t_mon = 2, t_day = 28, t_week = 0, t_hour = 23, t_min = 59, t_sec = 50, t_zones = 8\<rparr>,
     m_old_getTime = 90, isInitSystem = True, leap_February = True, isSystemInited = True, in_internet = True,
     mcuHardwareVersion = 1, OnTcpPipe = True, OnTcpPipe2 = True, OnTcpPipeSendCb = True, OnTcpPipe2SendCb = True,
     OnTcpDatapointSendCb = True, OnTcpNotify = True, OnServerTime = True, OnUpgrade = True, clog = []\<rparr>"

lemma sample_cloud_simps [simp]:
  "dev sample_cloud = sample_session_state" "tcp_fd sample_cloud = 6" "\<not> is80Port sample_cloud" "OnTcpPipe sample_cloud"
  "\<not> isLogined sample_cloud" "clog sample_cloud = []" "work_type sample_cloud = TCP_WAIT_CONNECT_RESULT"
  by (simp_all add: sample_cloud_def)

lemma be_small: "be32 2 = [0, 0, 0, 2]" "be32 7 = [0, 0, 0, 7]" "be16 9 = [0, 9]" "be32 1 = [0, 0, 0, 1]" "be16 2 = [0, 2]"
  by (simp_all add: be_nth word_unat_eq_iff byte_order)

theorem frame_reassembled_witness:
  "event_tcp_recv_data (replicate 1550 0) (pieces [frame_head 0x43 2, [1], [2]]) sample_cloud
    = Inr (Some (frame_head 0x43 2 @ [1, 2, 0] @ replicate 1542 0, sample_cloud))"
proof -
  have h: "header_type 0x43 = 4" "check_typeOk 0x43" "\<not> check_typeOk_t 0x43"
    by (simp_all add: header_type_def check_typeOk_def check_typeOk_t_def)
  have "event_tcp_recv_data (replicate 1550 0) (pieces (frame_head 0x43 (length [1, 2 :: byte]) # [[1], [2]])) sample_cloud
      = (let buf = frame_head 0x43 (length [1, 2 :: byte]) @ [1, 2] @ 0 # drop (length [1, 2 :: byte] + 6) (replicate 1550 0)
         in c_bind (xlink_process_tcp_data buf (of_nat (length [1, 2 :: byte] + 5)) (of_nat (length [1, 2 :: byte])) sample_cloud)
              (\<lambda>s. Inr (Some (buf, s))))"
    by (rule frame_reassembled) (simp_all add: h)
  then show ?thesis by (simp add: frame_head_nth xlink_process_tcp_data_def h Let_def)
qed


theorem cloud_login_witness:
  "(\<exists>s'. xlink_process_tcp_data [0x2B, 0, 0, 0, 1, 0] 6 1 sample_cloud = Inr s' \<and> isLogined s' \<and> work_type s' = TCP_PING)
   \<and> (\<exists>s'. xlink_process_tcp_data [0x2B, 0, 0, 0, 1, 5] 6 1 sample_cloud = Inr s' \<and> tcp_fd s' \<le> 0 \<and> dev s' = dev sample_cloud)
   \<and> xlink_process_tcp_data [0x2B, 0, 0, 0, 1, 12] 6 1 sample_cloud = Inl Out_Of_Bounds"
proof -
  have h: "header_type ([0x2B, 0, 0, 0, 1, c] ! 0) = M_CONNECT" "5 < length [0x2B, 0, 0, 0, 1, c :: byte]" for c :: byte
    by (simp_all add: header_type_def)
  have c: "c = [0x2B, 0, 0, 0, 1, c] ! 5" for c :: byte by simp
  show ?thesis
    using cloud_login [OF h c, of 0 6 1 sample_cloud] cloud_login [OF h c, of 5 6 1 sample_cloud]
      cloud_login [OF h c, of 12 6 1 sample_cloud] by auto
qed


theorem activation_then_login_witness:
  "\<exists>s1 s2. xlink_process_tcp_data (frame_head 0x0B 9 @ [0, 0, 0, 0, 7, 0, 2, 65, 66]) 14 9 sample_cloud = Inr s1
    \<and> XlinkTcpLoop [] 101 s1 = Inr s2
    \<and> clog s2 = [Tcp_Sent (tcp_short M_CONNECT False 12 ([3, 0, 0, 0, 7, 0, 2, 65, 66, 0] @ be16 60))]"
proof -
  have h: "header_type 0x0B = M_ACTIVATE" by (simp add: header_type_def)
  have f: "\<not> has_flag flag_isChangedPassword (config sample_session_state)"
    by (simp add: sample_session_state_def has_flag_def)
  have body: "[0, 0, 0, 0, 7, 0, 2, 65, 66] = [0] @ [0, 0, 0, 7] @ be16 (of_nat (length [65, 66 :: byte])) @ [65, 66]"
    by (simp add: be_small)
  have nine: "length [0, 0, 0, 0, 7, 0, 2, 65, 66 :: byte] = 9" "(of_nat 9 :: u32) = 9" by simp_all
  show ?thesis
    using activation_then_login [OF h _ _ _ _ _ body, of sample_cloud "[]" 14 "[]" 101, unfolded nine] f by auto
qed

section \<open>Boundary cases\<close>

text \<open>An error of \<^verbatim>\<open>recv\<close>, -1, while the body is collected counts as 65535 bytes: the next piece lands one byte early.\<close>

lemma recv_error_shifts: "0 < n \<Longrightarrow> body_loop n 0 buf ((-1, d) # rs) = body_loop n (-1) buf rs"
  by simp

text \<open>An answer on port 80 that fills the buffer makes the terminating zero land behind it.\<close>

lemma http_answer_overrun:
  "length d = RECV_SIZE \<Longrightarrow> length buf = RECV_SIZE \<Longrightarrow> tcp_http buf ((int RECV_SIZE, d) # rs) s = Inl Out_Of_Bounds"
  by (simp add: tcp_http_def memcpy_at_def)

lemma sint_byte: "sint (b :: byte) = int (unat b) - (if 128 \<le> unat b then 256 else 0)"
proof -
  have u: "unat b < 256" using unsigned_less [of b, where 'a = nat] by simp
  have "sint b = (int (unat b) + 128) mod 256 - 128"
    by (simp add: sint_uint signed_take_bit_eq_take_bit_shift take_bit_eq_mod)
  moreover have "(int n + 128) mod 256 - 128 = int n - (if 128 \<le> n then 256 else 0)" if "n < 256" for n
    using that by (cases "128 \<le> n") (simp_all add: mod_pos_pos_trivial mod_pos_geq)
  ultimately show ?thesis using u by presburger
qed

text \<open>The port of an announced server is put together from signed characters: it is off by 256 when the low byte is 128 or more.\<close>

lemma announced_port:
  assumes "choose_host s = Inr (host, s')" "take 72 (domain_ip (flash (dev s))) ! 2 \<noteq> 0"
    "hi = take 72 (domain_ip (flash (dev s))) ! 0" "lo = take 72 (domain_ip (flash (dev s))) ! 1" "unat hi < 128"
  shows "Xlink_TCP_ConnectPort s' = int (unat hi * 256 + unat lo) - (if 128 \<le> unat lo then 256 else 0)"
  using assms by (auto simp: choose_host_def Let_def sint_byte split: if_splits)

end
