(* ===== verification/CloudRun.thy ===== *)
theory CloudRun imports CloudData begin

text \<open>
  Runs of the client connected to the cloud: what holds from its initialisation on, when a connection on which
  nothing arrives ends, and what the clock shows.
\<close>

section \<open>From the start on\<close>

lemma length_xlinkflag:
  assumes "length (md5_in ctx) = 64" "length pid \<le> 1000" "length key \<le> 1000" "mac \<noteq> []"
  shows "length (xlinkflag ctx pid key mac) = 16"
proof -
  define m where "m = c_string pid @ concat (map hex_upper (take 6 mac)) @ c_string key"
  have hex: "length (concat (map hex_upper xs)) = 2 * length xs" for xs
    by (induction xs) (simp_all add: hex_upper_def)
  have cs: "length (c_string xs) \<le> length xs" for xs by (simp add: c_string_def length_takeWhile_le)
  have "length m \<le> 2012" using hex [of "take 6 mac"] cs [of pid] cs [of key] assms(2,3) unfolding m_def by (simp only: length_append) simp
  moreover have "m \<noteq> []" using hex [of "take 6 mac"] assms(4) unfolding m_def by (cases mac) (auto simp: hex_upper_def)
  ultimately have "xlinkGetMd5 ctx m = Some (rfc_md5 m)" using assms(1) by (intro xlinkGetMd5_spec) auto
  then show ?thesis by (simp add: xlinkflag_def Let_def m_def)
qed

lemma flash_of_image_ok: "length b = 180 \<Longrightarrow> flash_ok (flash_of_image b)"
  by (simp add: flash_ok_def flash_of_image_def)

lemma flash_ok_init:
  assumes "xsdk_config_init ctx pid key mac (Some saved) = (f, img)" "length saved = 180" "length (xlinkflag ctx pid key mac) = 16"
  shows "flash_ok f"
  using assms flash_of_image_ok [of "masked saved"]
  by (auto simp: xsdk_config_init_def Let_def flash_ok_def zero_flash_def split: if_splits)

lemma XlinkInit_ok:
  assumes "XlinkInit cb saved pid key s0 = Inr (True, s)" "length saved = 180" "length (u_mac (user (dev s0))) = 32"
    "length (md5_in (md5_ctx (dev s0))) = 64" "length key \<le> 1000"
  shows "cloud_ok s"
proof -
  define u where "u = user (dev s0)"
  have c: "length (c_string pid) = 32" "maclen u \<le> 32" "length key \<ge> 32"
    using assms(1) unfolding XlinkInit_def Let_def u_def by (auto split: if_splits simp: not_less)
  obtain f img where init: "xsdk_config_init (md5_ctx (dev s0)) (c_string pid) (c_string key) (take 6 (u_mac u)) (Some saved) = (f, img)"
    by fastforce
  have "length (c_string key) \<le> 1000" using assms(5) by (simp add: c_string_def) (meson length_takeWhile_le order_trans)
  moreover have "take 6 (u_mac u) \<noteq> []" using assms(3) by (auto simp: u_def)
  ultimately have ok: "flash_ok f"
    using flash_ok_init [OF init assms(2)] length_xlinkflag [OF assms(4)] c(1) by simp
  define d where "d = (case img of None \<Rightarrow> (dev s0)\<lparr>flash := f\<rparr> | Some b \<Rightarrow> sdk_put (Config_Written b) ((dev s0)\<lparr>flash := f\<rparr>))"
  have d: "flash d = f" "user d = u" by (simp_all add: d_def u_def split: option.split)
  have run: "s = XlinkGetServerTime ((XlinkNetInit (on_dev (XlinkV4UdpInit \<circ> XlinnkClientInit)
      (XlinkSdkDataInit pid key (s0\<lparr>isSystemInited := False, dev := d\<rparr>))))\<lparr>isConnectWifi := True, isSystemInited := True,
         m_currentSystemTime := zero_time, isInitSystem := False\<rparr>)"
    using assms(1) init unfolding XlinkInit_def Let_def u_def [symmetric]
    by (cases img) (auto split: if_splits simp: d_def u_def)
  define e where "e = dev (XlinkSdkDataInit pid key (s0\<lparr>isSystemInited := False, dev := d\<rparr>))"
  have e: "flash_ok (flash e)" "length (Deviceid (config e)) = 4" "user e = u"
    using ok flash_ok_write(1) [OF ok] unfolding e_def XlinkSdkDataInit_def XlinkSetDeviceName_def Let_def
    by (simp_all add: d flash_ok_def [of f] del: xsdk_write_config.simps)
  have "dev s = XlinkV4UdpInit (XlinnkClientInit e)"
    unfolding run by (simp add: XlinkGetServerTime_def XlinkNetInit_def on_dev_def e_def)
  then have "sdk_ok (dev s)"
    using e assms(3) c(2) table_ok_Init [of e] by (simp add: sdk_ok_def XlinkV4UdpInit_def XlinnkClientInit_def u_def)
  moreover have "\<not> isLogined s" unfolding run by (simp add: XlinkGetServerTime_def XlinkNetInit_def)
  ultimately show ?thesis by (simp add: cloud_ok_def login_ok_def)
qed



section \<open>A silent connection\<close>

text \<open>
  A turn of the loop in which nothing is received, at a given time, and a run of such turns. Times are
  seconds.
\<close>

definition silent_turn :: "bytes \<Rightarrow> u64 \<Rightarrow> xcloud \<Rightarrow> xcloud c_result" where
  "silent_turn ss t s = set_event_tcp ss t (on_dev (g_XlinkSdkTime_update (\<lambda>_. t)) s)"

primrec silent_turns :: "bytes \<Rightarrow> u64 list \<Rightarrow> xcloud \<Rightarrow> xcloud c_result" where
  "silent_turns ss [] s = Inr s"
| "silent_turns ss (t # ts) s = c_bind (silent_turn ss t s) (silent_turns ss ts)"

text \<open>Every turn is at most \<open>g\<close> seconds after the one before.\<close>

primrec paced :: "nat \<Rightarrow> nat \<Rightarrow> u64 list \<Rightarrow> bool" where
  "paced g now [] = True"
| "paced g now (t # ts) = (now \<le> unat t \<and> unat t \<le> now + g \<and> unat t < 2 ^ 32 \<and> paced g (unat t) ts)"

definition now_of :: "xcloud \<Rightarrow> nat" where
  "now_of s = unat (g_XlinkSdkTime (dev s))"

definition timer_end :: "xcloud \<Rightarrow> nat" where
  "timer_end s = unat (timer_time (tcp_timer s)) + unat (outtime (tcp_timer s))"

text \<open>An open connection whose timers are not in the future.\<close>

definition waiting :: "xcloud \<Rightarrow> bool" where
  "waiting s \<longleftrightarrow> 0 < tcp_fd s \<and> isConnectWifi s \<and> work_type s \<noteq> TCP_NOT_CONNECT \<and> now_of s < 2 ^ 32 \<and>
     strlen (hostNameOrIp s) \<le> 64 \<and> \<bar>ServerPort s\<bar> < 100000 \<and>
     unat (timer_time (tcp_timer s)) \<le> now_of s \<and> unat (outtime (tcp_timer s)) \<le> 20 \<and>
     (work_type s = TCP_PING \<longrightarrow> unat (lastPingTime s) \<le> now_of s \<and> tcpPingCount s = 0)"

text \<open>The time at which it has ended at the latest.\<close>

definition deadline :: "nat \<Rightarrow> xcloud \<Rightarrow> nat" where
  "deadline g s =
     (case work_type s of
        TCP_PING \<Rightarrow> max (unat (lastPingTime s) + 20) (now_of s) + 35 + 3 * g
      | TCP_WAIT_PING_RESULT \<Rightarrow> max (timer_end s) (now_of s) + g + (2 - unat (tcpPingCount s)) * (15 + g)
      | TCP_ACTIVATION \<Rightarrow> now_of s + 15 + 3 * g
      | TCP_CONNECT \<Rightarrow> now_of s + 15 + 2 * g
      | TCP_SEND_HTTPCONNECT \<Rightarrow> now_of s + 15 + 2 * g
      | _ \<Rightarrow> max (timer_end s) (now_of s) + g)"

lemma deadline_bound: "waiting s \<Longrightarrow> deadline g s \<le> now_of s + 55 + 3 * g"
proof -
  assume w: "waiting s"
  have "(2 - unat (tcpPingCount s)) * (15 + g) \<le> 2 * (15 + g)" by (rule mult_right_mono) simp_all
  then show ?thesis
    using w unfolding deadline_def waiting_def timer_end_def by (auto split: XLINK_TCP_WORK_TYPE.split)
qed

lemma timer_out:
  assumes "unat (timer_time m) \<le> unat t" "unat t < 2 ^ 32" "unat (outtime m) \<le> 20"
  shows "xsdk_tiemr_timerout t m = (unat (timer_time m) + unat (outtime m) \<le> unat t, m)"
proof -
  have u: "unat (ucast (outtime m) :: u64) = unat (outtime m)" using assms(3) by (simp add: unsigned_ucast_eq take_bit_nat_eq_self)
  have "unat (ucast (outtime m) + timer_time m) = unat (outtime m) + unat (timer_time m)"
    using assms by (subst unat_plus_if') (simp add: u)
  then show ?thesis using assms(1) by (simp add: xsdk_tiemr_timerout_def word_le_nat_alt add.commute)
qed

lemma ping_due:
  assumes "unat p \<le> unat t" "unat t < 2 ^ 32"
  shows "20 < (ucast (t - p :: u64) :: u32) \<longleftrightarrow> unat p + 20 < unat t"
proof -
  have "unat (t - p) = unat t - unat p" using assms(1) by (simp add: unat_sub word_le_nat_alt)
  then have "unat (ucast (t - p) :: u32) = unat t - unat p"
    using assms(2) by (simp add: unsigned_ucast_eq take_bit_nat_eq_self)
  then show ?thesis using assms(1) by (simp add: word_less_nat_alt) arith
qed

lemma http_connect_fits:
  assumes "strlen (hostNameOrIp s) \<le> 64" "\<bar>ServerPort s\<bar> < 100000"
  shows "xlink_tcp_send_http_connect s = Inr (XlinkTcpSendData (str ''CONNECT '' @ c_string (hostNameOrIp s) @ str '':''
    @ decimal (ServerPort s) @ str '' HTTP/1.1Host: '' @ c_string (hostNameOrIp s) @ str '':'' @ decimal (ServerPort s) @ [13, 10]) s)"
proof -
  have "length (decimal n) \<le> 6" if "\<bar>n\<bar> < 100000" for n
  proof -
    have "nat \<bar>n\<bar> < 10 ^ Suc 4" using that by (simp add: nat_less_iff)
    from length_decimal_nat [OF this] show ?thesis by (cases "n < 0") (simp_all add: decimal_def abs_if)
  qed
  note d = this [OF assms(2)]
  have fits: "\<not> 255 \<le> length (str ''CONNECT '' @ c_string (hostNameOrIp s) @ str '':'' @ decimal (ServerPort s) @ str '' HTTP/1.1Host: ''
      @ c_string (hostNameOrIp s) @ str '':'' @ decimal (ServerPort s) @ [13, 10])"
    using d assms(1) by (simp add: str_def)
  show ?thesis unfolding xlink_tcp_send_http_connect_def Let_def if_not_P [OF fits] ..
qed

text \<open>One turn: it ends the connection, or it leaves one that still waits, with a deadline that is no later.\<close>

definition progress :: "nat \<Rightarrow> nat \<Rightarrow> xcloud \<Rightarrow> bool" where
  "progress g limit s \<longleftrightarrow> tcp_fd s \<le> 0 \<or> waiting s \<and> deadline g s \<le> limit \<and> now_of s < deadline g s"

lemma close_progress: "progress g n (xsdk_closeTCP True s)"
  using closed_state [of s] by (simp add: progress_def)

lemma wait_fields:
  "now_of (timer_start n s) = now_of s" "timer_end (timer_start 15 s) = now_of s + 15" "timer_end (timer_start 20 s) = now_of s + 20"
  "unat (timer_time (tcp_timer (timer_start n s))) = now_of s" "outtime (tcp_timer (timer_start n s)) = n"
  "work_type (timer_start n s) = work_type s" "tcpPingCount (timer_start n s) = tcpPingCount s"
  "tcp_fd (timer_start n s) = tcp_fd s" "isConnectWifi (timer_start n s) = isConnectWifi s"
  "hostNameOrIp (timer_start n s) = hostNameOrIp s" "ServerPort (timer_start n s) = ServerPort s"
  "lastPingTime (timer_start n s) = lastPingTime s"
  by (simp_all add: timer_start_def xsdk_timer_set_def now_of_def timer_end_def)

lemma send_fields [simp]:
  "isConnectWifi (XlinkTcpSendData d s) = isConnectWifi s" "hostNameOrIp (XlinkTcpSendData d s) = hostNameOrIp s"
  "ServerPort (XlinkTcpSendData d s) = ServerPort s" "tcpPingCount (XlinkTcpSendData d s) = tcpPingCount s"
  "tcp_timer (XlinkTcpSendData d s) = tcp_timer s" "work_type (XlinkTcpSendData d s) = work_type s"
  by (simp_all add: XlinkTcpSendData_def cput_def)

lemma wait_updates:
  "now_of (s\<lparr>work_type := w\<rparr>) = now_of s" "now_of (s\<lparr>lastPingTime := p\<rparr>) = now_of s" "now_of (s\<lparr>tcpPingCount := n\<rparr>) = now_of s"
  "timer_end (s\<lparr>work_type := w\<rparr>) = timer_end s" "now_of (XlinkTcpSendData d s) = now_of s"
  by (simp_all add: now_of_def timer_end_def)

lemma TcpLoop_progress:
  assumes "waiting s" "unat t = now_of s" "before \<le> now_of s" "now_of s \<le> before + g" "0 < g"
    "deadline g (on_dev (g_XlinkSdkTime_update (\<lambda>_. t0)) s) \<le> limit" "unat t0 = before"
    "unat (timer_time (tcp_timer s)) \<le> before" "work_type s = TCP_PING \<longrightarrow> unat (lastPingTime s) \<le> before"
  shows "\<exists>s'. XlinkTcpLoop ss t s = Inr s' \<and> progress g limit s'"
proof -
  define s0 where "s0 = on_dev (g_XlinkSdkTime_update (\<lambda>_. t0)) s"
  have n0: "now_of s0 = before" "work_type s0 = work_type s" "lastPingTime s0 = lastPingTime s" "timer_end s0 = timer_end s"
    "tcpPingCount s0 = tcpPingCount s"
    using assms(7) by (simp_all add: s0_def on_dev_def now_of_def timer_end_def)
  have lim: "deadline g s0 \<le> limit" using assms(6) by (simp add: s0_def)
  have now: "now_of s < 2 ^ 32" "unat t < 2 ^ 32" using assms(1,2) by (simp_all add: waiting_def)
  have tm: "timer_check s = (timer_end s \<le> now_of s, s)"
    using timer_out [of "tcp_timer s" "g_XlinkSdkTime (dev s)"] assms(1)
    by (simp add: timer_check_def waiting_def now_of_def timer_end_def)
  show ?thesis
  proof (cases "work_type s")
    case TCP_NOT_CONNECT
    then show ?thesis using assms(1) by (simp add: waiting_def)
  next
    case TCP_SEND_HTTPCONNECT
    then show ?thesis
      using assms(1,3,4,5) lim n0 http_connect_fits [of s]
      by (simp add: XlinkTcpLoop_def waiting_def progress_def deadline_def wait_fields) (simp add: now_of_def)
  next
    case TCP_ACTIVATION
    then show ?thesis
      using assms(1-5) lim n0 unfolding XlinkTcpLoop_def XlinkTcpWorkActivation_def Let_def
      by (auto simp: waiting_def progress_def deadline_def wait_fields wait_updates)
  next
    case TCP_CONNECT
    then show ?thesis
      using assms(1-5) lim n0 closed_state unfolding XlinkTcpLoop_def XlinkTcpWorkConnect_def Let_def
      by (auto simp: waiting_def progress_def deadline_def wait_fields wait_updates)
  next
    case TCP_PING
    have p: "unat (lastPingTime s) \<le> unat t" using assms(1,2) TCP_PING by (simp add: waiting_def)
    have due: "20 < (ucast (t - lastPingTime s) :: u32) \<longleftrightarrow> unat (lastPingTime s) + 20 < now_of s"
      using ping_due [OF p now(2)] assms(2) by simp
    show ?thesis
      using assms(1-5) lim n0 TCP_PING p unfolding XlinkTcpLoop_def XlinkTcpWorkPing_def due
      by (auto simp: waiting_def progress_def deadline_def wait_fields wait_updates word_less_nat_alt)
  next
    case TCP_WAIT_PING_RESULT
    consider "\<not> timer_end s \<le> now_of s" | "timer_end s \<le> now_of s" "1 < tcpPingCount s"
      | "timer_end s \<le> now_of s" "\<not> 1 < tcpPingCount s" by blast
    then show ?thesis
    proof cases
      case 1
      then have "XlinkTcpLoop ss t s = Inr s" by (simp add: XlinkTcpLoop_def tm TCP_WAIT_PING_RESULT)
      moreover have "progress g limit s"
        using 1 assms(1-5) lim n0 TCP_WAIT_PING_RESULT by (auto simp: progress_def deadline_def)
      ultimately show ?thesis by blast
    next
      case 2
      then have "XlinkTcpLoop ss t s = Inr (xsdk_closeTCP True s)" by (simp add: XlinkTcpLoop_def tm TCP_WAIT_PING_RESULT)
      then show ?thesis using close_progress by blast
    next
      case 3
      then have c: "unat (tcpPingCount s + 1) = unat (tcpPingCount s) + 1" "unat (tcpPingCount s) \<le> 1"
        by (auto simp: word_less_nat_alt word_le_nat_alt unat_word_ariths)
      then have "unat (tcpPingCount s) = 0 \<or> unat (tcpPingCount s) = 1" by linarith
      then show ?thesis
        using assms(1-5) lim n0 TCP_WAIT_PING_RESULT 3 c
        by (auto simp: XlinkTcpLoop_def XlinkTcpWorkPing_def tm waiting_def progress_def deadline_def wait_fields wait_updates)
    qed
  next
    case TCP_WAIT_HTTP_RESULT
    then have "XlinkTcpLoop ss t s = Inr (if timer_end s \<le> now_of s then xsdk_closeTCP True (timer_start 15 s) else s)"
      by (simp add: XlinkTcpLoop_def tm)
    then show ?thesis
      using assms(1-5) lim n0 TCP_WAIT_HTTP_RESULT close_progress by (auto simp: progress_def deadline_def)
  next
    case TCP_WAIT_ACTIVE_RESULT
    then have "XlinkTcpLoop ss t s = Inr (if timer_end s \<le> now_of s then xsdk_closeTCP True (timer_start 15 s) else s)"
      by (simp add: XlinkTcpLoop_def tm)
    then show ?thesis
      using assms(1-5) lim n0 TCP_WAIT_ACTIVE_RESULT close_progress by (auto simp: progress_def deadline_def)
  next
    case TCP_WAIT_CONNECT_RESULT
    then have "XlinkTcpLoop ss t s = Inr (if timer_end s \<le> now_of s then xsdk_closeTCP True (timer_start 15 s) else s)"
      by (simp add: XlinkTcpLoop_def tm)
    then show ?thesis
      using assms(1-5) lim n0 TCP_WAIT_CONNECT_RESULT close_progress by (auto simp: progress_def deadline_def)
  qed
qed

lemma TcpLoop_now: "XlinkTcpLoop ss t s = Inr s' \<Longrightarrow> now_of s' = now_of s"
  unfolding XlinkTcpLoop_def xlink_tcp_send_http_connect_def timer_check_def Let_def now_of_def
  by (auto split: XLINK_TCP_WORK_TYPE.splits if_splits prod.splits bool.splits
      simp: timer_start_def XlinkTcpWorkPing_def XlinkTcpWorkConnect_def XlinkTcpWorkActivation_def save_config_def Let_def)

lemma silent_turn_progress:
  assumes "tcp_fd s \<le> 0 \<or> waiting s \<and> deadline g s \<le> limit" "0 < g"
    "0 < tcp_fd s \<Longrightarrow> now_of s \<le> unat t \<and> unat t \<le> now_of s + g \<and> unat t < 2 ^ 32"
  shows "\<exists>s'. silent_turn ss t s = Inr s' \<and> progress g limit s' \<and> (0 < tcp_fd s' \<longrightarrow> now_of s' = unat t)"
proof (cases "0 < tcp_fd s")
  case False
  then show ?thesis by (simp add: silent_turn_def set_event_tcp_def Let_def on_dev_def progress_def)
next
  case True
  define s1 where "s1 = on_dev (g_XlinkSdkTime_update (\<lambda>_. t)) s"
  have w: "waiting s" "deadline g s \<le> limit" using assms(1) True by auto
  have t: "now_of s \<le> unat t" "unat t \<le> now_of s + g" "unat t < 2 ^ 32" using assms(3) [OF True] by auto
  have n: "now_of s1 = unat t" by (simp add: s1_def on_dev_def now_of_def)
  have w1: "waiting s1"
    using w(1) t unfolding waiting_def n by (auto simp: s1_def on_dev_def)
  have same: "on_dev (g_XlinkSdkTime_update (\<lambda>_. g_XlinkSdkTime (dev s))) s1 = s" by (simp add: s1_def on_dev_def)
  have timers: "unat (timer_time (tcp_timer s1)) \<le> now_of s" "work_type s1 = TCP_PING \<longrightarrow> unat (lastPingTime s1) \<le> now_of s"
    using w(1) by (auto simp: s1_def on_dev_def waiting_def)
  have lim: "deadline g (on_dev (g_XlinkSdkTime_update (\<lambda>_. g_XlinkSdkTime (dev s))) s1) \<le> limit"
    unfolding same by (rule w(2))
  have "now_of s \<le> now_of s1" "now_of s1 \<le> now_of s + g" "unat (g_XlinkSdkTime (dev s)) = now_of s"
    unfolding n using t by (simp_all add: now_of_def)
  from TcpLoop_progress [OF w1 n [symmetric] this(1,2) assms(2) lim this(3) timers]
  obtain s' where s': "XlinkTcpLoop ss t s1 = Inr s'" "progress g limit s'" by blast
  have "silent_turn ss t s = Inr s'"
    using s'(1) w1 unfolding silent_turn_def set_event_tcp_def Let_def s1_def [symmetric] by (simp add: waiting_def)
  then show ?thesis using s'(2) TcpLoop_now [OF s'(1)] n by simp
qed

lemma silent_turns_progress:
  assumes "progress g limit s" "0 < g" "0 < tcp_fd s \<Longrightarrow> paced g (now_of s) ts"
  shows "\<exists>s'. silent_turns ss ts s = Inr s' \<and> progress g limit s' \<and> (0 < tcp_fd s' \<longrightarrow> now_of s' = (if ts = [] then now_of s else unat (last ts)))"
  using assms
proof (induction ts arbitrary: s)
  case (Cons t ts)
  obtain s1 where s1: "silent_turn ss t s = Inr s1" "progress g limit s1" "0 < tcp_fd s1 \<longrightarrow> now_of s1 = unat t"
    using silent_turn_progress [of s g limit t ss] Cons.prems by (auto simp: progress_def)
  have "0 < tcp_fd s" if "0 < tcp_fd s1"
    using s1(1) that by (cases "0 < tcp_fd s") (auto simp: silent_turn_def set_event_tcp_def Let_def on_dev_def)
  then have "0 < tcp_fd s1 \<Longrightarrow> paced g (now_of s1) ts" using Cons.prems(3) s1(3) by auto
  from Cons.IH [OF s1(2) Cons.prems(2) this] s1 show ?case by auto
qed simp

text \<open>
  C18. A server that has gone silent is noticed. Take an open connection in any work state, whose timers are not in the future,
  and turns of the loop at most \<open>g\<close> seconds apart in which nothing arrives. Whatever state it was in, after
  55 + 3 \<open>g\<close> seconds the connection has been closed, and no turn fails.
\<close>

theorem silent_server_dropped:
  assumes "waiting s" "0 < g" "paced g (now_of s) ts" "ts \<noteq> []" "now_of s + 55 + 3 * g \<le> unat (last ts)"
  shows "\<exists>s'. silent_turns ss ts s = Inr s' \<and> tcp_fd s' \<le> 0"
proof -
  define limit where "limit = now_of s + 55 + 3 * g"
  obtain t ts' where ts: "ts = t # ts'" using assms(4) by (cases ts) auto
  obtain s1 where s1: "silent_turn ss t s = Inr s1" "progress g limit s1" "0 < tcp_fd s1 \<longrightarrow> now_of s1 = unat t"
    using silent_turn_progress [of s g limit t ss] assms(1-3) deadline_bound [OF assms(1), of g] by (auto simp: ts limit_def)
  then have "0 < tcp_fd s1 \<Longrightarrow> paced g (now_of s1) ts'" using assms(3) by (simp add: ts)
  from silent_turns_progress [OF s1(2) assms(2) this]
  obtain s' where s': "silent_turns ss ts' s1 = Inr s'" "progress g limit s'"
    "0 < tcp_fd s' \<longrightarrow> now_of s' = (if ts' = [] then now_of s1 else unat (last ts'))" by blast
  have "\<not> 0 < tcp_fd s'"
  proof
    assume o: "0 < tcp_fd s'"
    have "0 < tcp_fd s1" if "ts' = []" using s'(1) that o by simp
    then have "now_of s' = unat (last ts)" using s'(3) o s1(3) by (auto simp: ts)
    then show False using s'(2) o assms(5) by (auto simp: progress_def limit_def)
  qed
  then show ?thesis using s1(1) s'(1) by (auto simp: ts not_less)
qed

theorem silent_server_dropped_witness:
  "\<exists>s'. silent_turns [] [130, 160, 190, 220, 250] sample_cloud = Inr s' \<and> tcp_fd s' \<le> 0"
proof -
  have n: "now_of sample_cloud = 100" by (simp add: now_of_def sample_session_state_def)
  have "length (c_string (padded 64 (str ''cm2.xlink.cn''))) \<le> 64"
    unfolding c_string_def by (rule order_trans [OF length_takeWhile_le]) (simp add: padded_def str_def)
  then have w: "waiting sample_cloud"
    unfolding waiting_def n by (simp add: sample_cloud_def)
  show ?thesis
    by (rule silent_server_dropped [OF w, of 30]) (simp_all add: n)
qed

section \<open>The clock\<close>

text \<open>The calendar, one second at a time.\<close>

definition month_days :: "u16 \<Rightarrow> byte \<Rightarrow> nat" where
  "month_days y m = (if m = 2 then if is_leap y then 29 else 28 else if m \<in> {4, 6, 9, 11} then 30 else 31)"

definition next_date :: "XLINK_SYS_TIME \<Rightarrow> XLINK_SYS_TIME" where
  "next_date t =
     (let t = t\<lparr>t_week := (if t_week t = 6 then 0 else t_week t + 1)\<rparr> in
      if unat (t_day t) < month_days (t_year t) (t_mon t) then t\<lparr>t_day := t_day t + 1\<rparr>
      else if t_mon t < 12 then t\<lparr>t_day := 1, t_mon := t_mon t + 1\<rparr>
      else t\<lparr>t_day := 1, t_mon := 1, t_year := t_year t + 1\<rparr>)"

definition next_minute :: "XLINK_SYS_TIME \<Rightarrow> XLINK_SYS_TIME" where
  "next_minute t =
     (if t_min t < 59 then t\<lparr>t_min := t_min t + 1\<rparr>
      else if t_hour t < 23 then t\<lparr>t_min := 0, t_hour := t_hour t + 1\<rparr>
      else next_date (t\<lparr>t_min := 0, t_hour := 0\<rparr>))"

definition tick :: "XLINK_SYS_TIME \<Rightarrow> XLINK_SYS_TIME" where
  "tick t = (if t_sec t < 59 then t\<lparr>t_sec := t_sec t + 1\<rparr> else next_minute (t\<lparr>t_sec := 0\<rparr>))"

definition time_ok :: "XLINK_SYS_TIME \<Rightarrow> bool" where
  "time_ok t \<longleftrightarrow> t_sec t < 60 \<and> t_min t < 60 \<and> t_hour t < 24 \<and> t_week t < 7 \<and> 0 < t_mon t \<and> t_mon t \<le> 12 \<and>
     0 < t_day t \<and> unat (t_day t) \<le> month_days (t_year t) (t_mon t)"

definition clock_ok :: "xcloud \<Rightarrow> bool" where
  "clock_ok s \<longleftrightarrow> time_ok (m_currentSystemTime s) \<and> leap_February s = is_leap (t_year (m_currentSystemTime s))"

lemma next_minute_sec: "next_minute (t\<lparr>t_sec := x\<rparr>) = (next_minute t)\<lparr>t_sec := x\<rparr>"
  by (simp add: next_minute_def next_date_def Let_def)

lemma ticks_within_minute:
  "unat (t_sec t) + e < 60 \<Longrightarrow> (tick ^^ e) t = t\<lparr>t_sec := t_sec t + of_nat e\<rparr>"
proof (induction e)
  case (Suc e)
  have "unat (t_sec t + of_nat e) = unat (t_sec t) + e"
    using Suc.prems by (subst unat_plus_if') (simp add: unat_of_nat)
  then have "t_sec t + of_nat e < 59" using Suc.prems by (simp add: word_less_nat_alt)
  then show ?case using Suc by (simp add: tick_def add.assoc add.commute)
qed simp

lemma ticks_over_minute:
  assumes "unat (t_sec t) < 60" "60 \<le> unat (t_sec t) + e" "e \<le> 60"
  shows "(tick ^^ e) t = (next_minute t)\<lparr>t_sec := t_sec t + of_nat e - 60\<rparr>"
proof -
  define k where "k = 59 - unat (t_sec t)"
  define r where "r = e - Suc k"
  have e: "e = r + Suc k" "unat (t_sec t) + k = 59" "r < 60" "unat (t_sec t) + e = r + 60"
    using assms by (simp_all add: k_def r_def)
  have "t_sec t + of_nat k = of_nat (unat (t_sec t) + k)" by simp
  then have k: "(tick ^^ k) t = t\<lparr>t_sec := 59\<rparr>" using ticks_within_minute [of t k] e(2) by simp
  have zero: "(tick ^^ Suc k) t = (next_minute t)\<lparr>t_sec := 0\<rparr>"
    by (simp add: k tick_def next_minute_sec)
  have "t_sec t + of_nat e = of_nat (unat (t_sec t) + e)" by simp
  then have "t_sec t + of_nat e - 60 = of_nat r" unfolding e(4) by simp
  moreover have "(tick ^^ r) ((next_minute t)\<lparr>t_sec := 0\<rparr>) = (next_minute t)\<lparr>t_sec := of_nat r\<rparr>"
    using ticks_within_minute [of "(next_minute t)\<lparr>t_sec := 0\<rparr>" r] e(3) by simp
  ultimately show ?thesis unfolding e(1) funpow_add o_apply zero by simp
qed

lemma byte_succ: "x < m \<Longrightarrow> unat (x + 1 :: byte) = unat x + 1"
proof -
  assume "x < m"
  then have "unat x < unat m" by (simp add: word_less_nat_alt)
  moreover have "unat m < 256" using unsigned_less [of m, where 'a = nat] by simp
  ultimately have "Suc (unat x) < 256" by linarith
  then show ?thesis by (simp add: unat_word_ariths)
qed

lemma month_cases: "0 < m \<Longrightarrow> m \<le> 12 \<Longrightarrow> m \<in> {1, 2, 3, 4, 5, 6, 7, 8, 9, 10, 11, 12 :: byte}"
proof -
  assume "0 < m" "m \<le> 12"
  then have "unat m \<in> {1, 2, 3, 4, 5, 6, 7, 8, 9, 10, 11, 12}" by (simp add: word_less_nat_alt word_le_nat_alt) arith
  then show ?thesis by (auto simp: word_unat_eq_iff)
qed

lemma dayOfMonth_month_days:
  assumes "0 < m" "m \<le> 12" shows "dayOfMonth (is_leap y) ! (unat m - 1) = month_days y m"
  using month_cases [OF assms] by (auto simp: dayOfMonth_def month_days_def)

lemma month_days_le: "month_days y m \<le> 31" "28 \<le> month_days y m"
  by (auto simp: month_days_def)

lemma next_day_next_date:
  assumes "m_currentSystemTime s = t" "leap_February s = is_leap (t_year t)" "t_week t < 7" "0 < t_mon t" "t_mon t \<le> 12"
    "0 < t_day t" "unat (t_day t) \<le> month_days (t_year t) (t_mon t)"
  shows "next_day s = Inr (s\<lparr>m_currentSystemTime := next_date (t\<lparr>t_hour := 0\<rparr>), leap_February := is_leap (t_year (next_date t))\<rparr>)"
proof -
  have d: "unat (t_day t + 1) = unat (t_day t) + 1"
    using assms(7) month_days_le(1) [of "t_year t" "t_mon t"] by (intro byte_succ [of _ 100]) (simp add: word_less_nat_alt)
  have m: "12 < t_mon t + 1 \<longleftrightarrow> \<not> t_mon t < 12"
    using month_cases [OF assms(4,5)] by (elim insertE) simp_all
  have w: "t_week t + 1 = 7 \<longleftrightarrow> t_week t = 6"
    using add_right_cancel [of "t_week t" 1 6] by simp
  have r: "s\<lparr>m_currentSystemTime := x\<rparr> = s\<lparr>m_currentSystemTime := x, leap_February := leap_February s\<rparr>" for x by simp
  have nz: "t_mon t \<noteq> 0" "\<not> 12 < t_mon t" using assms(4,5) by auto
  show ?thesis
    unfolding next_day_def Let_def assms(1)
    using dayOfMonth_month_days [OF assms(4,5), of "t_year t"] nz m w assms(2)
    by (auto simp: next_date_def Let_def d)
qed

lemma next_minute_count:
  assumes "time_ok (t\<lparr>t_sec := 0\<rparr>)" "leap_February s = is_leap (t_year t)"
  shows "(let minute = t_min t + 1; t = t\<lparr>t_min := (if 60 \<le> minute then 0 else minute)\<rparr>
      in if minute < 60 then Inr (s\<lparr>m_currentSystemTime := t\<rparr>)
         else if t_hour t + 1 < 24 then Inr (s\<lparr>m_currentSystemTime := t\<lparr>t_hour := t_hour t + 1\<rparr>\<rparr>)
         else next_day (s\<lparr>m_currentSystemTime := t\<rparr>))
    = Inr (s\<lparr>m_currentSystemTime := next_minute t, leap_February := is_leap (t_year (next_minute t))\<rparr>)"
proof -
  have ok: "t_min t < 60" "t_hour t < 24" "t_week t < 7" "0 < t_mon t" "t_mon t \<le> 12" "0 < t_day t"
    "unat (t_day t) \<le> month_days (t_year t) (t_mon t)"
    using assms(1) by (simp_all add: time_ok_def)
  have mi: "t_min t + 1 < 60 \<longleftrightarrow> t_min t < 59" "60 \<le> t_min t + 1 \<longleftrightarrow> \<not> t_min t < 59"
    using byte_succ [OF ok(1)] by (simp_all add: word_less_nat_alt word_le_nat_alt not_less)
  have ho: "t_hour t + 1 < 24 \<longleftrightarrow> t_hour t < 23"
    using byte_succ [OF ok(2)] by (simp add: word_less_nat_alt)
  have r: "s\<lparr>m_currentSystemTime := x\<rparr> = s\<lparr>m_currentSystemTime := x, leap_February := leap_February s\<rparr>" for x by simp
  have day: "next_day (s\<lparr>m_currentSystemTime := t\<lparr>t_min := 0\<rparr>\<rparr>) =
      Inr (s\<lparr>m_currentSystemTime := next_date (t\<lparr>t_min := 0, t_hour := 0\<rparr>),
        leap_February := is_leap (t_year (next_date (t\<lparr>t_min := 0, t_hour := 0\<rparr>)))\<rparr>)"
    using next_day_next_date [of "s\<lparr>m_currentSystemTime := t\<lparr>t_min := 0\<rparr>\<rparr>" "t\<lparr>t_min := 0\<rparr>"] ok assms(2)
    by (simp add: next_date_def Let_def)
  show ?thesis
    unfolding Let_def mi using ho day assms(2) by (auto simp: next_minute_def)
qed

lemma month_days_next: "0 < t_mon t \<Longrightarrow> t_mon t \<le> 12 \<Longrightarrow> 0 < t_mon (next_date t) \<and> t_mon (next_date t) \<le> 12"
proof -
  assume m: "0 < t_mon t" "t_mon t \<le> 12"
  have "t_mon t < 12 \<longrightarrow> 0 < t_mon t + 1 \<and> t_mon t + 1 \<le> 12"
    using month_cases [OF m] by (elim insertE) simp_all
  then show ?thesis using m by (simp add: next_date_def Let_def)
qed

lemma next_minute_ok: "time_ok t \<Longrightarrow> time_ok (next_minute t)"
proof -
  assume t: "time_ok t"
  have mon: "0 < t_mon (next_date u) \<and> t_mon (next_date u) \<le> 12" if "0 < t_mon u" "t_mon u \<le> 12" for u
    using month_days_next that by simp
  have day: "0 < t_day (next_date u) \<and> unat (t_day (next_date u)) \<le> month_days (t_year (next_date u)) (t_mon (next_date u))"
    if "unat (t_day u) \<le> month_days (t_year u) (t_mon u)" for u
  proof -
    have one: "1 \<le> month_days y m" for y m using month_days_le(2) [of y m] by linarith
    have "unat (t_day u + 1) = unat (t_day u) + 1"
      using that month_days_le(1) [of "t_year u" "t_mon u"] by (intro byte_succ [of _ 100]) (simp add: word_less_nat_alt)
    then show ?thesis using one by (auto simp: next_date_def Let_def word_less_nat_alt)
  qed
  have week: "t_week (next_date u) < 7" if "t_week u < 7" for u
    using that byte_succ [OF that] by (auto simp: next_date_def Let_def word_less_nat_alt word_unat_eq_iff)
  have rest': "t_sec (next_date u) = t_sec u" "t_min (next_date u) = t_min u" "t_hour (next_date u) = t_hour u" for u
    by (simp_all add: next_date_def Let_def)
  have mi: "t_min t < 59 \<longrightarrow> t_min t + 1 < 60" "t_hour t < 23 \<longrightarrow> t_hour t + 1 < 24"
    using byte_succ [of "t_min t" 59] byte_succ [of "t_hour t" 23] by (auto simp: word_less_nat_alt)
  show ?thesis
    using t mi mon day week unfolding time_ok_def next_minute_def by (auto simp: rest')
qed

text \<open>
  C22. The clock counts seconds. When the time is a valid one and the loop turns at least once a minute, every turn moves the
  clock of the device by as many ticks of the calendar as seconds have passed, over minutes, hours, days of the
  week, months of their lengths and leap years; it stays valid.
\<close>

theorem clock_counts_seconds:
  assumes "clock_ok s" "unat now = unat (m_old_getTime s) + e" "e \<le> 60"
  shows "\<exists>s'. xlinkSysTimeCount now s = Inr s' \<and> m_currentSystemTime s' = (tick ^^ e) (m_currentSystemTime s)
    \<and> clock_ok s' \<and> m_old_getTime s' = now"
proof -
  define t where "t = m_currentSystemTime s"
  have ok: "time_ok t" "leap_February s = is_leap (t_year t)" "unat (t_sec t) < 60"
    using assms(1) by (simp_all add: clock_ok_def t_def time_ok_def word_less_nat_alt)
  have ge: "\<not> now < m_old_getTime s" using assms(2) by (simp add: word_less_nat_alt)
  have diff: "unat (now - m_old_getTime s) = e" using assms(2) ge by (simp add: unat_sub not_less)
  have temp: "unat (ucast (now - m_old_getTime s) :: u32) = e" using diff assms(3) by (simp add: unsigned_ucast_eq take_bit_nat_eq_self)
  have sint: "sint (ucast (now - m_old_getTime s) :: u32) = int e"
    using sint_small_32 [of "ucast (now - m_old_getTime s)"] temp assms(3) by simp
  have byte: "(ucast (ucast (now - m_old_getTime s) :: u32) :: byte) = of_nat e"
    unfolding temp [symmetric] by (rule of_nat_unat [symmetric])
  have sec: "unat (t_sec t + of_nat e) = unat (t_sec t) + e"
    using ok(3) assms(3) by (subst unat_plus_if') (simp add: unat_of_nat)
  show ?thesis
  proof (cases "e = 0")
    case True
    then have "now = m_old_getTime s" using assms(2) by (simp add: word_unat_eq_iff)
    then show ?thesis using assms(1) True by (simp add: xlinkSysTimeCount_def)
  next
    case pos: False
    define u where "u = s\<lparr>m_old_getTime := now\<rparr>"
    have u: "leap_February u = is_leap (t_year t)" by (simp add: u_def ok)
    show ?thesis
    proof (cases "unat (t_sec t) + e < 60")
      case True
      then have "xlinkSysTimeCount now s = Inr (u\<lparr>m_currentSystemTime := t\<lparr>t_sec := t_sec t + of_nat e\<rparr>\<rparr>)"
        using pos sec ge unfolding xlinkSysTimeCount_def Let_def by (simp add: sint byte t_def [symmetric] u_def word_less_nat_alt)
      then show ?thesis
        using ticks_within_minute [OF True] ok True sec
        by (auto simp: t_def [symmetric] clock_ok_def time_ok_def word_less_nat_alt u_def)
    next
      case False
      define x where "x = t_sec t + of_nat e - 60"
      have x: "unat x < 60" using False ok(3) assms(3) sec by (simp add: x_def unat_sub word_le_nat_alt)
      have big: "\<not> t_sec t + of_nat e < 60" using sec False by (simp add: word_less_nat_alt)
      have "xlinkSysTimeCount now s = (let minute = t_min (t\<lparr>t_sec := x\<rparr>) + 1;
          t' = (t\<lparr>t_sec := x\<rparr>)\<lparr>t_min := (if 60 \<le> minute then 0 else minute)\<rparr>
        in if minute < 60 then Inr (u\<lparr>m_currentSystemTime := t'\<rparr>)
           else if t_hour t' + 1 < 24 then Inr (u\<lparr>m_currentSystemTime := t'\<lparr>t_hour := t_hour t' + 1\<rparr>\<rparr>)
           else next_day (u\<lparr>m_currentSystemTime := t'\<rparr>))"
        using pos ge big unfolding xlinkSysTimeCount_def Let_def
        by (simp add: sint byte t_def [symmetric] u_def x_def)
      also have "... = Inr (u\<lparr>m_currentSystemTime := next_minute (t\<lparr>t_sec := x\<rparr>),
          leap_February := is_leap (t_year (next_minute (t\<lparr>t_sec := x\<rparr>)))\<rparr>)"
        by (rule next_minute_count) (use ok u in \<open>simp_all add: time_ok_def\<close>)
      finally have "xlinkSysTimeCount now s = Inr (u\<lparr>m_currentSystemTime := next_minute (t\<lparr>t_sec := x\<rparr>),
          leap_February := is_leap (t_year (next_minute (t\<lparr>t_sec := x\<rparr>)))\<rparr>)" .
      moreover have "next_minute (t\<lparr>t_sec := x\<rparr>) = (tick ^^ e) t"
        using ticks_over_minute [OF ok(3) _ assms(3)] False by (simp add: next_minute_sec x_def)
      moreover have "time_ok (next_minute (t\<lparr>t_sec := x\<rparr>))"
        using next_minute_ok [of "t\<lparr>t_sec := x\<rparr>"] ok(1) x by (simp add: time_ok_def word_less_nat_alt)
      ultimately show ?thesis by (auto simp: t_def [symmetric] clock_ok_def u_def)
    qed
  qed
qed

theorem clock_counts_seconds_witness:
  "\<exists>s'. xlinkSysTimeCount 105 sample_cloud = Inr s' \<and> m_currentSystemTime s' =
     \<lparr>t_year = 2016, t_mon = 2, t_day = 29, t_week = 1, t_hour = 0, t_min = 0, t_sec = 5, t_zones = 8\<rparr>"
proof -
  have t: "m_currentSystemTime sample_cloud =
      \<lparr>t_year = 2016, t_mon = 2, t_day = 28, t_week = 0, t_hour = 23, t_min = 59, t_sec = 50, t_zones = 8\<rparr>"
    "leap_February sample_cloud" "m_old_getTime sample_cloud = 90"
    by (simp_all add: sample_cloud_def)
  have leap: "is_leap 2016" by (simp add: is_leap_def)
  have ok: "clock_ok sample_cloud" by (simp add: clock_ok_def time_ok_def t leap month_days_def)
  have "(tick ^^ 15) (m_currentSystemTime sample_cloud) =
      \<lparr>t_year = 2016, t_mon = 2, t_day = 29, t_week = 1, t_hour = 0, t_min = 0, t_sec = 5, t_zones = 8\<rparr>"
    by (subst ticks_over_minute) (simp_all add: t next_minute_def next_date_def month_days_def leap Let_def)
  then show ?thesis using clock_counts_seconds [OF ok, of 105 15] by (auto simp: t)
qed

text \<open>After a longer gap one minute is carried and the seconds show what is left; a month of 0 is read before the table.\<close>

lemma clock_gap: "\<exists>s'. xlinkSysTimeCount 220 sample_cloud = Inr s' \<and> t_sec (m_currentSystemTime s') = 120"
proof -
  have t: "m_currentSystemTime sample_cloud =
      \<lparr>t_year = 2016, t_mon = 2, t_day = 28, t_week = 0, t_hour = 23, t_min = 59, t_sec = 50, t_zones = 8\<rparr>"
    "leap_February sample_cloud" "m_old_getTime sample_cloud = 90"
    by (simp_all add: sample_cloud_def)
  show ?thesis by (simp add: xlinkSysTimeCount_def next_day_def dayOfMonth_def t Let_def)
qed

lemma month_zero_faults: "t_mon (m_currentSystemTime s) = 0 \<Longrightarrow> next_day s = Inl Out_Of_Bounds"
  by (simp add: next_day_def Let_def)

end
