(* ===== verification/GatewayDb.thy ===== *)
theory GatewayDb imports KeyExchange begin

text \<open>
  The device table of the gateway application: \<^verbatim>\<open>sqlite/db.c\<close> and \<^verbatim>\<open>sqlite/dbDevice.c\<close>. The database
  library is not part of the sources; what its calls answer is the record \<open>sqlite\<close>, an argument of
  every operation. A statement is the text the code prints, byte for byte; a query delivers the rows
  that stepping through it yields, or \<open>None\<close> when it cannot be prepared. \<open>sql_ok\<close> states what the
  code relies on: on the table \<open>device\<close>, with values that hold no quote, the statements do what the
  language says.
\<close>

section \<open>The database library\<close>

record sql_row =
  col_int :: "nat \<Rightarrow> u32"
  col_text :: "nat \<Rightarrow> bytes option"

record 'db sqlite =
  sq_open :: "int \<times> 'db option"
  sq_exec :: "bytes \<Rightarrow> 'db \<Rightarrow> int \<times> 'db"
  sq_query :: "bytes \<Rightarrow> 'db \<Rightarrow> sql_row list option"

section \<open>Statements and the handle\<close>

record 'db device_db =
  db_isinited :: bool
  dbhandle :: "'db option"

definition dbInit :: "'db sqlite \<Rightarrow> 'db device_db \<Rightarrow> int \<times> 'db device_db" where
  "dbInit sq d =
     (if db_isinited d then (0, d)
      else case sq_open sq of (sret, h) \<Rightarrow>
        let d = d\<lparr>dbhandle := h\<rparr> in if sret \<noteq> 0 then (-1, d) else (0, d\<lparr>db_isinited := True\<rparr>))"

definition dbUninit :: "'db device_db \<Rightarrow> 'db device_db" where
  "dbUninit d = (if db_isinited d then d\<lparr>db_isinited := False, dbhandle := None\<rparr> else d)"

definition execution :: "'db sqlite \<Rightarrow> bytes \<Rightarrow> 'db device_db \<Rightarrow> int \<times> 'db device_db" where
  "execution sq cmd d =
     (case dbhandle d of
        None \<Rightarrow> (-1, d)
      | Some h \<Rightarrow> (case sq_exec sq cmd h of (nRet, h) \<Rightarrow>
          (if nRet = 0 then 0 else -1, d\<lparr>dbhandle := Some h\<rparr>)))"

definition dbprepare_v2 :: "'db sqlite \<Rightarrow> bytes \<Rightarrow> 'db device_db \<Rightarrow> sql_row list option" where
  "dbprepare_v2 sq zSql d = (case dbhandle d of None \<Rightarrow> None | Some h \<Rightarrow> sq_query sq zSql h)"

text \<open>\<^verbatim>\<open>snprintf\<close> into an array of 1024 bytes keeps 1023.\<close>

definition sql_text :: "bytes \<Rightarrow> bytes" where
  "sql_text cmd = take 1023 cmd"

definition quoted :: "bytes \<Rightarrow> bytes" where
  "quoted v = 0x27 # v @ [0x27]"

definition select_where :: "bytes \<Rightarrow> bytes \<Rightarrow> bytes \<Rightarrow> bytes" where
  "select_where table field val =
     str ''SELECT * FROM '' @ table @ str '' where '' @ field @ 0x3D # quoted val"

definition delete_where :: "bytes \<Rightarrow> bytes \<Rightarrow> bytes \<Rightarrow> bytes" where
  "delete_where table field val =
     str ''delete from '' @ table @ str '' where '' @ field @ 0x3D # quoted val"

definition update_where :: "bytes \<Rightarrow> bytes \<Rightarrow> bytes \<Rightarrow> bytes \<Rightarrow> bytes \<Rightarrow> bytes" where
  "update_where table key kvalue field wvalue =
     str ''update '' @ table @ str '' set '' @ key @ 0x3D # quoted kvalue
     @ str '' where '' @ field @ 0x3D # quoted wvalue"

definition checkFeildexisted :: "'db sqlite \<Rightarrow> bytes \<Rightarrow> bytes \<Rightarrow> bytes \<Rightarrow> 'db device_db \<Rightarrow> int" where
  "checkFeildexisted sq field val table d =
     (if dbhandle d = None then 0
      else case dbprepare_v2 sq (sql_text (select_where table field val)) d of
        None \<Rightarrow> 0
      | Some [] \<Rightarrow> 0
      | Some (_ # _) \<Rightarrow> 1)"

definition deleteData ::
  "'db sqlite \<Rightarrow> bytes \<Rightarrow> bytes \<Rightarrow> bytes \<Rightarrow> 'db device_db \<Rightarrow> int \<times> 'db device_db" where
  "deleteData sq field val table d =
     (if dbhandle d = None then (-1, d)
      else if checkFeildexisted sq field val table d \<noteq> 1 then (0, d)
      else execution sq (sql_text (delete_where table field val)) d)"

definition updateKey ::
  "'db sqlite \<Rightarrow> bytes \<Rightarrow> bytes \<Rightarrow> bytes \<Rightarrow> bytes \<Rightarrow> bytes \<Rightarrow> 'db device_db \<Rightarrow> int \<times> 'db device_db" where
  "updateKey sq field wvalue key kvalue table d =
     (if dbhandle d = None then (-1, d)
      else execution sq (sql_text (update_where table key kvalue field wvalue)) d)"

definition dbGetTableCount :: "'db sqlite \<Rightarrow> bytes \<Rightarrow> 'db device_db \<Rightarrow> int" where
  "dbGetTableCount sq table d =
     (case dbprepare_v2 sq (sql_text (str ''SELECT COUNT(*) FROM '' @ table)) d of
        None \<Rightarrow> -1
      | Some [] \<Rightarrow> -2
      | Some (row # _) \<Rightarrow> sint (col_int row 0))"

section \<open>The table of devices\<close>

definition device :: bytes where
  "device = str ''device''"

text \<open>\<^verbatim>\<open>%d\<close> of an unsigned number prints it as a signed one.\<close>

definition print_d :: "u32 \<Rightarrow> bytes" where
  "print_d x = decimal (sint x)"

definition create_table :: bytes where
  "create_table = str (''CREATE TABLE IF NOT EXISTS device(id INTEGER PRIMARY KEY ,productid varchar(64),''
     @ ''mac varchar(128),address varchar(255),status INTEGER)'')"

definition dbCreateDeviceTable :: "'db sqlite \<Rightarrow> 'db device_db \<Rightarrow> int \<times> 'db device_db" where
  "dbCreateDeviceTable sq d =
     (case execution sq create_table d of (sret, d) \<Rightarrow>
        (sret, snd (updateKey sq (str ''status'') (str ''1'') (str ''status'') (str ''0'') device d)))"

text \<open>\<^verbatim>\<open>%02x\<close> of a byte, and six of them with colons between.\<close>

definition hex_lower :: "nat \<Rightarrow> byte" where
  "hex_lower n = (if n < 10 then of_nat (0x30 + n) else of_nat (0x61 + (n - 10)))"

definition print_02x :: "byte \<Rightarrow> bytes" where
  "print_02x b = [hex_lower (unat b div 16), hex_lower (unat b mod 16)]"

definition mac_text :: "bytes \<Rightarrow> bytes" where
  "mac_text mac = print_02x (mac ! 0) @ 0x3A # print_02x (mac ! 1) @ 0x3A # print_02x (mac ! 2) @ 0x3A
     # print_02x (mac ! 3) @ 0x3A # print_02x (mac ! 4) @ 0x3A # print_02x (mac ! 5)"

text \<open>The sixteen bytes of an address in memory.\<close>

definition sockaddr_bytes :: "sockaddr_in \<Rightarrow> bytes" where
  "sockaddr_bytes a =
     [ucast (sin_family a), ucast (drop_bit 8 (sin_family a)), ucast (sin_port a), ucast (drop_bit 8 (sin_port a))]
     @ le_bytes (sin_addr a) @ replicate 8 0"

definition bytes_sockaddr :: "bytes \<Rightarrow> sockaddr_in" where
  "bytes_sockaddr b = \<lparr>sin_family = UTIL_INT16_SET (b ! 1) (b ! 0), sin_port = UTIL_INT16_SET (b ! 3) (b ! 2),
     sin_addr = le_word b 4\<rparr>"

definition insert_text :: "u32 \<Rightarrow> bytes \<Rightarrow> bytes \<Rightarrow> bytes \<Rightarrow> bytes" where
  "insert_text deviceid product macstring addr =
     str ''INSERT INTO device VALUES('' @ quoted (print_d deviceid) @ 0x2C # quoted product
     @ 0x2C # quoted macstring @ 0x2C # quoted addr @ 0x2C # quoted (str ''1'') @ [0x29]"

definition dbAddDevice ::
  "'db sqlite \<Rightarrow> u32 \<Rightarrow> bytes \<Rightarrow> bytes \<Rightarrow> sockaddr_in \<Rightarrow> 'db device_db \<Rightarrow> (int \<times> 'db device_db) c_result" where
  "dbAddDevice sq deviceid product mac address d =
     (if checkFeildexisted sq (str ''id'') (print_d deviceid) device d = 1 then Inr (-2, d)
      else if length mac < 6 then Inl Out_Of_Bounds
      else c_bind (base64_encode (sockaddr_bytes address) (replicate 128 0)) (\<lambda>addr.
        Inr (execution sq (sql_text (insert_text deviceid (c_string product) (mac_text mac) (c_string addr))) d)))"

definition dbDeviceExisted :: "'db sqlite \<Rightarrow> u32 \<Rightarrow> 'db device_db \<Rightarrow> int" where
  "dbDeviceExisted sq deviceid d = checkFeildexisted sq (str ''id'') (print_d deviceid) device d"

definition dbDeleteDevice :: "'db sqlite \<Rightarrow> u32 \<Rightarrow> 'db device_db \<Rightarrow> int \<times> 'db device_db" where
  "dbDeleteDevice sq deviceid d =
     (if checkFeildexisted sq (str ''id'') (print_d deviceid) device d \<noteq> 1 then (0, d)
      else deleteData sq (str ''id'') (print_d deviceid) device d)"

definition dbUpdateDeviceAddress ::
  "'db sqlite \<Rightarrow> u32 \<Rightarrow> sockaddr_in \<Rightarrow> 'db device_db \<Rightarrow> (int \<times> 'db device_db) c_result" where
  "dbUpdateDeviceAddress sq deviceid address d =
     (if checkFeildexisted sq (str ''id'') (print_d deviceid) device d \<noteq> 1 then Inr (-2, d)
      else c_bind (base64_encode (sockaddr_bytes address) (replicate 128 0)) (\<lambda>addr.
        Inr (updateKey sq (str ''id'') (print_d deviceid) (str ''address'') (c_string addr) device d)))"

definition dbSetDeviceStatus :: "'db sqlite \<Rightarrow> u32 \<Rightarrow> int \<Rightarrow> 'db device_db \<Rightarrow> int \<times> 'db device_db" where
  "dbSetDeviceStatus sq deviceid status d =
     (if checkFeildexisted sq (str ''id'') (print_d deviceid) device d \<noteq> 1 then (-2, d)
      else updateKey sq (str ''id'') (print_d deviceid) (str ''status'') (if status = 0 then str ''0'' else str ''1'') device d)"

definition select_device :: "u32 \<Rightarrow> bytes" where
  "select_device deviceid = sql_text (select_where device (str ''id'') (print_d deviceid))"

text \<open>\<open>status\<close> is the caller's variable, which keeps its value when there is no row.\<close>

definition dbGetDeviceStatus :: "'db sqlite \<Rightarrow> u32 \<Rightarrow> u32 \<Rightarrow> 'db device_db \<Rightarrow> int \<times> u32" where
  "dbGetDeviceStatus sq deviceid status d =
     (case dbprepare_v2 sq (select_device deviceid) d of
        None \<Rightarrow> (-1, status)
      | Some [] \<Rightarrow> (-2, status)
      | Some (row # _) \<Rightarrow> (0, col_int row 4))"

definition dbGetDeviceCount :: "'db sqlite \<Rightarrow> 'db device_db \<Rightarrow> int" where
  "dbGetDeviceCount sq d = dbGetTableCount sq device d"

text \<open>The loop over the rows: the bytes written, from \<open>index\<close> on.\<close>

primrec device_id_loop :: "int \<Rightarrow> int \<Rightarrow> sql_row list \<Rightarrow> bytes" where
  "device_id_loop buffersize index [] = []"
| "device_id_loop buffersize index (row # rows) =
     (let deviceid = col_int row 0 in
      if buffersize \<le> index + 4 then []
      else [UTIL_INT32_GET_BIT3 deviceid, UTIL_INT32_GET_BIT2 deviceid, UTIL_INT32_GET_BIT1 deviceid,
            UTIL_INT32_GET_BIT0 deviceid] @ device_id_loop buffersize (index + 4) rows)"

definition dbGetAllDeviceID :: "'db sqlite \<Rightarrow> bytes \<Rightarrow> int \<Rightarrow> 'db device_db \<Rightarrow> (int \<times> bytes) c_result" where
  "dbGetAllDeviceID sq buffer buffersize d =
     (case dbprepare_v2 sq (str ''SELECT * FROM device'') d of
        None \<Rightarrow> Inr (-1, buffer)
      | Some rows \<Rightarrow>
          let ids = device_id_loop buffersize 0 rows
          in c_bind (memcpy_chk 0 ids buffer) (\<lambda>buffer. Inr (int (length ids), buffer)))"

text \<open>
  \<^verbatim>\<open>sscanf(temp, "%x:%x:%x:%x:%x:%x", ...)\<close>: a number may have white space, a sign and a prefix in
  front; one that does not fit is the greatest. Every field is stored as four bytes, one byte
  behind the field before it.
\<close>

definition scan_space :: "byte \<Rightarrow> bool" where
  "scan_space c \<longleftrightarrow> c = 0x20 \<or> 9 \<le> c \<and> c \<le> 13"

definition scan_digit :: "byte \<Rightarrow> nat option" where
  "scan_digit c =
     (if 0x30 \<le> c \<and> c \<le> 0x39 then Some (unat c - 0x30)
      else if 0x61 \<le> c \<and> c \<le> 0x66 then Some (unat c - 0x57)
      else if 0x41 \<le> c \<and> c \<le> 0x46 then Some (unat c - 0x37) else None)"

definition hex_number :: "bytes \<Rightarrow> nat" where
  "hex_number ds = foldl (\<lambda>v c. 16 * v + (case scan_digit c of None \<Rightarrow> 0 | Some n \<Rightarrow> n)) 0 ds"

definition is_hex :: "byte \<Rightarrow> bool" where
  "is_hex c \<longleftrightarrow> scan_digit c \<noteq> None"

definition scan_x :: "bytes \<Rightarrow> (u32 \<times> bytes) option" where
  "scan_x cs =
     (let cs = dropWhile scan_space cs;
          neg = (take 1 cs = [0x2D]);
          cs = (if take 1 cs = [0x2D] \<or> take 1 cs = [0x2B] then drop 1 cs else cs);
          cs = (if take 2 cs = [0x30, 0x78] \<or> take 2 cs = [0x30, 0x58] then drop 2 cs else cs);
          ds = takeWhile is_hex cs; v = hex_number ds
      in if ds = [] then None
         else Some (if 2 ^ 32 \<le> v then -1 else if neg then - of_nat v else of_nat v, dropWhile is_hex cs))"

primrec scan_fields :: "nat \<Rightarrow> bytes \<Rightarrow> u32 list" where
  "scan_fields 0 cs = []"
| "scan_fields (Suc k) cs =
     (case scan_x cs of
        None \<Rightarrow> []
      | Some (v, left) \<Rightarrow> v # (if take 1 left = [0x3A] then scan_fields k (drop 1 left) else []))"

primrec store_fields :: "nat \<Rightarrow> u32 list \<Rightarrow> bytes \<Rightarrow> bytes c_result" where
  "store_fields i [] mac = Inr mac"
| "store_fields i (v # vs) mac = c_bind (memcpy_chk i (le_bytes v) mac) (store_fields (i + 1) vs)"

definition sscanf_mac :: "bytes \<Rightarrow> bytes \<Rightarrow> (int \<times> bytes) c_result" where
  "sscanf_mac temp mac =
     (let vs = scan_fields 6 temp in
      c_bind (store_fields 0 vs mac) (\<lambda>mac.
        Inr (if dropWhile scan_space temp = [] then -1 else int (length vs), mac)))"

text \<open>
  What \<^verbatim>\<open>dbGetDeviceInfo\<close> fills in: the arrays its caller gives, \<open>None\<close> for NULL. \<open>o_address\<close> are the
  bytes of the caller's structure.
\<close>

record device_out =
  o_productid :: "bytes option"
  o_mac :: "bytes option"
  o_maclen :: int
  o_address :: "bytes option"

definition get_productid :: "sql_row \<Rightarrow> bytes \<Rightarrow> bytes c_result" where
  "get_productid row out =
     (case col_text row 1 of
        None \<Rightarrow> Inr out
      | Some t \<Rightarrow> if length (c_string t) + 1 < 32 then Inl Out_Of_Bounds
                  else memcpy_chk 0 (take 32 (c_string t @ [0])) out)"

definition dbGetDeviceInfo :: "'db sqlite \<Rightarrow> u32 \<Rightarrow> device_out \<Rightarrow> 'db device_db \<Rightarrow> (int \<times> device_out) c_result" where
  "dbGetDeviceInfo sq deviceid out d =
     (case dbprepare_v2 sq (select_device deviceid) d of
        None \<Rightarrow> Inr (-1, out)
      | Some [] \<Rightarrow> Inr (-2, out)
      | Some (row # _) \<Rightarrow>
          c_bind (case o_productid out of
                    None \<Rightarrow> Inr out
                  | Some p \<Rightarrow> c_bind (get_productid row p) (\<lambda>p. Inr (out\<lparr>o_productid := Some p\<rparr>))) (\<lambda>out.
          c_bind (case (o_mac out, col_text row 2) of
                    (Some m, Some temp) \<Rightarrow> c_bind (sscanf_mac (c_string temp) m) (\<lambda>(n, m).
                      Inr (out\<lparr>o_mac := Some m, o_maclen := n\<rparr>))
                  | _ \<Rightarrow> Inr out) (\<lambda>out.
          c_bind (case (o_address out, col_text row 3) of
                    (Some a, Some temp) \<Rightarrow> c_bind (base64_decode (c_string temp @ [0]) a) (\<lambda>(a, n).
                      Inr (out\<lparr>o_address := Some a\<rparr>))
                  | _ \<Rightarrow> Inr out) (\<lambda>out. Inr (0, out)))))"

section \<open>What the code relies on\<close>

record device_info =
  i_product :: bytes
  i_mac :: bytes
  i_addr :: bytes
  i_status :: u32

type_synonym device_table = "u32 \<rightharpoonup> device_info"

definition row_shows :: "u32 \<Rightarrow> device_info \<Rightarrow> sql_row \<Rightarrow> bool" where
  "row_shows d i row \<longleftrightarrow> col_int row 0 = d \<and> col_text row 1 = Some (i_product i)
     \<and> col_text row 2 = Some (i_mac i) \<and> col_text row 3 = Some (i_addr i) \<and> col_int row 4 = i_status i"

text \<open>A value the statements carry as it is: short ASCII text without quotes.\<close>

definition sql_value :: "bytes \<Rightarrow> bool" where
  "sql_value v \<longleftrightarrow> length v \<le> 64 \<and> (\<forall>c\<in>set v. 0 < c \<and> c < 0x80 \<and> c \<noteq> 0x27)"

text \<open>A statement either changes the table or reports an error and leaves it.\<close>

definition sql_effect ::
  "'db sqlite \<Rightarrow> ('db \<Rightarrow> device_table option) \<Rightarrow> bytes \<Rightarrow> 'db \<Rightarrow> device_table \<Rightarrow> bool" where
  "sql_effect sq tab cmd h t' \<longleftrightarrow>
     (let (r, h') = sq_exec sq cmd h in if r = 0 then tab h' = Some t' else tab h' = tab h)"

definition offline :: "device_info \<Rightarrow> device_info" where
  "offline i = (if i_status i = 1 then i\<lparr>i_status := 0\<rparr> else i)"

definition sql_queries :: "'db sqlite \<Rightarrow> ('db \<Rightarrow> device_table option) \<Rightarrow> bool" where
  "sql_queries sq tab \<longleftrightarrow> (\<forall>h t. tab h = Some t \<longrightarrow>
     (\<forall>d. \<exists>rows. sq_query sq (select_where device (str ''id'') (print_d d)) h = Some rows
        \<and> (case t d of None \<Rightarrow> rows = [] | Some i \<Rightarrow> \<exists>row. rows = [row] \<and> row_shows d i row))
     \<and> (\<exists>rows. sq_query sq (str ''SELECT * FROM device'') h = Some rows
        \<and> distinct (map (\<lambda>row. col_int row 0) rows) \<and> (\<lambda>row. col_int row 0) ` set rows = dom t)
     \<and> (\<exists>row. sq_query sq (str ''SELECT COUNT(*) FROM device'') h = Some [row] \<and> col_int row 0 = of_nat (card (dom t))))"

definition sql_changes :: "'db sqlite \<Rightarrow> ('db \<Rightarrow> device_table option) \<Rightarrow> bool" where
  "sql_changes sq tab \<longleftrightarrow> (\<forall>h t. tab h = Some t \<longrightarrow>
     (\<forall>d p m a. sql_value p \<and> sql_value m \<and> sql_value a \<and> t d = None \<longrightarrow>
        sql_effect sq tab (insert_text d p m a) h
          (t(d \<mapsto> \<lparr>i_product = p, i_mac = m, i_addr = a, i_status = 1\<rparr>)))
     \<and> (\<forall>d a. sql_value a \<longrightarrow> sql_effect sq tab (update_where device (str ''address'') a (str ''id'') (print_d d)) h
          (t(d := map_option (i_addr_update (\<lambda>_. a)) (t d))))
     \<and> (\<forall>d. sql_effect sq tab (update_where device (str ''status'') (str ''0'') (str ''id'') (print_d d)) h
          (t(d := map_option (i_status_update (\<lambda>_. 0)) (t d))))
     \<and> (\<forall>d. sql_effect sq tab (update_where device (str ''status'') (str ''1'') (str ''id'') (print_d d)) h
          (t(d := map_option (i_status_update (\<lambda>_. 1)) (t d))))
     \<and> sql_effect sq tab (update_where device (str ''status'') (str ''0'') (str ''status'') (str ''1'')) h
          (\<lambda>d. map_option offline (t d))
     \<and> (\<forall>d. sql_effect sq tab (delete_where device (str ''id'') (print_d d)) h (t(d := None))))"

definition sql_create :: "'db sqlite \<Rightarrow> ('db \<Rightarrow> device_table option) \<Rightarrow> bool" where
  "sql_create sq tab \<longleftrightarrow>
     (\<forall>h. sql_effect sq tab create_table h (case tab h of None \<Rightarrow> Map.empty | Some t \<Rightarrow> t))"

definition sql_ok :: "'db sqlite \<Rightarrow> ('db \<Rightarrow> device_table option) \<Rightarrow> bool" where
  "sql_ok sq tab \<longleftrightarrow> sql_queries sq tab \<and> sql_changes sq tab \<and> sql_create sq tab"

definition table_of :: "('db \<Rightarrow> device_table option) \<Rightarrow> 'db device_db \<Rightarrow> device_table option" where
  "table_of tab d = (case dbhandle d of None \<Rightarrow> None | Some h \<Rightarrow> tab h)"

text \<open>What an operation that returns \<open>r\<close> may have done.\<close>

definition table_effect ::
  "('db \<Rightarrow> device_table option) \<Rightarrow> 'db device_db \<Rightarrow> int \<Rightarrow> 'db device_db \<Rightarrow> device_table \<Rightarrow> bool" where
  "table_effect tab d r d' t' \<longleftrightarrow>
     r = 0 \<and> table_of tab d' = Some t' \<or> r = -1 \<and> table_of tab d' = table_of tab d"

section \<open>The texts fit\<close>

lemma length_print_d: "length (print_d x) \<le> 11"
  unfolding print_d_def by (rule length_decimal_sint)

declare str_simps [simp del]

lemma texts_fit:
  "length v \<le> 900 \<Longrightarrow> sql_text (select_where device (str ''id'') v) = select_where device (str ''id'') v"
  "length v \<le> 64 \<Longrightarrow> sql_text (delete_where device (str ''id'') v) = delete_where device (str ''id'') v"
  "length v \<le> 64 \<Longrightarrow> length k \<le> 64 \<Longrightarrow> length f \<le> 64 \<Longrightarrow> length w \<le> 64 \<Longrightarrow>
     sql_text (update_where device k v f w) = update_where device k v f w"
  "length p \<le> 64 \<Longrightarrow> length m \<le> 64 \<Longrightarrow> length a \<le> 64 \<Longrightarrow> sql_text (insert_text d p m a) = insert_text d p m a"
  using length_print_d [of d]
  by (simp_all add: sql_text_def select_where_def delete_where_def update_where_def insert_text_def quoted_def device_def)

lemma count_text: "sql_text (str ''SELECT COUNT(*) FROM '' @ device) = str ''SELECT COUNT(*) FROM device''"
  by (simp add: sql_text_def device_def str_def)

lemma sint_of_nat_u32: "n < 2 ^ 31 \<Longrightarrow> sint (of_nat n :: u32) = int n"
  by (subst sint_u32_small) (simp_all add: unat_of_nat_u32)

lemma id_texts:
  "sql_text (select_where device (str ''id'') (print_d x)) = select_where device (str ''id'') (print_d x)"
  "sql_text (delete_where device (str ''id'') (print_d x)) = delete_where device (str ''id'') (print_d x)"
  "length k \<le> 64 \<Longrightarrow> length v \<le> 64 \<Longrightarrow> sql_text (update_where device k v (str ''id'') (print_d x)) =
     update_where device k v (str ''id'') (print_d x)"
  using length_print_d [of x] by (simp_all add: texts_fit)


section \<open>What the operations do\<close>

lemma table_handle:
  assumes "table_of tab d = Some t"
  obtains h where "dbhandle d = Some h" "tab h = Some t"
  using assms by (auto simp: table_of_def split: option.splits)

lemma table_of_handle [simp]: "table_of tab (d\<lparr>dbhandle := Some h\<rparr>) = tab h"
  by (simp add: table_of_def)

lemma select_one:
  assumes "sql_ok sq tab" "table_of tab d = Some t"
  shows "\<exists>rows. dbprepare_v2 sq (select_device x) d = Some rows
    \<and> (case t x of None \<Rightarrow> rows = [] | Some i \<Rightarrow> \<exists>row. rows = [row] \<and> row_shows x i row)"
proof -
  obtain h where h: "dbhandle d = Some h" "tab h = Some t"
    using table_handle [OF assms(2)] .
  with assms(1) show ?thesis
    by (simp add: sql_ok_def sql_queries_def dbprepare_v2_def select_device_def id_texts)
qed

lemma checkFeildexisted_id:
  assumes "sql_ok sq tab" "table_of tab d = Some t"
  shows "checkFeildexisted sq (str ''id'') (print_d x) device d = (if t x = None then 0 else 1)"
proof -
  obtain h where h: "dbhandle d = Some h"
    using table_handle [OF assms(2)] .
  with select_one [OF assms, of x] show ?thesis
    by (auto simp: checkFeildexisted_def select_device_def split: option.splits)
qed

lemma dbDeviceExisted_iff:
  assumes "sql_ok sq tab" "table_of tab d = Some t"
  shows "dbDeviceExisted sq x d = (if t x = None then 0 else 1)"
  using checkFeildexisted_id [OF assms] by (simp add: dbDeviceExisted_def)

lemma execution_effect:
  assumes "dbhandle d = Some h" "sql_effect sq tab cmd h t'"
  shows "table_effect tab d (fst (execution sq cmd d)) (snd (execution sq cmd d)) t'"
  using assms by (auto simp: execution_def sql_effect_def table_effect_def table_of_def split: prod.splits)

lemma dbGetDeviceStatus_eq:
  assumes "sql_ok sq tab" "table_of tab d = Some t"
  shows "dbGetDeviceStatus sq x st d = (case t x of None \<Rightarrow> (-2, st) | Some i \<Rightarrow> (0, i_status i))"
proof -
  obtain rows where rows: "dbprepare_v2 sq (select_device x) d = Some rows"
    "case t x of None \<Rightarrow> rows = [] | Some i \<Rightarrow> \<exists>row. rows = [row] \<and> row_shows x i row"
    using select_one [OF assms, of x] by blast
  show ?thesis
    using rows(2) by (cases "t x") (auto simp: dbGetDeviceStatus_def rows(1) row_shows_def)
qed

lemma dbGetDeviceCount_eq:
  assumes "sql_ok sq tab" "table_of tab d = Some t" "card (dom t) < 2 ^ 31"
  shows "dbGetDeviceCount sq d = int (card (dom t))"
proof -
  obtain h where h: "dbhandle d = Some h" "tab h = Some t"
    using table_handle [OF assms(2)] .
  with assms(1) obtain row where "sq_query sq (str ''SELECT COUNT(*) FROM device'') h = Some [row]"
    "col_int row 0 = of_nat (card (dom t))"
    unfolding sql_ok_def sql_queries_def by blast
  with h show ?thesis
    by (simp add: dbGetDeviceCount_def dbGetTableCount_def dbprepare_v2_def count_text sint_of_nat_u32 [OF assms(3)])
qed

lemma address_text:
  "\<exists>b. base64_encode (sockaddr_bytes a) (replicate 128 0) = Inr b \<and> c_string b = b64_enc (sockaddr_bytes a)"
proof -
  have "length (b64_enc (sockaddr_bytes a)) = 24" by (simp add: length_b64_enc sockaddr_bytes_def)
  moreover have "c_string (memcpy_at 0 (b64_enc (sockaddr_bytes a) @ [0]) (replicate 128 0)) = b64_enc (sockaddr_bytes a)"
    using plain_b64_alphabet [of 0 "sockaddr_bytes a"] by (auto simp: memcpy_at_def intro!: c_string_padded)
  ultimately show ?thesis by (simp add: base64_encode_eq)
qed

lemma dbAddDevice_eq:
  assumes "6 \<le> length mac"
  shows "dbAddDevice sq x p mac a d =
    (if checkFeildexisted sq (str ''id'') (print_d x) device d = 1 then Inr (-2, d)
     else Inr (execution sq (sql_text (insert_text x (c_string p) (mac_text mac) (b64_enc (sockaddr_bytes a)))) d))"
proof -
  obtain b where "base64_encode (sockaddr_bytes a) (replicate 128 0) = Inr b" "c_string b = b64_enc (sockaddr_bytes a)"
    using address_text [of a] by blast
  then show ?thesis using assms by (simp add: dbAddDevice_def)
qed


text \<open>The operations that change the table, with the values they put into it.\<close>

lemma sql_value_hex: "sql_value (mac_text mac)"
proof -
  have hex: "unat (hex_lower n) \<in> {0x30..0x39} \<union> {0x61..0x66}" if "n < 16" for n
  proof -
    have "n \<in> set [0..<16]" using that by simp
    moreover have "list_all (\<lambda>n. unat (hex_lower n) \<in> {0x30..0x39} \<union> {0x61..0x66}) [0..<16]"
      by (simp add: hex_lower_def upt_rec)
    ultimately show ?thesis by (simp add: list_all_iff)
  qed
  have b: "0 < c \<and> c < 0x80 \<and> c \<noteq> 0x27" if "c \<in> set (print_02x m)" for c m
  proof -
    have "unat m div 16 < 16" by (rule less_mult_imp_div_less) (use unat_byte_less [of m] in simp)
    then have "unat c \<in> {0x30..0x39} \<union> {0x61..0x66}"
      using that hex [of "unat m div 16"] hex [of "unat m mod 16"] by (auto simp: print_02x_def)
    then show ?thesis by (auto simp: word_less_nat_alt unat_gt_0)
  qed
  have "length (mac_text mac) = 17" by (simp add: mac_text_def print_02x_def)
  moreover have "0 < c \<and> c < 0x80 \<and> c \<noteq> 0x27" if "c \<in> set (mac_text mac)" for c
    using that b by (auto simp: mac_text_def)
  ultimately show ?thesis by (simp add: sql_value_def)
qed

lemma sql_value_addr: "sql_value (b64_enc (sockaddr_bytes a))"
proof -
  have "list_all (\<lambda>c. 0 < c \<and> c < 0x80 \<and> c \<noteq> 0x27) (b64_pad # base64char)"
    by (simp add: base64char_def)
  then have "\<forall>c\<in>set (b64_enc (sockaddr_bytes a)). 0 < c \<and> c < 0x80 \<and> c \<noteq> 0x27"
    using b64_enc_alphabet [of _ "sockaddr_bytes a"] unfolding list_all_iff list.set by blast
  then show ?thesis
    by (simp add: sql_value_def length_b64_enc sockaddr_bytes_def)
qed

definition new_info :: "bytes \<Rightarrow> bytes \<Rightarrow> sockaddr_in \<Rightarrow> device_info" where
  "new_info p mac a = \<lparr>i_product = c_string p, i_mac = mac_text mac, i_addr = b64_enc (sockaddr_bytes a), i_status = 1\<rparr>"

lemma dbAddDevice_known:
  assumes "sql_ok sq tab" "table_of tab d = Some t" "t x \<noteq> None"
  shows "dbAddDevice sq x p mac a d = Inr (-2, d)"
  using checkFeildexisted_id [OF assms(1,2), of x] assms(3) by (simp add: dbAddDevice_def)

lemma sql_value_len: "sql_value v \<Longrightarrow> length v \<le> 64"
  by (simp add: sql_value_def)

lemma dbAddDevice_new:
  assumes "sql_ok sq tab" "table_of tab d = Some t" "t x = None" "6 \<le> length mac" "sql_value (c_string p)"
  shows "\<exists>r d'. dbAddDevice sq x p mac a d = Inr (r, d') \<and> table_effect tab d r d' (t(x \<mapsto> new_info p mac a))"
proof -
  obtain h where h: "dbhandle d = Some h" "tab h = Some t"
    using table_handle [OF assms(2)] .
  let ?cmd = "insert_text x (c_string p) (mac_text mac) (b64_enc (sockaddr_bytes a))"
  have "sql_effect sq tab ?cmd h (t(x \<mapsto> new_info p mac a))"
    using assms(1,3,5) h(2) sql_value_hex [of mac] sql_value_addr [of a]
    unfolding sql_ok_def sql_changes_def new_info_def by blast
  moreover have "sql_text ?cmd = ?cmd"
    using sql_value_hex [of mac] sql_value_addr [of a] assms(5) by (intro texts_fit sql_value_len)
  ultimately show ?thesis
    using execution_effect [OF h(1)] checkFeildexisted_id [OF assms(1,2), of x] assms(3,4)
    by (cases "execution sq ?cmd d") (simp add: dbAddDevice_eq, fastforce)
qed

lemma updateKey_effect:
  assumes "dbhandle d = Some h" "sql_effect sq tab (update_where device k v (str ''id'') (print_d x)) h t'"
    "length k \<le> 64" "length v \<le> 64"
  shows "\<exists>r d'. updateKey sq (str ''id'') (print_d x) k v device d = (r, d') \<and> table_effect tab d r d' t'"
  using execution_effect [OF assms(1,2)] assms(1,3,4)
  by (cases "execution sq (update_where device k v (str ''id'') (print_d x)) d") (simp add: updateKey_def id_texts)

lemma dbSetDeviceStatus_unknown:
  assumes "sql_ok sq tab" "table_of tab d = Some t" "t x = None"
  shows "dbSetDeviceStatus sq x st d = (-2, d)"
  using checkFeildexisted_id [OF assms(1,2), of x] assms(3) by (simp add: dbSetDeviceStatus_def)

lemma dbSetDeviceStatus_known:
  assumes "sql_ok sq tab" "table_of tab d = Some t" "t x = Some i"
  shows "\<exists>r d'. dbSetDeviceStatus sq x st d = (r, d')
    \<and> table_effect tab d r d' (t(x \<mapsto> i\<lparr>i_status := if st = 0 then 0 else 1\<rparr>))"
proof -
  obtain h where h: "dbhandle d = Some h" "tab h = Some t"
    using table_handle [OF assms(2)] .
  have "sql_effect sq tab (update_where device (str ''status'') (if st = 0 then str ''0'' else str ''1'') (str ''id'') (print_d x)) h
      (t(x := map_option (i_status_update (\<lambda>_. if st = 0 then 0 else 1)) (t x)))"
    using assms(1) h(2) unfolding sql_ok_def sql_changes_def by simp
  from updateKey_effect [OF h(1) this] show ?thesis
    using checkFeildexisted_id [OF assms(1,2), of x] assms(3) by (simp add: dbSetDeviceStatus_def)
qed

lemma dbUpdateDeviceAddress_unknown:
  assumes "sql_ok sq tab" "table_of tab d = Some t" "t x = None"
  shows "dbUpdateDeviceAddress sq x a d = Inr (-2, d)"
  using checkFeildexisted_id [OF assms(1,2), of x] assms(3) by (simp add: dbUpdateDeviceAddress_def)


lemma dbUpdateDeviceAddress_known:
  assumes "sql_ok sq tab" "table_of tab d = Some t" "t x = Some i"
  shows "\<exists>r d'. dbUpdateDeviceAddress sq x a d = Inr (r, d')
    \<and> table_effect tab d r d' (t(x \<mapsto> i\<lparr>i_addr := b64_enc (sockaddr_bytes a)\<rparr>))"
proof -
  obtain h where h: "dbhandle d = Some h" "tab h = Some t"
    using table_handle [OF assms(2)] .
  let ?v = "b64_enc (sockaddr_bytes a)"
  obtain b where b: "base64_encode (sockaddr_bytes a) (replicate 128 0) = Inr b" "c_string b = ?v"
    using address_text [of a] by blast
  have "sql_effect sq tab (update_where device (str ''address'') ?v (str ''id'') (print_d x)) h
      (t(x := map_option (i_addr_update (\<lambda>_. ?v)) (t x)))"
    using assms(1) h(2) sql_value_addr [of a] unfolding sql_ok_def sql_changes_def by simp
  from updateKey_effect [OF h(1) this] show ?thesis
    using checkFeildexisted_id [OF assms(1,2), of x] assms(3) sql_value_len [OF sql_value_addr [of a]]
    by (simp add: dbUpdateDeviceAddress_def b)
qed

lemma dbDeleteDevice_unknown:
  assumes "sql_ok sq tab" "table_of tab d = Some t" "t x = None"
  shows "dbDeleteDevice sq x d = (0, d)"
  using checkFeildexisted_id [OF assms(1,2), of x] assms(3) by (simp add: dbDeleteDevice_def)

lemma dbDeleteDevice_effect:
  assumes "sql_ok sq tab" "table_of tab d = Some t" "t x \<noteq> None"
  shows "\<exists>r d'. dbDeleteDevice sq x d = (r, d') \<and> table_effect tab d r d' (t(x := None))"
proof -
  obtain h where h: "dbhandle d = Some h" "tab h = Some t"
    using table_handle [OF assms(2)] .
  have "sql_effect sq tab (delete_where device (str ''id'') (print_d x)) h (t(x := None))"
    using assms(1) h(2) unfolding sql_ok_def sql_changes_def by blast
  from execution_effect [OF h(1) this] show ?thesis
    using checkFeildexisted_id [OF assms(1,2), of x] assms(3) h(1)
    by (cases "execution sq (delete_where device (str ''id'') (print_d x)) d")
      (simp add: dbDeleteDevice_def deleteData_def id_texts)
qed

text \<open>Opening the database: a table that is there is kept, and every device in it is off line.\<close>

lemma dbCreateDeviceTable_opens:
  assumes "sql_ok sq tab" "dbhandle d = Some h" "dbCreateDeviceTable sq d = (0, d')"
  shows "\<exists>t'. table_of tab d' = Some t' \<and> (t' = (case tab h of None \<Rightarrow> Map.empty | Some t \<Rightarrow> t)
    \<or> t' = (\<lambda>x. map_option offline (case tab h of None \<Rightarrow> None | Some t \<Rightarrow> t x)))"
proof -
  let ?t = "case tab h of None \<Rightarrow> Map.empty | Some t \<Rightarrow> t"
  obtain r d1 where e: "execution sq create_table d = (r, d1)" by fastforce
  have "sql_effect sq tab create_table h ?t"
    using assms(1) unfolding sql_ok_def sql_create_def by blast
  from execution_effect [OF assms(2) this] e assms(3) have t1: "table_of tab d1 = Some ?t"
    by (auto simp: table_effect_def dbCreateDeviceTable_def)
  obtain h1 where h1: "dbhandle d1 = Some h1" "tab h1 = Some ?t"
    using table_handle [OF t1] .
  let ?cmd = "update_where device (str ''status'') (str ''0'') (str ''status'') (str ''1'')"
  have "sql_effect sq tab ?cmd h1 (\<lambda>x. map_option offline (?t x))"
    using assms(1) h1(2) unfolding sql_ok_def sql_changes_def by blast
  from execution_effect [OF h1(1) this] have
    "table_of tab (snd (execution sq ?cmd d1)) = Some (\<lambda>x. map_option offline (?t x)) \<or>
     table_of tab (snd (execution sq ?cmd d1)) = Some ?t"
    by (auto simp: table_effect_def t1)
  moreover have "d' = snd (execution sq ?cmd d1)"
    using assms(3) e h1(1) by (simp add: dbCreateDeviceTable_def updateKey_def texts_fit)
  ultimately show ?thesis
    by (cases "tab h") auto
qed

section \<open>What is read back\<close>

lemma scan_hex_lower:
  assumes "n < 16"
  shows "scan_digit (hex_lower n) = Some n" "\<not> scan_space (hex_lower n)" "hex_lower n \<notin> {0x2D, 0x2B, 0x78, 0x58}"
proof -
  have "n \<in> set [0..<16]" using assms by simp
  moreover have "list_all (\<lambda>n. scan_digit (hex_lower n) = Some n \<and> \<not> scan_space (hex_lower n)
      \<and> hex_lower n \<notin> {0x2D, 0x2B, 0x78, 0x58}) [0..<16]"
    by (simp add: hex_lower_def upt_rec scan_digit_def scan_space_def)
  ultimately show "scan_digit (hex_lower n) = Some n" "\<not> scan_space (hex_lower n)" "hex_lower n \<notin> {0x2D, 0x2B, 0x78, 0x58}"
    by (auto simp: list_all_iff)
qed

lemma scan_x_print:
  assumes "left = [] \<or> take 1 left = [0x3A]"
  shows "scan_x (print_02x m @ left) = Some (ucast m, left)"
proof -
  have d: "unat m div 16 < 16" "unat m mod 16 < 16"
    by (rule less_mult_imp_div_less) (use unat_byte_less [of m] in simp_all)
  have stop: "takeWhile is_hex left = []" "dropWhile is_hex left = left"
    using assms by (cases left; simp add: is_hex_def scan_digit_def)+
  have h: "is_hex (hex_lower (unat m div 16))" "is_hex (hex_lower (unat m mod 16))"
    using d by (simp_all add: is_hex_def scan_hex_lower)
  have v: "hex_number (print_02x m) = unat m"
    using d by (simp add: hex_number_def print_02x_def scan_hex_lower)
  have "unat m < 2 ^ 32" by (rule less_trans [OF unat_byte_less]) simp
  then have "\<not> 2 ^ 32 \<le> unat m" "(of_nat (unat m) :: u32) = ucast m"
    by (simp_all only: not_le of_nat_unat)
  then show ?thesis
    using v d h stop scan_hex_lower(2,3) [OF d(1)] scan_hex_lower(3) [OF d(2)]
    by (simp add: scan_x_def print_02x_def Let_def)
qed


lemma scan_fields_mac:
  assumes "length mac = 6"
  shows "scan_fields 6 (mac_text mac) = map ucast mac"
proof -
  obtain a b c d e f where m: "mac = [a, b, c, d, e, f]"
    using assms by (auto simp: numeral_eq_Suc length_Suc_conv)
  have six: "(6 :: nat) = Suc (Suc (Suc (Suc (Suc (Suc 0)))))" by simp
  have step: "scan_x (print_02x v @ 0x3A # r) = Some (ucast v, 0x3A # r)"
    "scan_x (print_02x v) = Some (ucast v, [])" for v r
    using scan_x_print [of "0x3A # r" v] scan_x_print [of "[]" v] by simp_all
  show ?thesis
    by (simp add: m mac_text_def six step)
qed

lemma le_bytes_ucast: "le_bytes (ucast (m :: byte)) = [m, 0, 0, 0]"
proof -
  have ucast_down: "ucast (ucast m :: u32) = m"
    by (intro bit_word_eqI) (auto simp: bit_simps)
  have "drop_bit k (ucast m :: u32) = 0" if "8 \<le> k" for k
    using that by (intro bit_eqI) (auto simp: bit_simps dest: bit_imp_le_length)
  then show ?thesis
    by (simp add: le_bytes_def UTIL_INT32_GET_alt ucast_down)
qed

text \<open>Six fields of four bytes each: the fields, and three bytes behind them that are cleared.\<close>

lemma store_six:
  assumes "length mac = 6" "9 \<le> length buf"
  shows "store_fields 0 (map ucast mac) buf = Inr (memcpy_at 0 (mac @ [0, 0, 0]) buf)"
proof -
  obtain a b c d e f where m: "mac = [a, b, c, d, e, f]"
    using assms(1) by (auto simp: numeral_eq_Suc length_Suc_conv)
  obtain x0 x1 x2 x3 x4 x5 x6 x7 x8 xs where b: "buf = x0 # x1 # x2 # x3 # x4 # x5 # x6 # x7 # x8 # xs"
    using assms(2) by (auto simp: numeral_eq_Suc Suc_le_length_iff)
  show ?thesis
    by (simp add: m b le_bytes_ucast memcpy_chk_def memcpy_at_def)
qed

lemma sscanf_mac_text:
  assumes "length mac = 6" "9 \<le> length buf"
  shows "sscanf_mac (mac_text mac) buf = Inr (6, memcpy_at 0 (mac @ [0, 0, 0]) buf)"
proof -
  have "unat (mac ! 0) div 16 < 16"
    by (rule less_mult_imp_div_less) (use unat_byte_less [of "mac ! 0"] in simp)
  then have "dropWhile scan_space (mac_text mac) \<noteq> []"
    by (simp add: mac_text_def print_02x_def scan_hex_lower)
  then show ?thesis
    using assms by (simp add: sscanf_mac_def scan_fields_mac store_six)
qed

lemma bytes_sockaddr_bytes: "bytes_sockaddr (sockaddr_bytes a) = a"
proof -
  have w: "UTIL_INT16_SET (ucast (drop_bit 8 x)) (ucast x) = x" for x :: u16
  proof -
    have "unat x < 65536" using unsigned_less [of x, where 'a = nat] by simp
    then have "unat x div 256 < 256" by (intro less_mult_imp_div_less) simp
    then have "unat (UTIL_INT16_SET (ucast (drop_bit 8 x)) (ucast x)) = unat x"
      by (simp add: unat_UTIL_INT16_SET unat_ucast_byte unat_drop_bit_div)
    then show ?thesis by simp
  qed
  show ?thesis
    by (cases a) (simp add: bytes_sockaddr_def sockaddr_bytes_def w le_word_def le_bytes_def UTIL_INT32_SET_GET)
qed


lemma c_string_plain: "0 \<notin> set v \<Longrightarrow> c_string v = v"
  by (auto simp: c_string_def takeWhile_eq_all_conv)

lemma sql_value_plain: "sql_value v \<Longrightarrow> 0 \<notin> set v"
  by (auto simp: sql_value_def)

text \<open>A row as the application writes it.\<close>

definition info_of :: "bytes \<Rightarrow> bytes \<Rightarrow> sockaddr_in \<Rightarrow> device_info \<Rightarrow> bool" where
  "info_of p mac a i \<longleftrightarrow> i_product i = p \<and> i_mac i = mac_text mac \<and> i_addr i = b64_enc (sockaddr_bytes a)
     \<and> length p = 32 \<and> 0 \<notin> set p \<and> length mac = 6"

definition out_room :: "device_out \<Rightarrow> bool" where
  "out_room out \<longleftrightarrow> (\<forall>b. o_productid out = Some b \<longrightarrow> 32 \<le> length b) \<and> (\<forall>b. o_mac out = Some b \<longrightarrow> 9 \<le> length b)
     \<and> (\<forall>b. o_address out = Some b \<longrightarrow> 16 \<le> length b)"

lemma dbGetDeviceInfo_unknown:
  assumes "sql_ok sq tab" "table_of tab d = Some t" "t x = None"
  shows "dbGetDeviceInfo sq x out d = Inr (-2, out)"
  using select_one [OF assms(1,2), of x] assms(3) by (auto simp: dbGetDeviceInfo_def)

lemma dbGetDeviceInfo_known:
  assumes "sql_ok sq tab" "table_of tab d = Some t" "t x = Some i" "info_of p mac a i" "out_room out"
  shows "dbGetDeviceInfo sq x out d = Inr (0, out\<lparr>o_productid := map_option (memcpy_at 0 p) (o_productid out),
    o_mac := map_option (memcpy_at 0 (mac @ [0, 0, 0])) (o_mac out),
    o_maclen := (if o_mac out = None then o_maclen out else 6),
    o_address := map_option (memcpy_at 0 (sockaddr_bytes a)) (o_address out)\<rparr>)"
proof -
  obtain row where row: "dbprepare_v2 sq (select_device x) d = Some [row]" "row_shows x i row"
    using select_one [OF assms(1,2), of x] assms(3) by auto
  have p: "c_string p = p" "take 32 (p @ [0]) = p" "length p = 32"
    using assms(4) by (simp_all add: info_of_def c_string_plain)
  have m: "c_string (mac_text mac) = mac_text mac" "c_string (b64_enc (sockaddr_bytes a)) = b64_enc (sockaddr_bytes a)"
    using sql_value_hex sql_value_addr by (simp_all add: c_string_plain sql_value_plain)
  have cols: "col_text row 1 = Some p" "col_text row 2 = Some (mac_text mac)" "col_text row 3 = Some (b64_enc (sockaddr_bytes a))"
    using row(2) assms(4) by (simp_all add: row_shows_def info_of_def)
  have pr: "get_productid row b = Inr (memcpy_at 0 p b)" if "32 \<le> length b" for b
    using that by (simp only: get_productid_def cols option.case p) (simp add: memcpy_chk_def p)
  have mc: "sscanf_mac (mac_text mac) b = Inr (6, memcpy_at 0 (mac @ [0, 0, 0]) b)" if "9 \<le> length b" for b
    using that assms(4) by (simp add: sscanf_mac_text info_of_def)
  have ad: "base64_decode (b64_enc (sockaddr_bytes a) @ [0]) b = Inr (memcpy_at 0 (sockaddr_bytes a) b, 16)" if "16 \<le> length b" for b
    using that base64_decode_encode [of "sockaddr_bytes a" b "[]"] by (simp add: sockaddr_bytes_def)
  show ?thesis
    using assms(5) by (cases "o_productid out"; cases "o_mac out"; cases "o_address out")
      (simp_all add: dbGetDeviceInfo_def row(1) cols m pr mc ad out_room_def)
qed

lemma dbGetAllDeviceID_eq:
  assumes "sql_ok sq tab" "table_of tab d = Some t" "buffersize = int (length buffer)"
  shows "\<exists>rows. distinct (map (\<lambda>row. col_int row 0) rows) \<and> (\<lambda>row. col_int row 0) ` set rows = dom t
    \<and> dbGetAllDeviceID sq buffer buffersize d =
      Inr (int (length (device_id_loop buffersize 0 rows)), memcpy_at 0 (device_id_loop buffersize 0 rows) buffer)"
proof -
  obtain h where h: "dbhandle d = Some h" "tab h = Some t"
    using table_handle [OF assms(2)] .
  with assms(1) obtain rows where rows: "sq_query sq (str ''SELECT * FROM device'') h = Some rows"
    "distinct (map (\<lambda>row. col_int row 0) rows)" "(\<lambda>row. col_int row 0) ` set rows = dom t"
    unfolding sql_ok_def sql_queries_def by meson
  have "index + int (length (device_id_loop n index rows)) \<le> max index n" for n index
    by (induction rows arbitrary: index) (auto simp: Let_def, smt (verit))
  from this [of 0 buffersize] have "length (device_id_loop buffersize 0 rows) \<le> length buffer"
    using assms(3) by simp
  then show ?thesis
    using rows h by (intro exI [of _ rows]) (simp add: dbGetAllDeviceID_def dbprepare_v2_def memcpy_chk_def Let_def)
qed

end
