(* ===== verification/GatewayTable.thy ===== *)
theory GatewayTable imports GatewayDb begin

text \<open>
  The device table as its clients see it: the locale \<open>device_store\<close> is the contract of the
  operations of \<^verbatim>\<open>dbDevice.c\<close>, with the refinement of the abstract table proved once inside it; its
  interpretation is the model of the code. A small database that keeps the table as a map and
  reads the code's statements shows that \<open>sql_ok\<close> can hold.
\<close>

declare str_simps [simp del]

section \<open>The interface\<close>

datatype db_op =
  Add_Device u32 bytes bytes sockaddr_in
| Delete_Device u32
| Update_Address u32 sockaddr_in
| Set_Status u32 int
| Is_Existed u32

definition op_allowed :: "db_op \<Rightarrow> bool" where
  "op_allowed op \<longleftrightarrow> (case op of Add_Device d p m a \<Rightarrow> sql_value (c_string p) \<and> 6 \<le> length m | _ \<Rightarrow> True)"

text \<open>The abstract table: what an operation returns and makes of it. It may fail with -1.\<close>

definition table_op :: "db_op \<Rightarrow> device_table \<Rightarrow> int \<Rightarrow> device_table \<Rightarrow> bool" where
  "table_op op t r t' \<longleftrightarrow>
     (case op of
        Add_Device d p m a \<Rightarrow>
          if t d \<noteq> None then r = -2 \<and> t' = t else r = 0 \<and> t' = t(d \<mapsto> new_info p m a) \<or> r = -1 \<and> t' = t
      | Delete_Device d \<Rightarrow>
          if t d = None then r = 0 \<and> t' = t else r = 0 \<and> t' = t(d := None) \<or> r = -1 \<and> t' = t
      | Update_Address d a \<Rightarrow>
          (case t d of None \<Rightarrow> r = -2 \<and> t' = t
           | Some i \<Rightarrow> r = 0 \<and> t' = t(d \<mapsto> i\<lparr>i_addr := b64_enc (sockaddr_bytes a)\<rparr>) \<or> r = -1 \<and> t' = t)
      | Set_Status d st \<Rightarrow>
          (case t d of None \<Rightarrow> r = -2 \<and> t' = t
           | Some i \<Rightarrow> r = 0 \<and> t' = t(d \<mapsto> i\<lparr>i_status := if st = 0 then 0 else 1\<rparr>) \<or> r = -1 \<and> t' = t)
      | Is_Existed d \<Rightarrow> r = (if t d = None then 0 else 1) \<and> t' = t)"

fun table_run :: "db_op list \<Rightarrow> device_table \<Rightarrow> int list \<Rightarrow> device_table \<Rightarrow> bool" where
  "table_run [] t rs t' = (rs = [] \<and> t' = t)"
| "table_run (op # ops) t rs t' =
     (case rs of [] \<Rightarrow> False | r # rs \<Rightarrow> \<exists>u. table_op op t r u \<and> table_run ops u rs t')"

locale device_store =
  fixes ok :: "'e \<Rightarrow> bool"
    and table :: "'e \<Rightarrow> 's \<Rightarrow> device_table option"
    and perform :: "'e \<Rightarrow> db_op \<Rightarrow> 's \<Rightarrow> (int \<times> 's) c_result"
  assumes perform_op: "ok e \<Longrightarrow> table e s = Some t \<Longrightarrow> op_allowed op \<Longrightarrow>
    \<exists>r s' t'. perform e op s = Inr (r, s') \<and> table e s' = Some t' \<and> table_op op t r t'"
begin

primrec perform_all :: "'e \<Rightarrow> db_op list \<Rightarrow> 's \<Rightarrow> (int list \<times> 's) c_result" where
  "perform_all e [] s = Inr ([], s)"
| "perform_all e (op # ops) s = c_bind (perform e op s) (\<lambda>(r, s). c_bind (perform_all e ops s) (\<lambda>(rs, s). Inr (r # rs, s)))"

lemma perform_all_refines:
  assumes "ok e" "table e s = Some t" "\<forall>op\<in>set ops. op_allowed op"
  shows "\<exists>rs s' t'. perform_all e ops s = Inr (rs, s') \<and> table e s' = Some t' \<and> table_run ops t rs t'"
  using assms(2,3)
proof (induction ops arbitrary: s t)
  case (Cons op ops)
  obtain r s1 t1 where 1: "perform e op s = Inr (r, s1)" "table e s1 = Some t1" "table_op op t r t1"
    using perform_op [OF assms(1) Cons.prems(1), of op] Cons.prems(2) by auto
  obtain rs s2 t2 where 2: "perform_all e ops s1 = Inr (rs, s2)" "table e s2 = Some t2" "table_run ops t1 rs t2"
    using Cons.IH [OF 1(2)] Cons.prems(2) by auto
  show ?case
    by (rule exI [of _ "r # rs"]) (use 1 2 in auto)
qed simp

text \<open>Only adding makes a device known, and only deleting forgets one.\<close>

lemma perform_grows:
  assumes "ok e" "table e s = Some t" "op_allowed op" "perform e op s = Inr (r, s')" "table e s' = Some t'"
  shows "t d = None \<Longrightarrow> t' d \<noteq> None \<Longrightarrow> \<exists>p m a. op = Add_Device d p m a"
    and "t d \<noteq> None \<Longrightarrow> t' d = None \<Longrightarrow> op = Delete_Device d"
proof -
  have "table_op op t r t'"
    using perform_op [OF assms(1-3)] assms(4,5) by auto
  then show "t d = None \<Longrightarrow> t' d \<noteq> None \<Longrightarrow> \<exists>p m a. op = Add_Device d p m a"
    and "t d \<noteq> None \<Longrightarrow> t' d = None \<Longrightarrow> op = Delete_Device d"
    by (auto simp: table_op_def fun_upd_def split: db_op.splits if_splits option.splits)
qed

end

text \<open>The operations of the code.\<close>

definition db_perform :: "'db sqlite \<Rightarrow> db_op \<Rightarrow> 'db device_db \<Rightarrow> (int \<times> 'db device_db) c_result" where
  "db_perform sq op d =
     (case op of
        Add_Device x p m a \<Rightarrow> dbAddDevice sq x p m a d
      | Delete_Device x \<Rightarrow> Inr (dbDeleteDevice sq x d)
      | Update_Address x a \<Rightarrow> dbUpdateDeviceAddress sq x a d
      | Set_Status x st \<Rightarrow> Inr (dbSetDeviceStatus sq x st d)
      | Is_Existed x \<Rightarrow> Inr (dbDeviceExisted sq x d, d))"

primrec db_run :: "'db sqlite \<Rightarrow> db_op list \<Rightarrow> 'db device_db \<Rightarrow> (int list \<times> 'db device_db) c_result" where
  "db_run sq [] d = Inr ([], d)"
| "db_run sq (op # ops) d = c_bind (db_perform sq op d) (\<lambda>(r, d). c_bind (db_run sq ops d) (\<lambda>(rs, d). Inr (r # rs, d)))"

lemma db_perform_refines:
  assumes "sql_ok sq tab" "table_of tab d = Some t" "op_allowed op"
  shows "\<exists>r d' t'. db_perform sq op d = Inr (r, d') \<and> table_of tab d' = Some t' \<and> table_op op t r t'"
proof (cases op)
  case (Add_Device x p m a)
  then show ?thesis
    using dbAddDevice_known [OF assms(1,2), of x p m a] dbAddDevice_new [OF assms(1,2), of x m p a] assms(2,3)
    by (cases "t x") (auto simp: db_perform_def table_op_def table_effect_def op_allowed_def)
next
  case (Delete_Device x)
  then show ?thesis
    using dbDeleteDevice_unknown [OF assms(1,2), of x] dbDeleteDevice_effect [OF assms(1,2), of x] assms(2)
    by (cases "t x") (auto simp: db_perform_def table_op_def table_effect_def)
next
  case (Update_Address x a)
  then show ?thesis
    using dbUpdateDeviceAddress_unknown [OF assms(1,2), of x a] dbUpdateDeviceAddress_known [OF assms(1,2), of x _ a] assms(2)
    by (cases "t x") (auto simp: db_perform_def table_op_def table_effect_def)
next
  case (Set_Status x st)
  then show ?thesis
    using dbSetDeviceStatus_unknown [OF assms(1,2), of x st] dbSetDeviceStatus_known [OF assms(1,2), of x _ st] assms(2)
    by (cases "t x") (auto simp: db_perform_def table_op_def table_effect_def)
next
  case (Is_Existed x)
  then show ?thesis
    using dbDeviceExisted_iff [OF assms(1,2), of x] assms(2) by (simp add: db_perform_def table_op_def)
qed

interpretation devices: device_store "\<lambda>(sq, tab). sql_ok sq tab" "\<lambda>(sq, tab). table_of tab" "\<lambda>(sq, tab). db_perform sq"
  using db_perform_refines by unfold_locales auto

lemma db_run_perform_all: "devices.perform_all (sq, tab) ops d = db_run sq ops d"
  by (induction ops arbitrary: d) simp_all


section \<open>A database that does what the code relies on\<close>

fun split_quotes :: "bytes \<Rightarrow> bytes list" where
  "split_quotes [] = [[]]"
| "split_quotes (c # cs) =
     (if c = 0x27 then [] # split_quotes cs
      else case split_quotes cs of [] \<Rightarrow> [[c]] | p # ps \<Rightarrow> (c # p) # ps)"

definition digits_value :: "bytes \<Rightarrow> u32" where
  "digits_value ds = foldl (\<lambda>v c. 10 * v + ucast (c - 0x30)) 0 ds"

definition read_d :: "bytes \<Rightarrow> u32" where
  "read_d ds = (if take 1 ds = [0x2D] then - digits_value (drop 1 ds) else digits_value ds)"

definition row_of :: "u32 \<Rightarrow> device_info \<Rightarrow> sql_row" where
  "row_of d i = \<lparr>col_int = (\<lambda>k. if k = 0 then d else if k = 4 then i_status i else 0),
     col_text = (\<lambda>k. if k = 1 then Some (i_product i) else if k = 2 then Some (i_mac i)
       else if k = 3 then Some (i_addr i) else None)\<rparr>"

definition table_exec :: "bytes \<Rightarrow> device_table \<Rightarrow> int \<times> device_table" where
  "table_exec cmd t =
     (case split_quotes cmd of
        [ins, d, _, p, _, m, _, a, _, st, _] \<Rightarrow>
          if t (read_d d) = None
          then (0, t(read_d d \<mapsto> \<lparr>i_product = p, i_mac = m, i_addr = a, i_status = read_d st\<rparr>))
          else (19, t)
      | [upd, v, wh, d, _] \<Rightarrow>
          if wh = str '' where status='' then (0, \<lambda>x. map_option offline (t x))
          else if upd = str ''update device set address=''
          then (0, t(read_d d := map_option (i_addr_update (\<lambda>_. v)) (t (read_d d))))
          else (0, t(read_d d := map_option (i_status_update (\<lambda>_. read_d v)) (t (read_d d))))
      | [del, d, _] \<Rightarrow> (0, t(read_d d := None))
      | _ \<Rightarrow> (0, t))"

definition table_sqlite :: "device_table option sqlite" where
  "table_sqlite = \<lparr>sq_open = (0, Some None),
     sq_exec = (\<lambda>cmd h. case h of
       None \<Rightarrow> if cmd = create_table then (0, Some Map.empty) else (1, None)
     | Some t \<Rightarrow> (case table_exec cmd t of (r, t) \<Rightarrow> (r, Some t))),
     sq_query = (\<lambda>cmd h. case h of
       None \<Rightarrow> None
     | Some t \<Rightarrow> Some (case split_quotes cmd of
         [sel, d, _] \<Rightarrow> (case t (read_d d) of None \<Rightarrow> [] | Some i \<Rightarrow> [row_of (read_d d) i])
       | _ \<Rightarrow> if cmd = str ''SELECT * FROM device''
              then map (\<lambda>d. row_of d (the (t d))) (sorted_list_of_set (dom t))
              else [\<lparr>col_int = (\<lambda>k. of_nat (card (dom t))), col_text = (\<lambda>k. None)\<rparr>]))\<rparr>"

lemma split_quotes_plain: "0x27 \<notin> set a \<Longrightarrow> split_quotes a = [a]"
  by (induction a) auto

lemma split_quotes_step: "0x27 \<notin> set a \<Longrightarrow> split_quotes (a @ 0x27 # b) = a # split_quotes b"
  by (induction a) auto

lemma decimal_nat_value: "digits_value (decimal_nat n) = of_nat n"
proof (induction n rule: decimal_nat.induct)
  case (1 n)
  have digit: "ucast (0x30 + of_nat d - 0x30 :: byte) = (of_nat d :: u32)" if "d < 10" for d :: nat
  proof -
    have "d \<in> set [0..<10]" using that by simp
    moreover have "list_all (\<lambda>d. ucast (0x30 + of_nat d - 0x30 :: byte) = (of_nat d :: u32)) [0..<10]"
      by (simp add: upt_rec)
    ultimately show ?thesis by (simp add: list_all_iff)
  qed
  show ?case
  proof (cases "n < 10")
    case True
    then show ?thesis
      using digit [OF True] by (subst decimal_nat.simps) (simp add: digits_value_def)
  next
    case False
    have "(of_nat n :: u32) = of_nat (10 * (n div 10) + n mod 10)" by simp
    then have "(of_nat n :: u32) = 10 * of_nat (n div 10) + of_nat (n mod 10)" by (simp only: of_nat_add of_nat_mult) simp
    with False 1 digit [of "n mod 10"] show ?thesis
      by (subst decimal_nat.simps) (simp add: digits_value_def)
  qed
qed

lemma read_print_d: "read_d (print_d x) = x"
proof (cases "sint x < 0")
  case True
  have "(of_nat (nat (- sint x)) :: u32) = of_int (- sint x)"
    using True by (intro of_nat_nat) simp
  then have "- of_nat (nat (- sint x)) = x"
    by (simp only: of_int_minus of_int_sint scast_id minus_minus)
  with True show ?thesis
    by (simp add: print_d_def decimal_def read_d_def decimal_nat_value)
next
  case False
  have "take 1 (decimal_nat n) \<noteq> [0x2D]" for n
  proof
    assume "take 1 (decimal_nat n) = [0x2D]"
    then have "0x2D \<in> set (decimal_nat n)" by (cases "decimal_nat n") auto
    then show False using decimal_nat_chars [of "0x2D" n] by simp
  qed
  moreover have "(of_nat (nat (sint x)) :: u32) = of_int (sint x)"
    using False by (intro of_nat_nat) simp
  ultimately show ?thesis
    using False by (simp add: print_d_def decimal_def read_d_def decimal_nat_value)
qed

lemma print_d_quote: "0x27 \<notin> set (print_d x)"
  using decimal_nat_chars [of "0x27"] by (auto simp: print_d_def decimal_def)

lemma sql_value_quote: "sql_value v \<Longrightarrow> 0x27 \<notin> set v"
  by (auto simp: sql_value_def)


lemma split_texts:
  "split_quotes (select_where device (str ''id'') (print_d x)) = [str ''SELECT * FROM device where id='', print_d x, []]"
  "split_quotes (delete_where device (str ''id'') (print_d x)) = [str ''delete from device where id='', print_d x, []]"
  "0x27 \<notin> set v \<Longrightarrow> split_quotes (update_where device (str ''address'') v (str ''id'') (print_d x)) =
     [str ''update device set address='', v, str '' where id='', print_d x, []]"
  "0x27 \<notin> set v \<Longrightarrow> split_quotes (update_where device (str ''status'') v (str ''id'') (print_d x)) =
     [str ''update device set status='', v, str '' where id='', print_d x, []]"
  "split_quotes (update_where device (str ''status'') (str ''0'') (str ''status'') (str ''1'')) =
     [str ''update device set status='', str ''0'', str '' where status='', str ''1'', []]"
  "0x27 \<notin> set p \<Longrightarrow> 0x27 \<notin> set m \<Longrightarrow> 0x27 \<notin> set a \<Longrightarrow> split_quotes (insert_text x p m a) =
     [str ''INSERT INTO device VALUES('', print_d x, [0x2C], p, [0x2C], m, [0x2C], a, [0x2C], str ''1'', [0x29]]"
  by (simp_all add: select_where_def delete_where_def update_where_def insert_text_def quoted_def device_def str_simps
      split_quotes_step print_d_quote)

lemma table_sqlite_queries: "sql_queries table_sqlite (\<lambda>h. h)"
proof -
  have all: "split_quotes (str ''SELECT * FROM device'') = [str ''SELECT * FROM device'']"
    "split_quotes (str ''SELECT COUNT(*) FROM device'') = [str ''SELECT COUNT(*) FROM device'']"
    "str ''SELECT COUNT(*) FROM device'' \<noteq> str ''SELECT * FROM device''"
    by (simp_all add: str_simps)
  have row: "row_shows x i (row_of x i)" for x i
    by (simp add: row_shows_def row_of_def)
  have ids: "map (\<lambda>row. col_int row 0) (map (\<lambda>d. row_of d (the (t d))) ds) = ds" for t ds
    by (simp add: row_of_def comp_def)
  have "\<exists>rows. sq_query table_sqlite (select_where device (str ''id'') (print_d d)) (Some t) = Some rows
      \<and> (case t d of None \<Rightarrow> rows = [] | Some i \<Rightarrow> \<exists>row. rows = [row] \<and> row_shows d i row)" for t d
    using row by (cases "t d") (simp_all add: table_sqlite_def split_texts read_print_d)
  moreover have "\<exists>rows. sq_query table_sqlite (str ''SELECT * FROM device'') (Some t) = Some rows
      \<and> distinct (map (\<lambda>row. col_int row 0) rows) \<and> (\<lambda>row. col_int row 0) ` set rows = dom t" for t
  proof (intro exI conjI)
    let ?rows = "map (\<lambda>d. row_of d (the (t d))) (sorted_list_of_set (dom t))"
    show "sq_query table_sqlite (str ''SELECT * FROM device'') (Some t) = Some ?rows"
      by (simp add: table_sqlite_def all)
    show "distinct (map (\<lambda>row. col_int row 0) ?rows)" by (simp only: ids) simp
    have "(\<lambda>row. col_int row 0) ` set ?rows = set (map (\<lambda>row. col_int row 0) ?rows)" by (simp only: set_map)
    then show "(\<lambda>row. col_int row 0) ` set ?rows = dom t" by (simp only: ids) simp
  qed
  moreover have "\<exists>row. sq_query table_sqlite (str ''SELECT COUNT(*) FROM device'') (Some t) = Some [row]
      \<and> col_int row 0 = of_nat (card (dom t))" for t
    by (simp add: table_sqlite_def all)
  ultimately show ?thesis unfolding sql_queries_def by blast
qed

lemma table_sqlite_changes: "sql_changes table_sqlite (\<lambda>h. h)"
proof -
  have one: "read_d (str ''1'') = 1" "read_d (str ''0'') = 0" "0x27 \<notin> set (str ''1'')" "0x27 \<notin> set (str ''0'')"
    by (simp_all add: str_simps read_d_def digits_value_def)
  have words: "str '' where id='' \<noteq> str '' where status=''"
    "str ''update device set status='' \<noteq> str ''update device set address=''"
    by (simp_all add: str_simps)
  note step = table_sqlite_def table_exec_def sql_effect_def split_texts read_print_d one words sql_value_quote
  show ?thesis
    unfolding sql_changes_def by (auto simp: step)
qed

lemma table_sqlite_ok: "sql_ok table_sqlite (\<lambda>h. h)"
proof -
  have "split_quotes create_table = [create_table]"
    by (rule split_quotes_plain) (simp add: create_table_def str_simps)
  then have "sql_create table_sqlite (\<lambda>h. h)"
    by (auto simp: sql_create_def sql_effect_def table_sqlite_def table_exec_def split: option.splits)
  then show ?thesis
    using table_sqlite_queries table_sqlite_changes by (simp add: sql_ok_def)
qed

text \<open>An open database with an empty table.\<close>

definition empty_db :: "device_table option device_db" where
  "empty_db = \<lparr>db_isinited = True, dbhandle = Some (Some Map.empty)\<rparr>"

lemma table_of_empty_db: "table_of (\<lambda>h. h) empty_db = Some Map.empty"
  by (simp add: table_of_def empty_db_def)

section \<open>Properties\<close>



end
