(* ===== verification/GatewayApp.thy ===== *)
theory GatewayApp imports GatewayTable CloudRun begin

text \<open>
  The gateway application around its two libraries: \<^verbatim>\<open>XDevice.c\<close> (the cloud client's side: the queue of
  messages to the apps, the threads, start and stop) and \<^verbatim>\<open>xlink_gateway.c\<close> (the callbacks of the
  gateway library, the console, the start of everything). The state \<open>app\<close> holds the globals of both
  files with the device table, the gateway library and the cloud client. What the system and the
  database answer is \<open>app_env\<close>; one operation reads the clock once.
\<close>

declare str_simps [simp del]

record 'db app =
  a_db :: "'db device_db"
  a_lib :: xg_lib
  a_cloud :: xcloud
  a_disk :: ini_disk
  a_talk :: "xg_event list"
  g_StartAllowAddTime :: u32
  g_AllowAddTimeout :: u32
  g_GatewayID :: bytes
  g_header :: "bytes list"
  isConnectServer :: bool
  g_sdk_open :: bool
  isResetSdkFlag :: bool
  isAllowJoin :: bool
  g_allowtime :: u32
  gs_host :: bytes
  xd_isQuit :: bool

record 'db app_env =
  e_sql :: "'db sqlite"
  e_time :: u32
  e_xg :: xg_env
  e_sendto :: int
  e_session :: udp_session
  e_md5 :: XGMD5_CTX
  e_malloc :: bool
  e_tcp_sent :: int
  e_version :: "bytes list option"
  e_stack :: bytes
  e_version_garbage :: u32
  e_address :: bytes

section \<open>The cloud client's side\<close>

datatype send_call = SendUdpResponse | SendTcpResponse

definition send_udp_pipe :: "'db app_env \<Rightarrow> bytes \<Rightarrow> int \<Rightarrow> 'db app \<Rightarrow> (int \<times> 'db app) c_result" where
  "send_udp_pipe env data index app =
     c_bind (XlinkSendUdpPipe (e_malloc env) data index True (dev (a_cloud app))) (\<lambda>(ret, d).
       Inr (ret, app\<lparr>a_cloud := (a_cloud app)\<lparr>dev := d\<rparr>\<rparr>))"

definition SendCall :: "send_call \<Rightarrow> 'db app_env \<Rightarrow> bytes \<Rightarrow> u32 \<Rightarrow> 'db app \<Rightarrow> 'db app c_result" where
  "SendCall call env data who app =
     (case call of
        SendUdpResponse \<Rightarrow> c_bind (send_udp_pipe env data (sint who) app) (\<lambda>(ret, app). Inr app)
      | SendTcpResponse \<Rightarrow>
          Inr (app\<lparr>a_cloud := snd (XlinkSendTcpPipe (e_tcp_sent env) 0 (Some data) who (a_cloud app))\<rparr>))"

text \<open>The two configuration callbacks, over the settings file of the state.\<close>

definition app_OnWriteConfig :: "bytes \<Rightarrow> 'db app \<Rightarrow> 'db app c_result" where
  "app_OnWriteConfig img app = c_bind (OnWriteConfig_t img (a_disk app)) (\<lambda>(r, disk). Inr (app\<lparr>a_disk := disk\<rparr>))"

datatype app_cloud_status = Cloud XLINK_APP_STATUS | Local app_status

definition OnStatus_t :: "app_cloud_status \<Rightarrow> 'db app \<Rightarrow> 'db app" where
  "OnStatus_t st app =
     (if st = Cloud STA_DISCONNCT_SERVER \<or> st = Cloud STA_CONNECT_SERVER_FAILED then app\<lparr>isConnectServer := False\<rparr>
      else if st = Cloud STA_LOGIN_SUCCESS then app\<lparr>isConnectServer := True, g_sdk_open := True\<rparr>
      else app)"

definition XDAddSendData :: "'db app_env \<Rightarrow> bytes \<Rightarrow> 'db app \<Rightarrow> 'db app" where
  "XDAddSendData env data app = (if e_malloc env then app\<lparr>g_header := g_header app @ [data]\<rparr> else app)"

definition be32_at :: "u32 \<Rightarrow> bytes" where
  "be32_at x = [UTIL_INT32_GET_BIT3 x, UTIL_INT32_GET_BIT2 x, UTIL_INT32_GET_BIT1 x, UTIL_INT32_GET_BIT0 x]"

text \<open>The message has an array of 256 bytes.\<close>

definition XDNewDeviceJoinNotify ::
  "'db app_env \<Rightarrow> u32 \<Rightarrow> bytes \<Rightarrow> bytes \<Rightarrow> u32 \<Rightarrow> 'db app \<Rightarrow> 'db app c_result" where
  "XDNewDeviceJoinNotify env deviceid product mac mlen app =
     (if length product < 32 \<or> length mac < unat mlen \<or> 256 < 38 + unat mlen then Inl Out_Of_Bounds
      else Inr (XDAddSendData env (0x02 # be32_at deviceid @ take 32 product @ ucast mlen # take (unat mlen) mac) app))"

definition XDControlData :: "'db app_env \<Rightarrow> u32 \<Rightarrow> bytes \<Rightarrow> u32 \<Rightarrow> 'db app \<Rightarrow> 'db app c_result" where
  "XDControlData env deviceid data datalength app =
     (if 1500 < datalength then Inr app
      else if length data < unat datalength then Inl Out_Of_Bounds
      else Inr (XDAddSendData env (0x07 # be32_at deviceid @ [0, 0, UTIL_INT16_GET_BITH datalength, UTIL_INT16_GET_BITL datalength]
             @ take (unat datalength) data) app))"

definition XDResetSdk :: "'db app \<Rightarrow> 'db app" where
  "XDResetSdk app = app\<lparr>isResetSdkFlag := True\<rparr>"

definition XDSetHost :: "bytes \<Rightarrow> 'db app \<Rightarrow> 'db app c_result" where
  "XDSetHost host app = c_bind (strcpy_chk host (replicate 128 0)) (\<lambda>h. Inr (app\<lparr>gs_host := h\<rparr>))"

definition AlowDeviceJoin :: "'db app_env \<Rightarrow> u32 \<Rightarrow> 'db app \<Rightarrow> 'db app" where
  "AlowDeviceJoin env timeout app = app\<lparr>isAllowJoin := True, g_allowtime := e_time env + timeout\<rparr>"

section \<open>Calls of the gateway library\<close>

definition on_lib :: "(xg_lib \<Rightarrow> (int \<times> xg_lib) c_result) \<Rightarrow> 'db app \<Rightarrow> (int \<times> 'db app) c_result" where
  "on_lib f app = c_bind (f (a_lib app)) (\<lambda>(ret, lib). Inr (ret, app\<lparr>a_lib := lib\<rparr>))"

definition on_talk :: "(xg_lib \<Rightarrow> (int \<times> xg_event list) c_result) \<Rightarrow> 'db app \<Rightarrow> (int \<times> 'db app) c_result" where
  "on_talk f app = c_bind (f (a_lib app)) (\<lambda>(ret, evs). Inr (ret, app\<lparr>a_talk := a_talk app @ evs\<rparr>))"

text \<open>\<open>args\<close> points to an unsigned short, or is NULL.\<close>

definition ConsoleDiscoverDevice :: "'db app_env \<Rightarrow> u16 option \<Rightarrow> 'db app \<Rightarrow> (int \<times> 'db app) c_result" where
  "ConsoleDiscoverDevice env args app =
     on_lib (XGDiscover (e_xg env) (e_sendto env))
       (app\<lparr>g_StartAllowAddTime := e_time env, g_AllowAddTimeout := (case args of None \<Rightarrow> 10 | Some t \<Rightarrow> ucast t)\<rparr>)"

definition ConsoleRestartNofify :: "'db app_env \<Rightarrow> 'db app \<Rightarrow> (int \<times> 'db app) c_result" where
  "ConsoleRestartNofify env app = on_lib (XGRestartNotify (e_xg env) (e_sendto env)) app"

section \<open>The callbacks of the gateway library\<close>

definition on_db :: "('db device_db \<Rightarrow> int \<times> 'db device_db) \<Rightarrow> 'db app \<Rightarrow> 'db app" where
  "on_db f app = app\<lparr>a_db := snd (f (a_db app))\<rparr>"

definition OnDeviceLogin_t :: "'db app_env \<Rightarrow> u32 \<Rightarrow> 'db app \<Rightarrow> int \<times> 'db app" where
  "OnDeviceLogin_t env deviceid app =
     (if dbDeviceExisted (e_sql env) deviceid (a_db app) \<noteq> 0
      then (0, on_db (dbSetDeviceStatus (e_sql env) deviceid 1) app) else (1, app))"

definition OnLoginout_t :: "'db app_env \<Rightarrow> u32 \<Rightarrow> 'db app \<Rightarrow> 'db app" where
  "OnLoginout_t env deviceid app =
     (if dbDeviceExisted (e_sql env) deviceid (a_db app) \<noteq> 0
      then on_db (dbSetDeviceStatus (e_sql env) deviceid 0) app else app)"

definition OnRecvDataFormDevice_t ::
  "'db app_env \<Rightarrow> u32 \<Rightarrow> u32 \<Rightarrow> u16 \<Rightarrow> bytes \<Rightarrow> u32 \<Rightarrow> u32 \<Rightarrow> 'db app \<Rightarrow> 'db app c_result" where
  "OnRecvDataFormDevice_t env deviceid toid msgid data datalength pipe app =
     c_bind (on_lib (XGSendDataToCloud (e_xg env) deviceid toid msgid (Some data) datalength pipe) app) (\<lambda>(ret, app).
       XDControlData env deviceid data datalength app)"

definition OnRecvDataFormCloud_t ::
  "'db app_env \<Rightarrow> u32 \<Rightarrow> u32 \<Rightarrow> u16 \<Rightarrow> bytes \<Rightarrow> u32 \<Rightarrow> u32 \<Rightarrow> 'db app \<Rightarrow> 'db app c_result" where
  "OnRecvDataFormCloud_t env deviceid toid msgid data datalength pipe app =
     c_bind (on_lib (XGSendDataToDevice (e_xg env) deviceid toid msgid (Some data) datalength pipe) app) (\<lambda>(ret, app). Inr app)"

definition join_open :: "'db app_env \<Rightarrow> 'db app \<Rightarrow> bool" where
  "join_open env app \<longleftrightarrow> sint (e_time env - g_StartAllowAddTime app) \<le> sint (g_AllowAddTimeout app)"

definition OnDiscoverDevice_t ::
  "'db app_env \<Rightarrow> bytes \<Rightarrow> bytes \<Rightarrow> u32 \<Rightarrow> u32 \<Rightarrow> sockaddr_in \<Rightarrow> 'db app \<Rightarrow> (int \<times> 'db app) c_result" where
  "OnDiscoverDevice_t env product mac mlen deviceid address app =
     (if length mac < 6 then Inl Out_Of_Bounds
      else if dbDeviceExisted (e_sql env) deviceid (a_db app) \<noteq> 0 then Inr (0, app)
      else if \<not> join_open env app then Inr (1, app)
      else c_bind (dbAddDevice (e_sql env) deviceid product mac address (a_db app)) (\<lambda>(ret, db).
        c_bind (XDNewDeviceJoinNotify env deviceid product mac mlen (app\<lparr>a_db := db\<rparr>)) (\<lambda>app. Inr (ret, app))))"

definition OnDeviceRestartNotify_t ::
  "'db app_env \<Rightarrow> bytes \<Rightarrow> u32 \<Rightarrow> sockaddr_in \<Rightarrow> 'db app \<Rightarrow> (int \<times> 'db app) c_result" where
  "OnDeviceRestartNotify_t env gatewayid deviceid address app =
     (if c_string gatewayid \<noteq> c_string (g_GatewayID app) then Inr (-1, app)
      else if dbDeviceExisted (e_sql env) deviceid (a_db app) \<noteq> 0
      then c_bind (dbUpdateDeviceAddress (e_sql env) deviceid address (a_db app)) (\<lambda>(r, db). Inr (0, app\<lparr>a_db := db\<rparr>))
      else Inr (1, app))"

text \<open>
  The table of callbacks for the library: what each answers in the present state of the
  application. A callback that leaves an array stops the program; here it answers 0.
\<close>

definition answer_of :: "(int \<times> 'db app) c_result \<Rightarrow> int" where
  "answer_of r = (case r of Inl _ \<Rightarrow> 0 | Inr (ret, _) \<Rightarrow> ret)"

definition xgconfig :: "'db app_env \<Rightarrow> 'db app \<Rightarrow> XGConfig" where
  "xgconfig env app =
     \<lparr>OnDeviceLogin = Some (\<lambda>deviceid ret address. of_int (fst (OnDeviceLogin_t env deviceid app))),
      has_OnLoginout = True, has_OnRecvDataFormDevice = True, has_OnRecvDataFormCloud = True,
      OnDiscoverDevice = Some (\<lambda>product mac mlen deviceid address.
        answer_of (OnDiscoverDevice_t env product mac mlen deviceid address app)),
      OnDeviceRestartNotify = Some (\<lambda>gatewayid product mac mlen deviceid address.
        answer_of (OnDeviceRestartNotify_t env gatewayid deviceid address app))\<rparr>"

text \<open>What a callback that the library has made does to the application.\<close>

definition callback :: "'db app_env \<Rightarrow> xg_event \<Rightarrow> 'db app \<Rightarrow> 'db app c_result" where
  "callback env ev app =
     (case ev of
        Ev_DeviceLogin deviceid address \<Rightarrow> Inr (snd (OnDeviceLogin_t env deviceid app))
      | Ev_Loginout deviceid reason \<Rightarrow> Inr (OnLoginout_t env deviceid app)
      | Ev_RecvDataFormDevice deviceid toid msgid data pipe \<Rightarrow>
          OnRecvDataFormDevice_t env deviceid toid msgid data (of_nat (length data)) pipe app
      | Ev_RecvDataFormCloud deviceid toid msgid data pipe \<Rightarrow>
          OnRecvDataFormCloud_t env deviceid toid msgid data (of_nat (length data)) pipe app
      | Ev_DiscoverDevice product mac mlen deviceid address \<Rightarrow>
          c_bind (OnDiscoverDevice_t env product mac mlen deviceid address app) (\<lambda>(ret, app). Inr app)
      | Ev_DeviceRestartNotify gatewayid product mac mlen deviceid address \<Rightarrow>
          c_bind (OnDeviceRestartNotify_t env gatewayid deviceid address app) (\<lambda>(ret, app). Inr app)
      | _ \<Rightarrow> Inr app)"

primrec callbacks :: "'db app_env \<Rightarrow> xg_event list \<Rightarrow> 'db app \<Rightarrow> 'db app c_result" where
  "callbacks env [] app = Inr app"
| "callbacks env (ev # evs) app = c_bind (callback env ev app) (callbacks env evs)"

text \<open>A datagram of \<open>n\<close> bytes for the library's UDP socket, with the callbacks it leads to.\<close>

definition app_udp_datagram ::
  "'db app_env \<Rightarrow> bytes \<Rightarrow> sockaddr_in \<Rightarrow> 'db app \<Rightarrow> 'db app c_result" where
  "app_udp_datagram env d addr app =
     (case g_ctx (a_lib app) of
        None \<Rightarrow> Inr app
      | Some core \<Rightarrow>
          c_bind (XGStartProtocolUdp (e_xg env) (udp_buffer d) (of_nat (length d)) addr
            (core\<lparr>XGCore.config := Some (xgconfig env app)\<rparr>)) (\<lambda>core'.
            callbacks env (drop (length (XGCore.xlog core)) (XGCore.xlog core'))
              (app\<lparr>a_lib := (a_lib app)\<lparr>g_ctx := Some core'\<rparr>\<rparr>)))"


section \<open>The threads of \<^verbatim>\<open>XDevice.c\<close>\<close>

text \<open>
  \<^verbatim>\<open>XlinkReSetSDK\<close> of the cloud client: keys and activation are forgotten, the state is saved and the
  connection to the cloud closed.
\<close>

definition reset_sdk :: "'db app \<Rightarrow> 'db app c_result" where
  "reset_sdk app =
     (let c = a_cloud app; d = dev c; r = XlinkReSetSDK (flash d, xsdk.config d)
      in c_bind (app_OnWriteConfig (snd r) app) (\<lambda>app.
           Inr (app\<lparr>a_cloud := xsdk_closeTCP False (c\<lparr>dev := d\<lparr>flash := fst (fst r), xsdk.config := snd (fst r)\<rparr>\<rparr>)\<rparr>)))"

text \<open>One message of the queue goes to every local session and to the cloud's subscribers.\<close>

definition send_queued :: "'db app_env \<Rightarrow> bool \<Rightarrow> 'db app \<Rightarrow> 'db app c_result" where
  "send_queued env trylock app =
     (case g_header app of
        [] \<Rightarrow> Inr app
      | item # items \<Rightarrow>
          if \<not> trylock then Inr app
          else c_bind (send_udp_pipe env item (-1) (app\<lparr>g_header := items\<rparr>)) (\<lambda>(ret, app).
            Inr (app\<lparr>a_cloud := snd (XlinkSendTcpBroadcast (e_tcp_sent env) 0 (Some item) (a_cloud app))\<rparr>)))"

record udp_thread =
  t_old :: u32
  t_olddiscover :: u32

definition restart_notice :: "'db app_env \<Rightarrow> udp_thread \<times> 'db app \<Rightarrow> (udp_thread \<times> 'db app) c_result" where
  "restart_notice env s =
     (case s of (th, app) \<Rightarrow>
        if 20 < sint (e_time env - t_old th)
        then c_bind (on_lib (XGRestartNotify (e_xg env) (e_sendto env)) app) (\<lambda>(ret, app).
          Inr (th\<lparr>t_old := e_time env\<rparr>, app))
        else Inr (th, app))"

definition repeat_discovery :: "'db app_env \<Rightarrow> udp_thread \<times> 'db app \<Rightarrow> (udp_thread \<times> 'db app) c_result" where
  "repeat_discovery env s =
     (case s of (th, app) \<Rightarrow>
        if sint (e_time env) < sint (g_allowtime app) \<and> 3 \<le> sint (e_time env - t_olddiscover th)
        then c_bind (on_lib (XGDiscover (e_xg env) (e_sendto env)) app) (\<lambda>(ret, app).
          Inr (th\<lparr>t_olddiscover := e_time env\<rparr>, app))
        else Inr (th, app))"

text \<open>What \<^verbatim>\<open>UDPWorkThread\<close> does after \<^verbatim>\<open>XlinkLoop\<close>.\<close>

definition UDPWorkThread_turn ::
  "'db app_env \<Rightarrow> bool \<Rightarrow> udp_thread \<times> 'db app \<Rightarrow> (udp_thread \<times> 'db app) c_result" where
  "UDPWorkThread_turn env trylock s =
     c_bind (send_queued env trylock (snd s)) (\<lambda>app.
     c_bind (if isResetSdkFlag app then reset_sdk (app\<lparr>isResetSdkFlag := False\<rparr>) else Inr app) (\<lambda>app.
     c_bind (restart_notice env (fst s, app)) (repeat_discovery env)))"

text \<open>\<^verbatim>\<open>atoi\<close>: white space, a sign, digits; the value wraps.\<close>

definition is_digit_char :: "byte \<Rightarrow> bool" where
  "is_digit_char c \<longleftrightarrow> 0x30 \<le> c \<and> c \<le> 0x39"

definition atoi_text :: "bytes \<Rightarrow> u32" where
  "atoi_text cs =
     (let cs = dropWhile scan_space cs;
          v = (\<lambda>ds. foldl (\<lambda>v c. 10 * v + ucast (c - 0x30)) (0 :: u32) (takeWhile is_digit_char ds))
      in if take 1 cs = [0x2D] then - v (drop 1 cs)
         else if take 1 cs = [0x2B] then v (drop 1 cs) else v cs)"

text \<open>
  One second of \<^verbatim>\<open>DiscoverntfThread\<close>: every five minutes the neighbours on the bridge are counted;
  \<open>output\<close> is what the command printed. When there are more than before, devices may join for half a
  minute.
\<close>

record ntf_thread =
  n_counter :: u32
  n_orign :: u32

definition open_window :: "'db app_env \<Rightarrow> u16 \<Rightarrow> 'db app \<Rightarrow> 'db app c_result" where
  "open_window env timeout app =
     c_bind (ConsoleDiscoverDevice env (Some timeout) (AlowDeviceJoin env (ucast timeout) app)) (\<lambda>(ret, app). Inr app)"

definition DiscoverntfThread_turn ::
  "'db app_env \<Rightarrow> bytes \<Rightarrow> ntf_thread \<times> 'db app \<Rightarrow> (ntf_thread \<times> 'db app) c_result" where
  "DiscoverntfThread_turn env output s =
     (case s of (th, app) \<Rightarrow>
        if sint (n_counter th) \<le> 300 then Inr (th\<lparr>n_counter := n_counter th + 1\<rparr>, app)
        else
          let result = atoi_text (c_string output)
          in if sint (n_orign th) < sint result
             then c_bind (open_window env 30 app) (\<lambda>app. Inr (th\<lparr>n_orign := result, n_counter := 0\<rparr>, app))
             else Inr (th\<lparr>n_counter := 0\<rparr>, app))"

section \<open>The console\<close>

definition ConsoleResetSdk :: "'db app \<Rightarrow> 'db app" where
  "ConsoleResetSdk app = XDResetSdk app"

definition no_out :: device_out where
  "no_out = \<lparr>o_productid = None, o_mac = None, o_maclen = 0, o_address = None\<rparr>"

text \<open>
  The console takes the first device of the table; a failed listing leaves the cleared buffer. \<open>None\<close>
  when the table is empty.
\<close>

definition first_device :: "'db app_env \<Rightarrow> 'db app \<Rightarrow> u32 option c_result" where
  "first_device env app =
     c_bind (dbGetAllDeviceID (e_sql env) (replicate 1024 0) 1024 (a_db app)) (\<lambda>(n, buffer).
       Inr (if n = 0 then None
            else Some (UTIL_INT32_SET (buffer ! 0) (buffer ! 1) (buffer ! 2) (buffer ! 3))))"

definition device_address :: "'db app_env \<Rightarrow> u32 \<Rightarrow> 'db app \<Rightarrow> (int \<times> sockaddr_in) c_result" where
  "device_address env deviceid app =
     c_bind (dbGetDeviceInfo (e_sql env) deviceid (no_out\<lparr>o_address := Some (e_address env)\<rparr>) (a_db app)) (\<lambda>(ret, out).
       Inr (ret, bytes_sockaddr (case o_address out of None \<Rightarrow> e_address env | Some a \<Rightarrow> a)))"

definition ConsoleRemove :: "'db app_env \<Rightarrow> 'db app \<Rightarrow> 'db app c_result" where
  "ConsoleRemove env app =
     c_bind (first_device env app) (\<lambda>first. case first of None \<Rightarrow> Inr app | Some deviceid \<Rightarrow>
       c_bind (device_address env deviceid app) (\<lambda>(ret, address).
         if ret \<noteq> 0 then Inr app
         else c_bind (on_lib (XGRemoveDevice (e_xg env) (e_sendto env) address deviceid)
                (on_db (dbDeleteDevice (e_sql env) deviceid) app)) (\<lambda>(ret, app). Inr app)))"

definition ConsoleGetAck :: "'db app_env \<Rightarrow> 'db app \<Rightarrow> 'db app c_result" where
  "ConsoleGetAck env app =
     c_bind (first_device env app) (\<lambda>first. case first of None \<Rightarrow> Inr app | Some deviceid \<Rightarrow>
       c_bind (dbGetDeviceInfo (e_sql env) deviceid \<lparr>o_productid = Some (replicate 33 0), o_mac = Some (replicate 32 0),
           o_maclen = 0, o_address = Some (e_address env)\<rparr> (a_db app)) (\<lambda>(ret, out).
         if ret \<noteq> 0 then Inr app
         else c_bind (on_talk (XGGetAccessKey (bytes_sockaddr (the (o_address out))) (the (o_productid out)) (e_session env)) app)
                (\<lambda>(ret, app). Inr app)))"

definition console_key :: u32 where
  "console_key = 25879999"

definition ConsoleSetAck :: "'db app_env \<Rightarrow> 'db app \<Rightarrow> 'db app c_result" where
  "ConsoleSetAck env app =
     c_bind (first_device env app) (\<lambda>first. case first of None \<Rightarrow> Inr app | Some deviceid \<Rightarrow>
       c_bind (device_address env deviceid app) (\<lambda>(ret, address).
         if ret \<noteq> 0 then Inr app
         else c_bind (on_talk (XGSetAccessKey console_key address (e_session env)) app) (\<lambda>(ret, app). Inr app)))"

definition ConsoleGetSubkey :: "'db app_env \<Rightarrow> 'db app \<Rightarrow> 'db app c_result" where
  "ConsoleGetSubkey env app =
     c_bind (first_device env app) (\<lambda>first. case first of None \<Rightarrow> Inr app | Some deviceid \<Rightarrow>
       c_bind (device_address env deviceid app) (\<lambda>(ret, address).
         if ret \<noteq> 0 then Inr app
         else c_bind (on_talk (XGGetSubKey (e_md5 env) console_key address (e_session env)) app) (\<lambda>(ret, app). Inr app)))"

text \<open>The command of the console, the second word of the line.\<close>

definition ft_xlink_console :: "'db app_env \<Rightarrow> bytes \<Rightarrow> 'db app \<Rightarrow> 'db app c_result" where
  "ft_xlink_console env cmd app =
     (if cmd = str ''join'' then c_bind (ConsoleDiscoverDevice env None app) (\<lambda>(ret, app). Inr app)
      else if cmd = str ''scan'' then c_bind (ConsoleRestartNofify env app) (\<lambda>(ret, app). Inr app)
      else if cmd = str ''add''
      then XDNewDeviceJoinNotify env 452578839 (str ''1607d6b05791c0001607d6b05791c001'' @ [0]) [0x7c, 0xc7, 0x09, 0x7b, 0xb7, 0x59] 6 app
      else if cmd = str ''reset'' then Inr (ConsoleResetSdk app)
      else if cmd = str ''remove'' then ConsoleRemove env app
      else Inr app)"

text \<open>\<^verbatim>\<open>CheckMac\<close>: two characters a byte through \<^verbatim>\<open>strtol\<close>; \<open>machex\<close> is the caller's array.\<close>

fun hex_pairs :: "bytes \<Rightarrow> bytes" where
  "hex_pairs (a # b # cs) = (case scan_x [a, b] of None \<Rightarrow> 0 | Some (v, _) \<Rightarrow> ucast v) # hex_pairs cs"
| "hex_pairs _ = []"

definition CheckMac :: "bytes \<Rightarrow> bytes \<Rightarrow> (int \<times> bytes) c_result" where
  "CheckMac machex macstring =
     (let n = length (c_string macstring)
      in if n mod 2 \<noteq> 0 then Inr (0, machex)
         else c_bind (memcpy_chk 0 (hex_pairs (c_string macstring)) machex) (\<lambda>m. Inr (int (n div 2), m)))"

section \<open>The start\<close>

text \<open>
  What the start of the gateway meets: the clock in two parts, whether the core's block can be
  allocated, the listening sockets, and what the stack of \<^verbatim>\<open>ft_xlink_gateway_init\<close> holds later. The
  library keeps a pointer to the product id, which is an array on that stack.
\<close>

record boot_env =
  b_tv_sec :: u32
  b_tv_usec :: u32
  b_alloc :: bool
  b_tcp :: xg_listen
  b_udp :: xg_listen
  b_dead_stack :: bytes

definition gateway_product :: bytes where
  "gateway_product = padded 64 (str ''1607d4b07f982a001607d4b07f982a01'')"

definition gateway_key :: bytes where
  "gateway_key = padded 64 (str ''32302522c02aa1771c662967ef935277'')"

definition user_config :: "bytes \<Rightarrow> u16 \<Rightarrow> XLINK_USER_CONFIG \<Rightarrow> XLINK_USER_CONFIG" where
  "user_config mac n u = u\<lparr>u_mac := memcpy_at 0 mac (u_mac u), maclen := n, wifi_type := 1, wifisoftVersion := 1,
     mcuHardwareSoftVersion := 1, devicetype := 0, pipetype := 0, OnStatus := True, OnUdpPipe := True,
     OnSetDataPoint := True, OnXGMessage := True, OnGetAllDataPoint := Some []\<rparr>"

definition cloud_callbacks :: "xcloud \<Rightarrow> xcloud" where
  "cloud_callbacks s = s\<lparr>in_internet := True, mcuHardwareVersion := 1, OnTcpPipe := True, OnTcpPipe2 := False,
     OnTcpPipeSendCb := True, OnTcpPipe2SendCb := True, OnTcpDatapointSendCb := True, OnTcpNotify := True,
     OnServerTime := True, OnUpgrade := True\<rparr>"

primrec write_configs :: "sdk_event list \<Rightarrow> 'db app \<Rightarrow> 'db app c_result" where
  "write_configs [] app = Inr app"
| "write_configs (e # es) app =
     c_bind (case e of Config_Written b \<Rightarrow> app_OnWriteConfig b app | _ \<Rightarrow> Inr app) (write_configs es)"

definition XDeviceStart :: "bytes \<Rightarrow> bytes \<Rightarrow> bytes \<Rightarrow> u16 \<Rightarrow> 'db app \<Rightarrow> 'db app c_result" where
  "XDeviceStart pid pkey mac n app =
     (let c = cloud_callbacks (on_dev (user_update (user_config (take (unat n) mac) n)) (a_cloud app)); app = app\<lparr>g_header := []\<rparr>
      in c_bind (OnReadConfig_t (replicate 180 0) (a_disk app)) (\<lambda>(saved, k).
         c_bind (XlinkInit True saved pid pkey c) (\<lambda>(ok, c').
         c_bind (write_configs (drop (length (xsdk.xlog (dev c))) (xsdk.xlog (dev c'))) app) (\<lambda>app.
         c_bind (XlinkSetHost (gs_host app) c') (\<lambda>c.
           Inr (app\<lparr>a_cloud := on_dev XlinkEnableSubAndScan c, xd_isQuit := False\<rparr>))))))"

definition XDeviceStop :: "'db app \<Rightarrow> 'db app" where
  "XDeviceStop app = app\<lparr>xd_isQuit := True\<rparr>"

definition ft_xlink_gateway_init :: "'db app_env \<Rightarrow> boot_env \<Rightarrow> bytes \<Rightarrow> 'db app \<Rightarrow> 'db app c_result" where
  "ft_xlink_gateway_init env b mac app =
     c_bind (gateway_settings (b_tv_sec b) (b_tv_usec b) (g_GatewayID app) (a_disk app)) (\<lambda>(Hst, gid, disk).
       let app = app\<lparr>g_GatewayID := gid, a_disk := disk\<rparr>; (ret, db) = dbInit (e_sql env) (a_db app); app = app\<lparr>a_db := db\<rparr>
       in if ret \<noteq> 0 then Inr app
          else
            let app = on_db (dbCreateDeviceTable (e_sql env)) app
            in c_bind (on_lib (XGSetHost Hst) app) (\<lambda>(ret, app).
               c_bind (XDSetHost Hst app) (\<lambda>app.
               c_bind (on_lib (XGInit (b_alloc b) (b_tcp b) (b_udp b) (Some (str ''12548'' @ [0])) (Some gateway_product)
                 (Some (g_GatewayID app)) (Some (xgconfig env app))) app) (\<lambda>(ret, app).
               c_bind (XDeviceStart gateway_product gateway_key mac 6 app) (\<lambda>app.
               c_bind (ConsoleRestartNofify env app) (\<lambda>(ret, app).
                 Inr (app\<lparr>a_lib := (a_lib app)\<lparr>g_ctx := map_option (productid_update (\<lambda>_. b_dead_stack b)) (g_ctx (a_lib app))\<rparr>\<rparr>)))))))"

definition ft_xlink_gateway_deinit :: "'db app \<Rightarrow> 'db app c_result option" where
  "ft_xlink_gateway_deinit app =
     map_option (\<lambda>r. c_bind r (\<lambda>(ret, lib). Inr (app\<lparr>a_lib := lib\<rparr>))) (XGUninit (a_lib app))"

end
