(* ===== verification/GatewayCmd.thy ===== *)
theory GatewayCmd imports GatewayApp begin

text \<open>
  The command protocol of the gateway application, \<^verbatim>\<open>GAProtocol.c\<close>: what the apps ask of the gateway
  through the cloud client, locally or over the cloud. \<open>data\<close> is the caller's buffer from the first
  byte of the command to its end, \<open>datalength\<close> the length of the command, \<open>who\<close> the session or the
  app it came from.
\<close>

declare str_simps [simp del]

section \<open>Bytes of a command\<close>

definition gap_bytes :: "bytes \<Rightarrow> nat \<Rightarrow> nat \<Rightarrow> bytes c_result" where
  "gap_bytes data i n = (if i + n \<le> length data then Inr (take n (drop i data)) else Inl Out_Of_Bounds)"

definition UtilGetInt32 :: "bytes \<Rightarrow> nat \<Rightarrow> u32 c_result" where
  "UtilGetInt32 data i = c_bind (gap_bytes data i 4) (\<lambda>b. Inr (UTIL_INT32_SET (b ! 0) (b ! 1) (b ! 2) (b ! 3)))"

text \<open>It reads the third and the fourth byte.\<close>

definition UtilGetInt16 :: "bytes \<Rightarrow> u32" where
  "UtilGetInt16 buffer = push_bit 8 (ucast (buffer ! 2)) + ucast (buffer ! 3)"

definition UtilSetInt32 :: "nat \<Rightarrow> u32 \<Rightarrow> bytes \<Rightarrow> bytes c_result" where
  "UtilSetInt32 i data buffer = memcpy_chk i (be32_at data) buffer"

definition UtilSetInt16 :: "nat \<Rightarrow> u16 \<Rightarrow> bytes \<Rightarrow> bytes c_result" where
  "UtilSetInt16 i data buffer = memcpy_chk i [ucast (drop_bit 8 data), ucast data] buffer"

text \<open>Every answer to a device command starts with its code and the six bytes behind the command's.\<close>

definition reply_head :: "byte \<Rightarrow> bytes \<Rightarrow> bytes c_result" where
  "reply_head code data = c_bind (gap_bytes data 1 6) (\<lambda>b. Inr (code # b))"

type_synonym 'db gap_handler = "send_call \<Rightarrow> 'db app_env \<Rightarrow> bytes \<Rightarrow> u32 \<Rightarrow> u32 \<Rightarrow> 'db app \<Rightarrow> 'db app c_result"

section \<open>Joining and the list of devices\<close>

definition processAllowDeviceJoin :: "'db gap_handler" where
  "processAllowDeviceJoin call env data datalength who app =
     c_bind (gap_bytes data 1 2) (\<lambda>b.
       let timeout = UTIL_INT16_SET (b ! 0) (b ! 1); timeout = (if 300 < timeout then 30 else timeout)
       in open_window env timeout app)"

definition processGetDeviceList :: "'db gap_handler" where
  "processGetDeviceList call env data datalength who app =
     (let devicecount = dbGetDeviceCount (e_sql env) (a_db app);
          devicecount = (if devicecount < 0 then 0 else devicecount)
      in c_bind (gap_bytes data 1 2) (\<lambda>b.
         c_bind (if 0 < devicecount
                 then dbGetAllDeviceID (e_sql env) (replicate 1020 0) 1020 (a_db app)
                 else Inr (0, replicate 1020 0)) (\<lambda>(n, ids).
           SendCall call env (take (nat (4 + n)) (0x35 # b @ of_int devicecount # ids)) who app)))"

section \<open>One device\<close>

definition processGetDeviceInfo :: "'db gap_handler" where
  "processGetDeviceInfo call env data datalength who app =
     c_bind (UtilGetInt32 data 1) (\<lambda>deviceid. c_bind (reply_head 0x36 data) (\<lambda>h.
       if dbDeviceExisted (e_sql env) deviceid (a_db app) = 0 then SendCall call env (h @ [1]) who app
       else c_bind (dbGetDeviceInfo (e_sql env) deviceid \<lparr>o_productid = Some (replicate 504 0), o_mac = Some (replicate 128 0),
              o_maclen = 0, o_address = None\<rparr> (a_db app)) (\<lambda>(ret, out).
         let n = o_maclen out in
         if ret \<noteq> 0 \<or> 32 < n \<or> n < 6 then SendCall call env (h @ [0, 2]) who app
         else
           let status = snd (dbGetDeviceStatus (e_sql env) deviceid 0 (a_db app))
           in SendCall call env (h @ 0 # take 32 (the (o_productid out)) @ of_int n # take (nat n) (the (o_mac out))
                @ [if status = 0 then 0 else 1]) who app)))"

text \<open>
  What the commands for keys share: the waiting time is checked, then the device, whether it is on
  line, and its address. \<open>ask\<close> is the conversation with the device, \<open>tell\<close> what is answered of its
  result.
\<close>

definition device_conversation ::
  "byte \<Rightarrow> (bytes \<Rightarrow> device_out) \<Rightarrow> (device_out \<Rightarrow> xg_lib \<Rightarrow> (int \<times> xg_event list) c_result) \<Rightarrow> (int \<Rightarrow> bytes) \<Rightarrow> u32 \<Rightarrow> u32 \<Rightarrow> 'db gap_handler" where
  "device_conversation code out ask tell deviceid timeout call env data datalength who app =
     c_bind (reply_head code data) (\<lambda>h.
       if 3000 < sint timeout then SendCall call env (h @ [1]) who app
       else if dbDeviceExisted (e_sql env) deviceid (a_db app) = 0 then SendCall call env (h @ [2]) who app
       else if snd (dbGetDeviceStatus (e_sql env) deviceid 0 (a_db app)) = 0 then SendCall call env (h @ [3]) who app
       else c_bind (dbGetDeviceInfo (e_sql env) deviceid (out (e_address env)) (a_db app)) (\<lambda>(ret, out).
         if ret \<noteq> 0 then SendCall call env (h @ [4]) who app
         else c_bind (on_talk (ask out) app) (\<lambda>(ret, app). SendCall call env (h @ tell ret) who app)))"

definition tell_key :: "int \<Rightarrow> bytes" where
  "tell_key ret = (if 0 < ret then 0 # be32_at (of_int ret) else [of_int ret])"

definition out_sockaddr :: "device_out \<Rightarrow> sockaddr_in" where
  "out_sockaddr out = bytes_sockaddr (the (o_address out))"

definition processGetDeviceAck :: "'db gap_handler" where
  "processGetDeviceAck call env data datalength who app =
     c_bind (UtilGetInt32 data 1) (\<lambda>deviceid. c_bind (UtilGetInt32 data 7) (\<lambda>timeout.
       device_conversation 0x38
         (\<lambda>a. \<lparr>o_productid = Some (replicate 33 0), o_mac = Some (replicate 32 0), o_maclen = 0, o_address = Some a\<rparr>)
         (\<lambda>out. XGGetAccessKey (out_sockaddr out) (the (o_productid out)) (e_session env)) tell_key
         deviceid timeout call env data datalength who app))"

definition processSetDeviceAck :: "'db gap_handler" where
  "processSetDeviceAck call env data datalength who app =
     c_bind (UtilGetInt32 data 1) (\<lambda>deviceid. c_bind (UtilGetInt32 data 7) (\<lambda>ack. c_bind (UtilGetInt32 data 11) (\<lambda>timeout.
       device_conversation 0x39 (\<lambda>a. no_out\<lparr>o_address := Some a\<rparr>)
         (\<lambda>out. XGSetAccessKey ack (out_sockaddr out) (e_session env)) (\<lambda>ret. [of_int ret])
         deviceid timeout call env data datalength who app)))"

definition processGetDeviceSubkey :: "'db gap_handler" where
  "processGetDeviceSubkey call env data datalength who app =
     c_bind (UtilGetInt32 data 1) (\<lambda>deviceid. c_bind (UtilGetInt32 data 7) (\<lambda>ack. c_bind (UtilGetInt32 data 11) (\<lambda>timeout.
       device_conversation 0x3A (\<lambda>a. no_out\<lparr>o_address := Some a\<rparr>)
         (\<lambda>out. XGGetSubKey (e_md5 env) ack (out_sockaddr out) (e_session env)) tell_key
         deviceid timeout call env data datalength who app)))"

text \<open>What the gateway library returns is not looked at.\<close>

definition processControlDevice :: "'db gap_handler" where
  "processControlDevice call env data datalength who app =
     c_bind (UtilGetInt32 data 1) (\<lambda>deviceid. c_bind (reply_head 0x37 data) (\<lambda>h.
       if dbDeviceExisted (e_sql env) deviceid (a_db app) = 0 then SendCall call env (h @ [1]) who app
       else
         let r = dbGetDeviceStatus (e_sql env) deviceid 0 (a_db app)
         in if fst r \<noteq> 0 then SendCall call env (h @ [2]) who app
         else if snd r = 0 then SendCall call env (h @ [3]) who app
         else c_bind (on_lib (XGSendDataToDevice (e_xg env) deviceid 0 0 (Some (drop 9 data)) (datalength - 9) 0) app) (\<lambda>(ret, app).
           SendCall call env (h @ [0]) who app)))"

text \<open>The answer to a deletion goes to everyone; \<open>call\<close> is used only when it fails.\<close>

definition processDeleteDevice :: "'db gap_handler" where
  "processDeleteDevice call env data datalength who app =
     c_bind (UtilGetInt32 data 1) (\<lambda>deviceid. c_bind (reply_head 0x33 data) (\<lambda>h.
       if dbDeviceExisted (e_sql env) deviceid (a_db app) = 0 then SendCall call env (h @ [1]) who app
       else c_bind (dbGetDeviceInfo (e_sql env) deviceid \<lparr>o_productid = None, o_mac = Some (replicate 128 0),
              o_maclen = 0, o_address = Some (e_address env)\<rparr> (a_db app)) (\<lambda>(ret, out).
         if ret \<noteq> 0 then SendCall call env (h @ [3]) who app
         else
           let n = (if 32 < o_maclen out then 6 else o_maclen out)
           in c_bind (on_lib (XGRemoveDevice (e_xg env) (e_sendto env) (out_sockaddr out) deviceid)
                (on_db (dbDeleteDevice (e_sql env) deviceid) app)) (\<lambda>(ret, app).
              if n < 0 then Inl Out_Of_Bounds
              else
                let msg = h @ 0 # of_int n # take (nat n) (the (o_mac out))
                in c_bind (send_udp_pipe env msg (-1) app) (\<lambda>(ret, app).
                   Inr (app\<lparr>a_cloud := snd (XlinkSendTcpBroadcast (e_tcp_sent env) 0 (Some msg) (a_cloud app))\<rparr>))))))"

section \<open>The gateway itself\<close>

text \<open>
  The version is the last line of a file; without the file the variable is not set, with an empty
  one the text is not.
\<close>

definition current_version :: "'db app_env \<Rightarrow> u32 c_result" where
  "current_version env =
     (case e_version env of
        None \<Rightarrow> Inr (e_version_garbage env)
      | Some lines \<Rightarrow>
          if lines \<noteq> [] then Inr (atoi_text (c_string (last lines)))
          else if 0 \<in> set (e_stack env) then Inr (atoi_text (c_string (e_stack env))) else Inl Out_Of_Bounds)"

definition processGetGatewayStatue :: "'db gap_handler" where
  "processGetGatewayStatue call env data datalength who app =
     c_bind (reply_head 0x40 data) (\<lambda>h. c_bind (current_version env) (\<lambda>v.
       SendCall call env (h @ [UTIL_INT16_GET_BITH v, UTIL_INT16_GET_BITL v, 0, 0, 0, 0]) who app))"

text \<open>The commands that are only acknowledged.\<close>

definition acknowledge :: "byte \<Rightarrow> 'db gap_handler" where
  "acknowledge code call env data datalength who app =
     c_bind (reply_head code data) (\<lambda>h. SendCall call env (h @ [0]) who app)"

definition processControlLamp :: "'db gap_handler" where
  "processControlLamp call env data datalength who app =
     c_bind (gap_bytes data 7 1) (\<lambda>opened. acknowledge 0x41 call env data datalength who app)"

definition processOpenTmpSSID :: "'db gap_handler" where
  "processOpenTmpSSID = acknowledge 0x42"

definition processSetOnlySSID :: "'db gap_handler" where
  "processSetOnlySSID = acknowledge 0x40"

definition processOpenEasylink :: "'db gap_handler" where
  "processOpenEasylink = acknowledge 0x44"

definition processSetSystem :: "'db gap_handler" where
  "processSetSystem call env data datalength who app = c_bind (gap_bytes data 7 1) (\<lambda>b. Inr app)"

definition processSetNetMode :: "'db gap_handler" where
  "processSetNetMode = acknowledge 0x46"

definition processSetUpdateUrl :: "'db gap_handler" where
  "processSetUpdateUrl call env data datalength who app = Inr app"

section \<open>The dispatcher\<close>

definition FunProtocol :: "(nat \<times> byte \<times> 'db gap_handler) list" where
  "FunProtocol =
     [(3, 0x01, processAllowDeviceJoin),
      (3, 0x05, processGetDeviceList),
      (7, 0x06, processGetDeviceInfo),
      (11, 0x08, processGetDeviceAck),
      (11, 0x09, processSetDeviceAck),
      (11, 0x0A, processGetDeviceSubkey),
      (10, 0x07, processControlDevice),
      (9, 0x03, processDeleteDevice),
      (7, 0x10, processGetGatewayStatue),
      (8, 0x11, processControlLamp),
      (7, 0x12, processOpenTmpSSID),
      (47, 0x13, processSetOnlySSID),
      (7, 0x14, processOpenEasylink),
      (8, 0x15, processSetSystem),
      (8, 0x16, processSetNetMode),
      (7, 0x17, processSetUpdateUrl)]"

text \<open>The loop goes on after a match.\<close>

primrec gap_loop :: "(nat \<times> byte \<times> 'db gap_handler) list \<Rightarrow> 'db gap_handler" where
  "gap_loop [] call env data datalength who app = Inr app"
| "gap_loop (f # fs) call env data datalength who app =
     (case f of (minlength, type, process) \<Rightarrow>
        if unat datalength < minlength then gap_loop fs call env data datalength who app
        else c_bind (c_get data 0) (\<lambda>c.
          if type = c
          then c_bind (process call env data datalength who app) (gap_loop fs call env data datalength who)
          else gap_loop fs call env data datalength who app))"

definition GAPStartProtocol :: "'db gap_handler" where
  "GAPStartProtocol = gap_loop FunProtocol"

text \<open>The two callbacks of the cloud client that deliver commands.\<close>

definition OnTcpPipe_t :: "'db app_env \<Rightarrow> bytes \<Rightarrow> u32 \<Rightarrow> u32 \<Rightarrow> 'db app \<Rightarrow> 'db app c_result" where
  "OnTcpPipe_t env data datalength AppID app = GAPStartProtocol SendTcpResponse env data datalength AppID app"

definition OnUdpPipe_t :: "'db app_env \<Rightarrow> bytes \<Rightarrow> u32 \<Rightarrow> u32 \<Rightarrow> 'db app \<Rightarrow> 'db app c_result" where
  "OnUdpPipe_t env data datalength fromAddr app = GAPStartProtocol SendUdpResponse env data datalength fromAddr app"

end
