(* ===== verification/GatewayRun.thy ===== *)
theory GatewayRun imports GatewayCmd begin

text \<open>
  Runs of the gateway application: its inputs, one after another, each with what the system answers
  to it. A device enters the table only by a join request inside a window that a command, the console
  or a new neighbour has opened at most five minutes before.
\<close>

declare str_simps [simp del]

section \<open>Inputs and runs\<close>

datatype app_input =
  Tcp_Command bytes u32 u32
| Udp_Command bytes u32 u32
| Datagram bytes sockaddr_in
| Device_Login u32
| Device_Logout u32
| From_Device u32 u32 u16 bytes u32
| From_Cloud u32 u32 u16 bytes u32
| Udp_Turn bool
| Neighbours bytes
| Console bytes
| Cloud_Status app_cloud_status

record 'db gateway =
  gw_app :: "'db app"
  gw_udp :: udp_thread
  gw_ntf :: ntf_thread

definition on_app :: "('db app \<Rightarrow> 'db app c_result) \<Rightarrow> 'db gateway \<Rightarrow> 'db gateway c_result" where
  "on_app f g = c_bind (f (gw_app g)) (\<lambda>app. Inr (g\<lparr>gw_app := app\<rparr>))"

definition app_input_step :: "'db app_env \<Rightarrow> app_input \<Rightarrow> 'db gateway \<Rightarrow> 'db gateway c_result" where
  "app_input_step env inp g =
     (case inp of
        Tcp_Command data n who \<Rightarrow> on_app (OnTcpPipe_t env data n who) g
      | Udp_Command data n who \<Rightarrow> on_app (OnUdpPipe_t env data n who) g
      | Datagram d addr \<Rightarrow> on_app (app_udp_datagram env d addr) g
      | Device_Login d \<Rightarrow> on_app (\<lambda>app. Inr (snd (OnDeviceLogin_t env d app))) g
      | Device_Logout d \<Rightarrow> on_app (\<lambda>app. Inr (OnLoginout_t env d app)) g
      | From_Device d toid msgid data pipe \<Rightarrow>
          on_app (OnRecvDataFormDevice_t env d toid msgid data (of_nat (length data)) pipe) g
      | From_Cloud d toid msgid data pipe \<Rightarrow>
          on_app (OnRecvDataFormCloud_t env d toid msgid data (of_nat (length data)) pipe) g
      | Udp_Turn trylock \<Rightarrow>
          c_bind (UDPWorkThread_turn env trylock (gw_udp g, gw_app g)) (\<lambda>(th, app). Inr (g\<lparr>gw_udp := th, gw_app := app\<rparr>))
      | Neighbours output \<Rightarrow>
          c_bind (DiscoverntfThread_turn env output (gw_ntf g, gw_app g)) (\<lambda>(th, app). Inr (g\<lparr>gw_ntf := th, gw_app := app\<rparr>))
      | Console cmd \<Rightarrow> on_app (ft_xlink_console env cmd) g
      | Cloud_Status st \<Rightarrow> on_app (\<lambda>app. Inr (OnStatus_t st app)) g)"

primrec app_run :: "('db app_env \<times> app_input) list \<Rightarrow> 'db gateway \<Rightarrow> 'db gateway c_result" where
  "app_run [] g = Inr g"
| "app_run (s # steps) g = c_bind (app_input_step (fst s) (snd s) g) (app_run steps)"

section \<open>What an operation leaves alone\<close>

text \<open>The device table and the window, in which devices may join.\<close>

definition calm :: "'db app \<Rightarrow> 'db app \<Rightarrow> bool" where
  "calm app app' \<longleftrightarrow> a_db app' = a_db app \<and> g_StartAllowAddTime app' = g_StartAllowAddTime app
     \<and> g_AllowAddTimeout app' = g_AllowAddTimeout app"

lemma calm_refl [simp]: "calm app app"
  by (simp add: calm_def)

lemma calm_trans [trans]: "calm a b \<Longrightarrow> calm b c \<Longrightarrow> calm a c"
  by (simp add: calm_def)

lemma calm_updates [simp]:
  "calm app (app'\<lparr>a_cloud := x\<rparr>) = calm app app'" "calm app (app'\<lparr>a_lib := l\<rparr>) = calm app app'"
  "calm app (app'\<lparr>a_talk := e\<rparr>) = calm app app'" "calm app (app'\<lparr>g_header := h\<rparr>) = calm app app'"
  "calm app (app'\<lparr>a_disk := d\<rparr>) = calm app app'" "calm app (app'\<lparr>isResetSdkFlag := f\<rparr>) = calm app app'"
  "calm app (app'\<lparr>isConnectServer := f\<rparr>) = calm app app'" "calm app (app'\<lparr>g_sdk_open := f\<rparr>) = calm app app'"
  "calm (app\<lparr>g_header := h\<rparr>) app' = calm app app'" "calm (app\<lparr>isResetSdkFlag := f\<rparr>) app' = calm app app'"
  by (simp_all add: calm_def)

lemma calm_send_udp_pipe: "send_udp_pipe env data i app = Inr (r, app') \<Longrightarrow> calm app app'"
  by (auto simp: send_udp_pipe_def)

lemma calm_SendCall: "SendCall call env data who app = Inr app' \<Longrightarrow> calm app app'"
  by (cases call) (auto simp: SendCall_def dest: calm_send_udp_pipe)

lemma calm_on_lib: "on_lib f app = Inr (r, app') \<Longrightarrow> calm app app'"
  by (auto simp: on_lib_def)

lemma calm_on_talk: "on_talk f app = Inr (r, app') \<Longrightarrow> calm app app'"
  by (auto simp: on_talk_def)

lemma calm_XDAddSendData [simp]: "calm app (XDAddSendData env data app') = calm app app'"
  by (simp add: XDAddSendData_def)

lemma calm_XDControlData: "XDControlData env d data n app = Inr app' \<Longrightarrow> calm app app'"
  by (auto simp: XDControlData_def split: if_splits)

lemma calm_notify: "XDNewDeviceJoinNotify env d p m n app = Inr app' \<Longrightarrow> calm app app'"
  by (auto simp: XDNewDeviceJoinNotify_def split: if_splits)

lemma calm_reset_sdk: "reset_sdk app = Inr app' \<Longrightarrow> calm app app'"
  by (auto simp: reset_sdk_def app_OnWriteConfig_def Let_def)

lemma calm_send_queued: "send_queued env lock app = Inr app' \<Longrightarrow> calm app app'"
  by (auto simp: send_queued_def split: list.splits if_splits dest!: calm_send_udp_pipe)

lemmas calm_calls = calm_SendCall calm_send_udp_pipe calm_on_lib calm_on_talk

lemma calm_OnRecv:
  "OnRecvDataFormDevice_t env d toid msgid data n pipe app = Inr app' \<Longrightarrow> calm app app'"
  "OnRecvDataFormCloud_t env d toid msgid data n pipe app = Inr app' \<Longrightarrow> calm app app'"
  by (auto simp: OnRecvDataFormDevice_t_def OnRecvDataFormCloud_t_def dest!: calm_on_lib calm_XDControlData intro: calm_trans)

lemma calm_thread:
  "restart_notice env (th, app) = Inr (th', app') \<Longrightarrow> calm app app'"
  "repeat_discovery env (th, app) = Inr (th', app') \<Longrightarrow> calm app app'"
  by (auto simp: restart_notice_def repeat_discovery_def split: if_splits dest!: calm_on_lib)

lemma calm_UDPWorkThread_turn:
  "UDPWorkThread_turn env lock (th, app) = Inr (th', app') \<Longrightarrow> calm app app'"
  by (auto simp: UDPWorkThread_turn_def split: if_splits
      dest!: calm_send_queued calm_thread calm_reset_sdk) (simp_all add: calm_def)


section \<open>Operations that admit nobody\<close>

definition same_window :: "'db app \<Rightarrow> 'db app \<Rightarrow> bool" where
  "same_window app app' \<longleftrightarrow> g_StartAllowAddTime app' = g_StartAllowAddTime app \<and> g_AllowAddTimeout app' = g_AllowAddTimeout app"

definition opened_window :: "'db app_env \<Rightarrow> 'db app \<Rightarrow> bool" where
  "opened_window env app \<longleftrightarrow> g_StartAllowAddTime app = e_time env \<and> sint (g_AllowAddTimeout app) \<le> 300"

definition no_new :: "('db \<Rightarrow> device_table option) \<Rightarrow> 'db app \<Rightarrow> 'db app \<Rightarrow> bool" where
  "no_new tab app app' \<longleftrightarrow> (\<forall>t. table_of tab (a_db app) = Some t \<longrightarrow>
     (\<exists>t'. table_of tab (a_db app') = Some t' \<and> dom t' \<subseteq> dom t))"

definition quiet :: "('db \<Rightarrow> device_table option) \<Rightarrow> 'db app_env \<Rightarrow> 'db app \<Rightarrow> 'db app \<Rightarrow> bool" where
  "quiet tab env app app' \<longleftrightarrow> no_new tab app app' \<and> (same_window app app' \<or> opened_window env app')"

lemma same_window_trans: "same_window a b \<Longrightarrow> same_window b c \<Longrightarrow> same_window a c"
  by (simp add: same_window_def)

lemma no_new_trans: "no_new tab a b \<Longrightarrow> no_new tab b c \<Longrightarrow> no_new tab a c"
  unfolding no_new_def by (meson order_trans)

lemma opened_same: "opened_window env a \<Longrightarrow> same_window a b \<Longrightarrow> opened_window env b"
  by (simp add: same_window_def opened_window_def)

lemma quiet_trans: "quiet tab env a b \<Longrightarrow> quiet tab env b c \<Longrightarrow> quiet tab env a c"
  unfolding quiet_def using no_new_trans same_window_trans opened_same by blast

lemma calm_quiet: "calm app app' \<Longrightarrow> quiet tab env app app'" "calm app app' \<Longrightarrow> same_window app app'"
  by (auto simp: calm_def quiet_def no_new_def same_window_def)

lemma effect_no_new:
  assumes "table_effect tab d r d' t'" "table_of tab d = Some t" "dom t' \<subseteq> dom t"
  shows "\<exists>t'. table_of tab d' = Some t' \<and> dom t' \<subseteq> dom t"
  using assms by (auto simp: table_effect_def)

lemma no_new_status:
  assumes "sql_ok (e_sql env) tab"
  shows "no_new tab app (on_db (dbSetDeviceStatus (e_sql env) d st) app)"
  unfolding no_new_def
proof (intro allI impI)
  fix t assume t: "table_of tab (a_db app) = Some t"
  show "\<exists>t'. table_of tab (a_db (on_db (dbSetDeviceStatus (e_sql env) d st) app)) = Some t' \<and> dom t' \<subseteq> dom t"
  proof (cases "t d")
    case None
    then show ?thesis using dbSetDeviceStatus_unknown [OF assms t] t by (simp add: on_db_def)
  next
    case (Some i)
    then obtain r d' where "dbSetDeviceStatus (e_sql env) d st (a_db app) = (r, d')"
      "table_effect tab (a_db app) r d' (t(d \<mapsto> i\<lparr>i_status := if st = 0 then 0 else 1\<rparr>))"
      using dbSetDeviceStatus_known [OF assms t] by blast
    with effect_no_new [OF this(2) t] domI [of t, OF Some] show ?thesis by (simp add: on_db_def)
  qed
qed

lemma no_new_delete:
  assumes "sql_ok (e_sql env) tab"
  shows "no_new tab app (on_db (dbDeleteDevice (e_sql env) d) app)"
  unfolding no_new_def
proof (intro allI impI)
  fix t assume t: "table_of tab (a_db app) = Some t"
  show "\<exists>t'. table_of tab (a_db (on_db (dbDeleteDevice (e_sql env) d) app)) = Some t' \<and> dom t' \<subseteq> dom t"
  proof (cases "t d")
    case None
    then show ?thesis using dbDeleteDevice_unknown [OF assms t] t by (simp add: on_db_def)
  next
    case (Some i)
    then obtain r d' where "dbDeleteDevice (e_sql env) d (a_db app) = (r, d')" "table_effect tab (a_db app) r d' (t(d := None))"
      using dbDeleteDevice_effect [OF assms t] by blast
    with effect_no_new [OF this(2) t] show ?thesis by (auto simp: on_db_def)
  qed
qed

lemma on_db_window [simp]: "same_window app (on_db f app') = same_window app app'"
  by (simp add: same_window_def on_db_def)

lemma same_window_refl [simp]: "same_window app app"
  by (simp add: same_window_def)

lemma OnDeviceLogin_quiet:
  assumes "sql_ok (e_sql env) tab"
  shows "no_new tab app (snd (OnDeviceLogin_t env d app)) \<and> same_window app (snd (OnDeviceLogin_t env d app))"
    and "no_new tab app (OnLoginout_t env d app) \<and> same_window app (OnLoginout_t env d app)"
  using no_new_status [OF assms] by (simp_all add: OnDeviceLogin_t_def OnLoginout_t_def, auto simp: no_new_def)

lemma OnDeviceRestartNotify_quiet:
  assumes "sql_ok (e_sql env) tab" "OnDeviceRestartNotify_t env gid d addr app = Inr (r, app')"
  shows "no_new tab app app' \<and> same_window app app'"
proof (cases "app' = app")
  case False
  then obtain x db where upd: "dbUpdateDeviceAddress (e_sql env) d addr (a_db app) = Inr (x, db)" "app' = app\<lparr>a_db := db\<rparr>"
    using assms(2) by (auto simp: OnDeviceRestartNotify_t_def split: if_splits)
  have "no_new tab app app'"
    unfolding no_new_def
  proof (intro allI impI)
    fix t assume t: "table_of tab (a_db app) = Some t"
    show "\<exists>t'. table_of tab (a_db app') = Some t' \<and> dom t' \<subseteq> dom t"
    proof (cases "t d")
      case None
      then show ?thesis using dbUpdateDeviceAddress_unknown [OF assms(1) t] t upd by auto
    next
      case (Some i)
      then have "table_effect tab (a_db app) x db (t(d \<mapsto> i\<lparr>i_addr := b64_enc (sockaddr_bytes addr)\<rparr>))"
        using dbUpdateDeviceAddress_known [OF assms(1) t, of d i addr] upd(1) by auto
      with effect_no_new [OF this t] domI [of t, OF Some] upd(2) show ?thesis by simp
    qed
  qed
  with upd(2) show ?thesis by (simp add: same_window_def)
qed (auto simp: no_new_def)


definition still :: "('db \<Rightarrow> device_table option) \<Rightarrow> 'db app \<Rightarrow> 'db app \<Rightarrow> bool" where
  "still tab app app' \<longleftrightarrow> no_new tab app app' \<and> same_window app app'"

lemma still_refl [simp]: "still tab app app"
  by (auto simp: still_def no_new_def)

lemma still_trans: "still tab a b \<Longrightarrow> still tab b c \<Longrightarrow> still tab a c"
  unfolding still_def using no_new_trans same_window_trans by blast

lemma calm_still: "calm app app' \<Longrightarrow> still tab app app'"
  by (auto simp: calm_def still_def no_new_def same_window_def)

lemma still_quiet: "still tab app app' \<Longrightarrow> quiet tab env app app'"
  by (simp add: still_def quiet_def)

lemma still_delete: "sql_ok (e_sql env) tab \<Longrightarrow> still tab app (on_db (dbDeleteDevice (e_sql env) d) app)"
  using no_new_delete by (simp add: still_def)

text \<open>Handlers that only answer.\<close>

lemma answering:
  "processGetDeviceList call env data n who app = Inr app' \<Longrightarrow> calm app app'"
  "processGetDeviceInfo call env data n who app = Inr app' \<Longrightarrow> calm app app'"
  "processControlDevice call env data n who app = Inr app' \<Longrightarrow> calm app app'"
  "processGetGatewayStatue call env data n who app = Inr app' \<Longrightarrow> calm app app'"
  "acknowledge code call env data n who app = Inr app' \<Longrightarrow> calm app app'"
  "processControlLamp call env data n who app = Inr app' \<Longrightarrow> calm app app'"
  "processSetSystem call env data n who app = Inr app' \<Longrightarrow> calm app app'"
  "processSetUpdateUrl call env data n who app = Inr app' \<Longrightarrow> calm app app'"
  subgoal by (auto simp: processGetDeviceList_def Let_def dest!: calm_SendCall split: if_splits)
  subgoal by (auto simp: processGetDeviceInfo_def Let_def dest!: calm_SendCall split: if_splits)
  subgoal by (auto simp: processControlDevice_def Let_def dest!: calm_SendCall calm_on_lib split: if_splits intro: calm_trans)
  subgoal by (auto simp: processGetGatewayStatue_def dest!: calm_SendCall)
  subgoal by (auto simp: acknowledge_def dest!: calm_SendCall)
  subgoal by (auto simp: processControlLamp_def acknowledge_def dest!: calm_SendCall)
  subgoal by (auto simp: processSetSystem_def)
  subgoal by (auto simp: processSetUpdateUrl_def)
  done

lemma conversation_calm:
  "device_conversation code out ask tell d timeout call env data n who app = Inr app' \<Longrightarrow> calm app app'"
  by (auto simp: device_conversation_def dest!: calm_SendCall calm_on_talk split: if_splits intro: calm_trans)

lemma asking:
  "processGetDeviceAck call env data n who app = Inr app' \<Longrightarrow> calm app app'"
  "processSetDeviceAck call env data n who app = Inr app' \<Longrightarrow> calm app app'"
  "processGetDeviceSubkey call env data n who app = Inr app' \<Longrightarrow> calm app app'"
  by (auto simp: processGetDeviceAck_def processSetDeviceAck_def processGetDeviceSubkey_def dest!: conversation_calm)

lemma deleting:
  assumes "sql_ok (e_sql env) tab" "processDeleteDevice call env data n who app = Inr app'"
  shows "still tab app app'"
proof (cases "calm app app'")
  case False
  then obtain d app1 app2 ret f f2 where
    "on_lib f (on_db (dbDeleteDevice (e_sql env) d) app) = Inr (ret, app1)" "calm app1 app'"
    using assms(2) by (auto simp: processDeleteDevice_def Let_def dest: calm_SendCall dest!: calm_send_udp_pipe split: if_splits)
  then have "calm (on_db (dbDeleteDevice (e_sql env) d) app) app'"
    using calm_on_lib calm_trans by blast
  then show ?thesis
    using still_delete [OF assms(1)] calm_still still_trans by blast
qed (rule calm_still)

lemma window_opened:
  assumes "open_window env t app = Inr app'" "t \<le> 300"
  shows "a_db app' = a_db app \<and> opened_window env app'"
proof -
  have "unat t \<le> 300" using assms(2) by (simp add: word_le_nat_alt)
  moreover have "unat (ucast t :: u32) = unat t"
    using \<open>unat t \<le> 300\<close> by (simp add: unsigned_ucast_eq take_bit_nat_eq_self)
  ultimately have "sint (ucast t :: u32) \<le> 300"
    using assms(2) by (subst sint_u32_small) (simp_all add: word_le_def)
  then show ?thesis
    using assms(1) by (auto simp: open_window_def ConsoleDiscoverDevice_def AlowDeviceJoin_def opened_window_def
        calm_def dest!: calm_on_lib)
qed

lemma joining:
  assumes "processAllowDeviceJoin call env data n who app = Inr app'"
  shows "quiet tab env app app'"
proof -
  obtain t where "open_window env t app = Inr app'" "t \<le> 300"
    using assms by (auto simp: processAllowDeviceJoin_def Let_def split: if_splits)
  from window_opened [OF this] show ?thesis
    by (auto simp: quiet_def no_new_def)
qed


section \<open>Commands\<close>

text \<open>The loop over the table keeps what every handler it calls keeps.\<close>

lemma gap_loop_keeps:
  assumes refl: "\<And>a. R a a" and trans: "\<And>a b c. R a b \<Longrightarrow> R b c \<Longrightarrow> R a c"
    and keeps: "\<forall>(m, c, h)\<in>set fs. m \<le> unat n \<longrightarrow> c_get data 0 = Inr c \<longrightarrow>
      (\<forall>a a'. h call env data n who a = Inr a' \<longrightarrow> R a a')"
    and run: "gap_loop fs call env data n who app = Inr app'"
  shows "R app app'"
  using keeps run
proof (induction fs arbitrary: app)
  case (Cons f fs)
  obtain m c h where f: "f = (m, c, h)" by (cases f) auto
  have IH: "R a app'" if "gap_loop fs call env data n who a = Inr app'" for a
    using Cons.IH Cons.prems(1) that by simp
  show ?case
  proof (cases "m \<le> unat n \<and> c_get data 0 = Inr c")
    case True
    then obtain a where a: "h call env data n who app = Inr a" "gap_loop fs call env data n who a = Inr app'"
      using Cons.prems(2) by (auto simp: f)
    have "R app a"
      using Cons.prems(1) True a(1) by (simp add: f)
    then show ?thesis
      using trans IH [OF a(2)] by blast
  next
    case False
    then have "gap_loop fs call env data n who app = Inr app'"
      using Cons.prems(2) by (auto simp: f split: if_splits)
    then show ?thesis by (rule IH)
  qed
qed (simp add: refl)

lemma handlers_still:
  assumes "(m, c, h) \<in> set FunProtocol" "c \<noteq> 1" "sql_ok (e_sql env) tab" "h call env data n who app = Inr app'"
  shows "still tab app app'"
  using assms answering [THEN calm_still] asking [THEN calm_still] deleting [OF assms(3)]
  by (auto simp: FunProtocol_def processOpenTmpSSID_def processSetOnlySSID_def processOpenEasylink_def processSetNetMode_def)

lemma GAPStartProtocol_quiet:
  assumes "sql_ok (e_sql env) tab" "GAPStartProtocol call env data n who app = Inr app'"
  shows "quiet tab env app app'"
proof -
  have "quiet tab env a a'" if "(m, c, h) \<in> set FunProtocol" "h call env data n who a = Inr a'" for m c h a a'
  proof (cases "c = 1")
    case True
    then have "h = processAllowDeviceJoin" using that(1) by (auto simp: FunProtocol_def)
    then show ?thesis using joining that(2) by blast
  next
    case False
    from handlers_still [OF that(1) False assms(1) that(2)] show ?thesis by (rule still_quiet)
  qed
  then have "\<forall>(m, c, h)\<in>set FunProtocol. m \<le> unat n \<longrightarrow> c_get data 0 = Inr c \<longrightarrow>
      (\<forall>a a'. h call env data n who a = Inr a' \<longrightarrow> quiet tab env a a')"
    by blast
  from gap_loop_keeps [OF _ _ this assms(2) [unfolded GAPStartProtocol_def]] show ?thesis
    using quiet_trans still_quiet [OF still_refl] still_refl by blast
qed

definition opening_command :: "bytes \<Rightarrow> u32 \<Rightarrow> bool" where
  "opening_command data n \<longleftrightarrow> c_get data 0 = Inr 1 \<and> 3 \<le> unat n"

lemma GAPStartProtocol_still:
  assumes "sql_ok (e_sql env) tab" "GAPStartProtocol call env data n who app = Inr app'" "\<not> opening_command data n"
  shows "still tab app app'"
proof -
  have "still tab a a'" if "(m, c, h) \<in> set FunProtocol" "m \<le> unat n" "c_get data 0 = Inr c" "h call env data n who a = Inr a'" for m c h a a'
  proof -
    have "c \<noteq> 1"
      using that(1,2,3) assms(3) by (auto simp: FunProtocol_def opening_command_def)
    from handlers_still [OF that(1) this assms(1) that(4)] show ?thesis .
  qed
  then have "\<forall>(m, c, h)\<in>set FunProtocol. m \<le> unat n \<longrightarrow> c_get data 0 = Inr c \<longrightarrow>
      (\<forall>a a'. h call env data n who a = Inr a' \<longrightarrow> still tab a a')"
    by blast
  from gap_loop_keeps [OF _ _ this assms(2) [unfolded GAPStartProtocol_def]] show ?thesis
    using still_trans still_quiet [OF still_refl] still_refl by blast
qed


section \<open>Datagrams\<close>

definition join_device :: "bytes \<Rightarrow> u32" where
  "join_device buffer = (let index = 39 + unat (buffer ! 38)
     in UTIL_INT32_SET (buffer ! index) (buffer ! (index + 1)) (buffer ! (index + 2)) (buffer ! (index + 3)))"

definition join_product :: "bytes \<Rightarrow> bytes" where
  "join_product buffer = take 32 (drop 6 buffer) @ [0]"

definition udp_event :: "bytes \<Rightarrow> xg_event \<Rightarrow> bool" where
  "udp_event buffer e \<longleftrightarrow>
     (case e of
        Ev_SendTo _ _ _ \<Rightarrow> True
      | Ev_DeviceRestartNotify _ _ _ _ _ _ \<Rightarrow> True
      | Ev_DiscoverDevice p m n d a \<Rightarrow> p = join_product buffer \<and> d = join_device buffer
      | _ \<Rightarrow> False)"

definition udp_logs :: "bytes \<Rightarrow> XGCore \<Rightarrow> XGCore \<Rightarrow> bool" where
  "udp_logs buffer core core' \<longleftrightarrow> (\<exists>evs. XGCore.xlog core' = XGCore.xlog core @ evs \<and> (\<forall>e\<in>set evs. udp_event buffer e))"

lemma udp_logs_refl [simp]: "udp_logs buffer core core"
  unfolding udp_logs_def by (rule exI [of _ "[]"]) simp

lemma udp_logs_trans: "udp_logs buffer a b \<Longrightarrow> udp_logs buffer b c \<Longrightarrow> udp_logs buffer a c"
  unfolding udp_logs_def by (metis (no_types, lifting) Un_iff append.assoc set_append)

lemma udp_logs_event: "udp_logs buffer a b \<Longrightarrow> udp_event buffer e \<Longrightarrow> udp_logs buffer a (log_event e b)"
  unfolding udp_logs_def log_event_def by (auto simp: ball_Un)

lemma udp_logs_send [simp]:
  "udp_logs buffer a b \<Longrightarrow> udp_logs buffer a (send_udp bs addr b)"
  "udp_logs buffer a b \<Longrightarrow> udp_logs buffer a (udp_refuse cmd buf addr b)"
  by (simp_all add: send_udp_def udp_refuse_def Let_def udp_logs_event udp_event_def)

lemma udp_logs_accept: "udp_accept env cmd buf addr core = Inr core' \<Longrightarrow> udp_logs buffer core core'"
  by (auto simp: udp_accept_eq split: if_splits)

lemma udp_logs_handlers:
  "XGUdpDevcieRequestJoin env buffer n addr core = Inr core' \<Longrightarrow> udp_logs buffer core core'"
  "XGDeviceRestartNotify env buffer n addr core = Inr core' \<Longrightarrow> udp_logs buffer core core'"
  "XGDevcieDiscoverGateway env buffer n addr core = Inr core' \<Longrightarrow> udp_logs buffer core core'"
  subgoal
    by (auto simp: XGUdpDevcieRequestJoin_def Let_def udp_event_def join_device_def join_product_def split: if_splits option.splits
        intro!: udp_logs_event udp_logs_send udp_logs_refl
        dest!: udp_logs_accept [where buffer = buffer] elim!: udp_logs_trans [rotated])
  subgoal
    by (auto simp: XGDeviceRestartNotify_def Let_def udp_event_def split: if_splits option.splits
        intro!: udp_logs_event udp_logs_send udp_logs_refl
        dest!: udp_logs_accept [where buffer = buffer] elim!: udp_logs_trans [rotated])
  subgoal by (auto simp: XGDevcieDiscoverGateway_def)
  done

lemma XGStartProtocolUdp_logs: "XGStartProtocolUdp env buffer n addr core = Inr core' \<Longrightarrow> udp_logs buffer core core'"
  by (auto simp: XGStartProtocolUdp_def XGProtocoUdpFuns_def split: if_splits intro: udp_logs_handlers udp_logs_trans)


section \<open>Admission\<close>

text \<open>At most the device \<open>d\<close> becomes known, and only in an open window.\<close>

definition admits :: "('db \<Rightarrow> device_table option) \<Rightarrow> 'db app_env \<Rightarrow> u32 \<Rightarrow> 'db app \<Rightarrow> 'db app \<Rightarrow> bool" where
  "admits tab env d app app' \<longleftrightarrow> same_window app app' \<and> (\<forall>t. table_of tab (a_db app) = Some t \<longrightarrow>
     (\<exists>t'. table_of tab (a_db app') = Some t' \<and> (dom t' \<subseteq> dom t \<or> dom t' \<subseteq> insert d (dom t) \<and> join_open env app)))"

lemma still_admits: "still tab app app' \<Longrightarrow> admits tab env d app app'"
  unfolding still_def admits_def no_new_def by blast

lemma join_open_same: "same_window app app' \<Longrightarrow> join_open env app' = join_open env app"
  by (simp add: same_window_def join_open_def)

lemma admits_trans:
  assumes ab: "admits tab env d a b" and bc: "admits tab env d b c"
  shows "admits tab env d a c"
  unfolding admits_def
proof (intro conjI allI impI)
  show "same_window a c" using ab bc by (simp add: admits_def same_window_def)
  fix t assume "table_of tab (a_db a) = Some t"
  then obtain t' where t': "table_of tab (a_db b) = Some t'" "dom t' \<subseteq> dom t \<or> dom t' \<subseteq> insert d (dom t) \<and> join_open env a"
    using ab unfolding admits_def by blast
  then obtain t'' where t'': "table_of tab (a_db c) = Some t''"
    "dom t'' \<subseteq> dom t' \<or> dom t'' \<subseteq> insert d (dom t') \<and> join_open env b"
    using bc unfolding admits_def by blast
  have J: "join_open env b = join_open env a" using ab by (simp add: admits_def join_open_same)
  have "dom t'' \<subseteq> dom t \<or> dom t'' \<subseteq> insert d (dom t) \<and> join_open env a"
    using t'(2) t''(2) unfolding J by blast
  with t''(1) show "\<exists>t'. table_of tab (a_db c) = Some t' \<and> (dom t' \<subseteq> dom t \<or> dom t' \<subseteq> insert d (dom t) \<and> join_open env a)"
    by blast
qed

lemma OnDiscoverDevice_admits:
  assumes "sql_ok (e_sql env) tab" "OnDiscoverDevice_t env p m n d addr app = Inr (r, app')" "sql_value (c_string p)"
  shows "admits tab env d app app'"
proof (cases "app' = app")
  case False
  then obtain x db where add: "join_open env app" "6 \<le> length m" "dbAddDevice (e_sql env) d p m addr (a_db app) = Inr (x, db)"
    and c: "calm (app\<lparr>a_db := db\<rparr>) app'"
    using assms(2) by (auto simp: OnDiscoverDevice_t_def dest!: calm_notify split: if_splits)
  have "\<exists>t'. table_of tab (a_db app') = Some t' \<and> dom t' \<subseteq> insert d (dom t)"
    if t: "table_of tab (a_db app) = Some t" for t
  proof (cases "t d")
    case None
    then have "table_effect tab (a_db app) x db (t(d \<mapsto> new_info p m addr))"
      using dbAddDevice_new [OF assms(1) t None add(2) assms(3), of addr] add(3) by auto
    then show ?thesis using t c by (auto simp: table_effect_def calm_def)
  next
    case (Some i)
    then show ?thesis using dbAddDevice_known [OF assms(1) t, of d p m addr] add(3) t c by (auto simp: calm_def)
  qed
  with add(1) c show ?thesis
    by (auto simp: admits_def same_window_def calm_def)
qed (simp add: still_admits)

lemma callback_admits:
  assumes "sql_ok (e_sql env) tab" "callback env e app = Inr app'" "udp_event buffer e" "sql_value (c_string (join_product buffer))"
  shows "admits tab env (join_device buffer) app app'"
proof (cases e)
  case (Ev_DiscoverDevice p m n d addr)
  then show ?thesis using assms OnDiscoverDevice_admits [OF assms(1)] by (auto simp: callback_def udp_event_def)
next
  case (Ev_DeviceRestartNotify gid p m n d addr)
  then show ?thesis
    using assms(2) OnDeviceRestartNotify_quiet [OF assms(1)] by (auto simp: callback_def still_def intro!: still_admits)
qed (use assms(2,3) in \<open>auto simp: callback_def udp_event_def intro: still_admits\<close>)

lemma callbacks_admit:
  assumes "sql_ok (e_sql env) tab" "sql_value (c_string (join_product buffer))"
  shows "callbacks env evs app = Inr app' \<Longrightarrow> \<forall>e\<in>set evs. udp_event buffer e \<Longrightarrow> admits tab env (join_device buffer) app app'"
proof (induction evs arbitrary: app)
  case (Cons e evs)
  then obtain b where b: "callback env e app = Inr b" "callbacks env evs b = Inr app'" by auto
  show ?case
    using admits_trans [OF callback_admits [OF assms(1) b(1) _ assms(2)] Cons.IH [OF b(2)]] Cons.prems(2) by simp
qed (simp add: still_admits)

lemma datagram_admits:
  assumes "sql_ok (e_sql env) tab" "app_udp_datagram env d addr app = Inr app'" "sql_value (c_string (join_product (udp_buffer d)))"
  shows "admits tab env (join_device (udp_buffer d)) app app'"
proof (cases "g_ctx (a_lib app)")
  case None
  then show ?thesis using assms(2) by (simp add: app_udp_datagram_def still_admits)
next
  case (Some core)
  then obtain core' where core': "XGStartProtocolUdp (e_xg env) (udp_buffer d) (of_nat (length d)) addr
      (core\<lparr>XGCore.config := Some (xgconfig env app)\<rparr>) = Inr core'"
    and cb: "callbacks env (drop (length (XGCore.xlog core)) (XGCore.xlog core'))
      (app\<lparr>a_lib := (a_lib app)\<lparr>g_ctx := Some core'\<rparr>\<rparr>) = Inr app'"
    using assms(2) by (auto simp: app_udp_datagram_def)
  obtain evs where evs: "XGCore.xlog core' = XGCore.xlog core @ evs" "\<forall>e\<in>set evs. udp_event (udp_buffer d) e"
    using XGStartProtocolUdp_logs [OF core'] by (auto simp: udp_logs_def)
  have "admits tab env (join_device (udp_buffer d)) (app\<lparr>a_lib := (a_lib app)\<lparr>g_ctx := Some core'\<rparr>\<rparr>) app'"
    using callbacks_admit [OF assms(1,3)] cb evs by simp
  then show ?thesis
    by (simp add: admits_def same_window_def join_open_def)
qed

section \<open>Single steps\<close>

text \<open>Inputs that may open the window, and inputs whose product id the statements carry.\<close>

definition opens :: "app_input \<Rightarrow> bool" where
  "opens inp \<longleftrightarrow>
     (case inp of
        Tcp_Command data n who \<Rightarrow> opening_command data n
      | Udp_Command data n who \<Rightarrow> opening_command data n
      | Neighbours output \<Rightarrow> True
      | Console cmd \<Rightarrow> cmd = str ''join''
      | _ \<Rightarrow> False)"

definition clean_input :: "app_input \<Rightarrow> bool" where
  "clean_input inp \<longleftrightarrow> (case inp of Datagram d addr \<Rightarrow> sql_value (c_string (join_product (udp_buffer d))) | _ \<Rightarrow> True)"

lemma console_quiet:
  assumes "sql_ok (e_sql env) tab" "ft_xlink_console env cmd app = Inr app'"
  shows "quiet tab env app app'" "cmd \<noteq> str ''join'' \<Longrightarrow> still tab app app'"
proof -
  have remove: "still tab app app'" if rem: "ConsoleRemove env app = Inr app'"
  proof (cases "calm app app'")
    case False
    then obtain d f ret where "on_lib f (on_db (dbDeleteDevice (e_sql env) d) app) = Inr (ret, app')"
      using rem by (auto simp: ConsoleRemove_def split: option.splits if_splits)
    with calm_on_lib still_delete [OF assms(1)] show ?thesis
      using calm_still still_trans by blast
  qed (rule calm_still)
  have nj: "still tab app app'" if "cmd \<noteq> str ''join''"
    using assms(2) that remove
    by (auto simp: ft_xlink_console_def ConsoleRestartNofify_def ConsoleResetSdk_def XDResetSdk_def split: if_splits
        dest!: calm_on_lib calm_notify intro!: calm_still)
  then show "cmd \<noteq> str ''join'' \<Longrightarrow> still tab app app'" .
  show "quiet tab env app app'"
  proof (cases "cmd = str ''join''")
    case True
    then show ?thesis
      using assms(2) by (auto simp: ft_xlink_console_def ConsoleDiscoverDevice_def quiet_def no_new_def opened_window_def
          calm_def dest!: calm_on_lib)
  qed (use nj still_quiet in blast)
qed


section \<open>A device joins\<close>

definition join_notice :: "u32 \<Rightarrow> bytes \<Rightarrow> bytes \<Rightarrow> bytes" where
  "join_notice did product mac = 0x02 # be32_at did @ product @ of_nat (length mac) # mac"

lemma mac_text_pad: "6 \<le> length mac \<Longrightarrow> mac_text (mac @ xs) = mac_text mac"
  by (cases "mac = []") (auto simp: mac_text_def nth_append)

lemma OnDiscoverDevice_new:
  assumes "sql_ok (e_sql env) tab" "table_of tab (a_db app) = Some t" "t did = None" "join_open env app" "e_malloc env"
    and "length product = 32" "6 \<le> length mac" "length mac \<le> 32" "sql_value (c_string (product @ [0]))"
  shows "\<exists>r db. OnDiscoverDevice_t env (product @ [0]) (mac @ replicate (33 - length mac) 0) (of_nat (length mac)) did addr app =
      Inr (r, app\<lparr>a_db := db, g_header := g_header app @ [join_notice did product mac]\<rparr>)
    \<and> table_effect tab (a_db app) r db (t(did \<mapsto> new_info (product @ [0]) mac addr))"
proof -
  let ?m = "mac @ replicate (33 - length mac) 0"
  have info: "new_info p ?m addr = new_info p mac addr" for p
    using assms(7) by (simp add: new_info_def mac_text_pad)
  obtain r db where add: "dbAddDevice (e_sql env) did (product @ [0]) ?m addr (a_db app) = Inr (r, db)"
    "table_effect tab (a_db app) r db (t(did \<mapsto> new_info (product @ [0]) mac addr))"
    using dbAddDevice_new [OF assms(1,2,3) _ assms(9), of ?m addr] assms(7) info by auto
  have n: "unat (of_nat (length mac) :: u32) = length mac"
    using assms(8) by (intro unat_of_nat_u32) simp
  have "(ucast (of_nat (length mac) :: u32) :: byte) = of_nat (length mac)"
    using assms(8) by (simp add: unsigned_of_nat take_bit_nat_eq_self)
  then have "XDNewDeviceJoinNotify env did (product @ [0]) ?m (of_nat (length mac)) (app\<lparr>a_db := db\<rparr>) =
      Inr (app\<lparr>a_db := db, g_header := g_header app @ [join_notice did product mac]\<rparr>)"
    using assms(5,6,8) by (simp add: XDNewDeviceJoinNotify_def XDAddSendData_def n join_notice_def)
  then show ?thesis
    using add assms(3,4,7) dbDeviceExisted_iff [OF assms(1,2), of did]
    by (intro exI [of _ r] exI [of _ db]) (simp add: OnDiscoverDevice_t_def)
qed

lemma OnDiscoverDevice_lib:
  assumes "OnDiscoverDevice_t env p m n d a app = Inr (r, app')"
  shows "OnDiscoverDevice_t env p m n d a (app\<lparr>a_lib := l\<rparr>) = Inr (r, app'\<lparr>a_lib := l\<rparr>)"
  using assms by (auto simp: OnDiscoverDevice_t_def join_open_def XDNewDeviceJoinNotify_def XDAddSendData_def split: if_splits)

lemma xgconfig_simps [simp]:
  "OnDiscoverDevice (xgconfig env app) = Some (\<lambda>product mac n deviceid address.
     answer_of (OnDiscoverDevice_t env product mac n deviceid address app))"
  by (simp add: xgconfig_def)

lemma log_event_refuse: "udp_refuse cmd buffer addr (log_event e core) =
    core\<lparr>XGCore.xlog := XGCore.xlog core @ [e, Ev_SendTo (ServerUdpSocketHandle core) [0x18, cmd, 0, 3, buffer ! 4, buffer ! 5, 1] addr,
      Ev_SendTo (ServerUdpSocketHandle core) [0x18, cmd, 0, 3, buffer ! 4, buffer ! 5, 1] addr]\<rparr>"
  by (simp add: udp_refuse_def send_udp_def log_event_def Let_def)

lemma join_turn:
  assumes "length product = 32" "6 \<le> length mac" "length mac \<le> 32"
    and "length len = 2" "msgid = [m1, m2]" "g_ctx (a_lib app) = Some core"
    and "32 \<le> length (productid core)" "strlen (corp core) < 256" "strlen (token core) < 256" "\<And>n. env_malloc (e_xg env) n"
    and disc: "OnDiscoverDevice_t env (product @ [0]) (mac @ replicate (33 - length mac) 0) (of_nat (length mac)) did addr app = Inr (x, app1)"
  shows "\<exists>core' r. app_udp_datagram env (join_datagram hdr len msgid product mac did) addr app =
      Inr (app1\<lparr>a_lib := (a_lib app)\<lparr>g_ctx := Some core'\<rparr>\<rparr>)
    \<and> XGCore.xlog core' = XGCore.xlog core @ [Ev_DiscoverDevice (product @ [0]) (mac @ replicate (33 - length mac) 0)
           (of_nat (length mac)) did addr,
         Ev_SendTo (ServerUdpSocketHandle core) r addr, Ev_SendTo (ServerUdpSocketHandle core) r addr]
    \<and> (if x = 0 then answers r 0x22 msgid (take 32 (productid core)) (c_string (corp core)) (c_string (token core))
       else r = [0x18, 0x22, 0, 3, m1, m2, 1])"
proof -
  let ?d = "join_datagram hdr len msgid product mac did" and ?m = "mac @ replicate (33 - length mac) 0"
  let ?core = "core\<lparr>XGCore.config := Some (xgconfig env app)\<rparr>"
  let ?cb = "\<lambda>product mac n deviceid address. answer_of (OnDiscoverDevice_t env product mac n deviceid address app)"
  have len: "length ?d = 43 + length mac" "?d ! 1 = 0x12" "1 \<le> length mac"
    using assms(1,2,4,5) by (simp, simp add: join_datagram_def, simp)
  have cfg: "XGCore.config ?core = Some (xgconfig env app)" "OnDiscoverDevice (xgconfig env app) = Some ?cb"
    by simp_all
  note h = join_handler(1) [OF assms(1) len(3) assms(3,4,5) cfg, where env = "e_xg env" and hdr = hdr and dev = did and addr = addr]
    join_handler(2,3) [OF assms(1) len(3) assms(3,4,5) cfg, where hdr = hdr and dev = did]
  have ans: "?cb (product @ [0]) ?m (of_nat (length mac)) did addr = x"
    by (simp add: disc answer_of_def)
  have start: "XGStartProtocolUdp (e_xg env) (udp_buffer ?d) (of_nat (length ?d)) addr ?core =
      XGUdpDevcieRequestJoin (e_xg env) (udp_buffer ?d) (of_nat (length ?d)) addr ?core"
    using udp_dispatch_cases [of ?d "e_xg env" addr ?core] len assms(2,3) by simp
  have "\<exists>core' r. XGStartProtocolUdp (e_xg env) (udp_buffer ?d) (of_nat (length ?d)) addr ?core = Inr core'
    \<and> XGCore.xlog core' = XGCore.xlog core @ [Ev_DiscoverDevice (product @ [0]) ?m (of_nat (length mac)) did addr,
         Ev_SendTo (ServerUdpSocketHandle core) r addr, Ev_SendTo (ServerUdpSocketHandle core) r addr]
    \<and> (if x = 0 then answers r 0x22 msgid (take 32 (productid core)) (c_string (corp core)) (c_string (token core))
       else r = [0x18, 0x22, 0, 3, m1, m2, 1])"
  proof (cases "x = 0")
    case True
    obtain r where r: "XGStartProtocolUdp (e_xg env) (udp_buffer ?d) (of_nat (length ?d)) addr ?core =
      Inr (?core\<lparr>XGCore.xlog := XGCore.xlog ?core @
        [Ev_DiscoverDevice (product @ [0]) ?m (of_nat (length mac)) did addr,
         Ev_SendTo (ServerUdpSocketHandle ?core) r addr, Ev_SendTo (ServerUdpSocketHandle ?core) r addr]\<rparr>)"
      "answers r 0x22 msgid (take 32 (productid ?core)) (c_string (corp ?core)) (c_string (token ?core))"
      using XGUdp_join_accepted [OF assms(1) len(3) assms(3,4,5) cfg ans [unfolded True], where hdr = hdr and env = "e_xg env"]
        assms(7-10) by auto
    then show ?thesis using True by simp
  next
    case False
    then show ?thesis
      unfolding start h(1) using ans h(2,3) by (simp add: Let_def log_event_refuse)
  qed
  then obtain core' r where core': "XGStartProtocolUdp (e_xg env) (udp_buffer ?d) (of_nat (length ?d)) addr ?core = Inr core'"
    and log: "XGCore.xlog core' = XGCore.xlog core @ [Ev_DiscoverDevice (product @ [0]) ?m (of_nat (length mac)) did addr,
         Ev_SendTo (ServerUdpSocketHandle core) r addr, Ev_SendTo (ServerUdpSocketHandle core) r addr]"
    and r: "if x = 0 then answers r 0x22 msgid (take 32 (productid core)) (c_string (corp core)) (c_string (token core))
       else r = [0x18, 0x22, 0, 3, m1, m2, 1]"
    by blast
  have "app_udp_datagram env ?d addr app = Inr (app1\<lparr>a_lib := (a_lib app)\<lparr>g_ctx := Some core'\<rparr>\<rparr>)"
    by (simp only: app_udp_datagram_def assms(6) option.case core' c_bind_simps)
      (simp add: log callback_def OnDiscoverDevice_lib [OF disc])
  then show ?thesis
    using log r by blast
qed


text \<open>The application of the examples: an empty table, a running core, a window of ten seconds from second 100 on.\<close>

definition sample_app :: "device_table option app" where
  "sample_app = \<lparr>a_db = empty_db, a_lib = sample_lib sample_udp_core, a_cloud = sample_cloud, a_disk = sample_disk,
     a_talk = [], g_StartAllowAddTime = 0, g_AllowAddTimeout = 0, g_GatewayID = replicate 64 0, g_header = [],
     isConnectServer = False, g_sdk_open = False, isResetSdkFlag = False, isAllowJoin = False, g_allowtime = 0,
     gs_host = replicate 128 0, xd_isQuit = False\<rparr>"

definition sample_app_env :: "u32 \<Rightarrow> device_table option app_env" where
  "sample_app_env t = \<lparr>e_sql = table_sqlite, e_time = t, e_xg = sample_env, e_sendto = 1, e_session = sample_session [],
     e_md5 = zero_md5, e_malloc = True, e_tcp_sent = 1, e_version = None, e_stack = [], e_version_garbage = 0,
     e_address = replicate 16 0\<rparr>"

lemma sample_app_simps [simp]:
  "a_db sample_app = empty_db" "g_ctx (a_lib sample_app) = Some sample_udp_core" "g_header sample_app = []"
  "g_StartAllowAddTime sample_app = 0" "g_AllowAddTimeout sample_app = 0" "a_lib sample_app = sample_lib sample_udp_core"
  "e_sql (sample_app_env s) = table_sqlite" "e_time (sample_app_env s) = s" "e_xg (sample_app_env s) = sample_env"
  "e_malloc (sample_app_env s)" "table_of (\<lambda>h. h) empty_db = Some Map.empty"
  by (simp_all add: sample_app_def sample_app_env_def sample_lib_def table_of_empty_db)

lemma sample_product: "sql_value (c_string (replicate 32 0x41 @ [0]))"
  using c_string_padded [of "replicate 32 0x41" "[]"] by (simp add: sql_value_def)



section \<open>Who may be in the table\<close>

lemma input_step:
  assumes ok: "sql_ok (e_sql env) tab" and clean: "clean_input inp" and run: "app_input_step env inp g = Inr g'"
  shows "(\<forall>d addr. inp \<noteq> Datagram d addr) \<Longrightarrow> quiet tab env (gw_app g) (gw_app g')"
    and "\<not> opens inp \<Longrightarrow> (\<forall>d addr. inp \<noteq> Datagram d addr) \<Longrightarrow> still tab (gw_app g) (gw_app g')"
    and "inp = Datagram d addr \<Longrightarrow> admits tab env (join_device (udp_buffer d)) (gw_app g) (gw_app g')"
proof -
  have both: "quiet tab env (gw_app g) (gw_app g') \<and> (\<not> opens inp \<longrightarrow> still tab (gw_app g) (gw_app g'))"
    if nd: "\<forall>d addr. inp \<noteq> Datagram d addr"
  proof (cases inp)
    case (Tcp_Command data n who)
    then show ?thesis
      using run GAPStartProtocol_quiet [OF ok] GAPStartProtocol_still [OF ok]
      by (auto simp: app_input_step_def on_app_def OnTcpPipe_t_def opens_def)
  next
    case (Udp_Command data n who)
    then show ?thesis
      using run GAPStartProtocol_quiet [OF ok] GAPStartProtocol_still [OF ok]
      by (auto simp: app_input_step_def on_app_def OnUdpPipe_t_def opens_def)
  next
    case (Datagram d addr)
    then show ?thesis using nd by blast
  next
    case (Device_Login d)
    then have "still tab (gw_app g) (gw_app g')"
      using run OnDeviceLogin_quiet(1) [OF ok] by (auto simp: app_input_step_def on_app_def still_def)
    then show ?thesis using still_quiet by blast
  next
    case (Device_Logout d)
    then have "still tab (gw_app g) (gw_app g')"
      using run OnDeviceLogin_quiet(2) [OF ok] by (auto simp: app_input_step_def on_app_def still_def)
    then show ?thesis using still_quiet by blast
  next
    case (From_Device d toid msgid data pipe)
    then have "calm (gw_app g) (gw_app g')"
      using run by (auto simp: app_input_step_def on_app_def dest: calm_OnRecv)
    then show ?thesis using calm_still still_quiet by blast
  next
    case (From_Cloud d toid msgid data pipe)
    then have "calm (gw_app g) (gw_app g')"
      using run by (auto simp: app_input_step_def on_app_def dest: calm_OnRecv)
    then show ?thesis using calm_still still_quiet by blast
  next
    case (Udp_Turn lock)
    then have "calm (gw_app g) (gw_app g')"
      using run by (auto simp: app_input_step_def dest: calm_UDPWorkThread_turn)
    then show ?thesis using calm_still still_quiet by blast
  next
    case (Neighbours printed)
    then have "calm (gw_app g) (gw_app g') \<or> open_window env 30 (gw_app g) = Inr (gw_app g')"
      using run by (auto simp: app_input_step_def DiscoverntfThread_turn_def Let_def split: if_splits)
    moreover have "quiet tab env (gw_app g) (gw_app g')" if "open_window env 30 (gw_app g) = Inr (gw_app g')"
      using window_opened [OF that] by (auto simp: quiet_def no_new_def)
    ultimately show ?thesis using Neighbours by (auto simp: opens_def intro: calm_quiet)
  next
    case (Console cmd)
    then have c: "ft_xlink_console env cmd (gw_app g) = Inr (gw_app g')"
      using run by (auto simp: app_input_step_def on_app_def)
    show ?thesis using console_quiet [OF ok c] Console by (auto simp: opens_def)
  next
    case (Cloud_Status st)
    then have "calm (gw_app g) (gw_app g')"
      using run by (auto simp: app_input_step_def on_app_def OnStatus_t_def)
    then show ?thesis using calm_still still_quiet by blast
  qed
  show "(\<forall>d addr. inp \<noteq> Datagram d addr) \<Longrightarrow> quiet tab env (gw_app g) (gw_app g')"
    and "\<not> opens inp \<Longrightarrow> (\<forall>d addr. inp \<noteq> Datagram d addr) \<Longrightarrow> still tab (gw_app g) (gw_app g')"
    using both by blast+
  show "inp = Datagram d addr \<Longrightarrow> admits tab env (join_device (udp_buffer d)) (gw_app g) (gw_app g')"
    using run clean datagram_admits [OF ok] by (auto simp: app_input_step_def on_app_def clean_input_def)
qed

type_synonym 'db app_steps = "('db app_env \<times> app_input) list"

definition window_justified :: "'db app_steps \<Rightarrow> 'db app \<Rightarrow> bool" where
  "window_justified steps app \<longleftrightarrow> g_StartAllowAddTime app = 0 \<and> g_AllowAddTimeout app = 0
     \<or> (\<exists>pre env inp suf. steps = pre @ (env, inp) # suf \<and> opens inp \<and> opened_window env app)"

definition admitted_in_window :: "'db app_steps \<Rightarrow> u32 \<Rightarrow> bool" where
  "admitted_in_window steps d \<longleftrightarrow>
     (\<exists>pre env inp mid env' datagram addr suf.
        steps = pre @ (env, inp) # mid @ (env', Datagram datagram addr) # suf
        \<and> opens inp \<and> join_device (udp_buffer datagram) = d \<and> sint (e_time env' - e_time env) \<le> 300)"

lemma admitted_more: "admitted_in_window steps d \<Longrightarrow> admitted_in_window (steps @ more_steps) d"
  unfolding admitted_in_window_def by (metis append.assoc append_Cons)

lemma justified_more:
  assumes "window_justified steps app" "same_window app app'"
  shows "window_justified (steps @ more_steps) app'"
  using assms(1)
proof (cases "g_StartAllowAddTime app = 0 \<and> g_AllowAddTimeout app = 0")
  case False
  then obtain pre env inp suf where "steps = pre @ (env, inp) # suf" "opens inp" "opened_window env app"
    using assms(1) by (auto simp: window_justified_def)
  then have "steps @ more_steps = pre @ (env, inp) # (suf @ more_steps)" "opens inp" "opened_window env app'"
    using opened_same assms(2) by auto
  then show ?thesis unfolding window_justified_def by blast
qed (use assms(2) in \<open>simp add: window_justified_def same_window_def\<close>)

lemma app_run_append: "app_run (xs @ ys) g = c_bind (app_run xs g) (app_run ys)"
  by (induction xs arbitrary: g) (simp, auto simp: c_bind_def split: sum.splits)

definition proper_step :: "('db \<Rightarrow> device_table option) \<Rightarrow> 'db app_env \<times> app_input \<Rightarrow> bool" where
  "proper_step tab s \<longleftrightarrow> sql_ok (e_sql (fst s)) tab \<and> clean_input (snd s) \<and> 0 < sint (e_time (fst s))"

lemma run_admits:
  assumes "g_StartAllowAddTime (gw_app g) = 0" "g_AllowAddTimeout (gw_app g) = 0"
    and "table_of tab (a_db (gw_app g)) = Some t" "\<forall>s\<in>set steps. proper_step tab s"
  shows "app_run steps g = Inr g' \<Longrightarrow> window_justified steps (gw_app g')
    \<and> (\<exists>t'. table_of tab (a_db (gw_app g')) = Some t' \<and> (\<forall>d\<in>dom t'. d \<in> dom t \<or> admitted_in_window steps d))"
  using assms(4)
proof (induction steps arbitrary: g' rule: rev_induct)
  case Nil
  then show ?case using assms(1-3) by (auto simp: window_justified_def)
next
  case (snoc s steps)
  obtain env inp where s: "s = (env, inp)" by (cases s) auto
  obtain g1 where g1: "app_run steps g = Inr g1" "app_input_step env inp g1 = Inr g'"
    using snoc.prems(1) s by (auto simp: app_run_append)
  have ok: "sql_ok (e_sql env) tab" "clean_input inp" "0 < sint (e_time env)"
    using snoc.prems(2) s by (auto simp: proper_step_def)
  obtain t1 where just: "window_justified steps (gw_app g1)" and t1: "table_of tab (a_db (gw_app g1)) = Some t1"
    "\<forall>d\<in>dom t1. d \<in> dom t \<or> admitted_in_window steps d"
    using snoc.IH [OF g1(1)] snoc.prems(2) by auto
  have old: "d \<in> dom t \<or> admitted_in_window (steps @ [s]) d" if "d \<in> dom t1" for d
    using t1(2) that admitted_more by blast
  show ?case
  proof (cases "\<exists>d addr. inp = Datagram d addr")
    case True
    then obtain dg addr where inp: "inp = Datagram dg addr" by blast
    let ?d = "join_device (udp_buffer dg)"
    have adm: "admits tab env ?d (gw_app g1) (gw_app g')"
      using input_step(3) [OF ok(1,2) g1(2) inp] .
    then obtain t' where w: "same_window (gw_app g1) (gw_app g')" and t': "table_of tab (a_db (gw_app g')) = Some t'"
      "dom t' \<subseteq> dom t1 \<or> dom t' \<subseteq> insert ?d (dom t1) \<and> join_open env (gw_app g1)"
      using t1(1) unfolding admits_def by blast
    have "admitted_in_window (steps @ [s]) ?d" if "join_open env (gw_app g1)"
    proof -
      have "\<not> (g_StartAllowAddTime (gw_app g1) = 0 \<and> g_AllowAddTimeout (gw_app g1) = 0)"
        using that ok(3) by (auto simp: join_open_def)
      then obtain pre env0 inp0 suf where o: "steps = pre @ (env0, inp0) # suf" "opens inp0" "opened_window env0 (gw_app g1)"
        using just unfolding window_justified_def by blast
      have "sint (e_time env - e_time env0) \<le> 300"
        using that o(3) by (simp add: join_open_def opened_window_def)
      moreover have "steps @ [s] = pre @ (env0, inp0) # suf @ (env, Datagram dg addr) # []"
        using o(1) s inp by simp
      ultimately show ?thesis using o(2) unfolding admitted_in_window_def by blast
    qed
    then have "\<forall>d\<in>dom t'. d \<in> dom t \<or> admitted_in_window (steps @ [s]) d"
      using t'(2) old by blast
    then show ?thesis using t'(1) justified_more [OF just w] by blast
  next
    case False
    then have nd: "\<forall>d addr. inp \<noteq> Datagram d addr" by blast
    have q: "quiet tab env (gw_app g1) (gw_app g')" using input_step(1) [OF ok(1,2) g1(2) nd] .
    then obtain t' where "table_of tab (a_db (gw_app g')) = Some t'" "dom t' \<subseteq> dom t1"
      using t1(1) unfolding quiet_def no_new_def by blast
    moreover have "window_justified (steps @ [s]) (gw_app g')"
    proof (cases "same_window (gw_app g1) (gw_app g')")
      case True
      then show ?thesis by (rule justified_more [OF just])
    next
      case False
      then have "opened_window env (gw_app g')" using q by (simp add: quiet_def)
      moreover have "opens inp"
        using input_step(2) [OF ok(1,2) g1(2) _ nd] False by (auto simp: still_def)
      ultimately show ?thesis using s unfolding window_justified_def by blast
    qed
    ultimately show ?thesis using old by blast
  qed
qed



text \<open>In the example somebody types \<^verbatim>\<open>join\<close>, and five seconds later a device asks to join.\<close>

definition sample_gateway :: "device_table option gateway" where
  "sample_gateway = \<lparr>gw_app = sample_app, gw_udp = \<lparr>t_old = 0, t_olddiscover = 0\<rparr>, gw_ntf = \<lparr>n_counter = 0, n_orign = 0\<rparr>\<rparr>"

definition sample_join :: bytes where
  "sample_join = join_datagram 0x18 [0, 45] [7, 8] (replicate 32 0x41) [1, 2, 3, 4, 5, 6] 5"

lemma table_sqlite_add:
  assumes "t x = None" "6 \<le> length mac" "sql_value (c_string p)" "dbhandle d = Some (Some t)"
  shows "\<exists>d'. dbAddDevice table_sqlite x p mac a d = Inr (0, d') \<and> table_of (\<lambda>h. h) d' = Some (t(x \<mapsto> new_info p mac a))"
proof -
  have t: "table_of (\<lambda>h. h) d = Some t" using assms(4) by (simp add: table_of_def)
  obtain r d' where d': "dbAddDevice table_sqlite x p mac a d = Inr (r, d')" "table_effect (\<lambda>h. h) d r d' (t(x \<mapsto> new_info p mac a))"
    using dbAddDevice_new [OF table_sqlite_ok t assms(1-3)] by blast
  have q: "0x27 \<notin> set (c_string p)" "0x27 \<notin> set (mac_text mac)" "0x27 \<notin> set (b64_enc (sockaddr_bytes a))"
    using assms(3) sql_value_hex sql_value_addr by (simp_all add: sql_value_quote)
  have "sql_text (insert_text x (c_string p) (mac_text mac) (b64_enc (sockaddr_bytes a))) =
      insert_text x (c_string p) (mac_text mac) (b64_enc (sockaddr_bytes a))"
    using assms(3) sql_value_hex [of mac] sql_value_addr [of a] by (intro texts_fit sql_value_len)
  moreover have "\<exists>h. sq_exec table_sqlite (insert_text x (c_string p) (mac_text mac) (b64_enc (sockaddr_bytes a))) (Some t) = (0, h)"
    using assms(1) q by (simp add: table_sqlite_def table_exec_def split_texts read_print_d)
  ultimately have "r = 0"
    using d'(1) assms(1,2,4) checkFeildexisted_id [OF table_sqlite_ok t, of x]
    by (auto simp: dbAddDevice_eq execution_def)
  with d' show ?thesis by (auto simp: table_effect_def)
qed

lemma sample_join_product: "join_product (udp_buffer sample_join) = replicate 32 0x41 @ [0]"
  by (simp add: join_product_def slice_udp_buffer sample_join_def) (simp add: join_datagram_def)

lemma sample_discover:
  "\<exists>lib core. XGDiscover sample_env 1 (sample_lib sample_udp_core) = Inr (1, lib)
    \<and> g_ctx lib = Some core \<and> productid core = replicate 32 1 \<and> strlen (corp core) = 2 \<and> strlen (token core) = 1"
proof -
  have "isRuning sample_udp_core"
    by (simp add: sample_udp_core_def sample_core_def)
  then show ?thesis
    by (simp add: XGDiscover_def with_core_def sample_lib_def broadcast_request_def udp_alloc_def XGMemalloc_def
        sample_env_simps Let_def send_udp_def log_event_def XGFree_def)
qed

lemma console_join: "ft_xlink_console env (str ''join'') app = c_bind (ConsoleDiscoverDevice env None app) (\<lambda>(ret, app). Inr app)"
  by (simp add: ft_xlink_console_def)


end
