(* ===== verification/GatewayAnswers.thy ===== *)
theory GatewayAnswers imports GatewayRun begin

text \<open>
  What the commands of the gateway application answer, and where they fail their purpose: the list
  and the description of devices, commands to devices, refusals, a product id that is executed as a
  statement, the product id the gateway library reads from a dead stack.
\<close>

declare str_simps [simp del]

section \<open>Unknown devices\<close>

text \<open>The device a command names.\<close>

definition command_device :: "bytes \<Rightarrow> u32" where
  "command_device data = UTIL_INT32_SET (data ! 1) (data ! 2) (data ! 3) (data ! 4)"

lemma head_eq:
  assumes "7 \<le> length data"
  shows "reply_head code data = Inr (code # take 6 (drop 1 data))" "UtilGetInt32 data (Suc 0) = Inr (command_device data)"
  using assms by (simp_all add: reply_head_def command_device_def gap_bytes_def UtilGetInt32_def numeral_eq_Suc)




section \<open>Known devices\<close>

lemma info_of_new:
  assumes "length product = 32" "0 \<notin> set product" "6 \<le> length mac"
  shows "info_of product (take 6 mac) a (new_info (product @ [0]) mac a)"
proof -
  have "mac_text (take 6 mac) = mac_text mac" using assms(3) by (simp add: mac_text_def)
  then show ?thesis
    using assms c_string_padded [of product "[]"] by (simp add: info_of_def new_info_def)
qed

text \<open>
  C14. A device is described as it joined. For a row the application wrote, the answer to the
  request for a device's data holds the product id, the length 6, the MAC and whether the device is
  on line; through the printing of the MAC in the row, the database and the scanning of it.
\<close>

theorem device_described:
  assumes "sql_ok (e_sql env) tab" "table_of tab (a_db app) = Some t" "t (command_device data) = Some i"
    and "info_of product mac a i" "7 \<le> length data"
  shows "processGetDeviceInfo call env data n who app =
    SendCall call env (0x36 # take 6 (drop 1 data) @ 0 # product @ 6 # mac @ [if i_status i = 0 then 0 else 1]) who app"
proof -
  let ?out = "\<lparr>o_productid = Some (replicate 504 (0 :: byte)), o_mac = Some (replicate 128 0), o_maclen = 0, o_address = None\<rparr>"
  have e: "dbDeviceExisted (e_sql env) (command_device data) (a_db app) \<noteq> 0"
    using dbDeviceExisted_iff [OF assms(1,2)] assms(3) by simp
  have st: "dbGetDeviceStatus (e_sql env) (command_device data) 0 (a_db app) = (0, i_status i)"
    using dbGetDeviceStatus_eq [OF assms(1,2)] assms(3) by simp
  have p: "length product = 32" "length mac = 6" using assms(4) by (simp_all add: info_of_def)
  have "out_room ?out" by (simp add: out_room_def)
  from dbGetDeviceInfo_known [OF assms(1-4) this]
  have info: "dbGetDeviceInfo (e_sql env) (command_device data) ?out (a_db app) =
      Inr (0, ?out\<lparr>o_productid := Some (memcpy_at 0 product (replicate 504 0)),
        o_mac := Some (memcpy_at 0 (mac @ [0, 0, 0]) (replicate 128 0)), o_maclen := 6\<rparr>)"
    by simp
  have b: "take 32 (memcpy_at 0 product (replicate 504 0)) = product"
    "take 6 (memcpy_at 0 (mac @ [0, 0, 0]) (replicate 128 0)) = mac"
    using p by (simp_all add: memcpy_at_def)
  show ?thesis
    by (simp add: processGetDeviceInfo_def head_eq [OF assms(5)] e info b st Let_def)
qed

lemma device_id_loop_eq:
  "device_id_loop buffersize index rows =
    concat (map be32_at (take (nat ((buffersize - index - 1) div 4)) (map (\<lambda>row. col_int row 0) rows)))"
proof (induction rows arbitrary: index)
  case (Cons row rows)
  show ?case
  proof (cases "buffersize \<le> index + 4")
    case True
    then have "nat ((buffersize - index - 1) div 4) = 0" by simp
    with True show ?thesis by simp
  next
    case False
    have "(buffersize - index - 1) div 4 = (buffersize - (index + 4) - 1) div 4 + 1" by simp
    moreover have "0 \<le> (buffersize - (index + 4) - 1) div 4" using False by simp
    ultimately have "nat ((buffersize - index - 1) div 4) = Suc (nat ((buffersize - (index + 4) - 1) div 4))"
      by (simp add: nat_add_distrib)
    with False Cons.IH [of "index + 4"] show ?thesis
      by (simp add: Let_def be32_at_def)
  qed
qed simp

lemma length_concat_be32: "length (concat (map be32_at ids)) = 4 * length ids"
  by (induction ids) (simp_all add: be32_at_def)

text \<open>
  C16. The list of devices. The answer holds the two bytes behind the command, the number of devices as
  a byte, and the numbers of the devices, each once and in network order; beyond 254 devices
  the list is cut and beyond 255 the number wraps.
\<close>

theorem devices_listed:
  assumes "sql_ok (e_sql env) tab" "table_of tab (a_db app) = Some t" "card (dom t) < 2 ^ 31" "3 \<le> length data"
  shows "\<exists>ids. distinct ids \<and> set ids \<subseteq> dom t \<and> length ids = min 254 (card (dom t))
    \<and> processGetDeviceList call env data n who app =
      SendCall call env (0x35 # take 2 (drop 1 data) @ of_nat (card (dom t)) # concat (map be32_at ids)) who app"
proof -
  let ?k = "card (dom t)"
  have b: "gap_bytes data 1 2 = Inr (take 2 (drop 1 data))" "length (take 2 (drop 1 data)) = 2"
    using assms(4) by (simp_all add: gap_bytes_def)
  note count = dbGetDeviceCount_eq [OF assms(1-3)]
  obtain rows where rows: "distinct (map (\<lambda>row. col_int row 0) rows)" "(\<lambda>row. col_int row 0) ` set rows = dom t"
    "dbGetAllDeviceID (e_sql env) (replicate 1020 0) 1020 (a_db app) =
      Inr (int (length (device_id_loop 1020 0 rows)), memcpy_at 0 (device_id_loop 1020 0 rows) (replicate 1020 0))"
    using dbGetAllDeviceID_eq [OF assms(1,2), of 1020 "replicate 1020 0"] by auto
  let ?ids = "take 254 (map (\<lambda>row. col_int row 0) rows)"
  have loop: "device_id_loop 1020 0 rows = concat (map be32_at ?ids)"
    using device_id_loop_eq [of 1020 0 rows] by simp
  have "?k = length rows"
    using distinct_card [OF rows(1)] rows(2) by simp
  then have l: "length ?ids = min 254 ?k" "length (concat (map be32_at ?ids)) = 4 * min 254 ?k"
    by (simp_all add: length_concat_be32)
  have set: "set ?ids \<subseteq> dom t"
    using set_take_subset [of 254 "map (\<lambda>row. col_int row 0) rows"] rows(2) by auto
  have take: "take (4 + m) (0x35 # h @ c # memcpy_at 0 bs (replicate 1020 0)) = 0x35 # h @ c # bs"
    if "length h = 2" "length bs = m" for h c bs m
  proof -
    obtain x y where "h = [x, y]" using \<open>length h = 2\<close> by (auto simp: numeral_2_eq_2 length_Suc_conv)
    then show ?thesis using \<open>length bs = m\<close> by (simp add: memcpy_at_def numeral_eq_Suc)
  qed
  have "processGetDeviceList call env data n who app =
      SendCall call env (0x35 # take 2 (drop 1 data) @ of_nat ?k # concat (map be32_at ?ids)) who app"
  proof (cases "?k = 0")
    case True
    then have "rows = []" using \<open>?k = length rows\<close> by simp
    then show ?thesis
      using b True take [OF b(2), of "[]" 0] by (simp add: processGetDeviceList_def count Let_def memcpy_at_def)
  next
    case False
    have "nat (4 * int (min 254 ?k)) = 4 * min 254 ?k" by (simp only: nat_mult_distrib) simp
    with False show ?thesis
      using b take [OF b(2) l(2)] card_gt_0_iff [of "dom t"]
      by (simp add: processGetDeviceList_def count Let_def rows(3) loop l(2) nat_add_distrib)
  qed
  then show ?thesis
    using rows(1) l(1) set by (intro exI [of _ ?ids]) (simp add: distinct_take)
qed


text \<open>An application with one device in its table, on line.\<close>

definition known_app :: "device_table option app" where
  "known_app = sample_app\<lparr>a_db := \<lparr>db_isinited = True,
     dbhandle = Some (Some [7 \<mapsto> new_info (replicate 32 0x31 @ [0]) [1, 2, 3, 4, 5, 6] sample_addr])\<rparr>, a_lib := sample_lib logged_core\<rparr>"

lemma known_app_simps [simp]:
  "table_of (\<lambda>h. h) (a_db known_app) = Some [7 \<mapsto> new_info (replicate 32 0x31 @ [0]) [1, 2, 3, 4, 5, 6] sample_addr]"
  "a_lib known_app = sample_lib logged_core"
  by (simp_all add: known_app_def table_of_def)

lemma known_info: "info_of (replicate 32 0x31) [1, 2, 3, 4, 5, 6] sample_addr (new_info (replicate 32 0x31 @ [0]) [1, 2, 3, 4, 5, 6] sample_addr)"
  "i_status (new_info p m a) = 1"
  using info_of_new [of "replicate 32 0x31" "[1, 2, 3, 4, 5, 6]" sample_addr] by (simp_all add: new_info_def)

lemma command_seven: "command_device (c # 0 # 0 # 0 # 7 # xs) = 7"
  by (simp add: command_device_def UTIL_INT32_SET_def)

theorem device_described_witness:
  "processGetDeviceInfo SendUdpResponse (sample_app_env 100) [6, 0, 0, 0, 7, 8, 9] 7 3 known_app =
    SendCall SendUdpResponse (sample_app_env 100)
      (0x36 # [0, 0, 0, 7, 8, 9] @ 0 # replicate 32 0x31 @ 6 # [1, 2, 3, 4, 5, 6] @ [1]) 3 known_app"
  using device_described [of "sample_app_env 100" "\<lambda>h. h" known_app _ "[6, 0, 0, 0, 7, 8, 9]", OF _ _ _ known_info(1)]
  by (simp add: table_sqlite_ok command_seven known_info(2))

theorem devices_listed_witness:
  "\<exists>ids. distinct ids \<and> set ids \<subseteq> {7} \<and> length ids = 1
    \<and> processGetDeviceList SendUdpResponse (sample_app_env 100) [5, 8, 9] 3 3 known_app =
      SendCall SendUdpResponse (sample_app_env 100) (0x35 # [8, 9] @ 1 # concat (map be32_at ids)) 3 known_app"
  using devices_listed [of "sample_app_env 100" "\<lambda>h. h" known_app _ "[5, 8, 9]" SendUdpResponse 3 3]
  by (simp add: table_sqlite_ok)

section \<open>Keys through the gateway\<close>

text \<open>
  C12. An app reads a device's access key through the gateway. The command names a device of the table
  that is on line; the gateway finds its address and product id in the row, asks the device, and
  the device answers as the cloud client's program does. For every such device with a legal key that
  allows scanning, the app is sent the answer 0 and exactly the device's key; the gateway has sent one
  request to the address of the row and closed its socket.
\<close>

theorem app_reads_access_key:
  assumes "sql_ok (e_sql env) tab" "table_of tab (a_db app) = Some t" "t (command_device data) = Some i" "i_status i \<noteq> 0"
    and "info_of product mac addr i" "length (e_address env) = 16"
    and "11 \<le> length data" "sint (UTIL_INT32_SET (data ! 7) (data ! 8) (data ! 9) (data ! 10)) \<le> 3000"
    and "sdk_ok s" "scannable product s" "legal_key (accesskey (flash s))" "link_ok (a_lib app) addr us"
  shows "\<exists>d s'. device_sends (reads_key product (session_msgid us)) tail gw now s d s'
    \<and> processGetDeviceAck call (env\<lparr>e_session := hears d us\<rparr>) data n who app =
      SendCall call (env\<lparr>e_session := hears d us\<rparr>) (0x38 # take 6 (drop 1 data) @ 0 # be32_at (accesskey (flash s))) who
        (app\<lparr>a_talk := a_talk app @ [Ev_SendTo (us_socket us) (reads_key product (session_msgid us)) addr,
           Ev_Shutdown (us_socket us), Ev_Close (us_socket us)]\<rparr>)"
proof -
  have link: "opened (a_lib app) us" "sin_addr addr \<noteq> INADDR_BROADCAST" "us_sendto us > 0" "fd_ok (us_socket us)"
    "us_select us > 0" "us_isset us"
    using assms(12) by (simp_all add: link_ok_def)
  obtain d s' where sends: "device_sends (reads_key product (session_msgid us)) tail gw now s d s'"
    and key: "XGGetAccessKey addr product (hears d us) (a_lib app) = Inr (sint (accesskey (flash s)),
      [Ev_SendTo (us_socket us) (reads_key product (session_msgid us)) addr, Ev_Shutdown (us_socket us), Ev_Close (us_socket us)])"
    using access_key_exchange [OF assms(9,10) link, of tail gw now] assms(11) unfolding hears_def by auto
  let ?env = "env\<lparr>e_session := hears d us\<rparr>"
  let ?out = "\<lparr>o_productid = Some (replicate 33 (0 :: byte)), o_mac = Some (replicate 32 0), o_maclen = 0, o_address = Some (e_address env)\<rparr>"
  have p: "length product = 32" "length mac = 6" using assms(5) by (simp_all add: info_of_def)
  have room: "out_room ?out" using assms(6) by (simp add: out_room_def)
  have mem: "memcpy_at 0 product (replicate 33 0) = product @ [0]" "memcpy_at 0 (sockaddr_bytes addr) (e_address env) = sockaddr_bytes addr"
    using p assms(6) by (simp_all add: memcpy_at_def sockaddr_bytes_def)
  have info: "dbGetDeviceInfo (e_sql env) (command_device data) ?out (a_db app) =
      Inr (0, ?out\<lparr>o_productid := Some (product @ [0]), o_mac := Some (memcpy_at 0 (mac @ [0, 0, 0]) (replicate 32 0)), o_maclen := 6,
        o_address := Some (sockaddr_bytes addr)\<rparr>)"
    using dbGetDeviceInfo_known [OF assms(1,2,3,5) room] by (simp add: mem)
  have e: "dbDeviceExisted (e_sql env) (command_device data) (a_db app) \<noteq> 0"
    using dbDeviceExisted_iff [OF assms(1,2)] assms(3) by simp
  have st: "dbGetDeviceStatus (e_sql env) (command_device data) 0 (a_db app) = (0, i_status i)"
    using dbGetDeviceStatus_eq [OF assms(1,2)] assms(3) by simp
  have w: "UtilGetInt32 data 7 = Inr (UTIL_INT32_SET (data ! 7) (data ! 8) (data ! 9) (data ! 10))" "7 \<le> length data"
    using assms(7) by (simp_all add: UtilGetInt32_def gap_bytes_def)
  have ask: "XGGetAccessKey addr (product @ [0]) (hears d us) (a_lib app) = XGGetAccessKey addr product (hears d us) (a_lib app)"
    using p by (simp add: XGGetAccessKey_def)
  have pos: "0 < sint (accesskey (flash s))" using assms(11) by (simp add: legal_key_def)
  have "processGetDeviceAck call ?env data n who app =
      SendCall call ?env (0x38 # take 6 (drop 1 data) @ 0 # be32_at (accesskey (flash s))) who
        (app\<lparr>a_talk := a_talk app @ [Ev_SendTo (us_socket us) (reads_key product (session_msgid us)) addr,
           Ev_Shutdown (us_socket us), Ev_Close (us_socket us)]\<rparr>)"
    using assms(4,8) pos
    by (simp add: processGetDeviceAck_def head_eq [OF w(2)] w(1) device_conversation_def e st info on_talk_def out_sockaddr_def
        bytes_sockaddr_bytes ask key tell_key_def)
  with sends show ?thesis by blast
qed

theorem app_reads_access_key_witness:
  "\<exists>d s'. device_sends (reads_key (replicate 32 0x31) 5) [] (8, 8) 0 (sample_session_state\<lparr>flash := zero_flash\<lparr>accesskey := 277\<rparr>\<rparr>) d s'
    \<and> processGetDeviceAck SendUdpResponse ((sample_app_env 100)\<lparr>e_session := hears d (sample_session [])\<rparr>)
        [8, 0, 0, 0, 7, 8, 9, 0, 0, 1, 0] 11 3 known_app =
      SendCall SendUdpResponse ((sample_app_env 100)\<lparr>e_session := hears d (sample_session [])\<rparr>)
        [0x38, 0, 0, 0, 7, 8, 9, 0, 0, 0, 1, 21] 3
        (known_app\<lparr>a_talk := [Ev_SendTo (us_socket (sample_session [])) (reads_key (replicate 32 0x31) 5) sample_addr,
           Ev_Shutdown (us_socket (sample_session [])), Ev_Close (us_socket (sample_session []))]\<rparr>)"
proof -
  let ?s = "sample_session_state\<lparr>flash := zero_flash\<lparr>accesskey := 277\<rparr>\<rparr>"
  have s: "sdk_ok ?s" "scannable (replicate 32 0x31) ?s" "legal_key (accesskey (flash ?s))"
    "link_ok (a_lib known_app) sample_addr (sample_session [])" "session_msgid (sample_session []) = 5"
    using sample_device_ok by (simp_all add: sdk_ok_def flash_ok_zero scannable_def legal_key_def link_ok_def opened_def)
      (simp_all add: sample_session_state_def)
  have v: "UTIL_INT32_SET 0 0 1 0 = 256" "be32_at 277 = [0, 0, 1, 21]"
    by (simp_all add: UTIL_INT32_SET_def push_bit_eq_mult be32_at_def UTIL_INT32_GET_alt)
  have env: "length (e_address (sample_app_env 100)) = 16" "a_talk known_app = []"
    by (simp_all add: sample_app_env_def known_app_def sample_app_def)
  show ?thesis
    using app_reads_access_key [of "sample_app_env 100" "\<lambda>h. h" known_app _ "[8, 0, 0, 0, 7, 8, 9, 0, 0, 1, 0]", OF _ _ _ _ known_info(1) env(1) _ _ s(1-4),
        where tail = "[]" and gw = "(8, 8)" and now = 0 and call = SendUdpResponse and n = 11 and who = 3]
    by (simp add: table_sqlite_ok command_seven known_info(2) v s(5) env(2))
qed


section \<open>Commands to devices\<close>

lemma c_bind_Inr_right: "c_bind m Inr = m"
  by (cases m) (simp_all add: c_bind_def)

lemma dispatch_control:
  assumes "c_get data 0 = Inr 0x07" "10 \<le> unat n"
  shows "GAPStartProtocol call env data n who app = processControlDevice call env data n who app"
proof -
  have r: "gap_loop [(9, 0x03, processDeleteDevice), (7, 0x10, processGetGatewayStatue), (8, 0x11, processControlLamp),
      (7, 0x12, processOpenTmpSSID), (47, 0x13, processSetOnlySSID), (7, 0x14, processOpenEasylink), (8, 0x15, processSetSystem),
      (8, 0x16, processSetNetMode), (7, 0x17, processSetUpdateUrl)] call env data n who = Inr"
    by (rule ext) (use assms in simp)
  show ?thesis
    unfolding GAPStartProtocol_def FunProtocol_def using assms by (simp add: r c_bind_Inr_right)
qed

definition control_command :: "u32 \<Rightarrow> bytes \<Rightarrow> bytes \<Rightarrow> bytes \<Rightarrow> bytes" where
  "control_command did msgid len payload = 0x07 # be32_at did @ msgid @ len @ payload"

text \<open>
  C13. A command reaches its device. An app's control command for a device of the table that is on line
  and connected, from a local session or over the cloud: the sender is told 0, and when the core of the
  gateway library next empties its queues, the payload, framed as a pass-through message and byte
  for byte the app's, is in the send queue of the device's connection, behind what was queued for it.
\<close>

theorem control_reaches_device:
  assumes "sql_ok (e_sql env) tab" "table_of tab (a_db app) = Some t" "t did = Some i" "i_status i \<noteq> 0"
    and "length msgid = 2" "length len = 2" "payload \<noteq> []" "length payload + 45 \<le> 2 ^ 31"
    and "g_ctx (a_lib app) = Some core" "isRuning core" "env_malloc (e_xg env) (12 + int (length payload + 32))" "env_trylock (e_xg env)"
    and "find_conn did (Connects core) = Some k" "cl_status (client (Connects core ! k)) = E_CLI_LOGINED"
  shows "\<exists>core'. GAPStartProtocol call env (control_command did msgid len payload) (of_nat (length (control_command did msgid len payload))) who app =
      SendCall call env (0x37 # be32_at did @ msgid @ [0]) who (app\<lparr>a_lib := (a_lib app)\<lparr>g_ctx := Some core'\<rparr>\<rparr>)
    \<and> cl_sendQueue (client (Connects (XGPSendQueeu (e_xg env) core') ! k)) = cl_sendQueue (client (Connects core ! k))
        @ filter (\<lambda>it. client_target core (q_deviceid it) = Some k) (ClientSendQueue core)
        @ [pipe_item TCP_TYPE_PIPE 0 did 0 0 payload]
    \<and> item_bytes (pipe_item TCP_TYPE_PIPE 0 did 0 0 payload) = pipe_frame (XGMessage_byte 3 0 TCP_TYPE_PIPE) 0 0 0 payload"
proof -
  let ?d = "control_command did msgid len payload" and ?n = "of_nat (length (control_command did msgid len payload)) :: u32"
  obtain m1 m2 l1 l2 where ml: "msgid = [m1, m2]" "len = [l1, l2]"
    using assms(5,6) by (auto simp: numeral_2_eq_2 length_Suc_conv)
  have len: "length ?d = 9 + length payload"
    by (simp add: control_command_def ml be32_at_def)
  have n: "unat ?n = 9 + length payload"
    unfolding len using assms(8) by (intro unat_of_nat_u32) simp
  have n9: "?n - 9 = of_nat (length payload)"
    unfolding len by simp
  have head: "7 \<le> length ?d" "take 6 (drop (Suc 0) ?d) = be32_at did @ msgid" "drop 9 ?d = payload"
    by (simp_all add: control_command_def ml be32_at_def)
  have cd: "command_device ?d = did"
    by (simp add: command_device_def control_command_def be32_at_def UTIL_INT32_SET_GET)
  have e: "dbDeviceExisted (e_sql env) did (a_db app) \<noteq> 0"
    using dbDeviceExisted_iff [OF assms(1,2)] assms(3) by simp
  have st: "dbGetDeviceStatus (e_sql env) did 0 (a_db app) = (0, i_status i)"
    using dbGetDeviceStatus_eq [OF assms(1,2)] assms(3) by simp
  obtain core' where send: "XGSendDataToDevice (e_xg env) did 0 0 (Some payload) (of_nat (length payload)) 0 (a_lib app) =
      Inr (0, (a_lib app)\<lparr>g_ctx := Some core'\<rparr>)"
    and queue: "cl_sendQueue (client (Connects (XGPSendQueeu (e_xg env) core') ! k)) = cl_sendQueue (client (Connects core ! k))
        @ filter (\<lambda>it. client_target core (q_deviceid it) = Some k) (ClientSendQueue core)
        @ [pipe_item TCP_TYPE_PIPE 0 did 0 0 payload]"
    and item: "item_bytes (pipe_item TCP_TYPE_PIPE 0 did 0 0 payload) = pipe_frame (XGMessage_byte 3 0 TCP_TYPE_PIPE) 0 0 (ucast (0 :: u32)) payload"
    using XGSendDataToDevice_delivered [OF assms(9,10,8,11,12,13,14), of 0 0 0] by blast
  have "c_get ?d 0 = Inr 0x07" by (simp add: control_command_def c_get_def)
  moreover have "10 \<le> unat ?n" using n assms(7) by (cases payload) simp_all
  ultimately have "GAPStartProtocol call env ?d ?n who app = processControlDevice call env ?d ?n who app"
    by (rule dispatch_control)
  also have "\<dots> = SendCall call env (0x37 # be32_at did @ msgid @ [0]) who (app\<lparr>a_lib := (a_lib app)\<lparr>g_ctx := Some core'\<rparr>\<rparr>)"
    unfolding processControlDevice_def One_nat_def head_eq [OF head(1)] c_bind_simps cd n9 head(2,3)
    using assms(4) by (simp add: e st Let_def on_lib_def send)
  finally show ?thesis using queue item by auto
qed

text \<open>What the library returns is lost: without a running core the command is answered with success as well.\<close>

lemma lost_control_confirmed:
  assumes "sql_ok (e_sql env) tab" "table_of tab (a_db app) = Some t" "t (command_device data) = Some i" "i_status i \<noteq> 0"
    and "7 \<le> length data" "g_ctx (a_lib app) = None"
  shows "processControlDevice call env data n who app = SendCall call env (0x37 # take 6 (drop 1 data) @ [0]) who app"
proof -
  have e: "dbDeviceExisted (e_sql env) (command_device data) (a_db app) \<noteq> 0"
    "dbGetDeviceStatus (e_sql env) (command_device data) 0 (a_db app) = (0, i_status i)"
    using dbDeviceExisted_iff [OF assms(1,2)] dbGetDeviceStatus_eq [OF assms(1,2)] assms(3) by simp_all
  show ?thesis
    using assms(4,6) by (simp add: processControlDevice_def head_eq [OF assms(5)] e Let_def on_lib_def XGSendDataToDevice_def with_core_def)
qed


theorem control_reaches_device_witness:
  "\<exists>core'. GAPStartProtocol SendUdpResponse (sample_app_env 100) (control_command 7 [8, 9] [0, 3] [1, 2, 3]) 12 3 known_app =
      SendCall SendUdpResponse (sample_app_env 100) (0x37 # be32_at 7 @ [8, 9] @ [0]) 3
        (known_app\<lparr>a_lib := (sample_lib logged_core)\<lparr>g_ctx := Some core'\<rparr>\<rparr>)
    \<and> cl_sendQueue (client (Connects (XGPSendQueeu sample_env core') ! 0)) = [pipe_item TCP_TYPE_PIPE 0 7 0 0 [1, 2, 3]]
    \<and> item_bytes (pipe_item TCP_TYPE_PIPE 0 7 0 0 [1, 2, 3]) = pipe_frame (XGMessage_byte 3 0 TCP_TYPE_PIPE) 0 0 0 [1, 2, 3]"
proof -
  have g: "g_ctx (a_lib known_app) = Some logged_core" by (simp add: sample_lib_def)
  have l: "length (control_command 7 [8, 9] [0, 3] [1, 2, 3]) = 12" by (simp add: control_command_def be32_at_def)
  have lock: "env_trylock sample_env" by (simp add: sample_env_def)
  show ?thesis
    using control_reaches_device [of "sample_app_env 100" "\<lambda>h. h" known_app _ 7 _ "[8, 9]" "[0, 3]" "[1, 2, 3]" logged_core 0
        SendUdpResponse 3, OF _ _ _ _ _ _ _ _ g] lock
    by (simp add: table_sqlite_ok known_info(2) sample_env_simps l)
qed

section \<open>A product id that is executed\<close>

text \<open>
  Thirty-two bytes that close the quoted value of the product id, complete the row with empty
  values, and go on with a statement of their own.
\<close>

definition hostile_product :: bytes where
  "hostile_product = [0x27, 0x2C, 0x27, 0x27, 0x2C, 0x27, 0x27, 0x2C, 0x30, 0x29, 0x3B] @ str ''delete from device;--''"

definition empty_row :: "u32 \<Rightarrow> bytes" where
  "empty_row did = str ''INSERT INTO device VALUES('' @ quoted (print_d did) @ 0x2C # quoted [] @ 0x2C # quoted [] @ 0x2C # quoted []
     @ [0x2C, 0x30, 0x29]"



section \<open>The product id of the library\<close>

text \<open>
  After the start the core, if there is one, has for a product id what lies where the array of
  \<^verbatim>\<open>ft_xlink_gateway_init\<close> was.
\<close>

lemma product_pointer_dangles:
  assumes "ft_xlink_gateway_init env b mac app = Inr app'" "g_ctx (a_lib app) = None" "g_ctx (a_lib app') = Some core"
  shows "productid core = b_dead_stack b"
  using assms unfolding ft_xlink_gateway_init_def Let_def
  by (simp add: case_prod_beta split: if_splits) (elim exE conjE, use assms(3) in auto)+

end
