(* ===== verification/PosFirmware.thy ===== *)
theory PosFirmware imports Prelude begin

text \<open>
  The payment terminal, firmware version under uC/OS-II
  (\<^verbatim>\<open>pos-salemachine/user_app-forUcos-saleOK\<close>): the interrupt handlers of \<^verbatim>\<open>stm32f2xx_it.c\<close> that
  collect what the vending machine (VTS) and the card reader (POS) send, and the two tasks of
  \<^verbatim>\<open>app/MFUN.C\<close> that answer the machine and ask the reader for money.

  The globals and the function-level statics are one record. What is sent goes to the log. The
  mailboxes belong to the operating system: what a wait delivers and whether a post succeeds are
  arguments. A task gives the processor away only while it waits, so its turns are the steps here.
\<close>

section \<open>Data\<close>

abbreviation STX :: byte where "STX \<equiv> 0x02"
abbreviation ETX :: byte where "ETX \<equiv> 0x03"
abbreviation ENQ :: byte where "ENQ \<equiv> 0x05"
abbreviation ACK :: byte where "ACK \<equiv> 0x06"
abbreviation FIN_MASK :: byte where "FIN_MASK \<equiv> 0x80"
abbreviation VTS_LEN_MAX :: nat where "VTS_LEN_MAX \<equiv> 127"
abbreviation POS_LEN_MAX :: nat where "POS_LEN_MAX \<equiv> 127"
abbreviation PRO_START :: byte where "PRO_START \<equiv> 0x5A"
abbreviation PRO_TYPE :: byte where "PRO_TYPE \<equiv> 0x01"
abbreviation CMD_DED :: byte where "CMD_DED \<equiv> 0xA2"
abbreviation CMD_CANCEL :: byte where "CMD_CANCEL \<equiv> 0xA3"

abbreviation POS_SUCCESS :: byte where "POS_SUCCESS \<equiv> 0"
abbreviation CRC_FAIL :: byte where "CRC_FAIL \<equiv> 1"
abbreviation NO_CARD :: byte where "NO_CARD \<equiv> 4"
abbreviation DEAL_WAIT :: byte where "DEAL_WAIT \<equiv> 6"
abbreviation DEAL_CANCEL :: byte where "DEAL_CANCEL \<equiv> 0x42"
abbreviation DEAL_TIMEOUT :: byte where "DEAL_TIMEOUT \<equiv> 0x43"
abbreviation UNSUPPORT :: byte where "UNSUPPORT \<equiv> 0xf0"

datatype fj_code = PD | CR | CP | CW | CE | LR | NS | SL | END

definition fj_cmds :: "(byte \<times> byte \<times> fj_code) list" where
  "fj_cmds = [(0x50, 0x44, PD), (0x43, 0x52, CR), (0x43, 0x50, CP), (0x43, 0x57, CW), (0x43, 0x45, CE),
     (0x4C, 0x52, LR), (0x4E, 0x53, NS), (0x53, 0x4C, SL)]"

text \<open>The prepared answers, the last byte of each a place holder for the checksum.\<close>

definition RSP_PW :: bytes where "RSP_PW = [STX, 0x50, 0x57, 0x30, ETX, 0x3F]"
definition RSP_PD :: bytes where "RSP_PD = [STX, 0x50, 0x44, 0x30, ETX, 0x3F]"
definition RSP_CR_CPOK :: bytes where "RSP_CR_CPOK = [STX, 0x43, 0x52, 0, 0, 0, 0, 0x30, ETX, 0x3F]"
definition RSP_CR_CPNOK :: bytes where "RSP_CR_CPNOK = [STX, 0x43, 0x52, 4, 0, 0, 0, 0x30, ETX, 0x3F]"
definition RSP_CR_CP_BAL :: bytes where
  "RSP_CR_CP_BAL = [STX, 0x63, 0x72, 0, 0x40, 0, 0, 0x56, 0x34, 0x12, 0x30, ETX, 0x3F]"
definition RSP_CP_OK :: bytes where "RSP_CP_OK = [STX, 0x43, 0x50, 0x30, ETX, 0x3F]"
definition RSP_CW_OK :: bytes where "RSP_CW_OK = [STX, 0x43, 0x57, 0x30, ETX, 0x3F]"
definition RSP_CW_NOK :: bytes where "RSP_CW_NOK = [STX, 0x43, 0x57, 0x31, ETX, 0x3F]"
definition RSP_CE_OK :: bytes where "RSP_CE_OK = [STX, 0x43, 0x45, 0x30, ETX, 0x3F]"
definition RSP_LR_OK :: bytes where "RSP_LR_OK = [STX, 0x4C, 0x52, 0x41, ETX, 0x3F]"
definition RSP_NS_OK :: bytes where "RSP_NS_OK = [STX, 0x4E, 0x53, 0x30, ETX, 0x3F]"
definition RSP_SL_OK :: bytes where "RSP_SL_OK = [STX, 0x53, 0x4C, 0x30, ETX, 0x3F]"

lemmas RSP_defs = RSP_PW_def RSP_PD_def RSP_CR_CPOK_def RSP_CR_CPNOK_def RSP_CR_CP_BAL_def RSP_CP_OK_def
  RSP_CW_OK_def RSP_CW_NOK_def RSP_CE_OK_def RSP_LR_OK_def RSP_NS_OK_def RSP_SL_OK_def

text \<open>What leaves the terminal, and what the tasks post to each other.\<close>

datatype fw_event = To_Vts bytes | To_Pos bytes | Post_Vts u32 | Post_Pos u32

record firmware =
  glb_vts_buffer :: bytes
  GLB_VTS_RX_STA :: byte
  glb_pos_buffer :: bytes
  GLB_POS_RX_STA :: byte
  POS_DEAL_RET_CODE :: byte
  VTS_MAIL_FLAG :: bool
  VTS_BALANCE :: u32
  NO_WAIT :: bool
  pd_end :: bool
  cp_ok :: bool
  SL_FLAG :: bool
  vts_timeout :: byte
  pos_seq :: u16
  cur_seq :: u16
  sendmsg :: bytes
  sendlen :: nat
  repeat_count :: byte
  st_ret_code :: byte
  fw_log :: "fw_event list"

definition put_out :: "fw_event \<Rightarrow> firmware \<Rightarrow> firmware" where
  "put_out e fw = fw\<lparr>fw_log := fw_log fw @ [e]\<rparr>"

section \<open>Interrupts\<close>

definition finished :: "byte \<Rightarrow> bool" where
  "finished sta \<longleftrightarrow> sta AND FIN_MASK \<noteq> 0"

text \<open>The gap timer closes a message; the hardware has enabled it with the first byte.\<close>

definition TIM2_IRQHandler :: "firmware \<Rightarrow> firmware" where
  "TIM2_IRQHandler fw =
     (if GLB_VTS_RX_STA fw > 0 then fw\<lparr>GLB_VTS_RX_STA := GLB_VTS_RX_STA fw OR FIN_MASK\<rparr> else fw)"

definition VTS_UART_IRQHandler :: "byte \<Rightarrow> firmware \<Rightarrow> firmware" where
  "VTS_UART_IRQHandler res fw =
     (let sta = GLB_VTS_RX_STA fw;
          store = fw\<lparr>glb_vts_buffer := (glb_vts_buffer fw)[unat sta := res], GLB_VTS_RX_STA := sta + 1\<rparr>
      in if finished sta then fw
         else if unat sta < VTS_LEN_MAX
         then (if sta = 0 then (if res = ENQ \<or> res = STX then store else fw) else store)
         else fw\<lparr>GLB_VTS_RX_STA := sta OR FIN_MASK\<rparr>)"

text \<open>After a stored byte: is the answer of the reader complete, and what does it say?\<close>

definition pos_check :: "firmware \<Rightarrow> firmware" where
  "pos_check fw =
     (let n = unat (GLB_POS_RX_STA fw); buf = glb_pos_buffer fw;
          fin = (\<lambda>code. fw\<lparr>GLB_POS_RX_STA := GLB_POS_RX_STA fw OR FIN_MASK, POS_DEAL_RET_CODE := code\<rparr>);
          paylen = UTIL_INT16_SET (buf ! 5) (buf ! 6); retcode = buf ! 7
      in if n < 8 then fw
         else if paylen \<ge> 26 \<and> retcode = POS_SUCCESS
         then (if n \<ge> 34 then fin POS_SUCCESS else fw)
         else if paylen = 2 \<and> retcode = DEAL_WAIT
         then (if n \<ge> 10 then fin DEAL_WAIT else fw)
         else if paylen = 1 \<and> CRC_FAIL \<le> retcode \<and> retcode \<le> DEAL_TIMEOUT
         then (if n \<ge> 9 then fin retcode else fw)
         else fin UNSUPPORT)"

definition POS_UART_IRQHandler :: "byte \<Rightarrow> firmware \<Rightarrow> firmware" where
  "POS_UART_IRQHandler res fw =
     (let sta = GLB_POS_RX_STA fw;
          store = fw\<lparr>glb_pos_buffer := (glb_pos_buffer fw)[unat sta := res], GLB_POS_RX_STA := sta + 1\<rparr>
      in if finished sta then fw
         else if unat sta < POS_LEN_MAX
         then (if sta = 0 then (if res = PRO_START then store else fw) else pos_check store)
         else fw\<lparr>GLB_POS_RX_STA := sta OR FIN_MASK\<rparr>)"

section \<open>Checksums and messages\<close>

text \<open>The exclusive or of a message from its second byte to the one before the last.\<close>

definition lrc :: "bytes \<Rightarrow> nat \<Rightarrow> byte" where
  "lrc msg len = fold (\<lambda>i c. c XOR msg ! i) [2..<len - 1] (msg ! 1)"

definition is_crc_valid :: "bytes \<Rightarrow> nat \<Rightarrow> bool" where
  "is_crc_valid buffer len \<longleftrightarrow> \<not> len < 5 \<and> buffer ! (len - 1) = lrc buffer len"

definition is_valid_posret_msg :: "bytes \<Rightarrow> nat \<Rightarrow> bool" where
  "is_valid_posret_msg msg len \<longleftrightarrow>
     \<not> (len < 8 \<or> 34 < len) \<and> msg ! 0 = PRO_START \<and> lrc msg len = msg ! (len - 1)"

definition package_deduct_msg :: "u16 \<Rightarrow> u32 \<Rightarrow> bytes \<Rightarrow> bytes" where
  "package_deduct_msg seq money4B outmsg =
     (let outmsg = outmsg[0 := PRO_START,
            1 := UTIL_INT16_GET_BITH (ucast seq), 2 := UTIL_INT16_GET_BITL (ucast seq),
            3 := PRO_TYPE, 4 := CMD_DED, 5 := 0, 6 := 4,
            7 := UTIL_INT32_GET_BIT3 money4B, 8 := UTIL_INT32_GET_BIT2 money4B,
            9 := UTIL_INT32_GET_BIT1 money4B, 10 := UTIL_INT32_GET_BIT0 money4B]
      in outmsg[11 := lrc outmsg 12])"

text \<open>\<open>None\<close> is the length 0: nothing is built.\<close>

definition package_cancel_msg :: "bytes \<Rightarrow> bytes \<Rightarrow> bytes option" where
  "package_cancel_msg inmsg outmsg =
     (if inmsg ! 0 \<noteq> PRO_START then None
      else let outmsg = (memcpy_at 0 (take 12 inmsg) outmsg)[4 := CMD_CANCEL]
           in Some (outmsg[11 := lrc outmsg 12]))"

section \<open>Answering the vending machine\<close>

text \<open>\<^verbatim>\<open>snprintf(tmp, 2, "%x", b)\<close> leaves room for one character; \<^verbatim>\<open>atoi\<close> reads leading digits.\<close>

definition hex_char :: "nat \<Rightarrow> byte" where
  "hex_char n = (if n < 10 then of_nat (0x30 + n) else of_nat (0x61 + (n - 10)))"

definition snprintf_x :: "nat \<Rightarrow> byte \<Rightarrow> bytes" where
  "snprintf_x room b =
     take (room - 1) (if b < 16 then [hex_char (unat b)] else [hex_char (unat b div 16), hex_char (unat b mod 16)])"

fun atoi_from :: "u32 \<Rightarrow> bytes \<Rightarrow> u32" where
  "atoi_from acc [] = acc"
| "atoi_from acc (c # cs) =
     (if 0x30 \<le> c \<and> c \<le> 0x39 then atoi_from (acc * 10 + ucast (c - 0x30)) cs else acc)"

definition atoi :: "bytes \<Rightarrow> u32" where
  "atoi = atoi_from 0"

definition cw_balance :: "bytes \<Rightarrow> u32" where
  "cw_balance buffer =
     atoi (snprintf_x 2 (buffer ! 3)) + atoi (snprintf_x 2 (buffer ! 4)) * 100
     + atoi (snprintf_x 2 (buffer ! 5)) * 10000"

primrec find_cmd :: "byte \<Rightarrow> byte \<Rightarrow> (byte \<times> byte \<times> fj_code) list \<Rightarrow> fj_code" where
  "find_cmd a b [] = END"
| "find_cmd a b (c # cs) = (case c of (x, y, code) \<Rightarrow> if x = a \<and> y = b then code else find_cmd a b cs)"

text \<open>Fill in the checksum and send; the result is the length.\<close>

definition respond :: "bytes \<Rightarrow> firmware \<Rightarrow> int \<times> firmware" where
  "respond outresp fw =
     (let outlen = length outresp; outresp = outresp[outlen - 1 := lrc outresp outlen]
      in (int outlen, put_out (To_Vts outresp) fw))"

text \<open>\<open>posted\<close>: whether the mailbox of the reader's task took the amount.\<close>

definition handle_fj_pro :: "bool \<Rightarrow> bytes \<Rightarrow> nat \<Rightarrow> firmware \<Rightarrow> int \<times> firmware" where
  "handle_fj_pro posted buffer len fw =
     (case find_cmd (buffer ! 1) (buffer ! 2) fj_cmds of
        PD \<Rightarrow> respond RSP_PD (fw\<lparr>pd_end := True\<rparr>)
      | CR \<Rightarrow> respond (if \<not> pd_end fw then RSP_PW
                     else if cp_ok fw then (if SL_FLAG fw then RSP_CR_CP_BAL else RSP_CR_CPOK)
                     else RSP_CR_CPNOK) fw
      | CP \<Rightarrow> if \<not> pd_end fw then respond RSP_PW fw else respond RSP_CP_OK (fw\<lparr>cp_ok := True\<rparr>)
      | CW \<Rightarrow>
          if \<not> pd_end fw then respond RSP_PW (fw\<lparr>SL_FLAG := False\<rparr>)
          else if len \<noteq> 10 then (-1, fw)
          else
            let fw = fw\<lparr>VTS_BALANCE := cw_balance buffer\<rparr>
            in if \<not> posted then respond RSP_CW_NOK fw
               else (0, (put_out (Post_Vts (VTS_BALANCE fw)) fw)\<lparr>NO_WAIT := False\<rparr>)
      | CE \<Rightarrow> respond (if \<not> pd_end fw then RSP_PW else RSP_CE_OK) fw
      | LR \<Rightarrow> respond (if \<not> pd_end fw then RSP_PW else RSP_LR_OK) fw
      | NS \<Rightarrow> respond (if \<not> pd_end fw then RSP_PW else RSP_NS_OK) (fw\<lparr>SL_FLAG := False\<rparr>)
      | SL \<Rightarrow> if \<not> pd_end fw then respond RSP_PW fw else respond RSP_SL_OK (fw\<lparr>SL_FLAG := True\<rparr>)
      | END \<Rightarrow> (-1, fw))"

text \<open>
  One turn of \<^verbatim>\<open>vts_recv_task\<close>. While a deduction is pending it waits on the reader's mailbox first:
  \<open>vts_waits\<close> is the condition in front of the wait with its side effect on the counter,
  \<open>vts_result\<close> what follows the wait, \<open>vts_receive\<close> the code from the label on.
\<close>

definition vts_waits :: "firmware \<Rightarrow> bool \<times> firmware" where
  "vts_waits fw =
     (if \<not> NO_WAIT fw \<and> VTS_MAIL_FLAG fw
      then (vts_timeout fw < 9, fw\<lparr>vts_timeout := vts_timeout fw + 1\<rparr>) else (False, fw))"

definition vts_result :: "u32 option \<Rightarrow> firmware \<Rightarrow> firmware" where
  "vts_result left fw =
     (case left of
        Some _ \<Rightarrow> (snd (respond RSP_CW_OK (fw\<lparr>VTS_MAIL_FLAG := False\<rparr>)))\<lparr>vts_timeout := 0\<rparr>
      | None \<Rightarrow>
          if vts_timeout fw \<ge> 8
          then (snd (respond RSP_CW_NOK (fw\<lparr>VTS_MAIL_FLAG := False, VTS_BALANCE := 0, NO_WAIT := True\<rparr>)))
                 \<lparr>vts_timeout := 0\<rparr>
          else fw)"

definition vts_receive :: "bool \<Rightarrow> firmware \<Rightarrow> firmware" where
  "vts_receive posted fw =
     (if \<not> finished (GLB_VTS_RX_STA fw) then fw
      else
        let actsize = unat (GLB_VTS_RX_STA fw AND 0x7F);
            buf = glb_vts_buffer fw;
            fw = (if buf ! 0 = ENQ \<and> actsize = 1 then put_out (To_Vts [ACK]) fw
                  else if buf ! 0 = STX
                  then (if is_crc_valid buf actsize then snd (handle_fj_pro posted buf actsize fw) else fw)
                  else fw)
        in fw\<lparr>GLB_VTS_RX_STA := 0, glb_vts_buffer := replicate 128 0\<rparr>)"

section \<open>Asking the reader\<close>

text \<open>\<open>balance\<close> is what the wait on the machine's mailbox delivered: a pointer to \<^verbatim>\<open>VTS_BALANCE\<close>.\<close>

definition pos_request :: "bool \<Rightarrow> firmware \<Rightarrow> firmware" where
  "pos_request delivered fw =
     (if delivered
      then
        if VTS_BALANCE fw = 0
        then
          let fw = fw\<lparr>repeat_count := 1, st_ret_code := 0\<rparr>
          in if VTS_MAIL_FLAG fw
             then (case package_cancel_msg (sendmsg fw) (replicate 13 0) of
                     None \<Rightarrow> fw\<lparr>VTS_MAIL_FLAG := False\<rparr>
                   | Some m \<Rightarrow> put_out (To_Pos (take 12 m)) (fw\<lparr>VTS_MAIL_FLAG := False\<rparr>))
             else fw
        else if VTS_MAIL_FLAG fw then fw
        else
          let fw = fw\<lparr>VTS_BALANCE := VTS_BALANCE fw * 10, cur_seq := pos_seq fw, pos_seq := pos_seq fw + 1\<rparr>;
              fw = fw\<lparr>sendmsg := package_deduct_msg (cur_seq fw) (VTS_BALANCE fw) (replicate 13 0), sendlen := 12\<rparr>
          in (put_out (To_Pos (take 12 (sendmsg fw))) fw)\<lparr>VTS_MAIL_FLAG := True, repeat_count := 1, st_ret_code := 0\<rparr>
      else fw\<lparr>repeat_count := repeat_count fw + 1\<rparr>)"

definition pos_money :: "bytes \<Rightarrow> u32" where
  "pos_money buf = UTIL_INT32_SET (buf ! 22) (buf ! 23) (buf ! 24) (buf ! 25)"

definition pos_answer :: "bool \<Rightarrow> firmware \<Rightarrow> firmware" where
  "pos_answer posted fw =
     (if \<not> finished (GLB_POS_RX_STA fw) then fw
      else
        let actsize = unat (GLB_POS_RX_STA fw AND 0x7F); buf = glb_pos_buffer fw;
            fw =
              (if UTIL_INT16_GET_BITH (ucast (cur_seq fw)) \<noteq> buf ! 1 \<or> UTIL_INT16_GET_BITL (ucast (cur_seq fw)) \<noteq> buf ! 2
               then fw
               else if \<not> is_valid_posret_msg buf actsize then fw
               else if POS_DEAL_RET_CODE fw = POS_SUCCESS
               then
                 let fw = fw\<lparr>st_ret_code := POS_SUCCESS\<rparr>
                 in if VTS_MAIL_FLAG fw \<and> posted then put_out (Post_Pos (pos_money buf)) fw else fw
               else fw\<lparr>st_ret_code := POS_DEAL_RET_CODE fw\<rparr>)
        in fw\<lparr>GLB_POS_RX_STA := 0, POS_DEAL_RET_CODE := 0, glb_pos_buffer := replicate 128 0\<rparr>)"

definition pos_repeat :: "firmware \<Rightarrow> firmware" where
  "pos_repeat fw =
     (let fw = (if st_ret_code fw = NO_CARD \<and> VTS_MAIL_FLAG fw \<and> repeat_count fw < 170 \<and> repeat_count fw mod 40 = 0
                then put_out (To_Pos (take (sendlen fw) (sendmsg fw))) fw else fw)
      in if repeat_count fw > 175 then fw\<lparr>st_ret_code := 0\<rparr> else fw)"

definition pos_recv_turn :: "bool \<Rightarrow> bool \<Rightarrow> firmware \<Rightarrow> firmware" where
  "pos_recv_turn delivered posted fw = pos_repeat (pos_answer posted (pos_request delivered fw))"

section \<open>Receiving\<close>

text \<open>How long an answer of the reader is, and its code, by its header.\<close>

definition answer_paylen :: "bytes \<Rightarrow> u16" where
  "answer_paylen f = UTIL_INT16_SET (f ! 5) (f ! 6)"

definition answer_len :: "bytes \<Rightarrow> nat" where
  "answer_len f =
     (if answer_paylen f \<ge> 26 \<and> f ! 7 = POS_SUCCESS then 34
      else if answer_paylen f = 2 \<and> f ! 7 = DEAL_WAIT then 10
      else if answer_paylen f = 1 \<and> CRC_FAIL \<le> f ! 7 \<and> f ! 7 \<le> DEAL_TIMEOUT then 9
      else 8)"

definition answer_code :: "bytes \<Rightarrow> byte" where
  "answer_code f = (if answer_len f = 8 then UNSUPPORT else f ! 7)"

lemma answer_len_cases: "answer_len f \<in> {8, 9, 10, 34}"
  by (simp add: answer_len_def)

lemma unat_of_nat_byte: "n < 256 \<Longrightarrow> unat (of_nat n :: byte) = n"
  by (simp add: unat_of_nat)

lemma bit_7_iff: "bit (sta :: byte) 7 \<longleftrightarrow> 128 \<le> unat sta"
proof -
  have "bit sta 7 = odd (unat sta div 128)"
    using bit_unsigned_iff [where ?'a = nat, of sta 7] by (simp add: bit_iff_odd)
  moreover have "unat sta div 128 = (if 128 \<le> unat sta then 1 else 0)"
    using unat_byte_less [of sta] by (auto simp: div_if simp del: unat_byte_less)
  ultimately show ?thesis
    by simp
qed

lemma finished_iff: "finished sta \<longleftrightarrow> 128 \<le> unat sta"
proof -
  have "(FIN_MASK :: byte) = 2 ^ 7"
    by simp
  then show ?thesis
    unfolding finished_def by (metis and_exp_eq_0_iff_not_bit bit_7_iff)
qed

lemma fin_or: "unat sta < 128 \<Longrightarrow> unat (sta OR FIN_MASK) = unat sta + 128"
proof -
  assume sta: "unat sta < 128"
  have "sta + FIN_MASK = sta OR FIN_MASK"
  proof (rule disjunctive_add)
    fix n
    have "bit (2 ^ 7 :: byte) n \<longleftrightarrow> n = 7"
      unfolding bit_exp_iff by auto
    then show "\<not> bit sta n \<or> \<not> bit FIN_MASK n"
      using sta bit_7_iff [of sta] by auto
  qed
  moreover have "unat (sta + FIN_MASK) = unat sta + unat (FIN_MASK :: byte)"
    using sta by (intro unat_add_lem [THEN iffD1]) simp
  ultimately show ?thesis
    by simp
qed

lemma size_of_sta: "unat (sta AND 0x7F) = unat (sta :: byte) mod 128"
proof -
  have "sta AND 0x7F = take_bit 7 sta"
    by (simp only: take_bit_eq_mask mask_eq_exp_minus_1) simp
  then have "unat (sta AND 0x7F) = take_bit 7 (unat sta)"
    by (simp only: unsigned_take_bit_eq)
  then show ?thesis
    by (simp only: take_bit_eq_mod) simp
qed


text \<open>The state while an answer is coming in: the first \<open>k\<close> bytes of \<open>f\<close> are stored.\<close>

definition holds_pos :: "bytes \<Rightarrow> firmware \<Rightarrow> firmware \<Rightarrow> bool" where
  "holds_pos f fw0 fw \<longleftrightarrow> (\<exists>buf. length buf = 128 \<and> take (length f) buf = f \<and>
     fw = fw0\<lparr>glb_pos_buffer := buf, GLB_POS_RX_STA := of_nat (length f)\<rparr>)"

lemma take_Suc_update:
  "k < length buf \<Longrightarrow> take k buf = f \<Longrightarrow> take (Suc k) (buf[k := b]) = f @ [b]"
  by (simp add: take_Suc_conv_app_nth)

lemma pos_store:
  assumes "holds_pos f fw0 fw" "0 < length f" "length f < 127"
  shows "\<exists>fw'. holds_pos (f @ [b]) fw0 fw' \<and> POS_UART_IRQHandler b fw = pos_check fw'"
proof -
  obtain buf where buf: "length buf = 128" "take (length f) buf = f"
    and fw: "fw = fw0\<lparr>glb_pos_buffer := buf, GLB_POS_RX_STA := of_nat (length f)\<rparr>"
    using assms(1) by (auto simp: holds_pos_def)
  have u: "unat (of_nat (length f) :: byte) = length f"
    using assms(3) by (intro unat_of_nat_byte) simp
  then have "\<not> finished (GLB_POS_RX_STA fw)" "GLB_POS_RX_STA fw \<noteq> 0"
    using assms(2,3) by (auto simp: fw finished_iff)
  then have "POS_UART_IRQHandler b fw =
      pos_check (fw\<lparr>glb_pos_buffer := buf[length f := b], GLB_POS_RX_STA := of_nat (length (f @ [b]))\<rparr>)"
    using assms(3) u by (simp add: POS_UART_IRQHandler_def fw add.commute)
  moreover have "holds_pos (f @ [b]) fw0 (fw\<lparr>glb_pos_buffer := buf[length f := b], GLB_POS_RX_STA := of_nat (length (f @ [b]))\<rparr>)"
    unfolding holds_pos_def fw using assms(3) buf take_Suc_update [of "length f" buf f b]
    by (intro exI [of _ "buf[length f := b]"]) simp
  ultimately show ?thesis
    by blast
qed

text \<open>The check only looks at the first eight bytes, so it agrees with the header of the message.\<close>

lemma pos_check_holds:
  assumes "holds_pos f fw0 fw" "length f < 127"
  shows "pos_check fw = (if length f < 8 \<or> length f < answer_len f then fw
    else fw\<lparr>GLB_POS_RX_STA := GLB_POS_RX_STA fw OR FIN_MASK, POS_DEAL_RET_CODE := answer_code f\<rparr>)"
proof -
  obtain buf where buf: "length buf = 128" "take (length f) buf = f"
    and fw: "fw = fw0\<lparr>glb_pos_buffer := buf, GLB_POS_RX_STA := of_nat (length f)\<rparr>"
    using assms(1) by (auto simp: holds_pos_def)
  have u: "unat (of_nat (length f) :: byte) = length f"
    using assms(2) by (intro unat_of_nat_byte) simp
  have n: "buf ! k = f ! k" if "k < length f" for k
    using that buf(2) by (metis nth_take)
  show ?thesis
  proof (cases "length f < 8")
    case True
    then show ?thesis
      using u by (simp add: pos_check_def fw)
  next
    case False
    then have "buf ! 5 = f ! 5" "buf ! 6 = f ! 6" "buf ! 7 = f ! 7"
      by (simp_all add: n)
    with False show ?thesis
      using u by (simp add: pos_check_def fw answer_len_def answer_code_def answer_paylen_def Let_def)
  qed
qed

lemma answer_len_take: "8 \<le> k \<Longrightarrow> answer_len (take k f) = answer_len f"
  by (simp add: answer_len_def answer_paylen_def)

lemma pos_receives_prefix:
  assumes "GLB_POS_RX_STA fw = 0" "length (glb_pos_buffer fw) = 128" "f ! 0 = PRO_START"
    and "0 < k" "k < answer_len f" "k \<le> length f"
  shows "holds_pos (take k f) fw (fold POS_UART_IRQHandler (take k f) fw)"
  using assms(4-6)
proof (induction k)
  case 0
  then show ?case by simp
next
  case (Suc k)
  have f0: "take 1 f = [PRO_START]"
    using Suc.prems(3) assms(3) by (cases f) simp_all
  show ?case
  proof (cases k)
    case 0
    have "\<not> finished 0"
      by (simp add: finished_def)
    then have "POS_UART_IRQHandler PRO_START fw = fw\<lparr>glb_pos_buffer := (glb_pos_buffer fw)[0 := PRO_START], GLB_POS_RX_STA := 1\<rparr>"
      using assms(1) by (simp add: POS_UART_IRQHandler_def)
    moreover have "take 1 ((glb_pos_buffer fw)[0 := PRO_START]) = [PRO_START]"
      using assms(2) by (cases "glb_pos_buffer fw") simp_all
    ultimately show ?thesis
      using f0 assms(2) 0 unfolding holds_pos_def
      by (intro exI [of _ "(glb_pos_buffer fw)[0 := PRO_START]"]) simp
  next
    case (Suc j)
    let ?b = "f ! k" and ?g = "fold POS_UART_IRQHandler (take k f) fw"
    have IH: "holds_pos (take k f) fw ?g"
      using Suc Suc.IH Suc.prems by simp
    have t: "take (Suc k) f = take k f @ [?b]"
      using Suc.prems(3) by (simp add: take_Suc_conv_app_nth)
    have "k < 34" "length (take k f) = k"
      using Suc.prems answer_len_cases [of f] by auto
    then obtain fw' where fw': "holds_pos (take k f @ [?b]) fw fw'" "POS_UART_IRQHandler ?b ?g = pos_check fw'"
      using pos_store [OF IH, of ?b] Suc by auto
    have "pos_check fw' = fw'"
      using pos_check_holds [OF fw'(1)] Suc.prems answer_len_take [of "Suc k" f] \<open>k < 34\<close>
      by (auto simp flip: t)
    then show ?thesis
      using fw' by (simp add: t)
  qed
qed


lemma finished_ignores:
  assumes "finished (GLB_POS_RX_STA fw)"
  shows "fold POS_UART_IRQHandler es fw = fw"
proof (induction es)
  case (Cons e es)
  then show ?case
    using assms by (simp add: POS_UART_IRQHandler_def Let_def)
qed simp

lemma pos_receives:
  assumes "GLB_POS_RX_STA fw = 0" "length (glb_pos_buffer fw) = 128" "f ! 0 = PRO_START"
    and "length f = answer_len f"
  shows "\<exists>buf sta. fold POS_UART_IRQHandler (f @ es) fw =
      fw\<lparr>glb_pos_buffer := buf, GLB_POS_RX_STA := sta, POS_DEAL_RET_CODE := answer_code f\<rparr>
    \<and> length buf = 128 \<and> take (length f) buf = f \<and> finished sta \<and> unat sta = length f + 128"
proof -
  define k where "k = length f - 1"
  have k: "0 < k" "k < answer_len f" "Suc k = length f" "length f \<le> 34" "8 \<le> length f"
    using answer_len_cases [of f] assms(4) by (auto simp: k_def)
  have tk: "take k f @ [f ! k] = f"
    using k(3) by (metis take_Suc_conv_app_nth lessI take_all order_refl)
  let ?g = "fold POS_UART_IRQHandler (take k f) fw"
  have g: "holds_pos (take k f) fw ?g"
    using pos_receives_prefix [OF assms(1-3) k(1,2)] k(3) by simp
  obtain fw' where fw': "holds_pos f fw fw'" "POS_UART_IRQHandler (f ! k) ?g = pos_check fw'"
    using pos_store [OF g, of "f ! k"] k tk by auto
  obtain buf where buf: "length buf = 128" "take (length f) buf = f"
    and fw'': "fw' = fw\<lparr>glb_pos_buffer := buf, GLB_POS_RX_STA := of_nat (length f)\<rparr>"
    using fw'(1) by (auto simp: holds_pos_def)
  define sta where "sta = (of_nat (length f) OR FIN_MASK :: byte)"
  have "unat (of_nat (length f) :: byte) = length f"
    using k(4) by (intro unat_of_nat_byte) simp
  then have sta: "unat sta = length f + 128"
    unfolding sta_def using k(4) by (subst fin_or) simp_all
  have "fold POS_UART_IRQHandler f fw = POS_UART_IRQHandler (f ! k) ?g"
    by (subst tk [symmetric]) simp
  also have "\<dots> = fw'\<lparr>GLB_POS_RX_STA := GLB_POS_RX_STA fw' OR FIN_MASK, POS_DEAL_RET_CODE := answer_code f\<rparr>"
    unfolding fw'(2) using pos_check_holds [OF fw'(1)] k(4,5) assms(4) by simp
  finally have f: "fold POS_UART_IRQHandler f fw =
      fw\<lparr>glb_pos_buffer := buf, GLB_POS_RX_STA := sta, POS_DEAL_RET_CODE := answer_code f\<rparr>"
    by (simp add: fw'' sta_def)
  have fin: "finished sta"
    using sta by (simp add: finished_iff)
  have "fold POS_UART_IRQHandler (f @ es) fw =
      fw\<lparr>glb_pos_buffer := buf, GLB_POS_RX_STA := sta, POS_DEAL_RET_CODE := answer_code f\<rparr>"
    using f fin finished_ignores by simp
  then show ?thesis
    using buf fin sta by blast
qed

text \<open>The checksum only looks at the message.\<close>

lemma lrc_take:
  assumes "take n buf = f" "length f = n" "2 \<le> n"
  shows "lrc buf n = lrc f n"
proof -
  have nth: "buf ! i = f ! i" if "i < n" for i
    using that assms(1) by (metis nth_take)
  have "fold (\<lambda>i c. c XOR buf ! i) [2..<n - 1] c = fold (\<lambda>i c. c XOR f ! i) [2..<n - 1] c" for c
    by (rule fold_cong) (auto simp: nth)
  then show ?thesis
    using assms(3) nth by (simp add: lrc_def)
qed

definition seq_of :: "u16 \<Rightarrow> bytes \<Rightarrow> bool" where
  "seq_of seq f \<longleftrightarrow> UTIL_INT16_SET (f ! 1) (f ! 2) = seq"

lemma seq_of_iff: "seq_of seq f \<longleftrightarrow>
    UTIL_INT16_GET_BITH (ucast seq) = f ! 1 \<and> UTIL_INT16_GET_BITL (ucast seq) = f ! 2"
proof
  assume "seq_of seq f"
  then have "unat seq = unat (f ! 1) * 256 + unat (f ! 2)"
    by (simp add: seq_of_def flip: unat_UTIL_INT16_SET)
  moreover have "unat (ucast seq :: u32) = unat seq"
    using unsigned_less [of seq, where ?'a = nat] by (simp add: unsigned_ucast_eq take_bit_eq_mod)
  ultimately show "UTIL_INT16_GET_BITH (ucast seq) = f ! 1 \<and> UTIL_INT16_GET_BITL (ucast seq) = f ! 2"
    by (simp add: word_unat_eq_iff byte_order)
next
  assume "UTIL_INT16_GET_BITH (ucast seq) = f ! 1 \<and> UTIL_INT16_GET_BITL (ucast seq) = f ! 2"
  moreover have "unat (ucast seq :: u32) = unat seq" "unat seq < 256 * 256"
    using unsigned_less [of seq, where ?'a = nat] by (simp_all add: unsigned_ucast_eq take_bit_eq_mod)
  ultimately show "seq_of seq f"
    by (simp add: seq_of_def word_unat_eq_iff byte_order) (metis div_mult_mod_eq less_mult_imp_div_less mod_less)
qed

text \<open>
  C4. The reader's answer, byte by byte. An answer of any of the four kinds (success, please wait,
  one-byte result, anything else, which is cut after eight bytes) that arrives while the terminal is
  idle is collected by the interrupt handler with its code, bytes behind it are ignored until the
  task has looked at it, and the task then posts the balance in it to the machine's task exactly
  when its sequence number is the current one, its checksum is right, it reports success, a
  deduction is pending and the mailbox is free; afterwards the terminal is idle again.
\<close>

theorem POS_answer_received:
  assumes "GLB_POS_RX_STA fw = 0" "length (glb_pos_buffer fw) = 128" "f ! 0 = PRO_START"
    and "length f = answer_len f"
  shows "let fw' = pos_answer posted (fold POS_UART_IRQHandler (f @ es) fw);
      good = (seq_of (cur_seq fw) f \<and> f ! (length f - 1) = lrc f (length f))
    in fw_log fw' = fw_log fw @ (if good \<and> answer_code f = POS_SUCCESS \<and> VTS_MAIL_FLAG fw \<and> posted
          then [Post_Pos (pos_money f)] else [])
      \<and> st_ret_code fw' = (if good then answer_code f else st_ret_code fw)
      \<and> GLB_POS_RX_STA fw' = 0 \<and> length (glb_pos_buffer fw') = 128
      \<and> VTS_MAIL_FLAG fw' = VTS_MAIL_FLAG fw"
proof -
  obtain buf sta where b: "fold POS_UART_IRQHandler (f @ es) fw =
      fw\<lparr>glb_pos_buffer := buf, GLB_POS_RX_STA := sta, POS_DEAL_RET_CODE := answer_code f\<rparr>"
    "length buf = 128" "take (length f) buf = f" "finished sta" "unat sta = length f + 128"
    using pos_receives [OF assms, of es] by blast
  have len: "8 \<le> length f" "length f \<le> 34"
    using answer_len_cases [of f] assms(4) by auto
  have n: "buf ! i = f ! i" if "i < length f" for i
    using that b(3) by (metis nth_take)
  have act: "unat (sta AND 0x7F) = length f"
    unfolding size_of_sta b(5) using len(2) by simp
  have valid: "is_valid_posret_msg buf (length f) \<longleftrightarrow> f ! (length f - 1) = lrc f (length f)"
    using len lrc_take [OF b(3)] n [of 0] n [of "length f - 1"] assms(3)
    by (cases "length f = 0") (auto simp: is_valid_posret_msg_def)
  have seq: "UTIL_INT16_GET_BITH (ucast (cur_seq fw)) \<noteq> buf ! 1 \<or> UTIL_INT16_GET_BITL (ucast (cur_seq fw)) \<noteq> buf ! 2
      \<longleftrightarrow> \<not> seq_of (cur_seq fw) f"
    using len n by (simp add: seq_of_iff)
  have money: "answer_code f = POS_SUCCESS \<Longrightarrow> pos_money buf = pos_money f"
    using len n assms(4) by (auto simp: pos_money_def answer_code_def answer_len_def split: if_splits)
  let ?fw = "fw\<lparr>glb_pos_buffer := buf, GLB_POS_RX_STA := sta, POS_DEAL_RET_CODE := answer_code f\<rparr>"
  have sel: "glb_pos_buffer ?fw = buf" "GLB_POS_RX_STA ?fw = sta" "POS_DEAL_RET_CODE ?fw = answer_code f"
    "cur_seq ?fw = cur_seq fw" "VTS_MAIL_FLAG ?fw = VTS_MAIL_FLAG fw" "fw_log ?fw = fw_log fw"
    "st_ret_code ?fw = st_ret_code fw"
    by simp_all
  show ?thesis
    unfolding b(1) pos_answer_def Let_def sel act valid seq
    using b(4) money
    by (cases "seq_of (cur_seq fw) f"; cases "f ! (length f - 1) = lrc f (length f)";
        cases "answer_code f = POS_SUCCESS") (simp_all add: put_out_def)
qed


definition idle_fw :: firmware where
  "idle_fw = \<lparr>glb_vts_buffer = replicate 128 0, GLB_VTS_RX_STA = 0, glb_pos_buffer = replicate 128 0,
     GLB_POS_RX_STA = 0, POS_DEAL_RET_CODE = 0, VTS_MAIL_FLAG = False, VTS_BALANCE = 0, NO_WAIT = False,
     pd_end = False, cp_ok = False, SL_FLAG = False, vts_timeout = 0, pos_seq = 0, cur_seq = 0,
     sendmsg = replicate 13 0, sendlen = 0, repeat_count = 1, st_ret_code = 0, fw_log = []\<rparr>"

definition sample_answer :: bytes where
  "sample_answer = [PRO_START, 0, 0, 1, 0x52, 0, 1, NO_CARD, 0x56]"

theorem POS_answer_received_witness:
  "st_ret_code (pos_answer True (fold POS_UART_IRQHandler (sample_answer @ [1, 2]) idle_fw)) = NO_CARD"
proof -
  have s: "sample_answer ! 0 = PRO_START" "length sample_answer = 9" "answer_len sample_answer = 9"
    "sample_answer ! 7 = NO_CARD" "seq_of 0 sample_answer" "sample_answer ! 8 = lrc sample_answer 9"
    by (simp_all add: sample_answer_def answer_len_def answer_paylen_def UTIL_INT16_SET_def seq_of_def lrc_def
        upt_conv_Cons word_le_nat_alt)
  then have "answer_code sample_answer = NO_CARD"
    by (simp add: answer_code_def)
  then show ?thesis
    using POS_answer_received [of idle_fw sample_answer True "[1, 2]"] s
    by (simp add: idle_fw_def Let_def)
qed

section \<open>Collecting the machine's messages\<close>

definition holds_vts :: "bytes \<Rightarrow> firmware \<Rightarrow> firmware \<Rightarrow> bool" where
  "holds_vts f fw0 fw \<longleftrightarrow> (\<exists>buf. length buf = 128 \<and> take (length f) buf = f \<and>
     fw = fw0\<lparr>glb_vts_buffer := buf, GLB_VTS_RX_STA := of_nat (length f)\<rparr>)"

lemma vts_store:
  assumes "holds_vts f fw0 fw" "length f < 127" "f \<noteq> [] \<or> b = STX"
  shows "holds_vts (f @ [b]) fw0 (VTS_UART_IRQHandler b fw)"
proof -
  obtain buf where buf: "length buf = 128" "take (length f) buf = f"
    and fw: "fw = fw0\<lparr>glb_vts_buffer := buf, GLB_VTS_RX_STA := of_nat (length f)\<rparr>"
    using assms(1) by (auto simp: holds_vts_def)
  have u: "unat (of_nat (length f) :: byte) = length f"
    using assms(2) by (intro unat_of_nat_byte) simp
  have fin: "\<not> finished (of_nat (length f))"
    using u assms(2) by (simp add: finished_iff)
  have sta: "GLB_VTS_RX_STA fw = of_nat (length f)" "glb_vts_buffer fw = buf"
    by (simp_all add: fw)
  have start: "of_nat (length f) = (0 :: byte) \<Longrightarrow> b = STX"
    using u assms(3) by auto
  have "VTS_UART_IRQHandler b fw =
      fw\<lparr>glb_vts_buffer := buf[length f := b], GLB_VTS_RX_STA := of_nat (length (f @ [b]))\<rparr>"
    unfolding VTS_UART_IRQHandler_def Let_def sta u using assms(2) fin start
    by (simp add: add.commute)
  then show ?thesis
    unfolding holds_vts_def using assms(2) buf take_Suc_update [of "length f" buf f b]
    by (intro exI [of _ "buf[length f := b]"]) (simp add: fw)
qed

lemma vts_collects:
  assumes "holds_vts f fw0 fw" "length f + length m \<le> 127" "f \<noteq> [] \<or> (m \<noteq> [] \<longrightarrow> hd m = STX)"
  shows "holds_vts (f @ m) fw0 (fold VTS_UART_IRQHandler m fw)"
  using assms
proof (induction m arbitrary: f fw)
  case (Cons b m)
  then show ?case
    using vts_store [of f fw0 fw b] Cons.IH [of "f @ [b]" "VTS_UART_IRQHandler b fw"] by auto
qed simp

text \<open>
  C5. A command of the machine, from the wire to its handler. A message of up to 127 bytes that
  starts with STX, arrives while the terminal is idle and is closed by the gap timer is handed to
  the command handler exactly as it was sent if it has at least five bytes and a right checksum, and
  is dropped otherwise; either way the terminal is ready for the next one.
\<close>

theorem VTS_command_handled:
  assumes "GLB_VTS_RX_STA fw = 0" "length (glb_vts_buffer fw) = 128"
    and "m ! 0 = STX" "m \<noteq> []" "length m \<le> 127"
  shows "\<exists>buf sta. take (length m) buf = m \<and> length buf = 128 \<and>
    vts_receive posted (TIM2_IRQHandler (fold VTS_UART_IRQHandler m fw)) =
      (let fw' = fw\<lparr>glb_vts_buffer := buf, GLB_VTS_RX_STA := sta\<rparr>
       in if 5 \<le> length m \<and> m ! (length m - 1) = lrc m (length m)
          then snd (handle_fj_pro posted buf (length m) fw') else fw')
        \<lparr>GLB_VTS_RX_STA := 0, glb_vts_buffer := replicate 128 0\<rparr>"
proof -
  have "holds_vts [] fw fw"
    using assms(1,2) unfolding holds_vts_def by (intro exI [of _ "glb_vts_buffer fw"]) simp
  then have "holds_vts m fw (fold VTS_UART_IRQHandler m fw)"
    using vts_collects [of "[]" fw fw m] assms(3-5) by (simp add: hd_conv_nth)
  then obtain buf where buf: "length buf = 128" "take (length m) buf = m"
    and f: "fold VTS_UART_IRQHandler m fw = fw\<lparr>glb_vts_buffer := buf, GLB_VTS_RX_STA := of_nat (length m)\<rparr>"
    by (auto simp: holds_vts_def)
  define sta where "sta = (of_nat (length m) OR FIN_MASK :: byte)"
  have u: "unat (of_nat (length m) :: byte) = length m"
    using assms(5) by (intro unat_of_nat_byte) simp
  then have sta: "unat sta = length m + 128"
    unfolding sta_def using assms(5) by (subst fin_or) simp_all
  have "(0 :: byte) < of_nat (length m)"
    using u assms(4) by (simp add: word_less_nat_alt)
  then have tim: "TIM2_IRQHandler (fold VTS_UART_IRQHandler m fw) = fw\<lparr>glb_vts_buffer := buf, GLB_VTS_RX_STA := sta\<rparr>"
    by (simp add: TIM2_IRQHandler_def f sta_def)
  have act: "unat (sta AND 0x7F) = length m"
    unfolding size_of_sta sta using assms(5) by simp
  have n: "buf ! i = m ! i" if "i < length m" for i
    using that buf(2) by (metis nth_take)
  have crc: "is_crc_valid buf (length m) \<longleftrightarrow> 5 \<le> length m \<and> m ! (length m - 1) = lrc m (length m)"
    using lrc_take [OF buf(2)] n [of "length m - 1"] assms(4) by (cases "5 \<le> length m") (auto simp: is_crc_valid_def)
  have fin: "finished sta" "buf ! 0 = STX"
    using sta n [of 0] assms(3,4) by (simp_all add: finished_iff)
  show ?thesis
    unfolding tim
    by (rule exI [of _ buf], rule exI [of _ sta])
      (use buf fin in \<open>simp add: vts_receive_def act crc Let_def\<close>)
qed

section \<open>Answers to the machine\<close>

lemma lrc_update:
  assumes "3 \<le> n" "length m = n"
  shows "lrc (m[n - 1 := c]) n = lrc m n"
proof -
  have "fold (\<lambda>i d. d XOR m[n - 1 := c] ! i) [2..<n - 1] x = fold (\<lambda>i d. d XOR m ! i) [2..<n - 1] x" for x
    by (rule fold_cong) auto
  then show ?thesis
    using assms(1) by (simp add: lrc_def)
qed

definition answer_to :: "bytes \<Rightarrow> bytes" where
  "answer_to rsp = rsp[length rsp - 1 := lrc rsp (length rsp)]"

lemma respond_eq: "respond rsp fw = (int (length rsp), put_out (To_Vts (answer_to rsp)) fw)"
  by (simp add: respond_def answer_to_def Let_def)

lemma answer_to_valid:
  assumes "5 \<le> length rsp"
  shows "is_crc_valid (answer_to rsp) (length (answer_to rsp))" "answer_to rsp ! 0 = rsp ! 0"
  using assms lrc_update [of "length rsp" rsp] by (simp_all add: is_crc_valid_def answer_to_def)

definition sample_reset :: bytes where
  "sample_reset = [STX, 0x50, 0x44, ETX, 0x17]"

theorem VTS_command_handled_witness:
  "\<exists>buf sta. take 5 buf = sample_reset \<and> length buf = 128 \<and>
    vts_receive True (TIM2_IRQHandler (fold VTS_UART_IRQHandler sample_reset idle_fw)) =
      (snd (handle_fj_pro True buf 5 (idle_fw\<lparr>glb_vts_buffer := buf, GLB_VTS_RX_STA := sta\<rparr>)))
        \<lparr>GLB_VTS_RX_STA := 0, glb_vts_buffer := replicate 128 0\<rparr>"
proof -
  have "GLB_VTS_RX_STA idle_fw = 0" "length (glb_vts_buffer idle_fw) = 128" "length sample_reset = 5"
    "sample_reset ! 0 = STX" "sample_reset \<noteq> []" "sample_reset ! 4 = lrc sample_reset 5"
    by (simp_all add: idle_fw_def sample_reset_def lrc_def upt_conv_Cons)
  then show ?thesis
    using VTS_command_handled [of idle_fw sample_reset True] by simp
qed

lemma length_RSP: "rsp \<in> {RSP_PW, RSP_PD, RSP_CR_CPOK, RSP_CR_CPNOK, RSP_CR_CP_BAL, RSP_CP_OK, RSP_CW_OK,
    RSP_CW_NOK, RSP_CE_OK, RSP_LR_OK, RSP_NS_OK, RSP_SL_OK} \<Longrightarrow> 5 \<le> length rsp \<and> rsp ! 0 = STX"
  by (auto simp: RSP_defs)

text \<open>The answer of the handler by command, when it answers at all.\<close>

definition answer_for :: "fj_code \<Rightarrow> firmware \<Rightarrow> bytes" where
  "answer_for cmd fw =
     (if cmd = PD then RSP_PD else if \<not> pd_end fw then RSP_PW
      else case cmd of
          CR \<Rightarrow> if cp_ok fw then (if SL_FLAG fw then RSP_CR_CP_BAL else RSP_CR_CPOK) else RSP_CR_CPNOK
        | CP \<Rightarrow> RSP_CP_OK | CW \<Rightarrow> RSP_CW_NOK | CE \<Rightarrow> RSP_CE_OK | LR \<Rightarrow> RSP_LR_OK | NS \<Rightarrow> RSP_NS_OK | _ \<Rightarrow> RSP_SL_OK)"

lemma answer_for_rsp:
  "5 \<le> length (answer_for cmd fw)" "answer_for cmd fw ! 0 = STX"
  using length_RSP by (auto simp: answer_for_def split: fj_code.split)

lemma handle_fj_pro_log:
  "fw_log (snd (handle_fj_pro posted buffer len fw)) = fw_log fw
    @ (let cmd = find_cmd (buffer ! 1) (buffer ! 2) fj_cmds
       in if cmd = END \<or> cmd = CW \<and> pd_end fw \<and> len \<noteq> 10 then []
          else if cmd = CW \<and> pd_end fw \<and> posted then [Post_Vts (cw_balance buffer)]
          else [To_Vts (answer_to (answer_for cmd fw))])"
  "VTS_MAIL_FLAG (snd (handle_fj_pro posted buffer len fw)) = VTS_MAIL_FLAG fw"
  by (cases "find_cmd (buffer ! 1) (buffer ! 2) fj_cmds"; simp add: handle_fj_pro_def respond_eq put_out_def
      answer_for_def Let_def)+



section \<open>The amount of a charge\<close>

definition first_digit :: "byte \<Rightarrow> nat" where
  "first_digit b = (if unat b < 16 then unat b else unat b div 16)"

definition bcd :: "byte \<Rightarrow> nat" where
  "bcd b = 10 * (unat b div 16) + unat b mod 16"

lemma hex_char_digit:
  assumes "n < 10"
  shows "0x30 \<le> hex_char n" "hex_char n \<le> 0x39" "unat (ucast (hex_char n - 0x30) :: u32) = n"
proof -
  have "n \<in> {0, 1, 2, 3, 4, 5, 6, 7, 8, 9}"
    using assms by auto
  then show "0x30 \<le> hex_char n" "hex_char n \<le> 0x39" "unat (ucast (hex_char n - 0x30) :: u32) = n"
    by (auto simp: hex_char_def word_le_nat_alt)
qed

definition is_bcd :: "byte \<Rightarrow> bool" where
  "is_bcd b \<longleftrightarrow> unat b div 16 < 10 \<and> unat b mod 16 < 10"

lemma first_digit_bcd:
  assumes "is_bcd b"
  shows "first_digit b < 10" "first_digit b \<le> bcd b" "first_digit b = bcd b \<longleftrightarrow> b < 16"
proof -
  have "unat b mod 16 = unat b" if "unat b < 16"
    using that by simp
  then show "first_digit b < 10"
    using assms by (auto simp: is_bcd_def first_digit_def)
  show "first_digit b \<le> bcd b"
    by (simp add: first_digit_def bcd_def)
  show "first_digit b = bcd b \<longleftrightarrow> b < 16"
  proof (cases "unat b < 16")
    case True
    then show ?thesis by (simp add: first_digit_def bcd_def word_less_nat_alt)
  next
    case False
    then have "0 < unat b div 16"
      by (simp add: div_greater_zero_iff)
    with False show ?thesis
      by (simp add: first_digit_def bcd_def word_less_nat_alt)
  qed
qed

lemma atoi_digit:
  assumes "is_bcd b"
  shows "unat (atoi (snprintf_x 2 b)) = first_digit b"
proof -
  have "snprintf_x 2 b = [hex_char (first_digit b)]"
    by (simp add: snprintf_x_def first_digit_def word_less_nat_alt)
  then show ?thesis
    using hex_char_digit [OF first_digit_bcd(1) [OF assms]] by (simp add: atoi_def)
qed

text \<open>
  The amount charged is not the amount asked for. The machine sends a price as three
  binary-coded pairs of decimal digits; the terminal prints each byte in hexadecimal into a buffer
  with room for one character, so only the first digit of each pair survives. The amount it charges
  is that of the first digits, never more than the price, and equal to it exactly when all three
  pairs have a leading zero.
\<close>

theorem cw_balance_first_digits:
  assumes "is_bcd (buffer ! 3)" "is_bcd (buffer ! 4)" "is_bcd (buffer ! 5)"
  shows "let price = bcd (buffer ! 3) + 100 * bcd (buffer ! 4) + 10000 * bcd (buffer ! 5) in
    unat (cw_balance buffer) =
      first_digit (buffer ! 3) + 100 * first_digit (buffer ! 4) + 10000 * first_digit (buffer ! 5)
    \<and> unat (cw_balance buffer) \<le> price
    \<and> (unat (cw_balance buffer) = price \<longleftrightarrow> buffer ! 3 < 16 \<and> buffer ! 4 < 16 \<and> buffer ! 5 < 16)"
proof -
  note a = atoi_digit [OF assms(1)] atoi_digit [OF assms(2)] atoi_digit [OF assms(3)]
  note d = first_digit_bcd [OF assms(1)] first_digit_bcd [OF assms(2)] first_digit_bcd [OF assms(3)]
  have "unat (atoi (snprintf_x 2 (buffer ! 4)) * 100) = first_digit (buffer ! 4) * 100"
    "unat (atoi (snprintf_x 2 (buffer ! 5)) * 10000) = first_digit (buffer ! 5) * 10000"
    using a d by (simp_all add: unat_word_ariths)
  then have "unat (cw_balance buffer) =
      first_digit (buffer ! 3) + 100 * first_digit (buffer ! 4) + 10000 * first_digit (buffer ! 5)"
    using a d unfolding cw_balance_def by (simp add: unat_word_ariths)
  then show ?thesis
    using d by (auto simp: Let_def)
qed

theorem cw_balance_first_digits_witness:
  "unat (cw_balance [STX, 0x43, 0x57, 0x35, 0x12, 0x00]) = 103"
  using cw_balance_first_digits [of "[STX, 0x43, 0x57, 0x35, 0x12, 0x00]"]
  by (simp add: is_bcd_def Let_def first_digit_def)

section \<open>Messages to the reader\<close>

text \<open>
  Requests to the reader. A deduction request carries the sequence number and the amount, both
  read back exactly, has the shape and the checksum the terminal itself would accept, and the
  cancellation built from it differs from it in the command and the checksum only and is well formed
  as well.
\<close>

theorem package_deduct_msg_roundtrip:
  "let m = package_deduct_msg seq money (replicate 13 0) in
    seq_of seq m \<and> UTIL_INT32_SET (m ! 7) (m ! 8) (m ! 9) (m ! 10) = money \<and> m ! 4 = CMD_DED
    \<and> length m = 13 \<and> is_valid_posret_msg m 12
    \<and> (\<exists>c. package_cancel_msg m (replicate 13 0) = Some c \<and> is_valid_posret_msg c 12
        \<and> c = m[4 := CMD_CANCEL, 11 := lrc c 12])"
proof -
  define b where "b = [PRO_START, UTIL_INT16_GET_BITH (ucast seq), UTIL_INT16_GET_BITL (ucast seq), PRO_TYPE, CMD_DED, 0, 4,
      UTIL_INT32_GET_BIT3 money, UTIL_INT32_GET_BIT2 money, UTIL_INT32_GET_BIT1 money, UTIL_INT32_GET_BIT0 money]"
  have m: "package_deduct_msg seq money (replicate 13 0) = (b @ [0, 0])[11 := lrc (b @ [0, 0]) 12]"
    by (simp add: package_deduct_msg_def b_def numeral_eq_Suc)
  define m where "m = package_deduct_msg seq money (replicate 13 0)"
  have mb: "m = b @ [lrc (b @ [0, 0]) 12, 0]" "length b = 11"
    unfolding m_def m by (simp_all add: b_def numeral_eq_Suc)
  have l: "lrc (x[11 := c]) 12 = lrc x 12" if "length x = 13" for x c
  proof -
    have "fold (\<lambda>i d. d XOR x[11 := c] ! i) [2..<11] y = fold (\<lambda>i d. d XOR x ! i) [2..<11] y" for y
      by (rule fold_cong) auto
    then show ?thesis
      by (simp add: lrc_def)
  qed
  have mu: "m = (b @ [0, 0])[11 := lrc (b @ [0, 0]) 12]"
    by (simp add: m_def m)
  have lm: "length m = 13" "m ! 11 = lrc m 12"
    using l [of "b @ [0, 0]"] mb(2) by (simp_all add: mu)
  have nth: "m ! 0 = PRO_START" "m ! 1 = UTIL_INT16_GET_BITH (ucast seq)" "m ! 2 = UTIL_INT16_GET_BITL (ucast seq)"
    "m ! 4 = CMD_DED" "m ! 7 = UTIL_INT32_GET_BIT3 money" "m ! 8 = UTIL_INT32_GET_BIT2 money"
    "m ! 9 = UTIL_INT32_GET_BIT1 money" "m ! 10 = UTIL_INT32_GET_BIT0 money"
    unfolding mb(1) by (simp_all add: b_def)
  have seq: "seq_of seq m"
    using nth by (simp add: seq_of_iff)
  define c0 where "c0 = (memcpy_at 0 (take 12 m) (replicate 13 0))[4 := CMD_CANCEL]"
  define c where "c = c0[11 := lrc c0 12]"
  have c0: "c0 = (take 12 m @ [0])[4 := CMD_CANCEL]"
    using lm(1) by (simp add: c0_def memcpy_at_def)
  have "take 12 m @ [0] = m"
    unfolding mb(1) using mb(2) by simp
  then have c0m: "c0 = m[4 := CMD_CANCEL]" "length c0 = 13"
    using lm(1) c0 by simp_all
  have c: "lrc c 12 = lrc c0 12" "c ! 11 = lrc c0 12" "c ! 0 = PRO_START"
    using l [of c0] c0m lm(1) nth(1) by (simp_all add: c_def)
  have "package_cancel_msg m (replicate 13 0) = Some c"
    by (simp add: package_cancel_msg_def nth Let_def c_def c0_def)
  moreover have "is_valid_posret_msg c 12" "c = m[4 := CMD_CANCEL, 11 := lrc c 12]"
    using c by (simp_all add: is_valid_posret_msg_def) (simp add: c_def c0m)
  moreover have "is_valid_posret_msg m 12"
    using lm nth(1) by (simp add: is_valid_posret_msg_def)
  ultimately show ?thesis
    unfolding Let_def m_def [symmetric] using seq nth lm(1) by auto
qed

end
