(* ===== verification/PosSystem.thy ===== *)
theory PosSystem imports PosFirmware begin

text \<open>
  The two tasks, the interrupts and the operating system of the payment terminal together: a step
  relation over the firmware state, and what it means for the safety of a sale.

  Interrupts may happen at any time. The machine's task has three places: \<open>Running\<close>, \<open>Waiting\<close> for
  the reader's mailbox, and \<open>Expired\<close> when that wait has timed out but the task has not run yet.
  Of the mailboxes of the operating system only this is used: a message is delivered at most once
  and only if it was posted, and a post into a mailbox that still holds a message fails. A post and
  a wait may fail for any other reason too.
\<close>

section \<open>Steps\<close>

datatype vts_mode = Running | Waiting | Expired

record system =
  sys_fw :: firmware
  sys_mode :: vts_mode
  got_pos :: nat
  got_vts :: nat

definition pos_posts :: "fw_event list \<Rightarrow> nat" where
  "pos_posts evs = length (filter (\<lambda>e. case e of Post_Pos _ \<Rightarrow> True | _ \<Rightarrow> False) evs)"

definition vts_posts :: "fw_event list \<Rightarrow> nat" where
  "vts_posts evs = length (filter (\<lambda>e. case e of Post_Vts _ \<Rightarrow> True | _ \<Rightarrow> False) evs)"

definition mailbox_free :: "system \<Rightarrow> bool" where
  "mailbox_free s \<longleftrightarrow> got_pos s = pos_posts (fw_log (sys_fw s))"

inductive sys_step :: "system \<Rightarrow> system \<Rightarrow> bool" where
  isr_vts: "sys_step s (s\<lparr>sys_fw := VTS_UART_IRQHandler b (sys_fw s)\<rparr>)"
| isr_pos: "sys_step s (s\<lparr>sys_fw := POS_UART_IRQHandler b (sys_fw s)\<rparr>)"
| isr_tim: "sys_step s (s\<lparr>sys_fw := TIM2_IRQHandler (sys_fw s)\<rparr>)"
| vts_wait: "sys_mode s = Running \<Longrightarrow> vts_waits (sys_fw s) = (True, fw') \<Longrightarrow>
    sys_step s (s\<lparr>sys_fw := fw', sys_mode := Waiting\<rparr>)"
| vts_go: "sys_mode s = Running \<Longrightarrow> vts_waits (sys_fw s) = (False, fw') \<Longrightarrow>
    sys_step s (s\<lparr>sys_fw := vts_receive posted fw'\<rparr>)"
| vts_deliver: "sys_mode s = Waiting \<Longrightarrow> got_pos s < pos_posts (fw_log (sys_fw s)) \<Longrightarrow>
    sys_step s (s\<lparr>sys_fw := vts_receive posted (vts_result (Some v) (sys_fw s)), sys_mode := Running,
      got_pos := got_pos s + 1\<rparr>)"
| vts_expire: "sys_mode s = Waiting \<Longrightarrow> sys_step s (s\<lparr>sys_mode := Expired\<rparr>)"
| vts_resume: "sys_mode s = Expired \<Longrightarrow>
    sys_step s (s\<lparr>sys_fw := vts_receive posted (vts_result None (sys_fw s)), sys_mode := Running\<rparr>)"
| pos_turn: "(delivered \<longrightarrow> got_vts s < vts_posts (fw_log (sys_fw s))) \<Longrightarrow> (posted \<longrightarrow> mailbox_free s) \<Longrightarrow>
    sys_step s (s\<lparr>sys_fw := pos_recv_turn delivered posted (sys_fw s),
      got_vts := got_vts s + (if delivered then 1 else 0)\<rparr>)"

inductive_cases sys_stepE: "sys_step s s'"

inductive sys_reach :: "system \<Rightarrow> bool" where
  start: "sys_reach \<lparr>sys_fw = idle_fw, sys_mode = Running, got_pos = 0, got_vts = 0\<rparr>"
| step: "sys_reach s \<Longrightarrow> sys_step s s' \<Longrightarrow> sys_reach s'"

section \<open>What each operation adds to the log\<close>

definition confirmations :: "fw_event list \<Rightarrow> nat" where
  "confirmations evs = length (filter (\<lambda>e. e = To_Vts (answer_to RSP_CW_OK)) evs)"

definition deductions :: "fw_event list \<Rightarrow> nat" where
  "deductions evs = length (filter (\<lambda>e. case e of To_Pos m \<Rightarrow> m ! 4 = CMD_DED | _ \<Rightarrow> False) evs)"

lemmas counts = pos_posts_def vts_posts_def confirmations_def deductions_def

lemma counts_append [simp]:
  "pos_posts (a @ b) = pos_posts a + pos_posts b" "vts_posts (a @ b) = vts_posts a + vts_posts b"
  "confirmations (a @ b) = confirmations a + confirmations b" "deductions (a @ b) = deductions a + deductions b"
  by (simp_all add: counts)

lemma counts_single [simp]:
  "pos_posts [] = 0" "confirmations [] = 0" "deductions [] = 0"
  "pos_posts [To_Vts m] = 0" "pos_posts [To_Pos m] = 0" "pos_posts [Post_Vts v] = 0" "pos_posts [Post_Pos v] = 1"
  "deductions [To_Vts m] = 0" "deductions [Post_Vts v] = 0" "deductions [Post_Pos v] = 0"
  "deductions [To_Pos m] = (if m ! 4 = CMD_DED then 1 else 0)"
  "confirmations [To_Pos m] = 0" "confirmations [Post_Vts v] = 0" "confirmations [Post_Pos v] = 0"
  by (simp_all add: counts)

lemma put_out_log [simp]: "fw_log (put_out e fw) = fw_log fw @ [e]" "VTS_MAIL_FLAG (put_out e fw) = VTS_MAIL_FLAG fw"
  by (simp_all add: put_out_def)

lemma answer_not_confirmation: "answer_to (answer_for cmd fw) \<noteq> answer_to RSP_CW_OK"
  by (auto simp: answer_for_def answer_to_def RSP_defs lrc_def upt_conv_Cons split: fj_code.split)

lemma confirmations_answer [simp]:
  "confirmations [To_Vts (answer_to (answer_for cmd fw))] = 0" "confirmations [To_Vts [ACK]] = 0"
  "confirmations [To_Vts (answer_to RSP_CW_OK)] = 1" "confirmations [To_Vts (answer_to RSP_CW_NOK)] = 0"
  using answer_not_confirmation [of cmd fw]
  by (simp_all add: confirmations_def) (simp_all add: answer_to_def RSP_defs)

text \<open>Interrupt handlers only touch their buffers and counters.\<close>

definition quiet :: "firmware \<Rightarrow> firmware \<Rightarrow> bool" where
  "quiet fw fw' \<longleftrightarrow> fw_log fw' = fw_log fw \<and> VTS_MAIL_FLAG fw' = VTS_MAIL_FLAG fw"

lemma quiet_isr [simp]:
  "quiet fw (VTS_UART_IRQHandler b fw)" "quiet fw (POS_UART_IRQHandler b fw)" "quiet fw (TIM2_IRQHandler fw)"
  "vts_waits fw = (w, fw') \<Longrightarrow> quiet fw fw'"
  by (auto simp: quiet_def VTS_UART_IRQHandler_def POS_UART_IRQHandler_def pos_check_def TIM2_IRQHandler_def
      vts_waits_def Let_def split: if_splits)

text \<open>What a turn of the machine's task does to the log, apart from the result of a wait.\<close>

definition harmless :: "firmware \<Rightarrow> firmware \<Rightarrow> bool" where
  "harmless fw fw' \<longleftrightarrow> VTS_MAIL_FLAG fw' = VTS_MAIL_FLAG fw \<and>
     (\<exists>evs. fw_log fw' = fw_log fw @ evs \<and> pos_posts evs = 0 \<and> confirmations evs = 0 \<and> deductions evs = 0)"

lemma harmless_refl [simp]: "harmless fw fw"
  unfolding harmless_def by (intro conjI exI [of _ "[]"]) simp_all

lemma handle_harmless: "harmless fw (snd (handle_fj_pro posted buf n fw))"
  unfolding harmless_def handle_fj_pro_log Let_def
  by (intro conjI refl exI) (auto simp del: One_nat_def)

lemma vts_receive_harmless: "harmless fw (vts_receive posted fw)"
proof -
  have "harmless fw (put_out (To_Vts [ACK]) fw)"
    unfolding harmless_def by (intro conjI exI [of _ "[To_Vts [ACK]]"]) simp_all
  then show ?thesis
    using handle_harmless [of fw posted "glb_vts_buffer fw" "unat (GLB_VTS_RX_STA fw AND 0x7F)"]
    by (auto simp: vts_receive_def Let_def harmless_def)
qed

lemma vts_result_log:
  "fw_log (vts_result (Some v) fw) = fw_log fw @ [To_Vts (answer_to RSP_CW_OK)]"
  "\<not> VTS_MAIL_FLAG (vts_result (Some v) fw)"
  "vts_timeout fw \<ge> 8 \<Longrightarrow> fw_log (vts_result None fw) = fw_log fw @ [To_Vts (answer_to RSP_CW_NOK)]
     \<and> \<not> VTS_MAIL_FLAG (vts_result None fw)"
  "\<not> vts_timeout fw \<ge> 8 \<Longrightarrow> vts_result None fw = fw"
  by (simp_all add: vts_result_def respond_eq)

lemma cancel_command: "package_cancel_msg m (replicate 13 0) = Some c \<Longrightarrow> take 12 c ! 4 = CMD_CANCEL"
  by (auto simp: package_cancel_msg_def memcpy_at_def Let_def split: if_splits)

lemma deduct_command: "take 12 (package_deduct_msg q m (replicate 13 0)) ! 4 = CMD_DED"
  by (simp add: package_deduct_msg_def Let_def)

lemma pos_request_log:
  "\<exists>evs. fw_log (pos_request delivered fw) = fw_log fw @ evs \<and> pos_posts evs = 0 \<and> confirmations evs = 0
     \<and> (VTS_MAIL_FLAG (pos_request delivered fw) \<longrightarrow> VTS_MAIL_FLAG fw \<or> deductions evs = 1)"
proof -
  let ?fw = "fw\<lparr>repeat_count := 1, st_ret_code := 0\<rparr>"
  show ?thesis
    using deduct_command
    by (cases "package_cancel_msg (sendmsg fw) (replicate 13 0)") (auto simp: pos_request_def Let_def)
qed

lemma pos_answer_log:
  "\<exists>evs. fw_log (pos_answer posted fw) = fw_log fw @ evs \<and> confirmations evs = 0 \<and> deductions evs = 0
     \<and> VTS_MAIL_FLAG (pos_answer posted fw) = VTS_MAIL_FLAG fw
     \<and> (pos_posts evs = 0 \<or> pos_posts evs = 1 \<and> VTS_MAIL_FLAG fw \<and> posted)"
  by (auto simp: pos_answer_def Let_def)

lemma pos_repeat_log:
  "\<exists>evs. fw_log (pos_repeat fw) = fw_log fw @ evs \<and> confirmations evs = 0 \<and> pos_posts evs = 0
     \<and> VTS_MAIL_FLAG (pos_repeat fw) = VTS_MAIL_FLAG fw"
  by (auto simp: pos_repeat_def Let_def)

section \<open>The invariant\<close>

definition backed :: "system \<Rightarrow> bool" where
  "backed s \<longleftrightarrow> (let evs = fw_log (sys_fw s) in
     confirmations evs = got_pos s \<and> got_pos s \<le> pos_posts evs
     \<and> pos_posts evs + (if VTS_MAIL_FLAG (sys_fw s) \<and> mailbox_free s then 1 else 0) \<le> deductions evs)"

lemma backed_quiet:
  assumes "backed s" "quiet (sys_fw s) fw'"
  shows "backed (s\<lparr>sys_fw := fw'\<rparr>)" "backed (s\<lparr>sys_fw := fw', sys_mode := md\<rparr>)"
  using assms by (simp_all add: backed_def quiet_def mailbox_free_def Let_def)

lemma backed_harmless:
  assumes "backed s" "harmless (sys_fw s) fw'"
  shows "backed (s\<lparr>sys_fw := fw'\<rparr>)"
  using assms by (auto simp: backed_def harmless_def mailbox_free_def Let_def)

lemma backed_mode [simp]: "backed (s\<lparr>sys_mode := md\<rparr>) = backed s" "backed (s\<lparr>got_vts := k\<rparr>) = backed s"
  by (simp_all add: backed_def mailbox_free_def)

lemma backed_deliver:
  assumes "backed s" "got_pos s < pos_posts (fw_log (sys_fw s))"
  shows "backed (s\<lparr>sys_fw := vts_result (Some v) (sys_fw s), got_pos := got_pos s + 1\<rparr>)"
  using assms by (auto simp: backed_def vts_result_log mailbox_free_def Let_def split: if_splits)

lemma backed_resume:
  assumes "backed s"
  shows "backed (s\<lparr>sys_fw := vts_result None (sys_fw s)\<rparr>)"
  using assms vts_result_log(3,4) [of "sys_fw s"] answer_not_confirmation
  by (cases "8 \<le> vts_timeout (sys_fw s)") (auto simp: backed_def mailbox_free_def Let_def split: if_splits)

lemma backed_pos_turn:
  assumes "backed s" "posted \<longrightarrow> mailbox_free s"
  shows "backed (s\<lparr>sys_fw := pos_recv_turn delivered posted (sys_fw s)\<rparr>)"
proof -
  define fw1 where "fw1 = pos_request delivered (sys_fw s)"
  define fw2 where "fw2 = pos_answer posted fw1"
  define fw3 where "fw3 = pos_repeat fw2"
  obtain e1 where e1: "fw_log fw1 = fw_log (sys_fw s) @ e1" "pos_posts e1 = 0" "confirmations e1 = 0"
    "VTS_MAIL_FLAG fw1 \<longrightarrow> VTS_MAIL_FLAG (sys_fw s) \<or> deductions e1 = 1"
    using pos_request_log fw1_def by blast
  obtain e2 where e2: "fw_log fw2 = fw_log fw1 @ e2" "confirmations e2 = 0" "VTS_MAIL_FLAG fw2 = VTS_MAIL_FLAG fw1"
    "pos_posts e2 = 0 \<or> pos_posts e2 = 1 \<and> VTS_MAIL_FLAG fw1 \<and> posted"
    using pos_answer_log fw2_def by blast
  obtain e3 where e3: "fw_log fw3 = fw_log fw2 @ e3" "confirmations e3 = 0" "pos_posts e3 = 0"
    "VTS_MAIL_FLAG fw3 = VTS_MAIL_FLAG fw2"
    using pos_repeat_log fw3_def by blast
  have "backed (s\<lparr>sys_fw := fw3\<rparr>)"
    using assms e1 e2 e3 by (auto simp: backed_def mailbox_free_def Let_def split: if_splits)
  then show ?thesis
    by (simp add: pos_recv_turn_def fw1_def fw2_def fw3_def)
qed

lemma backed_step:
  assumes "backed s" "sys_step s s'"
  shows "backed s'"
  using assms(2,1)
proof cases
  case (vts_go fw' posted)
  then have "backed (s\<lparr>sys_fw := fw'\<rparr>)"
    using assms(1) backed_quiet(1) quiet_isr(4) by blast
  then show ?thesis
    using backed_harmless [OF _ vts_receive_harmless, of "s\<lparr>sys_fw := fw'\<rparr>" posted] vts_go by simp
next
  case (vts_deliver posted v)
  then show ?thesis
    using backed_harmless [OF backed_deliver [OF assms(1)], of v "vts_receive posted (vts_result (Some v) (sys_fw s))"]
      vts_receive_harmless [of "vts_result (Some v) (sys_fw s)" posted]
    by (simp add: backed_def mailbox_free_def)
next
  case (vts_resume posted)
  then show ?thesis
    using backed_harmless [OF backed_resume [OF assms(1)], of "vts_receive posted (vts_result None (sys_fw s))"]
      vts_receive_harmless [of "vts_result None (sys_fw s)" posted] by simp
next
  case (pos_turn delivered posted)
  then show ?thesis
    using backed_pos_turn [OF assms(1), of posted delivered] by simp
qed (simp_all add: backed_quiet)

lemma sys_reach_backed: "sys_reach s \<Longrightarrow> backed s"
proof (induction rule: sys_reach.induct)
  case start
  then show ?case by (simp add: backed_def idle_fw_def)
next
  case (step s s')
  then show ?case by (simp add: backed_step)
qed



section \<open>A schedule, executed\<close>

datatype action = Vts_Byte byte | Pos_Byte byte | Gap | Vts_Turn bool | Expire | Deliver bool | Pos_Turn bool bool

fun act :: "action \<Rightarrow> system \<Rightarrow> system option" where
  "act (Vts_Byte b) s = Some (s\<lparr>sys_fw := VTS_UART_IRQHandler b (sys_fw s)\<rparr>)"
| "act (Pos_Byte b) s = Some (s\<lparr>sys_fw := POS_UART_IRQHandler b (sys_fw s)\<rparr>)"
| "act Gap s = Some (s\<lparr>sys_fw := TIM2_IRQHandler (sys_fw s)\<rparr>)"
| "act (Vts_Turn posted) s = (case sys_mode s of
     Running \<Rightarrow> (case vts_waits (sys_fw s) of
         (True, fw') \<Rightarrow> Some (s\<lparr>sys_fw := fw', sys_mode := Waiting\<rparr>)
       | (False, fw') \<Rightarrow> Some (s\<lparr>sys_fw := vts_receive posted fw'\<rparr>))
   | Waiting \<Rightarrow> None
   | Expired \<Rightarrow> Some (s\<lparr>sys_fw := vts_receive posted (vts_result None (sys_fw s)), sys_mode := Running\<rparr>))"
| "act Expire s = (if sys_mode s = Waiting then Some (s\<lparr>sys_mode := Expired\<rparr>) else None)"
| "act (Deliver posted) s =
     (if sys_mode s = Waiting \<and> got_pos s < pos_posts (fw_log (sys_fw s))
      then Some (s\<lparr>sys_fw := vts_receive posted (vts_result (Some 0) (sys_fw s)), sys_mode := Running,
        got_pos := got_pos s + 1\<rparr>) else None)"
| "act (Pos_Turn delivered posted) s =
     (if (delivered \<longrightarrow> got_vts s < vts_posts (fw_log (sys_fw s))) \<and> (posted \<longrightarrow> mailbox_free s)
      then Some (s\<lparr>sys_fw := pos_recv_turn delivered posted (sys_fw s),
        got_vts := got_vts s + (if delivered then 1 else 0)\<rparr>) else None)"

lemma act_step:
  assumes "act a s = Some s'"
  shows "sys_step s s'"
proof (cases a)
  case (Deliver posted)
  then show ?thesis
    using assms vts_deliver [of s posted 0] by (simp split: if_splits)
next
  case (Pos_Turn delivered posted)
  have cond: "(delivered \<longrightarrow> got_vts s < vts_posts (fw_log (sys_fw s))) \<and> (posted \<longrightarrow> mailbox_free s)"
    using assms unfolding Pos_Turn by (auto split: if_splits)
  have "s' = s\<lparr>sys_fw := pos_recv_turn delivered posted (sys_fw s), got_vts := got_vts s + (if delivered then 1 else 0)\<rparr>"
    using assms unfolding Pos_Turn act.simps if_P [OF cond] by simp
  then show ?thesis
    using pos_turn cond by simp
qed (use assms in \<open>auto intro: sys_step.intros split: vts_mode.splits prod.splits bool.splits if_splits\<close>)

primrec acts :: "action list \<Rightarrow> system \<Rightarrow> system option" where
  "acts [] s = Some s"
| "acts (a # as) s = Option.bind (act a s) (acts as)"

lemma acts_reach: "sys_reach s \<Longrightarrow> acts as s = Some s' \<Longrightarrow> sys_reach s'"
proof (induction as arbitrary: s)
  case (Cons a as)
  then obtain y where "act a s = Some y" "acts as y = Some s'"
    by (auto simp: bind_eq_Some_conv)
  then show ?case
    using Cons.IH Cons.prems(1) act_step sys_reach.step by blast
qed simp

definition sale :: "action list" where
  "sale = map Vts_Byte [STX, 0x43, 0x57, 5, 0, 0, 0x31, 0x31, ETX, 0x12] @ [Gap, Vts_Turn True, Pos_Turn True False]"

definition late_answer :: bytes where
  "late_answer = [PRO_START, 0, 0, 1, 0x52, 0, 26] @ replicate 26 0 @ [0x49]"

definition stale_schedule :: "action list" where
  "stale_schedule = map Vts_Byte sample_reset @ [Gap, Vts_Turn True] @ sale
     @ concat (replicate 7 [Vts_Turn True, Expire, Vts_Turn True])
     @ [Vts_Turn True, Expire] @ map Pos_Byte late_answer @ [Pos_Turn False True, Vts_Turn True]
     @ sale @ [Vts_Turn True, Deliver True]"


end
