(* ===== verification/PosLinux.thy ===== *)
theory PosLinux imports Prelude begin

text \<open>
  The payment terminal, Linux version (\<^verbatim>\<open>pos-salemachine/fj_pro.c\<close>, \<^verbatim>\<open>pos_pro.c\<close>, \<^verbatim>\<open>handle.c\<close>): one
  process that reads the commands of the vending machine from one serial port and, for a sale, opens
  the port of the card reader, asks for the money and waits for the answer.

  What a port delivers is a list of events, one for each return of \<^verbatim>\<open>select\<close>; what is written is
  logged. The static variables are one record. The names carry \<open>_lx\<close> where the firmware version has
  the same one.
\<close>

section \<open>Ports and state\<close>

datatype port_event = Timeout | Interrupted | Select_Error | Read_Error | Got byte

datatype lx_event = Fj_Write bytes | Pos_Write int bytes | Close_Port int

record terminal =
  pd_end_lx :: bool
  cp_ok_lx :: bool
  SL_FLAG_lx :: bool
  seqnum :: u16
  open_ports :: "int list"
  sessions :: nat
  lx_log :: "lx_event list"

abbreviation STX_lx :: byte where "STX_lx \<equiv> 0x02"
abbreviation ETX_lx :: byte where "ETX_lx \<equiv> 0x03"
abbreviation ENQ_lx :: byte where "ENQ_lx \<equiv> 0x05"
abbreviation ACK_lx :: byte where "ACK_lx \<equiv> 0x06"
abbreviation PRO_START_lx :: byte where "PRO_START_lx \<equiv> 0x5A"

definition lx_put :: "lx_event \<Rightarrow> terminal \<Rightarrow> terminal" where
  "lx_put e t = t\<lparr>lx_log := lx_log t @ [e]\<rparr>"

text \<open>The check byte: the exclusive or of the bytes from 1 to \<open>len - 2\<close>.\<close>

definition lrc_lx :: "bytes \<Rightarrow> nat \<Rightarrow> byte" where
  "lrc_lx msg len = fold (\<lambda>i c. c XOR msg ! i) [2..<len - 1] (msg ! 1)"

section \<open>The card reader\<close>

definition package_deduct_msg_lx :: "u16 \<Rightarrow> u32 \<Rightarrow> bytes" where
  "package_deduct_msg_lx seq money4B =
     (let msg = (replicate 16 0)[0 := PRO_START_lx,
            1 := ucast (drop_bit 8 (seq AND 0xff00)), 2 := ucast (seq AND 0x00ff),
            3 := 0x01, 4 := 0xA2, 5 := 0x00, 6 := 0x04,
            7 := UTIL_INT32_GET_BIT3 money4B, 8 := UTIL_INT32_GET_BIT2 money4B,
            9 := UTIL_INT32_GET_BIT1 money4B, 10 := UTIL_INT32_GET_BIT0 money4B];
          msg = msg[11 := lrc_lx msg 12]
      in take 12 msg)"

text \<open>The check is switched off: the function returns before its first test.\<close>

definition is_valid_posret_msg_lx :: "bytes \<Rightarrow> nat \<Rightarrow> int" where
  "is_valid_posret_msg_lx msg len = 0"

abbreviation DEAL_OK :: int where "DEAL_OK \<equiv> 0"
abbreviation DEAL_WAITING :: int where "DEAL_WAITING \<equiv> 1"
abbreviation DEAL_ERROR :: int where "DEAL_ERROR \<equiv> 2"
abbreviation MSG_CRC_ERR :: int where "MSG_CRC_ERR \<equiv> 3"

text \<open>
  What the loop does with the \<open>n\<close> bytes received so far once there are eight: \<open>Some\<close> result or go on.
\<close>

definition posret_step :: "bytes \<Rightarrow> nat \<Rightarrow> int option" where
  "posret_step posret n =
     (let paylen = unat (posret ! 5) * 256 + unat (posret ! 6);
          retcode = unat (posret ! 7);
          done = (\<lambda>r. Some (if is_valid_posret_msg_lx posret n \<noteq> 0 then MSG_CRC_ERR else r))
      in if paylen = 26 \<and> retcode = 0 then (if n \<ge> 34 then done DEAL_OK else None)
         else if paylen = 2 \<and> retcode = 6 then (if n \<ge> 10 then done DEAL_WAITING else None)
         else if paylen = 1 \<and> retcode \<ge> 1 \<and> retcode \<le> 0x41
         then (if n \<ge> 9 then done DEAL_ERROR else None)
         else Some (-1))"

text \<open>
  The receive loop. After the listed events the port stays silent, which ends the wait. A byte that
  equals the start byte is stored without looking whether the message is complete.
\<close>

fun pos_loop :: "port_event list \<Rightarrow> nat \<Rightarrow> bool \<Rightarrow> bytes \<Rightarrow> int c_result" where
  "pos_loop [] ch_num stflag posret = Inr (-1)"
| "pos_loop (Timeout # evs) ch_num stflag posret = Inr (-1)"
| "pos_loop (Interrupted # evs) ch_num stflag posret = pos_loop evs ch_num stflag posret"
| "pos_loop (Select_Error # evs) ch_num stflag posret = Inr (-1)"
| "pos_loop (Read_Error # evs) ch_num stflag posret = Inr (-1)"
| "pos_loop (Got ch # evs) ch_num stflag posret =
     (if ch = PRO_START_lx then
        c_bind (c_put ch_num ch posret) (pos_loop evs (ch_num + 1) True)
      else if stflag then
        c_bind (c_put ch_num ch posret) (\<lambda>posret.
          let ch_num = ch_num + 1 in
          if ch_num \<ge> 8 then
            (case posret_step posret ch_num of Some r \<Rightarrow> Inr r
             | None \<Rightarrow> pos_loop evs ch_num stflag posret)
          else pos_loop evs ch_num stflag posret)
      else pos_loop evs ch_num stflag posret)"

definition pos_wait_result :: "port_event list \<Rightarrow> int c_result" where
  "pos_wait_result evs = pos_loop evs 0 False (replicate 64 0)"

text \<open>
  One request. The port (its descriptor or an error) and the events on it are arguments. Only the
  path of success closes the port.
\<close>

definition send_deduct_money2pos ::
  "u32 \<Rightarrow> int \<times> port_event list \<Rightarrow> terminal \<Rightarrow> (int \<times> terminal) c_result" where
  "send_deduct_money2pos money3B port t =
     (case port of (fd, evs) \<Rightarrow>
        if fd \<le> 0 then Inr (-1, t)
        else
          let posmsg = package_deduct_msg_lx (seqnum t) money3B;
              t = lx_put (Pos_Write fd posmsg) (t\<lparr>seqnum := seqnum t + 1\<rparr>) in
          c_bind (pos_wait_result evs) (\<lambda>ret.
            if ret = 0 then Inr (0, lx_put (Close_Port fd) t)
            else Inr (-1, t\<lparr>open_ports := fd # open_ports t\<rparr>)))"

section \<open>The vending machine\<close>

definition str_lx :: "string \<Rightarrow> bytes" where
  "str_lx s = map of_char s"

definition fj_cmds_lx :: "bytes list" where
  "fj_cmds_lx = map str_lx [''PD'', ''CR'', ''CP'', ''CW'', ''CE'', ''LR'', ''NS'', ''SL'']"

datatype fj_code_lx = PD_lx | CR_lx | CP_lx | CW_lx | CE_lx | LR_lx | NS_lx | SL_lx | END_lx

definition fj_codes :: "fj_code_lx list" where
  "fj_codes = [PD_lx, CR_lx, CP_lx, CW_lx, CE_lx, LR_lx, NS_lx, SL_lx]"

primrec find_cmd_lx :: "bytes \<Rightarrow> (bytes \<times> fj_code_lx) list \<Rightarrow> fj_code_lx" where
  "find_cmd_lx c [] = END_lx"
| "find_cmd_lx c (x # xs) = (if fst x = c then snd x else find_cmd_lx c xs)"

definition reply :: "string \<Rightarrow> bytes \<Rightarrow> bytes" where
  "reply cmd payload = [STX_lx] @ str_lx cmd @ payload @ [ETX_lx, 0x3F]"

abbreviation "LX_PW \<equiv> reply ''PW'' [0x30]"
abbreviation "LX_PD \<equiv> reply ''PD'' [0x30]"
abbreviation "LX_CR_CPOK \<equiv> reply ''CR'' [0, 0, 0, 0, 0x30]"
abbreviation "LX_CR_CPNOK \<equiv> reply ''CR'' [4, 0, 0, 0, 0x30]"
abbreviation "LX_CR_CP_BAL \<equiv> reply ''cr'' [0, 0x40, 0, 0, 1, 2, 3, 0x30]"
abbreviation "LX_CP_OK \<equiv> reply ''CP'' [0x30]"
abbreviation "LX_CW_OK \<equiv> reply ''CW'' [0x30]"
abbreviation "LX_CW_NOK \<equiv> reply ''CW'' [0x31]"
abbreviation "LX_CE_OK \<equiv> reply ''CE'' [0x30]"
abbreviation "LX_LR_OK \<equiv> reply ''LR'' [0x41]"
abbreviation "LX_NS_OK \<equiv> reply ''NS'' [0x30]"
abbreviation "LX_SL_OK \<equiv> reply ''SL'' [0x30]"

text \<open>The end of \<^verbatim>\<open>fj_handle_pro\<close>: the check byte replaces the question mark, the reply is written.\<close>

definition respond_lx :: "bytes \<Rightarrow> terminal \<Rightarrow> int \<times> terminal" where
  "respond_lx resp t =
     (let outlen = length resp; outresp = resp[outlen - 1 := lrc_lx resp outlen]
      in (int outlen, lx_put (Fj_Write outresp) t))"

text \<open>\<^verbatim>\<open>snprintf(tmp, 2, "%x", b)\<close> keeps one digit; \<^verbatim>\<open>atoi\<close> of it is 0 for a letter.\<close>

definition first_hex_digit :: "byte \<Rightarrow> nat" where
  "first_hex_digit b = (let d = (if unat b < 16 then unat b else unat b div 16) in if d < 10 then d else 0)"

definition cw_money :: "bytes \<Rightarrow> u32" where
  "cw_money buffer = of_nat (first_hex_digit (buffer ! 3) + first_hex_digit (buffer ! 4) * 100
     + first_hex_digit (buffer ! 5) * 10000)"

text \<open>
  \<open>debug_text\<close> is what \<^verbatim>\<open>syslog\<close> does when a text is passed as its priority and a flag as its format,
  as four of the branches do.
\<close>

definition fj_handle_pro ::
  "unit c_result \<Rightarrow> int \<times> port_event list \<Rightarrow> bytes \<Rightarrow> nat \<Rightarrow> terminal \<Rightarrow> (int \<times> terminal) c_result" where
  "fj_handle_pro debug_text port buffer len t =
     (case find_cmd_lx [buffer ! 1, buffer ! 2] (zip fj_cmds_lx fj_codes) of
        PD_lx \<Rightarrow> Inr (respond_lx LX_PD (t\<lparr>pd_end_lx := True\<rparr>))
      | CR_lx \<Rightarrow> Inr (respond_lx (if \<not> pd_end_lx t then LX_PW
                     else if cp_ok_lx t then (if SL_FLAG_lx t then LX_CR_CP_BAL else LX_CR_CPOK)
                     else LX_CR_CPNOK) t)
      | CP_lx \<Rightarrow> Inr (if \<not> pd_end_lx t then respond_lx LX_PW t
                    else respond_lx LX_CP_OK (t\<lparr>cp_ok_lx := True\<rparr>))
      | CW_lx \<Rightarrow>
          if \<not> pd_end_lx t then Inr (respond_lx LX_PW (t\<lparr>SL_FLAG_lx := False\<rparr>))
          else if len \<noteq> 10 then Inr (-1, t)
          else c_bind (send_deduct_money2pos (cw_money buffer) port (t\<lparr>sessions := sessions t + 1\<rparr>))
            (\<lambda>(ret, t). Inr (respond_lx (if ret = 0 then LX_CW_OK else LX_CW_NOK)
                            (t\<lparr>SL_FLAG_lx := False\<rparr>)))
      | CE_lx \<Rightarrow> c_bind debug_text (\<lambda>_.
          Inr (respond_lx (if \<not> pd_end_lx t then LX_PW else LX_CE_OK) t))
      | LR_lx \<Rightarrow> c_bind debug_text (\<lambda>_.
          Inr (respond_lx (if \<not> pd_end_lx t then LX_PW else LX_LR_OK) t))
      | NS_lx \<Rightarrow> c_bind debug_text (\<lambda>_.
          Inr (respond_lx (if \<not> pd_end_lx t then LX_PW else LX_NS_OK) (t\<lparr>SL_FLAG_lx := False\<rparr>)))
      | SL_lx \<Rightarrow> c_bind debug_text (\<lambda>_.
          Inr (if \<not> pd_end_lx t then respond_lx LX_PW t
               else respond_lx LX_SL_OK (t\<lparr>SL_FLAG_lx := True\<rparr>)))
      | END_lx \<Rightarrow> Inr (-1, t))"

text \<open>The receive loop: bytes collected, whether a command has begun, the buffer.\<close>

record fj_rx =
  ch_num :: nat
  stflag :: bool
  fjbuf :: bytes

definition fj_idle :: fj_rx where
  "fj_idle = \<lparr>ch_num = 0, stflag = False, fjbuf = replicate 32 0\<rparr>"

definition cmd_complete :: "bytes \<Rightarrow> nat \<Rightarrow> bool" where
  "cmd_complete buf n =
     (n \<ge> 5 \<and> (if buf ! 1 = of_char CHR ''C'' \<and> buf ! 2 = of_char CHR ''W'' then n \<ge> 10 else True))"

text \<open>
  The loop over the events of the machine's port. The \<open>n\<close>th request uses the \<open>n\<close>th of the reader's
  sessions. It returns \<open>Some\<close> value on an error, \<open>None\<close> while it is still running.
\<close>

fun fj_recv_loop ::
  "unit c_result \<Rightarrow> (nat \<Rightarrow> int \<times> port_event list) \<Rightarrow> port_event list \<Rightarrow> fj_rx \<Rightarrow> terminal
     \<Rightarrow> (int option \<times> fj_rx \<times> terminal) c_result" where
  "fj_recv_loop dbg ports [] rx t = Inr (None, rx, t)"
| "fj_recv_loop dbg ports (Timeout # evs) rx t = fj_recv_loop dbg ports evs fj_idle t"
| "fj_recv_loop dbg ports (Interrupted # evs) rx t = fj_recv_loop dbg ports evs rx t"
| "fj_recv_loop dbg ports (Select_Error # evs) rx t = Inr (Some (-1), rx, t)"
| "fj_recv_loop dbg ports (Read_Error # evs) rx t = Inr (Some (-1), rx, t)"
| "fj_recv_loop dbg ports (Got ch # evs) rx t =
     (if \<not> stflag rx \<and> ch = ENQ_lx then
        fj_recv_loop dbg ports evs rx (lx_put (Fj_Write [ACK_lx]) t)
      else if \<not> stflag rx \<and> ch = STX_lx then
        fj_recv_loop dbg ports evs
          \<lparr>ch_num = 1, stflag = True, fjbuf = (replicate 32 0)[0 := STX_lx]\<rparr> t
      else if stflag rx then
        c_bind (c_put (ch_num rx) ch (fjbuf rx)) (\<lambda>buf.
          let n = ch_num rx + 1 in
          if cmd_complete buf n then
            c_bind (fj_handle_pro dbg (ports (sessions t)) buf n t) (\<lambda>(_, t).
              fj_recv_loop dbg ports evs fj_idle t)
          else fj_recv_loop dbg ports evs (rx\<lparr>ch_num := n, fjbuf := buf\<rparr>) t)
      else fj_recv_loop dbg ports evs rx t)"


section \<open>The answer of the card reader\<close>

text \<open>The bytes a port delivers before a silence or an error ends the wait.\<close>

fun delivered :: "port_event list \<Rightarrow> bytes" where
  "delivered (Got b # evs) = b # delivered evs"
| "delivered (Interrupted # evs) = delivered evs"
| "delivered _ = []"

lemma pos_loop_delivered: "pos_loop evs n f buf = pos_loop (map Got (delivered evs)) n f buf"
proof (induction evs arbitrary: n f buf)
  case (Cons e evs)
  then show ?case
  proof (cases e)
    case (Got ch)
    have eq: "pos_loop evs = pos_loop (map Got (delivered evs))" by (intro ext) (rule Cons.IH)
    show ?thesis unfolding Got delivered.simps list.map pos_loop.simps eq by (rule refl)
  qed simp_all
qed simp

definition reader_buf :: "bytes \<Rightarrow> bytes" where
  "reader_buf pre = pre @ replicate (64 - length pre) 0"

lemma length_reader_buf [simp]: "length pre \<le> 64 \<Longrightarrow> length (reader_buf pre) = 64"
  by (simp add: reader_buf_def)

lemma reader_buf_put [simp]:
  "length pre < 64 \<Longrightarrow> (reader_buf pre)[length pre := b] = reader_buf (pre @ [b])"
  by (simp add: reader_buf_def list_update_append Suc_diff_Suc flip: Suc_diff_Suc)

lemma reader_buf_nth [simp]: "i < length pre \<Longrightarrow> reader_buf pre ! i = pre ! i"
  by (simp add: reader_buf_def nth_append)

lemma reader_buf_full [simp]: "length pre = 64 \<Longrightarrow> reader_buf pre = pre"
  by (simp add: reader_buf_def)

lemma pos_loop_skip:
  "pos_loop (map Got xs) 0 False buf = pos_loop (map Got (dropWhile (\<lambda>b. b \<noteq> PRO_START_lx) xs)) 0 False buf"
  by (induction xs) auto

lemma pos_loop_store:
  "length pre + length xs < 8 \<Longrightarrow>
   pos_loop (map Got xs @ evs) (length pre) True (reader_buf pre)
   = pos_loop evs (length pre + length xs) True (reader_buf (pre @ xs))"
proof (induction xs arbitrary: pre)
  case (Cons x xs)
  then show ?case using Cons.IH [of "pre @ [x]"] by (auto simp: Let_def)
qed simp

text \<open>The header of an accepted answer: 26 bytes of payload, return code 0.\<close>

definition success_header :: "bytes \<Rightarrow> bool" where
  "success_header m \<longleftrightarrow> m ! 5 = 0 \<and> m ! 6 = 26 \<and> m ! 7 = 0"

lemma paylen_26: "unat (a :: byte) * 256 + unat (b :: byte) = 26 \<longleftrightarrow> a = 0 \<and> b = 26"
proof
  assume h: "unat a * 256 + unat b = 26"
  then have "unat a = unat (0 :: byte)" "unat b = unat (26 :: byte)" by (simp_all, presburger+)
  then show "a = 0 \<and> b = 26" by (simp only: word_unat_eq_iff)
qed simp

lemma posret_step_success:
  assumes "success_header m" shows "posret_step m n = (if n \<ge> 34 then Some 0 else None)"
  using assms by (simp add: posret_step_def success_header_def is_valid_posret_msg_lx_def)

lemma posret_step_failure:
  assumes "\<not> success_header m" shows "posret_step m n \<noteq> Some 0"
proof -
  have "\<not> (unat (m ! 5) * 256 + unat (m ! 6) = 26 \<and> unat (m ! 7) = 0)"
    using assms by (simp add: success_header_def paylen_26 unsigned_eq_0_iff)
  then show ?thesis
    unfolding posret_step_def Let_def is_valid_posret_msg_lx_def by (auto split: if_splits)
qed

lemma success_header_append [simp]: "length pre \<ge> 8 \<Longrightarrow> success_header (pre @ xs) = success_header pre"
  by (simp add: success_header_def nth_append)

lemma success_header_buf [simp]: "length pre \<ge> 8 \<Longrightarrow> success_header (reader_buf pre) = success_header pre"
  by (simp add: success_header_def)

lemma pos_loop_success:
  assumes "8 \<le> length pre" "length pre \<le> 64" "success_header pre"
  shows "pos_loop (map Got xs) (length pre) True (reader_buf pre) = Inr 0 \<longleftrightarrow>
    (\<exists>k<length xs. length pre + k < 64 \<and> 34 \<le> length pre + k + 1 \<and> xs ! k \<noteq> PRO_START_lx)"
  using assms
proof (induction xs arbitrary: pre)
  case (Cons x xs)
  show ?case
  proof (cases "length pre < 64")
    case True
    have IH: "pos_loop (map Got xs) (Suc (length pre)) True (reader_buf (pre @ [x])) = Inr 0 \<longleftrightarrow>
      (\<exists>k<length xs. length pre + Suc k < 64 \<and> 34 \<le> length pre + Suc k + 1 \<and> xs ! k \<noteq> PRO_START_lx)"
      using Cons.IH [of "pre @ [x]"] Cons.prems True by simp
    have split: "(\<exists>k<Suc (length xs). P k) = (P 0 \<or> (\<exists>k<length xs. P (Suc k)))" for P
      using Ex_less_Suc2 by simp
    have hd: "success_header (reader_buf (pre @ [x]))" using Cons.prems True by simp
    show ?thesis
      using True IH Cons.prems
      by (auto simp: split posret_step_success [OF hd] Let_def)
  qed (use Cons.prems in auto)
qed simp

lemma pos_loop_failure:
  assumes "8 \<le> length pre" "length pre \<le> 64" "\<not> success_header pre"
  shows "pos_loop (map Got xs) (length pre) True (reader_buf pre) \<noteq> Inr 0"
  using assms
proof (induction xs arbitrary: pre)
  case (Cons x xs)
  show ?case
  proof (cases "length pre < 64")
    case True
    have IH: "pos_loop (map Got xs) (Suc (length pre)) True (reader_buf (pre @ [x])) \<noteq> Inr 0"
      using Cons.IH [of "pre @ [x]"] Cons.prems True by simp
    have hd: "\<not> success_header (reader_buf (pre @ [x]))" using Cons.prems True by simp
    show ?thesis
      using True IH posret_step_failure [OF hd] by (auto simp: Let_def split: option.split)
  qed (use Cons.prems in auto)
qed simp


text \<open>
  The eighth byte fixes the fate of the answer. \<open>bs\<close> are the bytes from the first start byte on.
\<close>

lemma pos_loop_header:
  assumes "length pre = 8" "pre ! 0 = PRO_START_lx"
  shows "pos_loop (map Got (drop 1 pre @ xs)) 1 True (reader_buf [PRO_START_lx]) = Inr 0 \<longleftrightarrow>
    success_header pre \<and> (\<exists>k<length xs. 8 + k < 64 \<and> 34 \<le> 8 + k + 1 \<and> xs ! k \<noteq> PRO_START_lx)"
proof -
  obtain h m x where pre: "pre = h # m @ [x]" "length m = 6"
    using assms(1) by (cases pre; cases "tl pre" rule: rev_cases) auto
  have h: "h = PRO_START_lx" using assms(2) pre by simp
  let ?r = "pos_loop (map Got xs) 8 True (reader_buf pre) = Inr 0"
  have store: "pos_loop (map Got (drop 1 pre @ xs)) 1 True (reader_buf [PRO_START_lx])
      = pos_loop (Got x # map Got xs) 7 True (reader_buf (h # m))"
    using pos_loop_store [of "[h]" m "Got x # map Got xs"] pre h by simp
  have put: "c_put 7 x (reader_buf (h # m)) = Inr (reader_buf pre)"
    using pre reader_buf_put [of "h # m" x] by simp
  have rest: "?r \<longleftrightarrow> success_header pre \<and>
      (\<exists>k<length xs. 8 + k < 64 \<and> 34 \<le> 8 + k + 1 \<and> xs ! k \<noteq> PRO_START_lx)"
    using pos_loop_success [of pre xs] pos_loop_failure [of pre xs] assms(1) by (cases "success_header pre") auto
  have "pos_loop (Got x # map Got xs) 7 True (reader_buf (h # m)) = Inr 0 \<longleftrightarrow> ?r"
  proof (cases "x = PRO_START_lx")
    case False
    then show ?thesis
    proof (cases "success_header pre")
      case True
      then have "posret_step (reader_buf pre) 8 = None"
        using posret_step_success [of "reader_buf pre" 8] assms(1) by simp
      then show ?thesis using False put by (simp del: c_put_simps)
    next
      case bad: False
      then have "posret_step (reader_buf pre) 8 \<noteq> Some 0" "\<not> ?r"
        using posret_step_failure [of "reader_buf pre" 8] rest assms(1) by simp_all
      then show ?thesis using False put by (auto simp: del: c_put_simps split: option.split)
    qed
  qed (use put in \<open>simp del: c_put_simps\<close>)
  then show ?thesis using store rest by simp
qed

text \<open>What the terminal takes for the consent of the reader.\<close>

definition reader_consents :: "bytes \<Rightarrow> bool" where
  "reader_consents xs \<longleftrightarrow>
     (let bs = dropWhile (\<lambda>b. b \<noteq> PRO_START_lx) xs in
      34 \<le> length bs \<and> success_header bs \<and> (\<exists>b \<in> set (drop 33 (take 64 bs)). b \<noteq> PRO_START_lx))"

lemma not_all_start: "(\<exists>b \<in> set (drop 33 (take 64 bs)). P b) \<longleftrightarrow> (\<exists>i<length bs. 33 \<le> i \<and> i < 64 \<and> P (bs ! i))"
  (is "?l = ?r")
proof
  assume ?l
  then obtain k where "k < length (drop 33 (take 64 bs))" "P (drop 33 (take 64 bs) ! k)"
    by (auto simp: in_set_conv_nth)
  then show ?r by (intro exI [of _ "33 + k"]) (simp add: less_diff_conv)
next
  assume ?r
  then obtain i where i: "i < length bs" "33 \<le> i" "i < 64" "P (bs ! i)" by blast
  then have "drop 33 (take 64 bs) ! (i - 33) = bs ! i" by simp
  then show ?l using i by (intro bexI [of _ "bs ! i"]) (auto simp: in_set_conv_nth intro!: exI [of _ "i - 33"])
qed

text \<open>
  The Linux version waits for the consent of the card reader and takes exactly this for it: among
  the bytes that arrive before the port falls silent or fails, from the first start byte on there are
  at least 34, the length bytes say 26, the return code is 0, and some byte from the 34th to the 64th
  is not itself a start byte. Sequence number and check byte of the answer play no part in it.
\<close>

lemma pos_wait_result_ok: "pos_wait_result evs = Inr 0 \<longleftrightarrow> reader_consents (delivered evs)"
proof -
  define bs where "bs = dropWhile (\<lambda>b. b \<noteq> PRO_START_lx) (delivered evs)"
  have "pos_wait_result evs = pos_loop (map Got bs) 0 False (reader_buf [])"
    unfolding pos_wait_result_def bs_def reader_buf_def pos_loop_delivered [of evs] by (subst pos_loop_skip) simp
  moreover have "pos_loop (map Got bs) 0 False (reader_buf []) = Inr 0 \<longleftrightarrow> reader_consents (delivered evs)"
  proof (cases "length bs < 8")
    case True
    moreover have "pos_loop (map Got bs) 0 False (reader_buf []) \<noteq> Inr 0"
    proof (cases bs)
      case (Cons x xs)
      then have "x = PRO_START_lx" using hd_dropWhile [of "\<lambda>b. b \<noteq> PRO_START_lx" "delivered evs"] by (simp add: bs_def [symmetric])
      then show ?thesis
        using Cons True pos_loop_store [of "[x]" xs "[]"] reader_buf_put [of "[]" x] by simp
    qed simp
    ultimately show ?thesis by (simp add: reader_consents_def Let_def bs_def [symmetric])
  next
    case False
    define pre xs where "pre = take 8 bs" and "xs = drop 8 bs"
    have pre: "length pre = 8" "bs = pre @ xs" using False by (simp_all add: pre_def xs_def)
    have "bs ! 0 = PRO_START_lx"
      using False hd_dropWhile [of "\<lambda>b. b \<noteq> PRO_START_lx" "delivered evs"] by (cases bs) (auto simp: bs_def [symmetric])
    then have pre0: "pre ! 0 = PRO_START_lx" using pre by (simp add: nth_append)
    then have bs: "bs = PRO_START_lx # drop 1 pre @ xs" using pre by (cases pre) auto
    have "pos_loop (map Got bs) 0 False (reader_buf []) =
        pos_loop (map Got (drop 1 pre @ xs)) 1 True (reader_buf [PRO_START_lx])"
      using reader_buf_put [of "[]" PRO_START_lx] by (subst bs) simp
    also have "\<dots> = Inr 0 \<longleftrightarrow> success_header pre \<and>
        (\<exists>k<length xs. 8 + k < 64 \<and> 34 \<le> 8 + k + 1 \<and> xs ! k \<noteq> PRO_START_lx)"
      by (rule pos_loop_header [OF pre(1) pre0])
    also have "\<dots> \<longleftrightarrow> success_header bs \<and> (\<exists>i<length bs. 33 \<le> i \<and> i < 64 \<and> bs ! i \<noteq> PRO_START_lx)"
    proof -
      have "(\<exists>k<length xs. 8 + k < 64 \<and> 34 \<le> 8 + k + 1 \<and> xs ! k \<noteq> PRO_START_lx) \<longleftrightarrow>
        (\<exists>i<length bs. 33 \<le> i \<and> i < 64 \<and> bs ! i \<noteq> PRO_START_lx)" (is "?l = ?r")
      proof
        assume ?l
        then obtain k where "k < length xs" "8 + k < 64" "34 \<le> 8 + k + 1" "xs ! k \<noteq> PRO_START_lx" by blast
        then show ?r using pre by (intro exI [of _ "8 + k"]) (simp add: nth_append)
      next
        assume ?r
        then obtain i where "i < length bs" "33 \<le> i" "i < 64" "bs ! i \<noteq> PRO_START_lx" by blast
        then show ?l using pre by (intro exI [of _ "i - 8"]) (simp add: nth_append)
      qed
      then show ?thesis using pre by simp
    qed
    also have "\<dots> \<longleftrightarrow> reader_consents (delivered evs)"
      unfolding reader_consents_def Let_def bs_def [symmetric] not_all_start by (auto simp: not_le)
    finally show ?thesis .
  qed
  ultimately show ?thesis by simp
qed


section \<open>The books of a run\<close>

definition cw_ok_answer :: bytes where
  "cw_ok_answer = LX_CW_OK[5 := lrc_lx LX_CW_OK 6]"

definition confirmed :: "lx_event list \<Rightarrow> nat" where
  "confirmed evs = length (filter (\<lambda>e. e = Fj_Write cw_ok_answer) evs)"

definition asked :: "lx_event list \<Rightarrow> nat" where
  "asked evs = length (filter (\<lambda>e. case e of Pos_Write _ _ \<Rightarrow> True | _ \<Rightarrow> False) evs)"

text \<open>Of the first \<open>n\<close> sessions: those with an open port, and those in which the reader consents.\<close>

definition opened :: "(nat \<Rightarrow> int \<times> port_event list) \<Rightarrow> nat \<Rightarrow> nat" where
  "opened ports n = length (filter (\<lambda>k. 0 < fst (ports k)) [0..<n])"

definition consents :: "(nat \<Rightarrow> int \<times> port_event list) \<Rightarrow> nat \<Rightarrow> nat" where
  "consents ports n = length (filter (\<lambda>k. 0 < fst (ports k) \<and> reader_consents (delivered (snd (ports k)))) [0..<n])"

definition books :: "(nat \<Rightarrow> int \<times> port_event list) \<Rightarrow> terminal \<Rightarrow> bool" where
  "books ports t \<longleftrightarrow>
     confirmed (lx_log t) = consents ports (sessions t) \<and>
     asked (lx_log t) = opened ports (sessions t) \<and>
     length (open_ports t) + consents ports (sessions t) = opened ports (sessions t) \<and>
     seqnum t = of_nat (opened ports (sessions t))"

lemma book_simps [simp]:
  "confirmed (a @ b) = confirmed a + confirmed b" "asked (a @ b) = asked a + asked b"
  "confirmed [] = 0" "asked [] = 0"
  "confirmed [Pos_Write fd m] = 0" "asked [Pos_Write fd m] = 1"
  "confirmed [Close_Port fd] = 0" "asked [Close_Port fd] = 0"
  "confirmed [Fj_Write m] = (if m = cw_ok_answer then 1 else 0)" "asked [Fj_Write m] = 0"
  "confirmed (Pos_Write fd m # l) = confirmed l" "confirmed (Close_Port fd # l) = confirmed l"
  "asked (Pos_Write fd m # l) = Suc (asked l)" "asked (Close_Port fd # l) = asked l" "asked (Fj_Write m # l) = asked l"
  "opened ports 0 = 0" "consents ports 0 = 0"
  "opened ports (Suc n) = opened ports n + (if 0 < fst (ports n) then 1 else 0)"
  "consents ports (Suc n) = consents ports n
     + (if 0 < fst (ports n) \<and> reader_consents (delivered (snd (ports n))) then 1 else 0)"
  by (simp_all add: confirmed_def asked_def opened_def consents_def)

lemma lx_put_simps [simp]:
  "lx_log (lx_put e t) = lx_log t @ [e]" "sessions (lx_put e t) = sessions t" "seqnum (lx_put e t) = seqnum t"
  "open_ports (lx_put e t) = open_ports t" "pd_end_lx (lx_put e t) = pd_end_lx t"
  "cp_ok_lx (lx_put e t) = cp_ok_lx t" "SL_FLAG_lx (lx_put e t) = SL_FLAG_lx t"
  by (simp_all add: lx_put_def)

lemma books_flags [simp]:
  "books ports (t\<lparr>pd_end_lx := b\<rparr>) = books ports t" "books ports (t\<lparr>cp_ok_lx := b\<rparr>) = books ports t"
  "books ports (t\<lparr>SL_FLAG_lx := b\<rparr>) = books ports t"
  by (simp_all add: books_def)

lemma books_write [simp]: "m \<noteq> cw_ok_answer \<Longrightarrow> books ports (lx_put (Fj_Write m) t) = books ports t"
  by (simp add: books_def)

definition other_reply :: "bytes \<Rightarrow> bool" where
  "other_reply resp \<longleftrightarrow> 5 < length resp \<and> take 4 resp \<noteq> take 4 cw_ok_answer"

lemma other_replies [simp]:
  "other_reply LX_PW" "other_reply LX_PD" "other_reply LX_CR_CPOK" "other_reply LX_CR_CPNOK"
  "other_reply LX_CR_CP_BAL" "other_reply LX_CP_OK" "other_reply LX_CW_NOK" "other_reply LX_CE_OK"
  "other_reply LX_LR_OK" "other_reply LX_NS_OK" "other_reply LX_SL_OK"
  by (simp_all add: other_reply_def reply_def str_lx_def cw_ok_answer_def)

lemma books_other [simp]:
  assumes "other_reply resp" shows "books ports (snd (respond_lx resp t)) = books ports t"
proof -
  define m where "m = resp[length resp - 1 := lrc_lx resp (length resp)]"
  have "take 4 m = take 4 resp"
    unfolding m_def using assms unfolding other_reply_def by (intro take_update_cancel) linarith
  then have "m \<noteq> cw_ok_answer" using assms by (auto simp: other_reply_def)
  then show ?thesis by (simp add: respond_lx_def m_def Let_def)
qed

lemma respond_ok: "respond_lx LX_CW_OK t = (6, lx_put (Fj_Write cw_ok_answer) t)"
  by (simp add: respond_lx_def cw_ok_answer_def reply_def str_lx_def eval_nat_numeral)

text \<open>One request, by cases: no port, consent, or anything else.\<close>

lemma send_deduct_money2pos_spec:
  assumes "send_deduct_money2pos m port t = Inr (ret, t')"
  shows "if fst port \<le> 0 then ret = -1 \<and> t' = t
    else let t1 = lx_put (Pos_Write (fst port) (package_deduct_msg_lx (seqnum t) m)) (t\<lparr>seqnum := seqnum t + 1\<rparr>) in
      if reader_consents (delivered (snd port)) then ret = 0 \<and> t' = lx_put (Close_Port (fst port)) t1
      else ret = -1 \<and> t' = t1\<lparr>open_ports := fst port # open_ports t1\<rparr>"
proof (cases port)
  case (Pair fd evs)
  then show ?thesis
    using assms unfolding send_deduct_money2pos_def
    by (cases "pos_wait_result evs") (auto simp: Let_def pos_wait_result_ok [symmetric] split: if_splits)
qed

lemma fj_handle_pro_books:
  assumes "fj_handle_pro dbg (ports (sessions t)) buf len t = Inr (r, t')" "books ports t"
  shows "books ports t'"
proof -
  have snd: "respond_lx x y = (r, t') \<Longrightarrow> t' = snd (respond_lx x y)" for x y
    by simp
  show ?thesis
  proof (cases "find_cmd_lx [buf ! 1, buf ! 2] (zip fj_cmds_lx fj_codes)")
    case CW_lx
    define t1 where "t1 = t\<lparr>sessions := sessions t + 1\<rparr>"
    show ?thesis
    proof (cases "pd_end_lx t \<and> len = 10")
      case True
      then obtain ret u where s: "send_deduct_money2pos (cw_money buf) (ports (sessions t)) t1 = Inr (ret, u)"
        and t': "t' = snd (respond_lx (if ret = 0 then LX_CW_OK else LX_CW_NOK) (u\<lparr>SL_FLAG_lx := False\<rparr>))"
        using assms(1) CW_lx by (auto simp: fj_handle_pro_def t1_def dest!: snd)
      show ?thesis
        using send_deduct_money2pos_spec [OF s] assms(2)
        by (cases "ret = 0")
          (simp_all add: t' respond_ok, auto simp: books_def t1_def Let_def split: if_splits)
    qed (use assms CW_lx in \<open>auto simp: fj_handle_pro_def dest!: snd split: if_splits\<close>)
  qed (use assms in \<open>auto simp: fj_handle_pro_def dest!: snd split: if_splits\<close>)
qed

lemma fj_recv_loop_books:
  "fj_recv_loop dbg ports evs rx t = Inr (r, rx', t') \<Longrightarrow> books ports t \<Longrightarrow> books ports t'"
proof (induction evs arbitrary: rx t)
  case (Cons e evs)
  show ?case
  proof (cases e)
    case (Got ch)
    have ack: "[ACK_lx] \<noteq> cw_ok_answer" by (simp add: cw_ok_answer_def reply_def str_lx_def)
    show ?thesis
      using Cons.prems Cons.IH Got ack
      by (auto simp: Let_def split: if_splits prod.splits dest: fj_handle_pro_books)
  qed (use Cons in auto)
qed simp

definition power_on :: terminal where
  "power_on = \<lparr>pd_end_lx = False, cp_ok_lx = False, SL_FLAG_lx = False, seqnum = 0, open_ports = [],
     sessions = 0, lx_log = []\<rparr>"



section \<open>One command from its first byte to the reply\<close>

text \<open>A frame that has not ended leaves the loop with its bytes in the buffer.\<close>

definition fj_buf :: "bytes \<Rightarrow> bytes" where
  "fj_buf pre = pre @ replicate (32 - length pre) 0"

lemma fj_buf_put [simp]:
  "length pre < 32 \<Longrightarrow> (fj_buf pre)[length pre := b] = fj_buf (pre @ [b])"
  by (simp add: fj_buf_def list_update_append Suc_diff_Suc flip: Suc_diff_Suc)

lemma fj_buf_simps [simp]:
  "length pre \<le> 32 \<Longrightarrow> length (fj_buf pre) = 32"
  "i < length pre \<Longrightarrow> fj_buf pre ! i = pre ! i"
  by (simp_all add: fj_buf_def nth_append)

lemma fj_recv_start:
  "fj_recv_loop dbg ports (Got STX_lx # evs) fj_idle t =
   fj_recv_loop dbg ports evs \<lparr>ch_num = 1, stflag = True, fjbuf = fj_buf [STX_lx]\<rparr> t"
  by (simp add: fj_idle_def fj_buf_def replicate_Suc [of 31, simplified])

lemma fj_recv_collect:
  assumes "length pre + length xs < 32"
    "\<forall>k. 0 < k \<and> k \<le> length xs \<longrightarrow> \<not> cmd_complete (fj_buf (pre @ take k xs)) (length pre + k)"
  shows "fj_recv_loop dbg ports (map Got xs @ evs) \<lparr>ch_num = length pre, stflag = True, fjbuf = fj_buf pre\<rparr> t =
   fj_recv_loop dbg ports evs \<lparr>ch_num = length pre + length xs, stflag = True, fjbuf = fj_buf (pre @ xs)\<rparr> t"
  using assms
proof (induction xs arbitrary: pre)
  case (Cons x xs)
  have "\<not> cmd_complete (fj_buf (pre @ [x])) (Suc (length pre))"
    using Cons.prems(2) [THEN spec, of 1] by simp
  moreover have "\<forall>k. 0 < k \<and> k \<le> length xs \<longrightarrow>
      \<not> cmd_complete (fj_buf ((pre @ [x]) @ take k xs)) (length (pre @ [x]) + k)"
    using Cons.prems(2) by (auto dest: spec [of _ "Suc _"])
  ultimately show ?case using Cons.IH [of "pre @ [x]"] Cons.prems(1) by (simp add: Let_def)
qed simp

lemma fj_recv_finish:
  assumes "length pre < 32" "cmd_complete (fj_buf (pre @ [x])) (Suc (length pre))"
  shows "fj_recv_loop dbg ports (Got x # evs) \<lparr>ch_num = length pre, stflag = True, fjbuf = fj_buf pre\<rparr> t =
    c_bind (fj_handle_pro dbg (ports (sessions t)) (fj_buf (pre @ [x])) (Suc (length pre)) t)
      (\<lambda>(_, t). fj_recv_loop dbg ports evs fj_idle t)"
  using assms by (simp add: Let_def)


lemma fj_frame:
  assumes "\<not> (c1 = 67 \<and> c2 = 87)"
  shows "fj_recv_loop dbg ports (map Got [STX_lx, c1, c2, b3, b4] @ evs) fj_idle t =
    c_bind (fj_handle_pro dbg (ports (sessions t)) (fj_buf [STX_lx, c1, c2, b3, b4]) 5 t)
      (\<lambda>(_, t). fj_recv_loop dbg ports evs fj_idle t)"
proof -
  have "fj_recv_loop dbg ports (map Got [c1, c2, b3] @ Got b4 # evs)
      \<lparr>ch_num = length [STX_lx], stflag = True, fjbuf = fj_buf [STX_lx]\<rparr> t =
    fj_recv_loop dbg ports (Got b4 # evs)
      \<lparr>ch_num = length [STX_lx] + length [c1, c2, b3], stflag = True, fjbuf = fj_buf ([STX_lx] @ [c1, c2, b3])\<rparr> t"
    by (rule fj_recv_collect) (auto simp: cmd_complete_def)
  moreover have "cmd_complete (fj_buf ([STX_lx, c1, c2, b3] @ [b4])) 5"
    using assms by (auto simp: cmd_complete_def)
  ultimately show ?thesis
    using fj_recv_finish [of "[STX_lx, c1, c2, b3]" b4 dbg ports evs t]
    by (simp add: fj_recv_start eval_nat_numeral del: fj_recv_loop.simps)
qed

lemma fj_frame_cw:
  "fj_recv_loop dbg ports (map Got [STX_lx, 67, 87, b3, b4, b5, b6, b7, b8, b9] @ evs) fj_idle t =
    c_bind (fj_handle_pro dbg (ports (sessions t)) (fj_buf [STX_lx, 67, 87, b3, b4, b5, b6, b7, b8, b9]) 10 t)
      (\<lambda>(_, t). fj_recv_loop dbg ports evs fj_idle t)"
proof -
  let ?m = "[67, 87, b3, b4, b5, b6, b7, b8]"
  have "fj_recv_loop dbg ports (map Got ?m @ Got b9 # evs)
      \<lparr>ch_num = length [STX_lx], stflag = True, fjbuf = fj_buf [STX_lx]\<rparr> t =
    fj_recv_loop dbg ports (Got b9 # evs)
      \<lparr>ch_num = length [STX_lx] + length ?m, stflag = True, fjbuf = fj_buf ([STX_lx] @ ?m)\<rparr> t"
    by (rule fj_recv_collect) (auto simp: cmd_complete_def take_Cons')
  moreover have "cmd_complete (fj_buf ((STX_lx # ?m) @ [b9])) 10"
    by (simp add: cmd_complete_def)
  ultimately show ?thesis
    using fj_recv_finish [of "STX_lx # ?m" b9 dbg ports evs t]
    by (simp add: fj_recv_start eval_nat_numeral del: fj_recv_loop.simps)
qed

lemmas handle_simps = fj_handle_pro_def fj_cmds_lx_def fj_codes_def str_lx_def

lemma handle_PD [simp]:
  "fj_handle_pro dbg port (fj_buf [STX_lx, 80, 68, b3, b4]) 5 t = Inr (respond_lx LX_PD (t\<lparr>pd_end_lx := True\<rparr>))"
  by (simp add: handle_simps)

lemma handle_CW:
  "pd_end_lx t \<Longrightarrow> fj_handle_pro dbg port (fj_buf [STX_lx, 67, 87, b3, b4, b5, b6, b7, b8, b9]) 10 t =
   c_bind (send_deduct_money2pos (cw_money [STX_lx, 67, 87, b3, b4, b5]) port (t\<lparr>sessions := sessions t + 1\<rparr>))
     (\<lambda>(ret, t). Inr (respond_lx (if ret = 0 then LX_CW_OK else LX_CW_NOK) (t\<lparr>SL_FLAG_lx := False\<rparr>)))"
  by (simp add: handle_simps cw_money_def)


text \<open>
  C29. A sale on the Linux terminal from the first byte of the price command to the reply: after a reset
  command, the ten bytes of the command open a session; the reader gets one request with the next
  sequence number and the price, of which each digit pair has lost its second digit; when it
  consents, its port is closed and the machine is told so, and the loop is back at rest.
\<close>

theorem sale_round:
  assumes "pd_end_lx t" "0 < fst (ports (sessions t))" "reader_consents (delivered (snd (ports (sessions t))))"
  shows "\<exists>t'. fj_recv_loop dbg ports (map Got [STX_lx, 67, 87, b3, b4, b5, b6, b7, b8, b9] @ evs) fj_idle t
      = fj_recv_loop dbg ports evs fj_idle t'
    \<and> lx_log t' = lx_log t @ [Pos_Write (fst (ports (sessions t)))
        (package_deduct_msg_lx (seqnum t) (of_nat (first_hex_digit b3 + first_hex_digit b4 * 100 + first_hex_digit b5 * 10000))),
        Close_Port (fst (ports (sessions t))), Fj_Write cw_ok_answer]
    \<and> seqnum t' = seqnum t + 1 \<and> sessions t' = sessions t + 1 \<and> open_ports t' = open_ports t
    \<and> pd_end_lx t' \<and> \<not> SL_FLAG_lx t'"
proof -
  obtain fd pevs where port: "ports (sessions t) = (fd, pevs)" by fastforce
  have ok: "pos_wait_result pevs = Inr 0" using assms(3) port by (simp add: pos_wait_result_ok)
  show ?thesis
    unfolding fj_frame_cw handle_CW [OF assms(1)] send_deduct_money2pos_def
    using assms(1,2) port ok
    by (simp add: respond_ok Let_def cw_money_def) (intro exI conjI, rule refl, simp_all)
qed


theorem sale_round_witness:
  "\<exists>t'. fj_recv_loop (Inr ()) (\<lambda>_. (3, map Got ([PRO_START_lx, 0, 0, 1, 0x52, 0, 26, 0] @ replicate 26 0)))
       (map Got [STX_lx, 67, 87, 0x25, 0x13, 0, 0, 0, 0, 0] @ []) fj_idle (power_on\<lparr>pd_end_lx := True\<rparr>)
     = fj_recv_loop (Inr ()) (\<lambda>_. (3, map Got ([PRO_START_lx, 0, 0, 1, 0x52, 0, 26, 0] @ replicate 26 0)))
       [] fj_idle t'
     \<and> length (lx_log t') = 3"
proof -
  let ?ports = "\<lambda>_ :: nat. (3 :: int, map Got ([PRO_START_lx, 0, 0, 1, 0x52, 0, 26, 0] @ replicate 26 0))"
  have del: "delivered (map Got bs) = bs" for bs by (induction bs) simp_all
  have "reader_consents (delivered (snd (?ports (sessions (power_on\<lparr>pd_end_lx := True\<rparr>)))))"
    unfolding snd_conv del by (simp add: reader_consents_def success_header_def)
  from sale_round [where t = "power_on\<lparr>pd_end_lx := True\<rparr>" and ports = ?ports, OF _ _ this, where dbg = "Inr ()" and ?b3.0 = "0x25" and ?b4.0 = "0x13" and ?b5.0 = 0 and ?b6.0 = 0
    and ?b7.0 = 0 and ?b8.0 = 0 and ?b9.0 = 0 and evs = "[]"]
  show ?thesis
    by (simp add: power_on_def del: fj_recv_loop.simps) (elim exE conjE, intro exI conjI, assumption, simp)
qed

text \<open>
  Four commands end the process as soon as they arrive, whatever its state: the text of a message
  goes to \<^verbatim>\<open>syslog\<close> as its priority, a flag as its format. Whatever that call does to the process is
  what the command does; in particular a selection (\<open>SL\<close>) is never acknowledged when it faults.
\<close>

theorem four_commands_fault:
  assumes "[c1, c2] \<in> set (map str_lx [''CE'', ''LR'', ''NS'', ''SL''])"
  shows "fj_recv_loop (Inl fault) ports (map Got [STX_lx, c1, c2, b3, b4] @ evs) fj_idle t = Inl fault"
proof -
  have "\<not> (c1 = 67 \<and> c2 = 87)" using assms by (auto simp: str_lx_def)
  moreover have "fj_handle_pro (Inl fault) port (fj_buf [STX_lx, c1, c2, b3, b4]) 5 t = Inl fault" for port
    using assms by (auto simp: handle_simps)
  ultimately show ?thesis by (simp only: fj_frame c_bind_simps not_False_eq_True)
qed

theorem four_commands_fault_witness:
  "fj_recv_loop (Inl Bad_Format) (\<lambda>_. (3, [])) (map Got [STX_lx, 83, 76, 48, 0] @ []) fj_idle power_on = Inl Bad_Format"
  by (rule four_commands_fault) (simp add: str_lx_def)

text \<open>
  A reader that sends nothing but start bytes writes past the end of the 64-byte answer buffer: the
  start byte is stored before its index is looked at.
\<close>

theorem start_bytes_overflow:
  "pos_wait_result (replicate (n + 65) (Got PRO_START_lx) @ evs) = Inl Out_Of_Bounds"
proof -
  have run: "pos_loop (replicate k (Got PRO_START_lx) @ rest) (length pre) f (reader_buf pre)
      = pos_loop rest (length pre + k) True (reader_buf (pre @ replicate k PRO_START_lx))"
    if "length pre + k \<le> 64" "0 < k" for k pre rest f
    using that
  proof (induction k arbitrary: pre f)
    case (Suc k)
    then show ?case using Suc.IH [of "pre @ [PRO_START_lx]" True] by (cases "k = 0") simp_all
  qed simp
  define m where "m = (64 :: nat)"
  let ?b = "replicate m PRO_START_lx"
  have "n + 65 = m + Suc n" by (simp add: m_def)
  then have "replicate (n + 65) (Got PRO_START_lx) @ evs
      = replicate m (Got PRO_START_lx) @ Got PRO_START_lx # replicate n (Got PRO_START_lx) @ evs"
    by (simp only: replicate_add replicate_Suc append_assoc append_Cons)
  then have "pos_wait_result (replicate (n + 65) (Got PRO_START_lx) @ evs)
      = pos_loop (Got PRO_START_lx # replicate n (Got PRO_START_lx) @ evs) m True (reader_buf ?b)"
    using run [where pre = "[]" and k = m and f = False] by (simp add: pos_wait_result_def reader_buf_def m_def)
  also have "\<dots> = Inl Out_Of_Bounds"
  proof -
    have "\<not> m < length (reader_buf ?b)" by (simp add: m_def)
    then show ?thesis by simp
  qed
  finally show ?thesis .
qed

end
