(* ===== verification/Containers.thy ===== *)
theory Containers imports Prelude begin

text \<open>
  The two containers of the daemon's event loops: the set of file descriptors with its maximum
  (\<^verbatim>\<open>tool/ft_set.c\<close>) and the linked list of devices (\<^verbatim>\<open>tool/ft_map.c\<close>). Every operation runs under the
  container's lock, so it is one step of the state. The laws their users rely on are two locales:
  a set with a maximum and a map from names to entries.
\<close>

section \<open>The set of descriptors\<close>

abbreviation SET_SIZE :: nat where "SET_SIZE \<equiv> 1024"

record st_maxdata_set =
  fdarray :: "int list"
  set_size :: nat
  maxData :: int

definition set_init :: st_maxdata_set where
  "set_init = \<lparr>fdarray = replicate SET_SIZE (-1), set_size = 0, maxData = -1\<rparr>"

function find_loop :: "int \<Rightarrow> st_maxdata_set \<Rightarrow> nat \<Rightarrow> int" where
  "find_loop Q p i =
     (if i < set_size p then if fdarray p ! i = Q then 1 else find_loop Q p (i + 1) else 0)"
  by pat_completeness auto
termination
  by (relation "measure (\<lambda>(Q, p, i). set_size p - i)") auto

declare find_loop.simps [simp del]

definition set_find :: "int \<Rightarrow> st_maxdata_set \<Rightarrow> int" where
  "set_find Q p = find_loop Q p 0"

definition set_insert :: "int \<Rightarrow> st_maxdata_set \<Rightarrow> (int \<times> st_maxdata_set) c_result" where
  "set_insert Q p =
     (if set_find Q p \<noteq> 0 then Inr (0, p)
      else c_bind (c_put (set_size p) Q (fdarray p)) (\<lambda>a.
        let p = p\<lparr>fdarray := a, set_size := set_size p + 1\<rparr> in
        Inr (1, p\<lparr>maxData := if Q > maxData p then Q else maxData p\<rparr>)))"

definition set_updateMax :: "st_maxdata_set \<Rightarrow> st_maxdata_set" where
  "set_updateMax p =
     fold (\<lambda>i p. p\<lparr>maxData := if fdarray p ! i > maxData p then fdarray p ! i else maxData p\<rparr>)
       [0..<set_size p] (p\<lparr>maxData := -1\<rparr>)"

text \<open>The inner loop of \<^verbatim>\<open>set_erase\<close> moves the rest down; the outer one goes on behind the gap.\<close>

definition shift_down :: "nat \<Rightarrow> st_maxdata_set \<Rightarrow> st_maxdata_set" where
  "shift_down i p =
     fold (\<lambda>j p. p\<lparr>fdarray := (fdarray p)[j := fdarray p ! (j + 1)]\<rparr>) [i..<set_size p - 1] p"

lemma shift_down_size [simp]: "set_size (shift_down i p) = set_size p"
proof -
  have "set_size (fold (\<lambda>j p. p\<lparr>fdarray := (fdarray p)[j := fdarray p ! (j + 1)]\<rparr>) js p) = set_size p" for js
    by (induction js arbitrary: p) simp_all
  then show ?thesis
    by (simp add: shift_down_def)
qed

function erase_loop :: "int \<Rightarrow> nat \<Rightarrow> st_maxdata_set \<Rightarrow> st_maxdata_set" where
  "erase_loop Q i p =
     (if i < set_size p then
        if fdarray p ! i = Q then
          let p = shift_down i p in erase_loop Q (i + 1) (p\<lparr>set_size := set_size p - 1\<rparr>)
        else erase_loop Q (i + 1) p
      else p)"
  by pat_completeness auto
termination
  by (relation "measure (\<lambda>(Q, i, p). set_size p - i)") auto

declare erase_loop.simps [simp del]

definition set_erase :: "int \<Rightarrow> st_maxdata_set \<Rightarrow> int \<times> st_maxdata_set" where
  "set_erase Q p =
     (let p = erase_loop Q 0 p in (0, if Q = maxData p then set_updateMax p else p))"

definition set_is_empty :: "st_maxdata_set \<Rightarrow> int" where
  "set_is_empty p = (if set_size p = 0 then 1 else 0)"

definition set_get_elem_num :: "st_maxdata_set \<Rightarrow> nat" where
  "set_get_elem_num p = set_size p"

definition set_get_max :: "st_maxdata_set \<Rightarrow> int" where
  "set_get_max p = maxData p"

definition set_at :: "st_maxdata_set \<Rightarrow> int \<Rightarrow> int" where
  "set_at p index =
     (if index < 0 \<or> index \<ge> int SET_SIZE then -1 else fdarray p ! nat index)"

section \<open>The list of devices\<close>

record st_client_device =
  dev_mac :: bytes
  dev_fd :: int
  dev_online :: int
  dev_heartbeat :: int

text \<open>
  A node is its address and its entry; the list hangs behind the sentinel, whose \<^verbatim>\<open>size\<close> field
  counts. The address a \<^verbatim>\<open>malloc\<close> answers is an argument.
\<close>

type_synonym dev_node = "nat \<times> st_client_device"

record st_link_list =
  nodes :: "dev_node list"
  ll_size :: int

definition init_list :: st_link_list where
  "init_list = \<lparr>nodes = [], ll_size = 0\<rparr>"

definition destroy_list :: "st_link_list \<Rightarrow> st_link_list" where
  "destroy_list l = l\<lparr>nodes := [], ll_size := 0\<rparr>"

text \<open>The walk of \<^verbatim>\<open>add_device_to_list\<close>: \<open>True\<close> when a node with the same name was replaced.\<close>

primrec add_loop :: "dev_node \<Rightarrow> dev_node list \<Rightarrow> bool \<times> dev_node list" where
  "add_loop q [] = (False, [q])"
| "add_loop q (p # ps) =
     (if dev_mac (snd p) = dev_mac (snd q) then (True, q # ps)
      else (case add_loop q ps of (b, ps') \<Rightarrow> (b, p # ps')))"

definition add_device_to_list ::
  "nat option \<Rightarrow> st_link_list \<Rightarrow> st_client_device \<Rightarrow> int \<times> st_link_list" where
  "add_device_to_list malloc_result l dev = (case malloc_result of
     None \<Rightarrow> (-1, l)
   | Some a \<Rightarrow> (case add_loop (a, dev) (nodes l) of
       (replaced, ns) \<Rightarrow>
         (0, l\<lparr>nodes := ns, ll_size := if replaced then ll_size l else ll_size l + 1\<rparr>)))"

text \<open>The walk of \<^verbatim>\<open>del_from_list_by_mac\<close>: after a removal it steps over the next node.\<close>

fun del_loop :: "bytes \<Rightarrow> dev_node list \<Rightarrow> dev_node list" where
  "del_loop mac [] = []"
| "del_loop mac (q # ps) =
     (if dev_mac (snd q) = mac then
        (case ps of [] \<Rightarrow> [] | p # ps' \<Rightarrow> p # del_loop mac ps')
      else q # del_loop mac ps)"

definition del_from_list_by_mac :: "bytes \<Rightarrow> st_link_list \<Rightarrow> int \<times> st_link_list" where
  "del_from_list_by_mac mac l =
     (0, l\<lparr>nodes := del_loop mac (nodes l), ll_size := ll_size l - 1\<rparr>)"

text \<open>The searches go on after a hit: the last one counts.\<close>

definition find_device_by_mac :: "bytes \<Rightarrow> st_link_list \<Rightarrow> dev_node option" where
  "find_device_by_mac mac l =
     fold (\<lambda>p q. if dev_mac (snd p) = mac then Some p else q) (nodes l) None"

definition find_device_by_fd :: "int \<Rightarrow> st_link_list \<Rightarrow> dev_node option" where
  "find_device_by_fd fd l =
     fold (\<lambda>p q. if dev_fd (snd p) = fd then Some p else q) (nodes l) None"

section \<open>The interfaces\<close>

locale max_set =
  fixes empty :: 's
    and ins :: "int \<Rightarrow> 's \<Rightarrow> 's"
    and del :: "int \<Rightarrow> 's \<Rightarrow> 's"
    and isin :: "'s \<Rightarrow> int \<Rightarrow> bool"
    and largest :: "'s \<Rightarrow> int"
    and elems :: "'s \<Rightarrow> int set"
    and inv :: "'s \<Rightarrow> bool"
    and full :: "'s \<Rightarrow> bool"
  assumes inv_empty: "inv empty"
    and elems_empty: "elems empty = {}"
    and inv_ins: "inv s \<Longrightarrow> \<not> full s \<Longrightarrow> inv (ins x s)"
    and elems_ins: "inv s \<Longrightarrow> \<not> full s \<Longrightarrow> elems (ins x s) = insert x (elems s)"
    and inv_del: "inv s \<Longrightarrow> inv (del x s)"
    and elems_del: "inv s \<Longrightarrow> elems (del x s) = elems s - {x}"
    and isin_elems: "inv s \<Longrightarrow> isin s x \<longleftrightarrow> x \<in> elems s"
    and largest_elems: "inv s \<Longrightarrow> finite (elems s) \<and> largest s = Max (insert (-1) (elems s))"
begin

text \<open>A select loop over the descriptors up to the largest one misses none.\<close>

lemma covered: "inv s \<Longrightarrow> isin s x \<Longrightarrow> x \<le> largest s"
  using largest_elems isin_elems by simp

lemma largest_after_del: "inv s \<Longrightarrow> elems s = {x} \<Longrightarrow> largest (del x s) = -1"
  using largest_elems [of "del x s"] by (simp add: inv_del elems_del)

end

locale entry_map =
  fixes empty :: 's
    and upd :: "'k \<Rightarrow> 'v \<Rightarrow> 's \<Rightarrow> 's"
    and del :: "'k \<Rightarrow> 's \<Rightarrow> 's"
    and look :: "'s \<Rightarrow> 'k \<Rightarrow> 'v option"
    and inv :: "'s \<Rightarrow> bool"
    and entry_ok :: "'k \<Rightarrow> 'v \<Rightarrow> bool"
  assumes inv_empty: "inv empty"
    and look_empty: "look empty k = None"
    and inv_upd: "inv s \<Longrightarrow> entry_ok k v \<Longrightarrow> inv (upd k v s)"
    and look_upd: "inv s \<Longrightarrow> entry_ok k v \<Longrightarrow> look (upd k v s) k' = (if k' = k then Some v else look s k')"
    and inv_del: "inv s \<Longrightarrow> inv (del k s)"
    and look_del: "inv s \<Longrightarrow> look (del k s) k' = (if k' = k then None else look s k')"
begin

lemma look_upd_twice:
  "inv s \<Longrightarrow> entry_ok k v \<Longrightarrow> entry_ok k w \<Longrightarrow> look (upd k w (upd k v s)) = look (upd k w s)"
  by (rule ext) (simp add: look_upd inv_upd)

lemma look_del_upd:
  "inv s \<Longrightarrow> entry_ok k v \<Longrightarrow> look s k = None \<Longrightarrow> look (del k (upd k v s)) = look s"
  by (rule ext) (simp add: look_upd look_del inv_upd)

end

section \<open>The set keeps its contract\<close>

definition set_items :: "st_maxdata_set \<Rightarrow> int list" where
  "set_items p = take (set_size p) (fdarray p)"

definition set_inv :: "st_maxdata_set \<Rightarrow> bool" where
  "set_inv p \<longleftrightarrow> length (fdarray p) = SET_SIZE \<and> set_size p \<le> SET_SIZE \<and> distinct (set_items p) \<and>
     maxData p = Max (insert (-1) (set (set_items p)))"

lemma length_set_items: "set_inv p \<Longrightarrow> length (set_items p) = set_size p"
  by (simp add: set_inv_def set_items_def)

lemma find_loop_eq:
  assumes "set_size p \<le> length (fdarray p)"
  shows "find_loop Q p i = (if Q \<in> set (drop i (set_items p)) then 1 else 0)"
proof (induction "set_size p - i" arbitrary: i)
  case 0
  then show ?case
    by (subst find_loop.simps) (simp add: set_items_def)
next
  case (Suc n)
  then have i: "i < length (set_items p)" "i < set_size p"
    using assms by (simp_all add: set_items_def)
  have "find_loop Q p (i + 1) = (if Q \<in> set (drop (i + 1) (set_items p)) then 1 else 0)"
    using Suc by simp
  then show ?case
    using i Cons_nth_drop_Suc [OF i(1)]
    by (subst find_loop.simps) (auto simp: set_items_def simp flip: Cons_nth_drop_Suc)
qed

lemma set_find_eq: "set_inv p \<Longrightarrow> set_find Q p = (if Q \<in> set (set_items p) then 1 else 0)"
  by (simp add: set_find_def find_loop_eq set_inv_def)

lemma set_insert_new:
  assumes inv: "set_inv p" and new: "Q \<notin> set (set_items p)" and room: "set_size p < SET_SIZE"
  shows "\<exists>p'. set_insert Q p = Inr (1, p') \<and> set_inv p' \<and> set_items p' = set_items p @ [Q]"
proof -
  define q where "q = p\<lparr>fdarray := (fdarray p)[set_size p := Q], set_size := set_size p + 1,
    maxData := if Q > maxData p then Q else maxData p\<rparr>"
  define M where "M = Max (insert (-1) (set (set_items p)))"
  have M: "maxData p = M" "length (fdarray p) = SET_SIZE" "distinct (set_items p)"
    using inv by (simp_all add: set_inv_def M_def)
  have q: "length (fdarray q) = SET_SIZE" "set_size q \<le> SET_SIZE" "maxData q = max Q M"
    using M room by (simp_all add: q_def max_def)
  have items: "set_items q = set_items p @ [Q]"
    using M room by (simp add: q_def set_items_def take_Suc_conv_app_nth)
  have "Max (insert (-1) (set (set_items q))) = Max (insert Q (insert (-1) (set (set_items p))))"
    by (simp only: items set_append list.set Un_insert_right Un_empty_right insert_commute)
  also have "\<dots> = max Q M"
    unfolding M_def by (rule Max_insert) auto
  finally have "set_inv q"
    using q new M(3) unfolding set_inv_def by (simp only: items) simp
  moreover have "set_insert Q p = Inr (1, q)"
    using inv new room M(2) by (simp add: set_insert_def set_find_eq Let_def q_def)
  ultimately show ?thesis
    using items by blast
qed

lemma set_insert_old:
  "set_inv p \<Longrightarrow> Q \<in> set (set_items p) \<Longrightarrow> set_insert Q p = Inr (0, p)"
  by (simp add: set_insert_def set_find_eq)

lemma shift_one:
  "length xs = m \<Longrightarrow> (xs @ x # y # zs)[m := (xs @ x # y # zs) ! (m + 1)] = xs @ y # y # zs"
  by (simp add: list_update_append nth_append)

lemma shift_down_eq:
  assumes "i < n" "n \<le> length a"
  shows "fold (\<lambda>j p. p\<lparr>fdarray := (fdarray p)[j := fdarray p ! (j + 1)]\<rparr>) [i..<n - 1] (p\<lparr>fdarray := a\<rparr>)
    = p\<lparr>fdarray := take i a @ take (n - 1 - i) (drop (i + 1) a) @ drop (n - 1) a\<rparr>"
  using assms
proof (induction n)
  case (Suc n)
  show ?case
  proof (cases "i = n")
    case True
    then show ?thesis
      by simp
  next
    case False
    then obtain m where n: "n = Suc m" "i \<le> m"
      using Suc.prems by (cases n) auto
    let ?b = "take i a @ take (m - i) (drop (i + 1) a) @ drop m a"
    have IH: "fold (\<lambda>j p. p\<lparr>fdarray := (fdarray p)[j := fdarray p ! (j + 1)]\<rparr>) [i..<m] (p\<lparr>fdarray := a\<rparr>)
        = p\<lparr>fdarray := ?b\<rparr>"
      using Suc.IH Suc.prems False n by simp
    have len: "Suc m < length a" "length (take i a @ take (m - i) (drop (i + 1) a)) = m"
      using Suc.prems n by simp_all
    have "drop m a = a ! m # a ! Suc m # drop (Suc (Suc m)) a"
      using len(1) by (metis Cons_nth_drop_Suc Suc_lessD)
    then have b: "?b = (take i a @ take (m - i) (drop (i + 1) a)) @ a ! m # a ! Suc m # drop (Suc (Suc m)) a"
      by simp
    have "?b[m := ?b ! (m + 1)] =
        (take i a @ take (m - i) (drop (i + 1) a)) @ a ! Suc m # a ! Suc m # drop (Suc (Suc m)) a"
      unfolding b by (rule shift_one [OF len(2)])
    also have "\<dots> = take i a @ take (Suc m - i) (drop (i + 1) a) @ drop (Suc m) a"
    proof -
      have "take (Suc m - i) (drop (i + 1) a) = take (m - i) (drop (i + 1) a) @ [a ! Suc m]"
        using len n by (simp add: Suc_diff_le take_Suc_conv_app_nth)
      then show ?thesis
        using len(1) by (simp add: Cons_nth_drop_Suc)
    qed
    finally show ?thesis
      using IH n by simp
  qed
qed simp

lemma set_items_simps [simp]: "set_items (p\<lparr>maxData := m\<rparr>) = set_items p"
  by (simp add: set_items_def)

lemma shift_down_items:
  assumes "i < set_size p" "set_size p \<le> length (fdarray p)"
  shows "set_items (shift_down i p\<lparr>set_size := set_size p - 1\<rparr>) =
      take i (set_items p) @ drop (i + 1) (set_items p)"
    "length (fdarray (shift_down i p)) = length (fdarray p)"
    "maxData (shift_down i p) = maxData p"
proof -
  have eq: "shift_down i p = p\<lparr>fdarray := take i (fdarray p) @
      take (set_size p - 1 - i) (drop (i + 1) (fdarray p)) @ drop (set_size p - 1) (fdarray p)\<rparr>"
    using shift_down_eq [OF assms, of p] by (simp add: shift_down_def)
  have "take (set_size p - Suc 0 - i) (drop (Suc i) (fdarray p)) =
      drop (Suc i) (take (set_size p) (fdarray p))"
    by (simp add: drop_take)
  then show "set_items (shift_down i p\<lparr>set_size := set_size p - 1\<rparr>) =
      take i (set_items p) @ drop (i + 1) (set_items p)"
    "length (fdarray (shift_down i p)) = length (fdarray p)"
    "maxData (shift_down i p) = maxData p"
    using assms by (simp_all add: eq set_items_def min_absorb2)
qed

lemma erase_loop_absent:
  assumes "set_size p \<le> length (fdarray p)" "Q \<notin> set (drop i (set_items p))"
  shows "erase_loop Q i p = p"
  using assms(2)
proof (induction "set_size p - i" arbitrary: i)
  case 0
  then show ?case
    by (subst erase_loop.simps) simp
next
  case (Suc n)
  then have i: "i < length (set_items p)"
    using assms(1) by (simp add: set_items_def)
  then have split: "drop i (set_items p) = fdarray p ! i # drop (i + 1) (set_items p)"
    by (simp add: set_items_def flip: Cons_nth_drop_Suc)
  then have "erase_loop Q (i + 1) p = p"
    using Suc by (intro Suc.hyps) auto
  then show ?case
    using Suc.prems split by (subst erase_loop.simps) auto
qed

lemma erase_loop_present:
  assumes "set_size p \<le> length (fdarray p)" "distinct (set_items p)"
    "set_items p = us @ Q # vs" "i \<le> length us"
  shows "set_items (erase_loop Q i p) = us @ vs" "length (fdarray (erase_loop Q i p)) = length (fdarray p)"
    "maxData (erase_loop Q i p) = maxData p" "set_size (erase_loop Q i p) = set_size p - 1"
proof -
  have len: "length (set_items p) = set_size p"
    using assms(1) by (simp add: set_items_def)
  have item: "fdarray p ! i = set_items p ! i" if "i < length (set_items p)" for i
    using that by (simp add: set_items_def)
  have "erase_loop Q i p = erase_loop Q (length us) p"
    using assms(4)
  proof (induction "length us - i" arbitrary: i)
    case (Suc n)
    then have i: "i < length us"
      by simp
    then have "fdarray p ! i = us ! i"
      using item [of i] assms(3) len by (simp add: nth_append)
    moreover have "us ! i \<noteq> Q"
      using assms(2,3) i nth_mem [OF i] by auto
    moreover have "i < set_size p"
      using i len assms(3) by simp
    ultimately have "erase_loop Q i p = erase_loop Q (i + 1) p"
      by (subst erase_loop.simps) simp
    also have "\<dots> = erase_loop Q (length us) p"
      using Suc by (intro Suc.hyps) auto
    finally show ?case .
  qed simp
  moreover have hit: "length us < set_size p" "fdarray p ! length us = Q"
    using len assms(3) item [of "length us"] by simp_all
  moreover define q where "q = shift_down (length us) p\<lparr>set_size := set_size p - 1\<rparr>"
  moreover have q: "set_items q = us @ vs" "length (fdarray q) = length (fdarray p)"
      "maxData q = maxData p" "set_size q = set_size p - 1"
    using shift_down_items [OF hit(1) assms(1)] assms(3) by (simp_all add: q_def)
  moreover have "erase_loop Q (length us + 1) q = q"
    using q assms hit by (intro erase_loop_absent) (auto dest: in_set_dropD)
  ultimately have "erase_loop Q i p = q"
    by (simp add: erase_loop.simps [of Q "length us" p] Let_def)
  with q show "set_items (erase_loop Q i p) = us @ vs"
    "length (fdarray (erase_loop Q i p)) = length (fdarray p)"
    "maxData (erase_loop Q i p) = maxData p" "set_size (erase_loop Q i p) = set_size p - 1"
    by simp_all
qed

lemma max_if: "max x y = (if x > y then x else y :: int)"
  by simp

lemma set_updateMax_eq:
  assumes "set_size p \<le> length (fdarray p)"
  shows "set_updateMax p = p\<lparr>maxData := Max (insert (-1) (set (set_items p)))\<rparr>"
proof -
  have "fold (\<lambda>i p. p\<lparr>maxData := if fdarray p ! i > maxData p then fdarray p ! i else maxData p\<rparr>)
      [0..<n] (p\<lparr>maxData := -1\<rparr>) = p\<lparr>maxData := Max (insert (-1) (set (take n (fdarray p))))\<rparr>"
    if "n \<le> length (fdarray p)" for n
    using that
  proof (induction n)
    case (Suc n)
    let ?S = "insert (-1) (set (take n (fdarray p)))" and ?x = "fdarray p ! n"
    have "insert (-1) (set (take (Suc n) (fdarray p))) = insert ?x ?S"
      using Suc.prems by (auto simp: take_Suc_conv_app_nth)
    moreover have "Max (insert ?x ?S) = max ?x (Max ?S)"
      by (rule Max_insert) auto
    moreover have "max ?x (Max ?S) = (if ?x > Max ?S then ?x else Max ?S)"
      by (rule max_if)
    ultimately show ?case
      using Suc by simp
  qed simp
  then show ?thesis
    using assms by (simp add: set_updateMax_def set_items_def)
qed

lemma set_erase_spec:
  assumes inv: "set_inv p"
  shows "\<exists>p'. set_erase Q p = (0, p') \<and> set_inv p' \<and> set (set_items p') = set (set_items p) - {Q}"
proof -
  have p: "set_size p \<le> length (fdarray p)" "distinct (set_items p)" "length (fdarray p) = SET_SIZE"
      "set_size p \<le> SET_SIZE" "maxData p = Max (insert (-1) (set (set_items p)))"
    using inv by (auto simp: set_inv_def)
  define e where "e = erase_loop Q 0 p"
  have e: "length (fdarray e) = SET_SIZE" "set_size e \<le> SET_SIZE" "maxData e = maxData p"
      "distinct (set_items e)" "set (set_items e) = set (set_items p) - {Q}"
  proof -
    have "length (fdarray e) = SET_SIZE \<and> set_size e \<le> SET_SIZE \<and> maxData e = maxData p \<and>
      distinct (set_items e) \<and> set (set_items e) = set (set_items p) - {Q}"
    proof (cases "Q \<in> set (set_items p)")
      case True
      then obtain us vs where "set_items p = us @ Q # vs"
        by (meson split_list)
      then show ?thesis
        using erase_loop_present [OF p(1,2), of us Q vs 0] p by (auto simp: e_def)
    next
      case False
      then show ?thesis
        using erase_loop_absent [OF p(1), of Q 0] p by (simp add: e_def)
    qed
    then show "length (fdarray e) = SET_SIZE" "set_size e \<le> SET_SIZE" "maxData e = maxData p"
      "distinct (set_items e)" "set (set_items e) = set (set_items p) - {Q}"
      by simp_all
  qed
  show ?thesis
  proof (cases "Q = maxData p")
    case True
    then have "set_erase Q p = (0, e\<lparr>maxData := Max (insert (-1) (set (set_items e)))\<rparr>)"
      using e(1-3) unfolding set_erase_def Let_def e_def [symmetric] by (simp add: set_updateMax_eq)
    then show ?thesis
      using e by (simp add: set_inv_def)
  next
    case False
    let ?S = "set (set_items p)"
    have "Max (insert (-1) (?S - {Q})) = Max (insert (-1) ?S)"
    proof (rule Max_eqI)
      have "maxData p \<in> insert (-1) ?S"
        unfolding p(5) by (rule Max_in) auto
      then show "Max (insert (-1) ?S) \<in> insert (-1) (?S - {Q})"
        using False p(5) by auto
      show "y \<le> Max (insert (-1) ?S)" if "y \<in> insert (-1) (?S - {Q})" for y
        using that by (intro Max_ge) auto
    qed simp
    then have "set_inv e"
      using e p(5) by (simp add: set_inv_def)
    moreover have "set_erase Q p = (0, e)"
      using False e(3) unfolding set_erase_def Let_def e_def [symmetric] by simp
    ultimately show ?thesis
      using e(5) by blast
  qed
qed

definition set_insert_state :: "int \<Rightarrow> st_maxdata_set \<Rightarrow> st_maxdata_set" where
  "set_insert_state Q p = (case set_insert Q p of Inr (_, p') \<Rightarrow> p' | Inl _ \<Rightarrow> p)"

lemma set_insert_state_spec:
  assumes "set_inv p" "set_size p \<noteq> SET_SIZE"
  shows "set_inv (set_insert_state Q p)"
    "set (set_items (set_insert_state Q p)) = insert Q (set (set_items p))"
proof -
  have room: "set_size p < SET_SIZE"
    using assms by (simp add: set_inv_def)
  have "set_inv (set_insert_state Q p) \<and>
    set (set_items (set_insert_state Q p)) = insert Q (set (set_items p))"
  proof (cases "Q \<in> set (set_items p)")
    case True
    then have "insert Q (set (set_items p)) = set (set_items p)"
      by auto
    then show ?thesis
      using assms(1)
      by (simp only: set_insert_state_def set_insert_old [OF assms(1) True] sum.case prod.case simp_thms)
  next
    case False
    then obtain p' where "set_insert Q p = Inr (1, p')" "set_inv p'" "set_items p' = set_items p @ [Q]"
      using set_insert_new [OF assms(1) False room] by blast
    then show ?thesis
      by (simp add: set_insert_state_def)
  qed
  then show "set_inv (set_insert_state Q p)"
    "set (set_items (set_insert_state Q p)) = insert Q (set (set_items p))"
    by simp_all
qed

interpretation fds: max_set set_init set_insert_state "\<lambda>Q p. snd (set_erase Q p)"
  "\<lambda>p Q. set_find Q p = 1" set_get_max "\<lambda>p. set (set_items p)" set_inv "\<lambda>p. set_size p = SET_SIZE"
proof unfold_locales
  show "set_inv set_init" "set (set_items set_init) = {}"
    by (simp_all add: set_inv_def set_init_def set_items_def)
  fix s x assume s: "set_inv s"
  obtain s' where "set_erase x s = (0, s')" "set_inv s'" "set (set_items s') = set (set_items s) - {x}"
    using set_erase_spec [OF s] by blast
  then show "set_inv (snd (set_erase x s))"
    "set (set_items (snd (set_erase x s))) = set (set_items s) - {x}"
    by simp_all
  show "(set_find x s = 1) = (x \<in> set (set_items s))"
    by (simp add: set_find_eq s)
  show "finite (set (set_items s)) \<and> set_get_max s = Max (insert (-1) (set (set_items s)))"
    using s by (simp add: set_get_max_def set_inv_def)
qed (simp_all add: set_insert_state_spec)

section \<open>The list keeps its contract\<close>

definition node_macs :: "st_link_list \<Rightarrow> bytes list" where
  "node_macs l = map (dev_mac \<circ> snd) (nodes l)"

definition list_inv :: "st_link_list \<Rightarrow> bool" where
  "list_inv l \<longleftrightarrow> distinct (node_macs l)"

definition device_of :: "st_link_list \<Rightarrow> bytes \<Rightarrow> st_client_device option" where
  "device_of l mac = map_option snd (find_device_by_mac mac l)"

abbreviation bindings_of :: "dev_node list \<Rightarrow> (bytes \<times> st_client_device) list" where
  "bindings_of ns \<equiv> map (\<lambda>p. (dev_mac (snd p), snd p)) ns"

lemma map_of_bindings_None:
  "mac \<notin> (dev_mac \<circ> snd) ` set ns \<Longrightarrow> map_of (bindings_of ns) mac = None"
  by (induction ns) simp_all

lemma find_fold:
  assumes "distinct (map (dev_mac \<circ> snd) ns)"
  shows "map_option snd (fold (\<lambda>p q. if dev_mac (snd p) = mac then Some p else q) ns q0) =
    (case map_of (bindings_of ns) mac of Some d \<Rightarrow> Some d | None \<Rightarrow> map_option snd q0)"
  using assms
proof (induction ns arbitrary: q0)
  case (Cons p ns)
  then have IH: "map_option snd (fold (\<lambda>p q. if dev_mac (snd p) = mac then Some p else q) ns q) =
    (case map_of (bindings_of ns) mac of Some d \<Rightarrow> Some d | None \<Rightarrow> map_option snd q)" for q
    by simp
  show ?case
  proof (cases "dev_mac (snd p) = mac")
    case True
    then have "map_of (bindings_of ns) mac = None"
      using Cons.prems by (intro map_of_bindings_None) auto
    then show ?thesis
      using True IH [of "Some p"] by simp
  next
    case False
    then show ?thesis
      using IH [of q0] by simp
  qed
qed simp

lemma device_of_eq: "list_inv l \<Longrightarrow> device_of l mac = map_of (bindings_of (nodes l)) mac"
  using find_fold [of "nodes l" mac None]
  by (auto simp: device_of_def find_device_by_mac_def list_inv_def node_macs_def split: option.splits)

lemma add_loop_spec:
  assumes "distinct (map (dev_mac \<circ> snd) ns)" "r = add_loop q ns"
  shows "map_of (bindings_of (snd r)) = (map_of (bindings_of ns))(dev_mac (snd q) \<mapsto> snd q)"
    "distinct (map (dev_mac \<circ> snd) (snd r))"
    "fst r \<longleftrightarrow> dev_mac (snd q) \<in> (dev_mac \<circ> snd) ` set ns"
    "length (snd r) = length ns + (if fst r then 0 else 1)"
proof -
  have "map_of (bindings_of (snd (add_loop q ns))) = (map_of (bindings_of ns))(dev_mac (snd q) \<mapsto> snd q) \<and>
    distinct (map (dev_mac \<circ> snd) (snd (add_loop q ns))) \<and>
    (fst (add_loop q ns) \<longleftrightarrow> dev_mac (snd q) \<in> (dev_mac \<circ> snd) ` set ns) \<and>
    length (snd (add_loop q ns)) = length ns + (if fst (add_loop q ns) then 0 else 1) \<and>
    set (map (dev_mac \<circ> snd) (snd (add_loop q ns))) = insert (dev_mac (snd q)) (set (map (dev_mac \<circ> snd) ns))"
    using assms(1)
  proof (induction ns)
    case (Cons p ns)
    obtain b ns' where r: "add_loop q ns = (b, ns')"
      by fastforce
    show ?case
    proof (cases "dev_mac (snd p) = dev_mac (snd q)")
      case True
      then show ?thesis
        using Cons.prems by (simp add: fun_eq_iff)
    next
      case False
      then show ?thesis
        using Cons r by (simp add: insert_commute) (simp add: fun_eq_iff)
    qed
  qed auto
  then show "map_of (bindings_of (snd r)) = (map_of (bindings_of ns))(dev_mac (snd q) \<mapsto> snd q)"
    "distinct (map (dev_mac \<circ> snd) (snd r))"
    "fst r \<longleftrightarrow> dev_mac (snd q) \<in> (dev_mac \<circ> snd) ` set ns"
    "length (snd r) = length ns + (if fst r then 0 else 1)"
    by (simp_all add: assms(2))
qed

lemma filter_absent:
  "mac \<notin> (dev_mac \<circ> snd) ` set ns \<Longrightarrow> filter (\<lambda>p. dev_mac (snd p) \<noteq> mac) ns = ns"
  by (induction ns) auto

lemma del_loop_filter:
  assumes "distinct (map (dev_mac \<circ> snd) ns)"
  shows "del_loop mac ns = filter (\<lambda>p. dev_mac (snd p) \<noteq> mac) ns"
  using assms
proof (induction mac ns rule: del_loop.induct)
  case (2 mac q ps)
  show ?case
  proof (cases "dev_mac (snd q) = mac")
    case True
    then have rest: "filter (\<lambda>p. dev_mac (snd p) \<noteq> mac) ps = ps"
      using "2.prems" by (intro filter_absent) auto
    show ?thesis
    proof (cases ps)
      case (Cons p ps')
      then have "del_loop mac ps' = filter (\<lambda>p. dev_mac (snd p) \<noteq> mac) ps'"
        using "2.IH"(1) [OF True Cons] "2.prems" by simp
      moreover have "filter (\<lambda>p. dev_mac (snd p) \<noteq> mac) ps' = ps'"
        using "2.prems" Cons True by (intro filter_absent) auto
      ultimately show ?thesis
        using True rest Cons by simp
    qed (simp add: True)
  next
    case False
    then show ?thesis
      using 2 by simp
  qed
qed simp

lemma filter_map_of:
  "map_of (bindings_of (filter (\<lambda>p. dev_mac (snd p) \<noteq> mac) ns)) mac' =
    (if mac' = mac then None else map_of (bindings_of ns) mac')"
  by (induction ns) auto

interpretation devices: entry_map init_list
  "\<lambda>mac dev l. snd (add_device_to_list (Some a) l dev)" "\<lambda>mac l. snd (del_from_list_by_mac mac l)"
  device_of list_inv "\<lambda>mac dev. dev_mac dev = mac"
  for a
proof unfold_locales
  show "list_inv init_list" "\<And>k. device_of init_list k = None"
    by (simp_all add: list_inv_def node_macs_def init_list_def device_of_def find_device_by_mac_def)
  fix s k
  assume s: "list_inv s"
  then have dist: "distinct (map (dev_mac \<circ> snd) (nodes s))"
    by (simp add: list_inv_def node_macs_def)
  show del: "list_inv (snd (del_from_list_by_mac k s))"
    using dist by (simp add: list_inv_def node_macs_def del_from_list_by_mac_def del_loop_filter
        distinct_map_filter)
  show "device_of (snd (del_from_list_by_mac k s)) k' = (if k' = k then None else device_of s k')" for k'
    using device_of_eq [OF del] device_of_eq [OF s] dist
    by (simp add: del_from_list_by_mac_def del_loop_filter filter_map_of)
  fix v :: st_client_device
  assume v: "dev_mac v = k"
  show upd: "list_inv (snd (add_device_to_list (Some a) s v))"
    using add_loop_spec(2) [OF dist refl, of "(a, v)"]
    by (cases "add_loop (a, v) (nodes s)") (simp add: list_inv_def node_macs_def add_device_to_list_def)
  show "device_of (snd (add_device_to_list (Some a) s v)) k' = (if k' = k then Some v else device_of s k')" for k'
    using device_of_eq [OF upd] device_of_eq [OF s] add_loop_spec(1) [OF dist refl, of "(a, v)"] v
    by (cases "add_loop (a, v) (nodes s)") (simp add: add_device_to_list_def)
qed

section \<open>Runs of operations\<close>

datatype set_op = Ins int | Era int

fun set_step :: "set_op \<Rightarrow> st_maxdata_set \<Rightarrow> st_maxdata_set c_result" where
  "set_step (Ins Q) p = c_bind (set_insert Q p) (\<lambda>(r, p). Inr p)"
| "set_step (Era Q) p = Inr (snd (set_erase Q p))"

primrec set_run :: "set_op list \<Rightarrow> st_maxdata_set \<Rightarrow> st_maxdata_set c_result" where
  "set_run [] p = Inr p"
| "set_run (x # xs) p = c_bind (set_step x p) (set_run xs)"

fun op_apply :: "set_op \<Rightarrow> int set \<Rightarrow> int set" where
  "op_apply (Ins Q) S = insert Q S"
| "op_apply (Era Q) S = S - {Q}"

primrec fds_after :: "set_op list \<Rightarrow> int set \<Rightarrow> int set" where
  "fds_after [] S = S"
| "fds_after (x # xs) S = fds_after xs (op_apply x S)"

lemma card_items: "set_inv p \<Longrightarrow> card (set (set_items p)) = set_size p"
  using length_set_items [of p] distinct_card [of "set_items p"] by (simp add: set_inv_def)

lemma set_step_spec:
  assumes inv: "set_inv p"
  shows "if card (op_apply x (set (set_items p))) \<le> SET_SIZE
    then \<exists>q. set_step x p = Inr q \<and> set_inv q \<and> set (set_items q) = op_apply x (set (set_items p))
    else set_step x p = Inl Out_Of_Bounds"
proof (cases x)
  case (Era Q)
  obtain q where q: "set_erase Q p = (0, q)" "set_inv q" "set (set_items q) = set (set_items p) - {Q}"
    using set_erase_spec [OF inv] by blast
  have "card (set (set_items q)) \<le> SET_SIZE"
    using q(2) card_items by (simp add: set_inv_def)
  then show ?thesis
    using q Era by simp
next
  case (Ins Q)
  show ?thesis
  proof (cases "Q \<in> set (set_items p)")
    case True
    have "insert Q (set (set_items p)) = set (set_items p)"
      using True by auto
    moreover have "card (set (set_items p)) \<le> SET_SIZE"
      using inv card_items by (simp add: set_inv_def)
    ultimately show ?thesis
      using Ins inv by (simp only: op_apply.simps set_step.simps set_insert_old [OF inv True]
          c_bind_simps prod.case if_True) simp
  next
    case new: False
    have card: "card (insert Q (set (set_items p))) = set_size p + 1"
      using new card_items [OF inv] by simp
    show ?thesis
    proof (cases "set_size p < SET_SIZE")
      case True
      then obtain q where "set_insert Q p = Inr (1, q)" "set_inv q" "set_items q = set_items p @ [Q]"
        using set_insert_new [OF inv new] by blast
      then show ?thesis
        using Ins True card by simp
    next
      case False
      then have "set_insert Q p = Inl Out_Of_Bounds"
        using inv new by (simp add: set_insert_def set_find_eq set_inv_def)
      then show ?thesis
        using Ins False card by simp
    qed
  qed
qed

lemma set_run_spec:
  assumes "set_inv p"
  shows "case set_run xs p of
      Inr q \<Rightarrow> set_inv q \<and> set (set_items q) = fds_after xs (set (set_items p)) \<and>
        (\<forall>k \<le> length xs. card (fds_after (take k xs) (set (set_items p))) \<le> SET_SIZE)
    | Inl e \<Rightarrow> e = Out_Of_Bounds \<and>
        (\<exists>k \<le> length xs. SET_SIZE < card (fds_after (take k xs) (set (set_items p))))"
  using assms
proof (induction xs arbitrary: p)
  case Nil
  then show ?case
    using card_items by (simp add: set_inv_def)
next
  case (Cons x xs)
  let ?S = "set (set_items p)"
  have S: "card ?S \<le> SET_SIZE"
    using Cons.prems card_items by (simp add: set_inv_def)
  show ?case
  proof (cases "card (op_apply x ?S) \<le> SET_SIZE")
    case True
    then obtain q where q: "set_step x p = Inr q" "set_inv q" "set (set_items q) = op_apply x ?S"
      using set_step_spec [OF Cons.prems, of x] by auto
    have "(\<forall>k \<le> length (x # xs). card (fds_after (take k (x # xs)) ?S) \<le> SET_SIZE) \<longleftrightarrow>
        (\<forall>k \<le> length xs. card (fds_after (take k xs) (op_apply x ?S)) \<le> SET_SIZE)"
      using S by (auto simp: take_Cons' all_conj_distrib)
    then show ?thesis
      using Cons.IH [OF q(2)] q by (auto simp: not_le split: sum.splits)
  next
    case False
    then have "SET_SIZE < card (fds_after (take 1 (x # xs)) ?S)"
      by simp
    then show ?thesis
      using False set_step_spec [OF Cons.prems, of x] by (auto intro: exI [of _ 1])
  qed
qed

datatype dev_op = Add "nat option" st_client_device | Del bytes

fun dev_step :: "dev_op \<Rightarrow> st_link_list \<Rightarrow> st_link_list" where
  "dev_step (Add a dev) l = snd (add_device_to_list a l dev)"
| "dev_step (Del mac) l = snd (del_from_list_by_mac mac l)"

fun dev_apply ::
  "dev_op \<Rightarrow> (bytes \<Rightarrow> st_client_device option) \<Rightarrow> (bytes \<Rightarrow> st_client_device option)" where
  "dev_apply (Add None dev) m = m"
| "dev_apply (Add (Some a) dev) m = m(dev_mac dev \<mapsto> dev)"
| "dev_apply (Del mac) m = m(mac := None)"

text \<open>The deletions of names that were not there.\<close>

fun vain_dels :: "dev_op list \<Rightarrow> (bytes \<Rightarrow> st_client_device option) \<Rightarrow> nat" where
  "vain_dels [] m = 0"
| "vain_dels (Del mac # ops) m =
     (if m mac = None then 1 else 0) + vain_dels ops (dev_apply (Del mac) m)"
| "vain_dels (x # ops) m = vain_dels ops (dev_apply x m)"

lemma dev_op_cases [case_names failed added deleted]:
  "(\<And>dev. x = Add None dev \<Longrightarrow> P) \<Longrightarrow> (\<And>a dev. x = Add (Some a) dev \<Longrightarrow> P) \<Longrightarrow>
    (\<And>mac. x = Del mac \<Longrightarrow> P) \<Longrightarrow> P"
  by (cases x; cases "case x of Add a _ \<Rightarrow> a | Del _ \<Rightarrow> None") auto

lemma list_inv_step: "list_inv l \<Longrightarrow> list_inv (dev_step x l)"
  using devices.inv_upd devices.inv_del
  by (cases x rule: dev_op_cases) (auto simp: add_device_to_list_def)

lemma device_of_step: "list_inv l \<Longrightarrow> device_of (dev_step x l) = dev_apply x (device_of l)"
  using devices.look_upd devices.look_del
  by (cases x rule: dev_op_cases) (auto simp: fun_eq_iff add_device_to_list_def)

lemma member_macs: "list_inv l \<Longrightarrow> device_of l mac = None \<longleftrightarrow> mac \<notin> (dev_mac \<circ> snd) ` set (nodes l)"
  by (simp add: device_of_eq map_of_eq_None_iff image_image comp_def)

lemma size_step:
  assumes "list_inv l" "ll_size l = int (length (nodes l)) - v"
  shows "ll_size (dev_step x l) = int (length (nodes (dev_step x l))) -
    (case x of Del mac \<Rightarrow> if device_of l mac = None then v + 1 else v | Add _ _ \<Rightarrow> v)"
proof (cases x rule: dev_op_cases)
  case (added a dev)
  have "distinct (map (dev_mac \<circ> snd) (nodes l))"
    using assms(1) by (simp add: list_inv_def node_macs_def)
  from add_loop_spec(4) [OF this refl, of "(a, dev)"] show ?thesis
    using added assms(2) by (cases "add_loop (a, dev) (nodes l)") (simp add: add_device_to_list_def)
next
  case (deleted mac)
  have dist: "distinct (map (dev_mac \<circ> snd) (nodes l))"
    using assms(1) by (simp add: list_inv_def node_macs_def)
  have len: "length (filter (\<lambda>p. dev_mac (snd p) \<noteq> mac) (nodes l)) =
      length (nodes l) - (if device_of l mac = None then 0 else 1) \<and>
      (device_of l mac \<noteq> None \<longrightarrow> nodes l \<noteq> [])"
  proof (cases "device_of l mac = None")
    case True
    then show ?thesis
      using member_macs [OF assms(1), of mac] filter_absent [of mac "nodes l"] by simp
  next
    case False
    then obtain p where p: "p \<in> set (nodes l)" "dev_mac (snd p) = mac"
      using member_macs [OF assms(1), of mac] by auto
    then obtain us vs where split: "nodes l = us @ p # vs"
      by (meson split_list)
    then have "mac \<notin> (dev_mac \<circ> snd) ` set us" "mac \<notin> (dev_mac \<circ> snd) ` set vs"
      using dist p(2) by simp_all
    then have "filter (\<lambda>p. dev_mac (snd p) \<noteq> mac) us = us" "filter (\<lambda>p. dev_mac (snd p) \<noteq> mac) vs = vs"
      using filter_absent by blast+
    then show ?thesis
      using split p(2) False by simp
  qed
  then show ?thesis
    using deleted assms(2) dist by (cases "nodes l = []")
      (auto simp: del_from_list_by_mac_def del_loop_filter Suc_le_eq of_nat_diff)
qed (use assms in \<open>simp add: add_device_to_list_def\<close>)

lemma dev_run_spec:
  assumes "list_inv l" "ll_size l = int (length (nodes l)) - v"
  shows "list_inv (fold dev_step ops l)"
    "device_of (fold dev_step ops l) = fold dev_apply ops (device_of l)"
    "ll_size (fold dev_step ops l) =
       int (length (nodes (fold dev_step ops l))) - (v + int (vain_dels ops (device_of l)))"
proof -
  have "list_inv (fold dev_step ops l) \<and>
    device_of (fold dev_step ops l) = fold dev_apply ops (device_of l) \<and>
    ll_size (fold dev_step ops l) =
       int (length (nodes (fold dev_step ops l))) - (v + int (vain_dels ops (device_of l)))"
    using assms
  proof (induction ops arbitrary: l v)
    case (Cons x ops)
    show ?case
      using Cons.IH [OF list_inv_step [OF Cons.prems(1)] size_step [OF Cons.prems], of x]
        device_of_step [OF Cons.prems(1), of x]
      by (cases x) (auto simp: fun_upd_def split: if_splits)
  qed simp
  then show "list_inv (fold dev_step ops l)"
    "device_of (fold dev_step ops l) = fold dev_apply ops (device_of l)"
    "ll_size (fold dev_step ops l) =
       int (length (nodes (fold dev_step ops l))) - (v + int (vain_dels ops (device_of l)))"
    by simp_all
qed

section \<open>Properties\<close>

text \<open>
  C40. The descriptor set is a set with a maximum, and it is safe exactly as long as it never has to
  hold more than 1024 descriptors: a run of insertions and erasures from the empty set leaves the
  array if and only if some prefix of it collects more, and otherwise membership, number, emptiness
  and maximum (-1 when empty) are those of the mathematical set.
\<close>
theorem fd_set_runs:
  "case set_run ops set_init of
     Inr p \<Rightarrow> (\<forall>k \<le> length ops. card (fds_after (take k ops) {}) \<le> SET_SIZE) \<and>
       (\<forall>Q. set_find Q p = (if Q \<in> fds_after ops {} then 1 else 0)) \<and>
       set_get_elem_num p = card (fds_after ops {}) \<and>
       set_is_empty p = (if fds_after ops {} = {} then 1 else 0) \<and>
       set_get_max p = Max (insert (-1) (fds_after ops {}))
   | Inl e \<Rightarrow> e = Out_Of_Bounds \<and>
       (\<exists>k \<le> length ops. SET_SIZE < card (fds_after (take k ops) {}))"
proof (cases "set_run ops set_init")
  case (Inl e)
  then show ?thesis
    using set_run_spec [OF fds.inv_empty, of ops] fds.elems_empty by simp
next
  case (Inr p)
  then have p: "set_inv p" "set (set_items p) = fds_after ops {}"
      "\<forall>k \<le> length ops. card (fds_after (take k ops) {}) \<le> SET_SIZE"
    using set_run_spec [OF fds.inv_empty, of ops] fds.elems_empty by simp_all
  have num: "set_size p = card (fds_after ops {})"
    using card_items [OF p(1)] p(2) by simp
  moreover have "set_size p = 0 \<longleftrightarrow> fds_after ops {} = {}"
    using length_set_items [OF p(1)] p(2) by auto
  moreover have "set_get_max p = Max (insert (-1) (fds_after ops {}))"
    using fds.largest_elems [OF p(1)] p(2) by simp
  ultimately show ?thesis
    using Inr p set_find_eq [OF p(1)]
    by (simp add: set_get_elem_num_def set_is_empty_def)
qed

theorem fd_set_runs_witness:
  "\<exists>p. set_run [Ins 3, Ins 7, Ins 3, Era 7] set_init = Inr p \<and> set_find 3 p = 1 \<and>
    set_find 7 p = 0 \<and> set_get_max p = 3"
proof -
  let ?ops = "[Ins 3, Ins 7, Ins 3, Era 7]"
  have ok: "\<not> (\<exists>k \<le> length ?ops. SET_SIZE < card (fds_after (take k ?ops) {}))"
    by (auto simp: take_Cons' card_insert_if)
  have "fds_after ?ops {} = {3}"
    by auto
  then show ?thesis
    using fd_set_runs [of ?ops] ok by (cases "set_run ?ops set_init") auto
qed

text \<open>
  The device list is a map from names to entries whatever the order of additions (a failed
  allocation included) and deletions: a lookup gives the entry added last under the name unless it
  was deleted since. Its size field is the number of nodes less the number of deletions of absent
  names, each of which the code counts as a removal.
\<close>
theorem device_list_runs:
  "device_of (fold dev_step ops init_list) = fold dev_apply ops Map.empty \<and>
   ll_size (fold dev_step ops init_list) =
     int (length (nodes (fold dev_step ops init_list))) - int (vain_dels ops Map.empty)"
proof -
  have "device_of init_list = Map.empty"
    using devices.look_empty by blast
  moreover have "ll_size init_list = int (length (nodes init_list)) - 0"
    by (simp add: init_list_def)
  ultimately show ?thesis
    using dev_run_spec [OF devices.inv_empty, of 0 ops] by simp
qed

end
