(* ===== verification/Spec2Isabelle.thy ===== *)
theory Spec2Isabelle imports KeyExchange CloudRun GatewayAnswers PosSystem PosLinux Containers begin

text \<open>
  A verification library for the embedded C programs of this repository. Paths below are relative
  to the source tree.

  \<^bold>\<open>The programs.\<close> The repository holds the programs of several small devices. The library covers

  \<^item> the home gateway of \<^verbatim>\<open>ikcc_service/src/src/xlinkgateway\<close>: a daemon between wireless devices on
    the local network and a cloud. Its gateway library (\<^verbatim>\<open>src/\<close>) is a select loop over the TCP
    connections of the devices, one cloud connection for each of them, a UDP socket for discovery
    and key exchange, and a thread that opens the cloud connections. The application around it
    keeps its settings in a file, and its cloud client (\<^verbatim>\<open>xlink/\<close>) seals local messages with a
    block cipher;
  \<^item> the containers of the daemon's own event loops, \<^verbatim>\<open>ikcc_service/src/src/tool\<close>;
  \<^item> the payment terminal of \<^verbatim>\<open>pos-salemachine/user_app-forUcos-saleOK\<close>: firmware under uC/OS-II
    between a vending machine, which speaks the FJ/VTS protocol on one serial line, and a card
    reader on another; and its Linux version, \<^verbatim>\<open>pos-salemachine\<close> itself.

  \<^bold>\<open>Theories.\<close> Every theory opens with a description of what it holds.

  \<^item> \<open>Prelude\<close>: machine integers as words, the byte order macros, arrays with checked access,
    undefined behaviour as a value (\<open>c_fault\<close>, \<open>c_result\<close>, \<open>c_bind\<close>), list and word lemmas.
  \<^item> \<open>XGByteQueue\<close> (\<^verbatim>\<open>XGByteQueue.c\<close>): the 2048-byte ring buffer with free-running indices. The
    locale \<open>byte_fifo\<close> states the contract of a byte stream; it is interpreted on the ring.
  \<^item> \<open>XGTypes\<close> (\<^verbatim>\<open>ConnectList\<close>, \<^verbatim>\<open>DataQueue\<close>, \<^verbatim>\<open>ConnectTask\<close>, \<^verbatim>\<open>XGCore.h\<close>, \<^verbatim>\<open>XGMem.c\<close>): connections,
    queue items, the gateway state \<open>XGCore\<close> and the environment \<open>xg_env\<close> (clock, allocator).
  \<^item> \<open>XGProtocol\<close> (\<^verbatim>\<open>XGProtocol.c\<close>): one step of the framing and dispatch of a connection, both
    directions, with its invariants. \<open>XGUdp\<close> (\<^verbatim>\<open>XGProtocolUdp.c\<close>): the UDP handlers.
  \<^item> \<open>XGCore\<close> (\<^verbatim>\<open>XGCore.c\<close>): the select loop turn by turn, timeouts, removal, sending, the connecting
    thread, start and stop; the step relation \<open>gw_step\<close> and its reachable states \<open>gw_reach\<close>.
  \<^item> \<open>XGMd5\<close> (\<^verbatim>\<open>XGmd5.c\<close>): the digest against RFC 1321. \<open>XGGateway\<close> (\<^verbatim>\<open>XGageway.c\<close>): the library's
    entry points, among them the UDP conversations for access keys and subscription keys.
  \<^item> \<open>Base64\<close>, \<open>IniFile\<close>, \<open>Config\<close> (\<^verbatim>\<open>base64.c\<close>, \<^verbatim>\<open>inifile.c\<close>, \<^verbatim>\<open>Config.c\<close>, parts of \<^verbatim>\<open>XDevice.c\<close> and
    \<^verbatim>\<open>xlink_gateway.c\<close>): the settings file. The scanner is modelled index by index; the abstract file
    is a list of bindings (\<open>render\<close>), and \<open>ini_store\<close>, \<open>ini_find\<close> say what the code does to it. The
    locales \<open>profile_store\<close> and \<open>encoded_store\<close> are the interface of its users, interpreted on the
    model of the file.
  \<^item> \<open>Tea\<close> (\<^verbatim>\<open>xlink/tea.c\<close>, \<^verbatim>\<open>xlink/sdkDef.c\<close>, the sealing in \<^verbatim>\<open>xlink/xlinkv4Udp.c\<close>).
  \<^item> \<open>XsdkConfig\<close> (\<^verbatim>\<open>xlink/xsdk_config.c\<close>): the stored configuration of the cloud client, its masked
    image, keys and timers. \<open>XlinkClient\<close> (\<^verbatim>\<open>xlink/xlink_client.c\<close>): the state \<open>xsdk\<close> and the table of
    local sessions. \<open>XlinkUdp\<close> (\<^verbatim>\<open>xlink/xlinkv4Udp.c\<close>): the dispatcher of local datagrams, its
    handlers, the queue of messages to acknowledge, the step relation \<open>sdk_step\<close>. \<open>XlinkSession\<close>: what
    a session can rely on, and where the handlers fail.
  \<^item> \<open>KeyExchange\<close>: the gateway library's requests for access keys and sub keys, answered by the
    model of the cloud client as the device.
  \<^item> \<open>XlinkTcp\<close> (\<^verbatim>\<open>xlink/xlink_tcp_client.c\<close>, \<^verbatim>\<open>xlink/xlink_process_tcp_data.c\<close>): the state \<open>xcloud\<close> of the
    cloud client, the messages it sends to and takes from the cloud, the work states of the
    connection. \<open>XlinkNet\<close> (\<^verbatim>\<open>xlink/xlink_net.c\<close>): finding the server, taking messages off the sockets,
    one turn of the event loop; \<open>net_env\<close> is what the system answers. \<open>XlinkSystem\<close>
    (\<^verbatim>\<open>xlink/xlink_system.c\<close>): the interface of the client and its clock. \<open>CloudInv\<close>: the step relation
    \<open>cloud_step\<close> and what every step keeps; \<open>CloudData\<close>: messages through the client, activation and
    login; \<open>CloudRun\<close>: reachable states, silent servers, the clock against the calendar.
  \<^item> \<open>GatewayDb\<close> (\<^verbatim>\<open>sqlite/db.c\<close>, \<^verbatim>\<open>sqlite/dbDevice.c\<close>): the table of devices, down to the text of every
    statement; the database library is the argument \<open>sqlite\<close>, and \<open>sql_ok\<close> says what the code relies on.
    \<open>GatewayTable\<close>: the locale \<open>device_store\<close>, the contract of the table as a relation on maps,
    interpreted on these operations, and a small database for which \<open>sql_ok\<close> holds. \<open>GatewayApp\<close>
    (\<^verbatim>\<open>XDevice.c\<close>, \<^verbatim>\<open>xlink_gateway.c\<close>): the state \<open>app\<close>, which holds the database, the gateway library, the
    cloud client and the settings; callbacks, threads, console, start. \<open>GatewayCmd\<close> (\<^verbatim>\<open>GAProtocol.c\<close>): the
    sixteen commands of the apps. \<open>GatewayRun\<close>: the whole program as a function of its inputs, and when
    a device can join. \<open>GatewayAnswers\<close>: what the commands answer, from the app to the device and back.
  \<^item> \<open>Containers\<close> (\<^verbatim>\<open>ft_set.c\<close>, \<^verbatim>\<open>ft_map.c\<close>): the locales \<open>max_set\<close> and \<open>entry_map\<close>, interpreted on the
    array and on the linked list.
  \<^item> \<open>PosFirmware\<close> (\<^verbatim>\<open>MFUN.C\<close>, \<^verbatim>\<open>MFUN.H\<close>, \<^verbatim>\<open>stm32f2xx_it.c\<close>): the interrupt handlers and the two tasks.
    \<open>PosSystem\<close>: their interleaving as a step relation \<open>sys_step\<close>, with the mailboxes between them.
  \<^item> \<open>PosLinux\<close> (\<^verbatim>\<open>pos-salemachine/fj_pro.c\<close>, \<^verbatim>\<open>pos_pro.c\<close>, \<^verbatim>\<open>handle.c\<close>): the two receive loops, the
    command handler and a request to the reader, over lists of port events; the books of a run.

  \<^bold>\<open>What is shown.\<close> Each property carries its number in the text before it. In groups: the gateway
  keeps its invariants in every reachable state, queues and relays byte streams in order, never
  leaves its buffers on framed input, and loses no queued message; the messages its entry points
  build are the ones the protocol handlers and peers read; its digest is MD5. The cloud client keeps
  its table of sessions, lets nobody without a session through, gives a key away to nobody once it is
  settled, repeats a message at most five times and hands a repeated one over once; the application
  stores no device outside a window somebody opened, its table is a finite map, and its answers
  describe that map. Settings, the state
  of the cloud client and the gateway's identity survive a restart. Cipher and base64 are
  lossless. The containers are a set with a maximum and a map. The terminal confirms no sale
  without an accepted answer of the reader. Where the code fails its purpose the theorem states the
  failure exactly: buffer overflows reachable from the network, a join request that runs a statement of
  the database, a login that closes itself, a price
  cut to its first digits, a stale answer that confirms the next sale, sealed messages refused for
  the sign of their checksum, a container written past its end.

  \<^bold>\<open>Conventions.\<close> C integers are words of their width; signed overflow wraps, \<^verbatim>\<open>>>\<close> on a signed
  operand is arithmetic, the targets are little endian and \<^verbatim>\<open>long\<close> has 32 bits. A read or write
  outside an array, a null dereference, a use after free, a failed \<^verbatim>\<open>assert\<close> and a format taken from
  data are the values \<open>Inl\<close> of \<open>c_result\<close>; where a model indexes a list directly, its bounds are
  hypotheses or invariants of the lemmas. Sockets, the clock, the allocator, the file system and
  the operating system's mailboxes are arguments or fields of the environment; one operation reads
  the clock once. Loops are structural
  or measured recursions, so every operation is total; no fuel is used. Output that only informs
  (printing, LEDs) is left out.

  \<^bold>\<open>Not modelled.\<close> The vendored database header \<^verbatim>\<open>sqlite3.h\<close>, whose implementation is not here; the
  SPI NOR kernel drivers of the chip vendor; start-up code and register set-up of the terminal, which
  only write hardware registers; logging; build, dial-up and test scripts; code switched off by
  \<^verbatim>\<open>#if 0\<close>, among it the firmware download of \<^verbatim>\<open>GAProtocol.c\<close>; the 4G modem daemon, the bed monitor
  and the serial bridge.
\<close>

end
